(* ===== verification/Prelude.thy ===== *)
theory Prelude
  imports Main "HOL-Library.AList" "HOL-Library.Char_ord" "HOL-Library.List_Lexorder"
begin

text \<open>
  Shared vocabulary of the development. A JavaScript \<open>Map\<close> iterates in insertion order and
  keeps a key's position when its value is overwritten: it is an association list, written
  with \<open>AList.update\<close> (overwrite in place, else append), \<open>AList.delete\<close> and \<open>map_of\<close>.
  A \<open>Set\<close> is a list without duplicates. A function that can throw returns a sum, \<open>Inl\<close> being
  the exception; \<open>fold_res\<close> is the loop that stops at the first exception.
  Strings are character lists (the code only compares, splits and concatenates them).
\<close>

named_theorems book_simps \<open>unfolding of the order book's operations and invariants\<close>
named_theorems guard_simps \<open>unfolding of guards, validators and parsers\<close>

subsection \<open>Loops that may throw\<close>

fun fold_res :: "('a \<Rightarrow> 's \<Rightarrow> 'e + 's) \<Rightarrow> 'a list \<Rightarrow> 's \<Rightarrow> 'e + 's" where
  "fold_res f [] s = Inr s"
| "fold_res f (x # xs) s = (case f x s of Inl e \<Rightarrow> Inl e | Inr s' \<Rightarrow> fold_res f xs s')"

lemma fold_res_append:
  "fold_res f (xs @ ys) s =
     (case fold_res f xs s of Inl e \<Rightarrow> Inl e | Inr s' \<Rightarrow> fold_res f ys s')"
  by (induction xs arbitrary: s) (auto split: sum.splits)

lemma fold_res_invariant:
  assumes "fold_res f xs s = Inr s'" and "P s"
    and "\<And>x t t'. x \<in> set xs \<Longrightarrow> P t \<Longrightarrow> f x t = Inr t' \<Longrightarrow> P t'"
  shows "P s'"
  using assms
proof (induction xs arbitrary: s)
  case Nil
  then show ?case by simp
next
  case (Cons x xs)
  then obtain t where t: "f x s = Inr t" "fold_res f xs t = Inr s'"
    by (auto split: sum.splits)
  have "P t" using Cons.prems t by auto
  then show ?case using Cons t by (metis list.set_intros(2))
qed

text \<open>Sequencing of two steps that may throw.\<close>

definition res_bind :: "'e + 'a \<Rightarrow> ('a \<Rightarrow> 'e + 'b) \<Rightarrow> 'e + 'b" where
  "res_bind r f = (case r of Inl e \<Rightarrow> Inl e | Inr x \<Rightarrow> f x)"

lemma res_bind_simps [simp]: "res_bind (Inl e) f = Inl e" "res_bind (Inr x) f = f x"
  by (simp_all add: res_bind_def)

lemma res_bind_Inr: "res_bind r f = Inr y \<longleftrightarrow> (\<exists>x. r = Inr x \<and> f x = Inr y)"
  by (cases r) auto

definition of_option :: "'e \<Rightarrow> 'a option \<Rightarrow> 'e + 'a" where
  "of_option e r = (case r of None \<Rightarrow> Inl e | Some x \<Rightarrow> Inr x)"

lemma of_option_simps [simp]: "of_option e None = Inl e" "of_option e (Some x) = Inr x"
  by (simp_all add: of_option_def)

subsection \<open>Insertion-ordered sets\<close>

definition set_add :: "'a \<Rightarrow> 'a list \<Rightarrow> 'a list" where
  "set_add x xs = (if x \<in> set xs then xs else xs @ [x])"

lemma set_set_add [simp]: "set (set_add x xs) = insert x (set xs)"
  by (auto simp: set_add_def)

lemma distinct_set_add [simp]: "distinct (set_add x xs) = distinct xs"
  by (auto simp: set_add_def)

lemma set_add_nonempty [simp]: "set_add x xs \<noteq> []"
  by (auto simp: set_add_def)

subsection \<open>Association lists\<close>

lemma map_of_update [simp]: "map_of (AList.update k v m) = (map_of m)(k \<mapsto> v)"
  by (rule update_conv')

lemma map_of_delete [simp]: "map_of (AList.delete k m) = (map_of m)(k := None)"
  by (rule delete_conv')

lemma fst_set_update [simp]: "fst ` set (AList.update k v m) = insert k (fst ` set m)"
  by (simp add: dom_update [unfolded dom_map_of_conv_image_fst])

lemma fst_set_delete [simp]: "fst ` set (AList.delete k m) = fst ` set m - {k}"
  by (induction m) auto

lemma distinct_update_keys [simp]:
  "distinct (map fst m) \<Longrightarrow> distinct (map fst (AList.update k v m))"
  by (rule distinct_update)

lemma distinct_delete_keys [simp]:
  "distinct (map fst m) \<Longrightarrow> distinct (map fst (AList.delete k m))"
  by (rule distinct_delete)

lemma map_of_eq_Some_set:
  "distinct (map fst m) \<Longrightarrow> (map_of m k = Some v) = ((k, v) \<in> set m)"
  by (rule map_of_eq_Some_iff)

subsection \<open>Lists\<close>

lemma in_set_map_filter: "x \<in> set (List.map_filter f xs) \<longleftrightarrow> (\<exists>i \<in> set xs. f i = Some x)"
  by (induction xs) (auto split: option.splits)

text \<open>\<open>findIndex\<close> followed by \<open>splice(i, 1)\<close>: the first element that satisfies the test goes.\<close>

fun remove_first :: "('a \<Rightarrow> bool) \<Rightarrow> 'a list \<Rightarrow> 'a list" where
  "remove_first P [] = []"
| "remove_first P (x # xs) = (if P x then xs else x # remove_first P xs)"

lemma remove_first_none: "\<not> (\<exists>x \<in> set xs. P x) \<Longrightarrow> remove_first P xs = xs"
  by (induction xs) auto

lemma remove_first_key:
  "distinct (map f xs) \<Longrightarrow> remove_first (\<lambda>x. f x = k) xs = filter (\<lambda>x. f x \<noteq> k) xs"
proof (induction xs)
  case Nil
  then show ?case by simp
next
  case (Cons x xs)
  then show ?case
    by (auto simp: filter_id_conv image_iff intro!: filter_True [symmetric])
qed

lemma set_remove_first_subset: "set (remove_first P xs) \<subseteq> set xs"
  by (induction xs) auto

lemma takeWhile_block:
  "\<forall>x \<in> set xs. P x \<Longrightarrow> \<forall>y \<in> set ys. \<not> P y \<Longrightarrow> takeWhile P (xs @ ys) = xs"
  by (cases ys) (auto simp: takeWhile_append)

lemma dropWhile_block:
  "\<forall>x \<in> set xs. P x \<Longrightarrow> \<forall>y \<in> set ys. \<not> P y \<Longrightarrow> dropWhile P (xs @ ys) = ys"
  by (cases ys) (auto simp: dropWhile_append)

lemma sum_list_filter_remove:
  fixes f :: "'a \<Rightarrow> int"
  assumes "distinct (map g xs)" and "x \<in> set xs"
  shows "sum_list (map f (filter (\<lambda>y. g y \<noteq> g x) xs)) = sum_list (map f xs) - f x"
  using assms
proof (induction xs)
  case Nil
  then show ?case by simp
next
  case (Cons y ys)
  show ?case
  proof (cases "y = x")
    case True
    then have "filter (\<lambda>z. g z \<noteq> g x) ys = ys"
      using Cons.prems(1) by (auto simp: filter_id_conv) (metis imageI)
    with True show ?thesis by simp
  next
    case False
    then have "x \<in> set ys" using Cons.prems(2) by simp
    moreover have "g y \<noteq> g x" using False Cons.prems by (auto simp: image_iff)
    ultimately show ?thesis using Cons by simp
  qed
qed

lemma distinct_map_inj_mem:
  "distinct (map f xs) \<Longrightarrow> x \<in> set xs \<Longrightarrow> y \<in> set xs \<Longrightarrow> f x = f y \<Longrightarrow> x = y"
  by (simp add: distinct_map inj_on_def)

end
