(* ===== verification/JsNumber.thy ===== *)
theory JsNumber
  imports Complex_Main Prelude
begin

text \<open>
  JavaScript numbers. A finite IEEE-754 double is a rational; comparison and equality of
  doubles are those of the rationals, and each arithmetic operation is the exact operation
  followed by rounding to the nearest double, ties to even (\<open>fl\<close>). Overflow, subnormals,
  infinities and NaN are outside the model: the values the code computes with are prices in
  (0, 1), quantities and millisecond timestamps. \<open>fl_of_int\<close> shows that integers up to
  \<open>2 ^ 53\<close> are exact, so integer quantities and timestamps are plain \<open>int\<close>.
\<close>

type_synonym number = rat

fun ilog2 :: "nat \<Rightarrow> nat" where
  "ilog2 n = (if n < 2 then 0 else Suc (ilog2 (n div 2)))"

declare ilog2.simps [simp del]

definition pow2 :: "int \<Rightarrow> rat" where
  "pow2 e = (if 0 \<le> e then 2 ^ nat e else 1 / 2 ^ nat (- e))"

definition exponent_of :: "rat \<Rightarrow> int" where
  "exponent_of x =
     (let (p, q) = quotient_of x; e = int (ilog2 (nat p)) - int (ilog2 (nat q))
      in if pow2 e \<le> x then e else e - 1)"

definition round_half_even :: "rat \<Rightarrow> int" where
  "round_half_even x =
     (let n = \<lfloor>x\<rfloor>; d = x - of_int n
      in if d < 1 / 2 then n else if 1 / 2 < d then n + 1
         else if even n then n else n + 1)"

definition fl :: "rat \<Rightarrow> number" where
  "fl x = (if x = 0 then 0
     else let u = pow2 (exponent_of \<bar>x\<bar> - 52) in of_int (round_half_even (x / u)) * u)"

definition js_mul :: "number \<Rightarrow> number \<Rightarrow> number" where "js_mul a b = fl (a * b)"
definition js_div :: "number \<Rightarrow> number \<Rightarrow> number" where "js_div a b = fl (a / b)"
definition js_sub :: "number \<Rightarrow> number \<Rightarrow> number" where "js_sub a b = fl (a - b)"
definition js_add :: "number \<Rightarrow> number \<Rightarrow> number" where "js_add a b = fl (a + b)"

text \<open>\<open>Math.round\<close>: the nearest integer, ties towards plus infinity.\<close>

definition math_round :: "number \<Rightarrow> int" where
  "math_round x = \<lfloor>x + 1 / 2\<rfloor>"

subsection \<open>Rounding: exactness and error bound\<close>

lemma pow2_pos [simp]: "0 < pow2 e"
  by (simp add: pow2_def)

lemma pow2_nonzero [simp]: "pow2 e \<noteq> 0"
  using pow2_pos [of e] by linarith

lemma pow2_powi: "pow2 e = 2 powi e"
  by (simp add: pow2_def power_int_def field_simps)

lemma pow2_add: "pow2 (a + b) = pow2 a * pow2 b"
  by (simp add: pow2_powi power_int_add)

lemma pow2_diff: "pow2 (a - b) = pow2 a / pow2 b"
  by (simp add: pow2_powi power_int_diff)

lemma pow2_mono: "a \<le> b \<Longrightarrow> pow2 a \<le> pow2 b"
  by (simp add: pow2_powi power_int_increasing)

lemma pow2_nat: "pow2 (int n) = 2 ^ n"
  by (simp add: pow2_def)

lemma ilog2_bounds: "0 < n \<Longrightarrow> 2 ^ ilog2 n \<le> n \<and> n < 2 ^ Suc (ilog2 n)"
proof (induction n rule: ilog2.induct)
  case (1 n)
  show ?case
  proof (cases "n < 2")
    case True
    then show ?thesis using "1.prems" by (simp add: ilog2.simps [of n])
  next
    case False
    then have ih: "2 ^ ilog2 (n div 2) \<le> n div 2 \<and> n div 2 < 2 ^ Suc (ilog2 (n div 2))"
      using "1.IH" by simp
    have "2 * 2 ^ ilog2 (n div 2) \<le> n" using ih by linarith
    moreover have "n < 2 * 2 ^ Suc (ilog2 (n div 2))" using ih by linarith
    ultimately show ?thesis using False by (simp add: ilog2.simps [of n])
  qed
qed

lemma pow2_exponent_le:
  assumes "0 < x"
  shows "pow2 (exponent_of x) \<le> x"
proof -
  obtain p q where pq: "quotient_of x = (p, q)" by force
  have q: "0 < q" and x: "x = of_int p / of_int q"
    using quotient_of_denom_pos [OF pq] quotient_of_div [OF pq] by auto
  have p: "0 < p" using assms q by (simp add: x zero_less_divide_iff)
  define lp lq where "lp = ilog2 (nat p)" and "lq = ilog2 (nat q)"
  have "2 ^ lp \<le> nat p" using ilog2_bounds [of "nat p"] p by (simp add: lp_def)
  then have "(2::int) ^ lp \<le> p" using p by (simp add: le_nat_iff)
  then have ple: "(2::rat) ^ lp \<le> of_int p" by (metis of_int_le_iff of_int_numeral of_int_power)
  have "nat q < 2 ^ Suc lq" using ilog2_bounds [of "nat q"] q by (simp add: lq_def)
  then have "q < (2::int) ^ Suc lq" using q by (simp add: nat_less_iff)
  then have qlt: "of_int q \<le> (2::rat) ^ Suc lq"
    by (metis less_imp_le of_int_le_iff of_int_numeral of_int_power)
  have "pow2 (int lp - int lq - 1) = 2 ^ lp / 2 ^ Suc lq"
    by (simp add: pow2_diff pow2_nat) (simp add: pow2_def)
  also have "\<dots> \<le> of_int p / of_int q"
    using ple qlt q p by (intro frac_le) auto
  finally have "pow2 (int lp - int lq - 1) \<le> x" by (simp add: x)
  then show ?thesis
    by (simp add: exponent_of_def pq Let_def lp_def lq_def)
qed

lemma round_half_even_err: "\<bar>of_int (round_half_even x) - x\<bar> \<le> 1 / 2"
proof -
  have "of_int \<lfloor>x\<rfloor> \<le> x" "x < of_int \<lfloor>x\<rfloor> + 1" by linarith+
  then show ?thesis
    unfolding round_half_even_def Let_def by (auto split: if_splits simp: abs_le_iff)
qed

lemma round_half_even_int: "round_half_even (of_int n) = n"
  by (simp add: round_half_even_def)

lemma fl_zero [simp]: "fl 0 = 0"
  by (simp add: fl_def)

theorem fl_relative_error: "\<bar>fl x - x\<bar> \<le> \<bar>x\<bar> / 2 ^ 53"
proof (cases "x = 0")
  case True
  then show ?thesis by simp
next
  case False
  define u where "u = pow2 (exponent_of \<bar>x\<bar> - 52)"
  have u: "0 < u" by (simp add: u_def)
  have "fl x - x = (of_int (round_half_even (x / u)) - x / u) * u"
    using u False by (simp add: fl_def u_def [symmetric] Let_def left_diff_distrib)
  then have "\<bar>fl x - x\<bar> = \<bar>of_int (round_half_even (x / u)) - x / u\<bar> * u"
    using u by (simp add: abs_mult)
  also have "\<dots> \<le> 1 / 2 * u"
    by (rule mult_right_mono [OF round_half_even_err]) (use u in simp)
  also have "u = pow2 (exponent_of \<bar>x\<bar>) / 2 ^ 52"
    by (simp add: u_def pow2_diff) (simp add: pow2_def)
  also have "1 / 2 * (pow2 (exponent_of \<bar>x\<bar>) / 2 ^ 52) \<le> \<bar>x\<bar> / 2 ^ 53"
    using pow2_exponent_le [of "\<bar>x\<bar>"] False by (simp add: field_simps)
  finally show ?thesis .
qed

lemma fl_of_int:
  assumes "\<bar>n\<bar> < 2 ^ 53"
  shows "fl (of_int n) = of_int n"
proof (cases "n = 0")
  case False
  define E where "E = exponent_of \<bar>of_int n\<bar>"
  have "pow2 E \<le> \<bar>of_int n\<bar>" unfolding E_def by (rule pow2_exponent_le) (use False in simp)
  also have "\<bar>of_int n :: rat\<bar> < of_int (2 ^ 53)"
    using assms by (simp only: of_int_abs [symmetric] of_int_less_iff)
  also have "\<dots> = pow2 53" by (simp add: pow2_def)
  finally have "E < 53" using pow2_mono [of 53 E] by (meson not_less order.strict_trans1)
  then have E: "pow2 (E - 52) = 1 / pow2 (52 - E)" and e0: "0 \<le> 52 - E"
    using pow2_diff [of 0 "52 - E"] by (simp_all add: pow2_def [of 0])
  have "of_int n / pow2 (E - 52) = (of_int (n * 2 ^ nat (52 - E)) :: rat)"
    using e0 by (simp add: E pow2_def)
  then have "of_int (round_half_even (of_int n / pow2 (E - 52))) = (of_int n / pow2 (E - 52) :: rat)"
    by (simp only: round_half_even_int)
  then show ?thesis
    using False by (simp add: fl_def Let_def E_def [symmetric])
qed simp

lemma js_sub_same [simp]: "js_sub a a = 0"
  by (simp add: js_sub_def)

text \<open>The same bound as an absolute error, in terms of the unit roundoff \<open>eps\<close>.\<close>

definition eps :: rat where "eps = 1 / 2 ^ 53"

lemma eps_bounds: "0 < eps" "eps \<le> 1 / 1000000000000000"
  by (simp_all add: eps_def)

lemma fl_abs_error: "\<bar>x\<bar> \<le> B \<Longrightarrow> \<bar>fl x - x\<bar> \<le> B * eps"
proof -
  assume "\<bar>x\<bar> \<le> B"
  then have "\<bar>x\<bar> * eps \<le> B * eps" using eps_bounds(1) by (intro mult_right_mono) auto
  moreover have "\<bar>fl x - x\<bar> \<le> \<bar>x\<bar> * eps" using fl_relative_error [of x] by (simp add: eps_def)
  ultimately show ?thesis by linarith
qed

lemma fl_abs_le: "\<bar>x\<bar> \<le> B \<Longrightarrow> \<bar>fl x\<bar> \<le> 2 * B"
proof -
  assume x: "\<bar>x\<bar> \<le> B"
  have "B * eps \<le> B * 1" using x eps_bounds by (intro mult_left_mono) auto
  then show "\<bar>fl x\<bar> \<le> 2 * B" using fl_abs_error [OF x] x by linarith
qed

lemma fl_abs_ge: "\<bar>x\<bar> \<le> 2 * \<bar>fl x\<bar>"
proof -
  have "\<bar>x\<bar> * eps \<le> \<bar>x\<bar> * (1 / 2)" using eps_bounds by (intro mult_left_mono) auto
  then show ?thesis using fl_abs_error [of x "\<bar>x\<bar>"] by linarith
qed

lemma math_round_unique: "\<bar>x - of_int k\<bar> < 1 / 2 \<Longrightarrow> math_round x = k"
  unfolding math_round_def by (rule floor_unique) linarith+

lemma math_round_error: "\<bar>of_int (math_round x) - x\<bar> \<le> 1 / 2"
  unfolding math_round_def by linarith

end
