(* ===== verification/Orderbook.thy ===== *)
theory Orderbook
  imports JsNumber "HOL-Library.Multiset"
begin

text \<open>
  \<open>src/matching/orderbook.ts\<close>: the in-memory order book of one (market, outcome) pair. Each
  side is a ladder: a map from price to price level and a sorted array of its prices. The book
  also keeps a map from order id to order and, per user, the set of the user's order ids.
  In the source a level and the id map share one order object; here both hold a copy, and
  \<open>update_order_quantity\<close>, the only operation that mutates an order, writes both.

  \<open>book_ok\<close> is the invariant that ties the four structures together. The abstraction of a side
  is \<open>iterate_orders\<close>, its queue in price-time priority; the theory proves what each operation
  does to that queue. The ladder is proved once for any strict total order on prices
  (locale \<open>price_order\<close>), interpreted for both directions.
\<close>

datatype book_side = Bid | Ask

record order =
  o_id :: string
  o_user :: string
  o_side :: book_side
  o_price :: number
  o_quantity :: int
  o_timestamp :: int
  o_market :: string
  o_outcome :: nat

record price_level =
  lv_price :: number
  lv_orders :: "order list"
  lv_total :: int

record depth_level =
  dl_price :: number
  dl_quantity :: int
  dl_count :: nat

type_synonym levels = "(number \<times> price_level) list"

record book =
  ob_market :: string
  ob_outcome :: nat
  bid_levels :: levels
  ask_levels :: levels
  bid_prices :: "number list"
  ask_prices :: "number list"
  order_map :: "(string \<times> order) list"
  user_orders :: "(string \<times> string list) list"

definition new_book :: "string \<Rightarrow> nat \<Rightarrow> book" where
  "new_book m oc = \<lparr>ob_market = m, ob_outcome = oc, bid_levels = [], ask_levels = [],
     bid_prices = [], ask_prices = [], order_map = [], user_orders = []\<rparr>"

subsection \<open>Ladders\<close>

definition comparison :: "bool \<Rightarrow> number \<Rightarrow> number \<Rightarrow> bool" where
  "comparison descending p price = (if descending then p > price else p < price)"

text \<open>The binary search of \<open>insertPrice\<close>, on positions \<open>left \<le> mid < right\<close>.\<close>

function insert_pos :: "(nat \<Rightarrow> bool) \<Rightarrow> nat \<Rightarrow> nat \<Rightarrow> nat" where
  "insert_pos cmp left right =
     (if left < right then
        let mid = (left + right) div 2
        in if cmp mid then insert_pos cmp (mid + 1) right else insert_pos cmp left mid
      else left)"
  by pat_completeness auto

termination
  by (relation "measure (\<lambda>(cmp, left, right). right - left)") auto

declare insert_pos.simps [simp del]

definition insert_price :: "(number \<Rightarrow> number \<Rightarrow> bool) \<Rightarrow> number list \<Rightarrow> number \<Rightarrow> number list" where
  "insert_price before prices price =
     (let left = insert_pos (\<lambda>mid. before (prices ! mid) price) 0 (length prices)
      in take left prices @ price # drop left prices)"

text \<open>The part of \<open>addOrder\<close> that touches the ladder of the order's side.\<close>

definition push_order ::
    "(number \<Rightarrow> number \<Rightarrow> bool) \<Rightarrow> order \<Rightarrow> levels \<times> number list \<Rightarrow> levels \<times> number list" where
  "push_order before ord ladder = (case ladder of (levels, prices) \<Rightarrow>
     let (level, prices') =
           (case map_of levels (o_price ord) of
              None \<Rightarrow> (\<lparr>lv_price = o_price ord, lv_orders = [], lv_total = 0\<rparr>,
                       insert_price before prices (o_price ord))
            | Some level \<Rightarrow> (level, prices));
         level' = level\<lparr>lv_orders := lv_orders level @ [ord],
                        lv_total := lv_total level + o_quantity ord\<rparr>
     in (AList.update (o_price ord) level' levels, prices'))"

text \<open>The part of \<open>removeOrder\<close> that touches the ladder; \<open>None\<close> is a missing level.\<close>

definition drop_order :: "order \<Rightarrow> levels \<times> number list \<Rightarrow> (levels \<times> number list) option" where
  "drop_order ord ladder = (case ladder of (levels, prices) \<Rightarrow>
     (case map_of levels (o_price ord) of
       None \<Rightarrow> None
     | Some level \<Rightarrow>
         let level' = (if \<exists>x \<in> set (lv_orders level). o_id x = o_id ord
                       then level\<lparr>lv_orders := remove_first (\<lambda>x. o_id x = o_id ord) (lv_orders level),
                                  lv_total := lv_total level - o_quantity ord\<rparr>
                       else level)
         in Some (if lv_orders level' = []
                  then (AList.delete (o_price ord) levels, remove1 (o_price ord) prices)
                  else (AList.update (o_price ord) level' levels, prices))))"

text \<open>The part of \<open>updateOrderQuantity\<close> that touches the ladder: \<open>order.quantity = newQuantity\<close>
  mutates the object that the level shares with the id map.\<close>

definition set_quantity :: "string \<Rightarrow> int \<Rightarrow> order \<Rightarrow> order" where
  "set_quantity i q x = (if o_id x = i then x\<lparr>o_quantity := q\<rparr> else x)"

definition requantify :: "order \<Rightarrow> int \<Rightarrow> levels \<Rightarrow> levels option" where
  "requantify ord q levels = (case map_of levels (o_price ord) of
       None \<Rightarrow> None
     | Some level \<Rightarrow> Some (AList.update (o_price ord)
          (level\<lparr>lv_orders := map (set_quantity (o_id ord) q) (lv_orders level),
                 lv_total := lv_total level + (q - o_quantity ord)\<rparr>) levels))"

definition level_queue :: "levels \<Rightarrow> number \<Rightarrow> order list" where
  "level_queue levels p = (case map_of levels p of None \<Rightarrow> [] | Some l \<Rightarrow> lv_orders l)"

definition queue :: "levels \<times> number list \<Rightarrow> order list" where
  "queue ladder = concat (map (level_queue (fst ladder)) (snd ladder))"

subsection \<open>The operations of the class\<close>

definition side_levels :: "book_side \<Rightarrow> book \<Rightarrow> levels" where
  "side_levels s b = (case s of Bid \<Rightarrow> bid_levels b | Ask \<Rightarrow> ask_levels b)"

definition side_prices :: "book_side \<Rightarrow> book \<Rightarrow> number list" where
  "side_prices s b = (case s of Bid \<Rightarrow> bid_prices b | Ask \<Rightarrow> ask_prices b)"

abbreviation side_ladder :: "book_side \<Rightarrow> book \<Rightarrow> levels \<times> number list" where
  "side_ladder s b \<equiv> (side_levels s b, side_prices s b)"

definition set_ladder :: "book_side \<Rightarrow> levels \<times> number list \<Rightarrow> book \<Rightarrow> book" where
  "set_ladder s ladder b = (case s of
       Bid \<Rightarrow> b\<lparr>bid_levels := fst ladder, bid_prices := snd ladder\<rparr>
     | Ask \<Rightarrow> b\<lparr>ask_levels := fst ladder, ask_prices := snd ladder\<rparr>)"

abbreviation better :: "book_side \<Rightarrow> number \<Rightarrow> number \<Rightarrow> bool" where
  "better s \<equiv> comparison (s = Bid)"

definition add_order :: "order \<Rightarrow> book \<Rightarrow> string + book" where
  "add_order ord b =
     (if o_market ord \<noteq> ob_market b \<or> o_outcome ord \<noteq> ob_outcome b
      then Inl ''Order does not match this order book''
      else if map_of (order_map b) (o_id ord) \<noteq> None
      then Inl (''Order '' @ o_id ord @ '' already exists'')
      else
        let b1 = set_ladder (o_side ord)
                   (push_order (better (o_side ord)) ord (side_ladder (o_side ord) b)) b;
            ids = (case map_of (user_orders b) (o_user ord) of None \<Rightarrow> [] | Some s \<Rightarrow> s)
        in Inr (b1\<lparr>order_map := AList.update (o_id ord) ord (order_map b),
                   user_orders := AList.update (o_user ord) (set_add (o_id ord) ids)
                                    (user_orders b)\<rparr>))"

definition remove_order :: "string \<Rightarrow> book \<Rightarrow> order option \<times> book" where
  "remove_order i b = (case map_of (order_map b) i of
       None \<Rightarrow> (None, b)
     | Some ord \<Rightarrow>
         (case drop_order ord (side_ladder (o_side ord) b) of
            None \<Rightarrow> (None, b)
          | Some ladder \<Rightarrow>
              let b1 = set_ladder (o_side ord) ladder b;
                  users = (case map_of (user_orders b) (o_user ord) of
                             None \<Rightarrow> user_orders b
                           | Some ids \<Rightarrow>
                               let ids' = remove1 i ids
                               in if ids' = [] then AList.delete (o_user ord) (user_orders b)
                                  else AList.update (o_user ord) ids' (user_orders b))
              in (Some ord, b1\<lparr>order_map := AList.delete i (order_map b),
                                user_orders := users\<rparr>)))"

definition best :: "book_side \<Rightarrow> book \<Rightarrow> order option" where
  "best s b = (case side_prices s b of
       [] \<Rightarrow> None
     | p # _ \<Rightarrow>
         (case map_of (side_levels s b) p of
            None \<Rightarrow> None
          | Some level \<Rightarrow> (case lv_orders level of [] \<Rightarrow> None | x # _ \<Rightarrow> Some x)))"

definition get_best_bid :: "book \<Rightarrow> order option" where "get_best_bid = best Bid"
definition get_best_ask :: "book \<Rightarrow> order option" where "get_best_ask = best Ask"

definition get_orders_by_user :: "string \<Rightarrow> book \<Rightarrow> order list" where
  "get_orders_by_user u b = (case map_of (user_orders b) u of
       None \<Rightarrow> []
     | Some ids \<Rightarrow> List.map_filter (\<lambda>i. map_of (order_map b) i) ids)"

definition depth_of :: "nat \<Rightarrow> levels \<Rightarrow> number list \<Rightarrow> depth_level list" where
  "depth_of n levels prices =
     List.map_filter (\<lambda>p. map_option (\<lambda>l. \<lparr>dl_price = lv_price l, dl_quantity = lv_total l,
                                    dl_count = length (lv_orders l)\<rparr>) (map_of levels p))
       (take (min n (length prices)) prices)"

definition get_depth :: "nat \<Rightarrow> book \<Rightarrow> depth_level list \<times> depth_level list" where
  "get_depth n b = (depth_of n (bid_levels b) (bid_prices b), depth_of n (ask_levels b) (ask_prices b))"

definition update_order_quantity :: "string \<Rightarrow> int \<Rightarrow> book \<Rightarrow> string + bool \<times> book" where
  "update_order_quantity i q b = (case map_of (order_map b) i of
       None \<Rightarrow> Inr (False, b)
     | Some ord \<Rightarrow>
         if q < 0 then Inl ''Quantity cannot be negative''
         else if q = 0 then Inr (True, snd (remove_order i b))
         else (case requantify ord q (side_levels (o_side ord) b) of
                 None \<Rightarrow> Inr (False, b)
               | Some levels \<Rightarrow>
                   Inr (True, (set_ladder (o_side ord) (levels, side_prices (o_side ord) b) b)
                          \<lparr>order_map := AList.update i (ord\<lparr>o_quantity := q\<rparr>) (order_map b)\<rparr>)))"

definition get_orders_at_price :: "book_side \<Rightarrow> number \<Rightarrow> book \<Rightarrow> order list" where
  "get_orders_at_price s p b = level_queue (side_levels s b) p"

definition get_total_volume :: "book \<Rightarrow> int \<times> int" where
  "get_total_volume b =
     (foldl (\<lambda>v l. v + lv_total l) 0 (map snd (bid_levels b)),
      foldl (\<lambda>v l. v + lv_total l) 0 (map snd (ask_levels b)))"

definition get_spread :: "book \<Rightarrow> number option" where
  "get_spread b = (case (get_best_bid b, get_best_ask b) of
       (Some bid, Some ask) \<Rightarrow> Some (js_sub (o_price ask) (o_price bid))
     | _ \<Rightarrow> None)"

definition clear :: "book \<Rightarrow> book" where
  "clear b = b\<lparr>bid_levels := [], ask_levels := [], bid_prices := [], ask_prices := [],
               order_map := [], user_orders := []\<rparr>"

definition get_order_count :: "book \<Rightarrow> nat" where
  "get_order_count b = length (order_map b)"

definition iterate_orders :: "book_side \<Rightarrow> book \<Rightarrow> order list" where
  "iterate_orders s b = queue (side_ladder s b)"

subsection \<open>The ladder invariant\<close>

definition level_ok :: "number \<Rightarrow> price_level \<Rightarrow> bool" where
  "level_ok p l = (lv_price l = p \<and> lv_orders l \<noteq> [] \<and> (\<forall>x \<in> set (lv_orders l). o_price x = p) \<and>
     lv_total l = sum_list (map o_quantity (lv_orders l)))"

definition ladder_ok :: "(number \<Rightarrow> number \<Rightarrow> bool) \<Rightarrow> levels \<times> number list \<Rightarrow> bool" where
  "ladder_ok before ladder =
     (sorted_wrt before (snd ladder) \<and> distinct (map fst (fst ladder)) \<and>
      set (snd ladder) = fst ` set (fst ladder) \<and>
      (\<forall>(p, l) \<in> set (fst ladder). level_ok p l))"

text \<open>The queue after an arrival: behind every order that is at least as good.\<close>

definition insert_prio :: "(number \<Rightarrow> number \<Rightarrow> bool) \<Rightarrow> order \<Rightarrow> order list \<Rightarrow> order list" where
  "insert_prio before ord q =
     takeWhile (\<lambda>x. \<not> before (o_price ord) (o_price x)) q @ [ord] @
     dropWhile (\<lambda>x. \<not> before (o_price ord) (o_price x)) q"

lemma set_insert_prio [simp]: "set (insert_prio before ord q) = insert ord (set q)"
proof -
  have "set q = set (takeWhile P q) \<union> set (dropWhile P q)" for P :: "order \<Rightarrow> bool"
    by (metis set_append takeWhile_dropWhile_id)
  then show ?thesis by (auto simp: insert_prio_def)
qed

lemma mset_insert_prio: "mset (insert_prio before ord q) = add_mset ord (mset q)"
proof -
  have "mset q = mset (takeWhile P q) + mset (dropWhile P q)" for P :: "order \<Rightarrow> bool"
    by (metis mset_append takeWhile_dropWhile_id)
  then show ?thesis by (simp add: insert_prio_def)
qed

lemma insert_prio_block:
  assumes "\<forall>x \<in> set xs. \<not> before (o_price ord) (o_price x)"
    and "\<forall>y \<in> set ys. before (o_price ord) (o_price y)"
  shows "insert_prio before ord (xs @ ys) = xs @ ord # ys"
proof -
  have "takeWhile P (xs @ ys) = xs \<and> dropWhile P (xs @ ys) = ys"
    if "\<forall>x \<in> set xs. P x" "\<forall>y \<in> set ys. \<not> P y" for P :: "order \<Rightarrow> bool"
    using that by (simp only: takeWhile_block dropWhile_block simp_thms)
  from this [of "\<lambda>x. \<not> before (o_price ord) (o_price x)"] assms show ?thesis
    by (simp add: insert_prio_def)
qed

lemma queue_append [simp]: "queue (lv, xs @ ys) = queue (lv, xs) @ queue (lv, ys)"
  by (simp add: queue_def)

lemma queue_Cons [simp]: "queue (lv, p # ys) = level_queue lv p @ queue (lv, ys)"
  by (simp add: queue_def)

lemma queue_Nil [simp]: "queue (lv, []) = []"
  by (simp add: queue_def)

lemma level_queue_update [simp]:
  "level_queue (AList.update p l lv) q = (if q = p then lv_orders l else level_queue lv q)"
  by (simp add: level_queue_def)

lemma level_queue_delete [simp]:
  "level_queue (AList.delete p lv) q = (if q = p then [] else level_queue lv q)"
  by (simp add: level_queue_def)

lemma queue_update_other [simp]: "p \<notin> set xs \<Longrightarrow> queue (AList.update p l lv, xs) = queue (lv, xs)"
  by (induction xs) auto

lemma queue_delete_other [simp]: "p \<notin> set xs \<Longrightarrow> queue (AList.delete p lv, xs) = queue (lv, xs)"
  by (induction xs) auto

lemma set_queue: "set (queue (lv, ps)) = (\<Union>p \<in> set ps. set (level_queue lv p))"
  by (simp add: queue_def)

lemma ladder_okD:
  assumes "ladder_ok before (lv, ps)"
  shows "sorted_wrt before ps" "distinct (map fst lv)" "set ps = fst ` set lv"
    "map_of lv p = Some l \<Longrightarrow> level_ok p l" "(p \<in> set ps) = (map_of lv p \<noteq> None)"
  using assms map_of_SomeD [of lv p l]
  by (auto simp: ladder_ok_def dom_map_of_conv_image_fst [symmetric] dom_def)

lemma ladder_okI:
  assumes "sorted_wrt before ps" "distinct (map fst lv)" "set ps = fst ` set lv"
    and "\<And>p l. map_of lv p = Some l \<Longrightarrow> level_ok p l"
  shows "ladder_ok before (lv, ps)"
  using assms by (auto simp: ladder_ok_def)

lemma level_queue_price:
  "ladder_ok before (lv, ps) \<Longrightarrow> x \<in> set (level_queue lv p) \<Longrightarrow> o_price x = p"
  by (auto simp: level_queue_def level_ok_def split: option.splits dest: ladder_okD(4) [OF _ sym])

lemma queue_prices:
  "ladder_ok before (lv, ps) \<Longrightarrow> set qs \<subseteq> set ps \<Longrightarrow> x \<in> set (queue (lv, qs)) \<Longrightarrow> o_price x \<in> set qs"
  by (auto simp: set_queue dest: level_queue_price)

lemma in_queue_level:
  "ladder_ok before (lv, ps) \<Longrightarrow> x \<in> set (queue (lv, ps)) \<Longrightarrow>
     \<exists>l. map_of lv (o_price x) = Some l \<and> x \<in> set (lv_orders l)"
  by (auto simp: set_queue level_queue_def split: option.splits dest: level_queue_price)
     (metis ladder_okD(4) level_ok_def)

subsection \<open>The binary search\<close>

lemma insert_pos_spec:
  assumes "left \<le> right" "right \<le> n"
    and "\<And>i j. i \<le> j \<Longrightarrow> j < n \<Longrightarrow> cmp j \<Longrightarrow> cmp i"
    and "\<And>i. i < left \<Longrightarrow> cmp i" and "\<And>i. right \<le> i \<Longrightarrow> i < n \<Longrightarrow> \<not> cmp i"
  shows "insert_pos cmp left right \<le> n \<and> (\<forall>i < insert_pos cmp left right. cmp i) \<and>
    (\<forall>i. insert_pos cmp left right \<le> i \<longrightarrow> i < n \<longrightarrow> \<not> cmp i)"
  using assms
proof (induction cmp left right rule: insert_pos.induct)
  case (1 cmp left right)
  define mid where "mid = (left + right) div 2"
  show ?case
  proof (cases "left < right")
    case False
    then show ?thesis using "1.prems" by (simp add: insert_pos.simps)
  next
    case lt: True
    then have mid: "left \<le> mid" "mid < right" by (auto simp: mid_def)
    show ?thesis
    proof (cases "cmp mid")
      case True
      have eq: "insert_pos cmp left right = insert_pos cmp (mid + 1) right"
        using lt True by (simp add: insert_pos.simps [of cmp left] mid_def Let_def)
      have le: "mid + 1 \<le> right" using mid by simp
      have below: "cmp i" if "i < mid + 1" for i
        by (rule "1.prems"(3) [of i mid]) (use that True mid "1.prems"(2) in auto)
      show ?thesis unfolding eq
        by (rule "1.IH"(1) [OF lt mid_def True le "1.prems"(2)])
           (fact "1.prems"(3) below "1.prems"(5))+
    next
      case False
      have eq: "insert_pos cmp left right = insert_pos cmp left mid"
        using lt False by (simp add: insert_pos.simps [of cmp left] mid_def Let_def)
      have le: "mid \<le> n" using mid "1.prems"(2) by simp
      have above: "\<not> cmp i" if "mid \<le> i" "i < n" for i
        using that False "1.prems"(3) by blast
      show ?thesis unfolding eq
        by (rule "1.IH"(2) [OF lt mid_def False mid(1) le])
           (fact "1.prems"(3) "1.prems"(4) above)+
    qed
  qed
qed

subsection \<open>One ladder, for any strict total order on prices\<close>

locale price_order =
  fixes before :: "number \<Rightarrow> number \<Rightarrow> bool"
  assumes before_irrefl: "\<not> before p p"
    and before_trans: "before p q \<Longrightarrow> before q r \<Longrightarrow> before p r"
    and before_total: "p \<noteq> q \<Longrightarrow> before p q \<or> before q p"
begin

lemma sorted_before_mono:
  assumes "sorted_wrt before ps" "i \<le> j" "j < length ps" "before (ps ! j) p"
  shows "before (ps ! i) p"
proof (cases "i = j")
  case False
  then have "before (ps ! i) (ps ! j)" using assms by (simp add: sorted_wrt_iff_nth_less)
  then show ?thesis using assms(4) by (rule before_trans)
qed (use assms in simp)

lemma insert_price_split:
  assumes "sorted_wrt before ps" "p \<notin> set ps"
  shows "\<exists>xs ys. ps = xs @ ys \<and> insert_price before ps p = xs @ p # ys \<and>
    (\<forall>q \<in> set xs. before q p) \<and> (\<forall>q \<in> set ys. before p q)"
proof -
  define k where "k = insert_pos (\<lambda>mid. before (ps ! mid) p) 0 (length ps)"
  have k: "k \<le> length ps \<and> (\<forall>i < k. before (ps ! i) p) \<and>
      (\<forall>i. k \<le> i \<longrightarrow> i < length ps \<longrightarrow> \<not> before (ps ! i) p)"
    unfolding k_def by (rule insert_pos_spec) (use sorted_before_mono [OF assms(1)] in auto)
  have "\<forall>q \<in> set (take k ps). before q p"
    using k by (auto simp: in_set_conv_nth)
  moreover have "before p q" if q: "q \<in> set (drop k ps)" for q
  proof -
    obtain i where i: "i < length ps - k" "q = ps ! (k + i)"
      using q k by (auto simp: in_set_conv_nth)
    then have "\<not> before q p" using k by simp
    moreover have "q \<noteq> p" using q assms(2) in_set_dropD by fastforce
    ultimately show ?thesis using before_total by blast
  qed
  moreover have "insert_price before ps p = take k ps @ p # drop k ps"
    by (simp add: insert_price_def k_def Let_def)
  ultimately show ?thesis
    using append_take_drop_id [of k ps] by metis
qed

lemma sorted_block:
  assumes "sorted_wrt before ps" "p \<in> set ps"
  shows "\<exists>xs ys. ps = xs @ p # ys \<and> p \<notin> set xs \<and> p \<notin> set ys \<and>
    (\<forall>q \<in> set xs. before q p) \<and> (\<forall>q \<in> set ys. before p q)"
proof -
  obtain xs ys where ps: "ps = xs @ p # ys" using split_list [OF assms(2)] by blast
  moreover have "\<forall>q \<in> set xs. before q p" "\<forall>q \<in> set ys. before p q"
    using assms(1) ps by (auto simp: sorted_wrt_append)
  ultimately show ?thesis using before_irrefl by blast
qed

lemma distinct_prices: "sorted_wrt before ps \<Longrightarrow> distinct ps"
  by (induction ps) (auto simp: before_irrefl)

lemma before_asym: "before p q \<Longrightarrow> \<not> before q p"
  using before_irrefl before_trans by blast

lemma queue_before:
  assumes "ladder_ok before (lv, ps)" "set xs \<subseteq> set ps" "\<forall>q \<in> set xs. before q p"
  shows "\<forall>x \<in> set (queue (lv, xs)). \<not> before p (o_price x)"
  using queue_prices [OF assms(1,2)] assms(3) before_asym by blast

lemma queue_after:
  assumes "ladder_ok before (lv, ps)" "set xs \<subseteq> set ps" "\<forall>q \<in> set xs. before p q"
  shows "\<forall>x \<in> set (queue (lv, xs)). before p (o_price x)"
  using queue_prices [OF assms(1,2)] assms(3) by blast

text \<open>An arrival on a price that has no level.\<close>

lemma push_new:
  assumes ok: "ladder_ok before (lv, ps)" and new: "map_of lv (o_price ord) = None"
  shows "ladder_ok before (push_order before ord (lv, ps)) \<and>
    queue (push_order before ord (lv, ps)) = insert_prio before ord (queue (lv, ps))"
proof -
  define p where "p = o_price ord"
  define l where "l = \<lparr>lv_price = p, lv_orders = [ord], lv_total = o_quantity ord\<rparr>"
  have p: "p \<notin> set ps" using ladder_okD(5) [OF ok] new by (simp add: p_def)
  obtain xs ys where xy: "ps = xs @ ys" "insert_price before ps p = xs @ p # ys"
      "\<forall>q \<in> set xs. before q p" "\<forall>q \<in> set ys. before p q"
    using insert_price_split [OF ladder_okD(1) [OF ok] p] by blast
  have push: "push_order before ord (lv, ps) = (AList.update p l lv, xs @ p # ys)"
    using new xy(2) by (simp add: push_order_def p_def l_def)
  have "sorted_wrt before (xs @ p # ys)"
    using ladder_okD(1) [OF ok] xy before_trans by (auto simp: sorted_wrt_append)
  moreover have "level_ok p l" by (simp add: level_ok_def l_def p_def)
  ultimately have "ladder_ok before (AList.update p l lv, xs @ p # ys)"
    using ladder_okD(2,3,4) [OF ok] xy(1)
    by (intro ladder_okI) (auto split: if_splits)
  moreover have "queue (AList.update p l lv, xs @ p # ys) = queue (lv, xs) @ ord # queue (lv, ys)"
    using p xy(1) by (simp add: l_def)
  moreover have "insert_prio before ord (queue (lv, xs) @ queue (lv, ys)) =
      queue (lv, xs) @ ord # queue (lv, ys)"
    using queue_before [OF ok _ xy(3)] queue_after [OF ok _ xy(4)] xy(1)
    by (intro insert_prio_block) (simp_all add: p_def)
  ultimately show ?thesis using push xy(1) by simp
qed

text \<open>An arrival at an existing level.\<close>

lemma push_old:
  assumes ok: "ladder_ok before (lv, ps)" and old: "map_of lv (o_price ord) = Some l0"
  shows "ladder_ok before (push_order before ord (lv, ps)) \<and>
    queue (push_order before ord (lv, ps)) = insert_prio before ord (queue (lv, ps))"
proof -
  define p where "p = o_price ord"
  define l where "l = l0\<lparr>lv_orders := lv_orders l0 @ [ord], lv_total := lv_total l0 + o_quantity ord\<rparr>"
  have l0: "level_ok p l0" using ladder_okD(4) [OF ok] old by (simp add: p_def)
  have p: "p \<in> set ps" using ladder_okD(5) [OF ok] old by (simp add: p_def)
  obtain xs ys where xy: "ps = xs @ p # ys" "p \<notin> set xs" "p \<notin> set ys"
      "\<forall>q \<in> set xs. before q p" "\<forall>q \<in> set ys. before p q"
    using sorted_block [OF ladder_okD(1) [OF ok] p] by blast
  have push: "push_order before ord (lv, ps) = (AList.update p l lv, ps)"
    using old by (simp add: push_order_def p_def l_def)
  have "level_ok p l" using l0 by (simp add: level_ok_def l_def p_def)
  then have "ladder_ok before (AList.update p l lv, ps)"
    using ladder_okD(1-4) [OF ok] p
    by (intro ladder_okI) (auto split: if_splits)
  moreover have "queue (AList.update p l lv, ps) = (queue (lv, xs) @ lv_orders l0) @ ord # queue (lv, ys)"
    using xy by (simp add: l_def)
  moreover have "insert_prio before ord ((queue (lv, xs) @ lv_orders l0) @ queue (lv, ys)) =
      (queue (lv, xs) @ lv_orders l0) @ ord # queue (lv, ys)"
  proof (rule insert_prio_block)
    have "set xs \<subseteq> set ps" "set ys \<subseteq> set ps" using xy(1) by auto
    from queue_before [OF ok this(1) xy(4)] queue_after [OF ok this(2) xy(5)]
    show "\<forall>x \<in> set (queue (lv, xs) @ lv_orders l0). \<not> before (o_price ord) (o_price x)"
      "\<forall>y \<in> set (queue (lv, ys)). before (o_price ord) (o_price y)"
      using l0 by (auto simp: p_def level_ok_def before_irrefl)
  qed
  moreover have "queue (lv, ps) = (queue (lv, xs) @ lv_orders l0) @ queue (lv, ys)"
    using xy(1) old by (simp add: level_queue_def p_def)
  ultimately show ?thesis using push by simp
qed

lemma push_ok:
  assumes "ladder_ok before lad"
  shows "ladder_ok before (push_order before ord lad)"
    "queue (push_order before ord lad) = insert_prio before ord (queue lad)"
  using assms push_new push_old by (cases lad, metis option.exhaust)+

lemma queue_split:
  assumes ok: "ladder_ok before (lv, ps)" and x: "x \<in> set (queue (lv, ps))"
  obtains l xs ys where "map_of lv (o_price x) = Some l" "x \<in> set (lv_orders l)"
    "level_ok (o_price x) l" "ps = xs @ o_price x # ys" "o_price x \<notin> set xs" "o_price x \<notin> set ys"
    "queue (lv, ps) = queue (lv, xs) @ lv_orders l @ queue (lv, ys)"
proof -
  obtain l where l: "map_of lv (o_price x) = Some l" "x \<in> set (lv_orders l)"
    using in_queue_level [OF ok x] by blast
  have "o_price x \<in> set ps" using ladder_okD(5) [OF ok] l(1) by simp
  from sorted_block [OF ladder_okD(1) [OF ok] this]
  obtain xs ys where xy: "ps = xs @ o_price x # ys" "o_price x \<notin> set xs" "o_price x \<notin> set ys"
    by blast
  show thesis
    by (rule that [OF l ladder_okD(4) [OF ok l(1)] xy]) (use xy(1) l(1) in \<open>simp add: level_queue_def\<close>)
qed

lemma drop_ok:
  assumes ok: "ladder_ok before lad" and x: "x \<in> set (queue lad)"
    and ids: "distinct (map o_id (queue lad))"
  shows "\<exists>lad'. drop_order x lad = Some lad' \<and> ladder_ok before lad' \<and>
    queue lad' = filter (\<lambda>y. o_id y \<noteq> o_id x) (queue lad)"
proof -
  obtain lv ps where lad: "lad = (lv, ps)" by (cases lad)
  define p where "p = o_price x"
  obtain l xs ys where l: "map_of lv p = Some l" "x \<in> set (lv_orders l)" "level_ok p l"
    and xy: "ps = xs @ p # ys" "p \<notin> set xs" "p \<notin> set ys"
    and q: "queue (lv, ps) = queue (lv, xs) @ lv_orders l @ queue (lv, ys)"
    using queue_split [OF ok [unfolded lad] x [unfolded lad]] unfolding p_def by metis
  define rest where "rest = filter (\<lambda>y. o_id y \<noteq> o_id x) (lv_orders l)"
  have dl: "distinct (map o_id (lv_orders l))"
    and other: "\<forall>y \<in> set (queue (lv, xs)) \<union> set (queue (lv, ys)). o_id y \<noteq> o_id x"
    using ids l(2) unfolding lad q by (auto simp: image_iff)
  have fq: "filter (\<lambda>y. o_id y \<noteq> o_id x) (queue lad) = queue (lv, xs) @ rest @ queue (lv, ys)"
    using other unfolding lad q by (simp add: rest_def filter_id_conv)
  have rest: "remove_first (\<lambda>y. o_id y = o_id x) (lv_orders l) = rest"
    unfolding rest_def by (rule remove_first_key [OF dl])
  have total: "sum_list (map o_quantity rest) = lv_total l - o_quantity x"
    using sum_list_filter_remove [OF dl l(2), of o_quantity] l(3) by (simp add: rest_def level_ok_def)
  have sub: "set rest \<subseteq> set (lv_orders l)" by (auto simp: rest_def)
  have D: "sorted_wrt before ps" "distinct (map fst lv)" "set ps = fst ` set lv"
    "\<And>p l. map_of lv p = Some l \<Longrightarrow> level_ok p l"
    using ladder_okD(1-4) [OF ok [unfolded lad]] by blast+
  show ?thesis
  proof (cases "rest = []")
    case True
    have "drop_order x lad = Some (AList.delete p lv, remove1 p ps)"
      using l True rest by (auto simp: drop_order_def lad p_def)
    moreover have r: "remove1 p ps = xs @ ys" using xy by (simp add: remove1_append)
    moreover have "ladder_ok before (AList.delete p lv, xs @ ys)"
      using D xy by (intro ladder_okI) (auto simp: sorted_wrt_append split: if_splits)
    ultimately show ?thesis using fq True xy by simp
  next
    case False
    define l' where "l' = l\<lparr>lv_orders := rest, lv_total := lv_total l - o_quantity x\<rparr>"
    have "drop_order x lad = Some (AList.update p l' lv, ps)"
      using l False rest by (auto simp: drop_order_def lad p_def l'_def)
    moreover have "level_ok p l'"
      using l(3) False total sub by (auto simp: level_ok_def l'_def)
    then have "ladder_ok before (AList.update p l' lv, ps)"
      using D xy by (intro ladder_okI) (auto split: if_splits)
    ultimately show ?thesis using fq xy by (simp add: l'_def)
  qed
qed

lemma requantify_ok:
  assumes ok: "ladder_ok before (lv, ps)" and x: "x \<in> set (queue (lv, ps))"
    and ids: "distinct (map o_id (queue (lv, ps)))"
  shows "\<exists>lv'. requantify x n lv = Some lv' \<and> ladder_ok before (lv', ps) \<and>
    queue (lv', ps) = map (set_quantity (o_id x) n) (queue (lv, ps))"
proof -
  define p where "p = o_price x"
  define f where "f = set_quantity (o_id x) n"
  obtain l xs ys where l: "map_of lv p = Some l" "x \<in> set (lv_orders l)" "level_ok p l"
    and xy: "ps = xs @ p # ys" "p \<notin> set xs" "p \<notin> set ys"
    and q: "queue (lv, ps) = queue (lv, xs) @ lv_orders l @ queue (lv, ys)"
    using queue_split [OF ok x] unfolding p_def by metis
  have dl: "distinct (map o_id (lv_orders l))"
    and other: "\<forall>y \<in> set (queue (lv, xs)) \<union> set (queue (lv, ys)). o_id y \<noteq> o_id x"
    using ids l(2) unfolding q by (auto simp: image_iff)
  have fq: "map f (queue (lv, ps)) = queue (lv, xs) @ map f (lv_orders l) @ queue (lv, ys)"
    using other unfolding q by (auto simp: f_def set_quantity_def intro!: map_idI)
  define l' where "l' = l\<lparr>lv_orders := map f (lv_orders l), lv_total := lv_total l + (n - o_quantity x)\<rparr>"
  have "sum_list (map o_quantity (map f os)) =
      sum_list (map o_quantity os) + (if x \<in> set os then n - o_quantity x else 0)"
    if "distinct (map o_id os)" "\<forall>y \<in> set os. o_id y = o_id x \<longrightarrow> y = x" for os
    using that by (induction os) (auto simp: f_def set_quantity_def image_iff)
  moreover have "\<forall>y \<in> set (lv_orders l). o_id y = o_id x \<longrightarrow> y = x"
    using distinct_map_inj_mem [OF dl] l(2) by blast
  ultimately have "level_ok p l'"
    using dl l(2,3) by (auto simp: level_ok_def l'_def f_def set_quantity_def)
  then have "ladder_ok before (AList.update p l' lv, ps)"
    using ladder_okD(1-4) [OF ok] xy by (intro ladder_okI) (auto split: if_splits)
  moreover have "requantify x n lv = Some (AList.update p l' lv)"
    using l(1) by (simp add: requantify_def p_def l'_def f_def)
  moreover have "queue (AList.update p l' lv, ps) = map f (queue (lv, ps))"
    unfolding fq using xy by (simp add: l'_def)
  ultimately show ?thesis by (auto simp: f_def)
qed

end

interpretation ladder: price_order "comparison d" for d
  by unfold_locales (auto simp: comparison_def)

end
