(* ===== verification/BookInvariant.thy ===== *)
theory BookInvariant
  imports Orderbook
begin

text \<open>
  The invariant of the order book of \<open>src/matching/orderbook.ts\<close> and what its operations do.
  \<open>book_ok\<close> says that both ladders are sorted and their levels carry the right totals, that the
  id map holds exactly the orders resting on the ladders, that the per-user sets hold exactly
  the ids of that user's resting orders, and that every order is of this market and outcome.
  The functional lemmas describe each operation on \<open>iterate_orders\<close>, the queue of a side.
\<close>

definition resting :: "book \<Rightarrow> order list" where
  "resting b = iterate_orders Bid b @ iterate_orders Ask b"

definition side_ok :: "book_side \<Rightarrow> book \<Rightarrow> bool" where
  "side_ok s b = (ladder_ok (better s) (side_ladder s b) \<and>
     (\<forall>x \<in> set (iterate_orders s b). o_side x = s))"

definition index_ok :: "book \<Rightarrow> bool" where
  "index_ok b = (distinct (map fst (order_map b)) \<and> distinct (map o_id (resting b)) \<and>
     set (order_map b) = (\<lambda>x. (o_id x, x)) ` set (resting b))"

definition users_ok :: "book \<Rightarrow> bool" where
  "users_ok b = (distinct (map fst (user_orders b)) \<and>
     (\<forall>(u, ids) \<in> set (user_orders b). ids \<noteq> [] \<and> distinct ids \<and>
        set ids = o_id ` set (filter (\<lambda>x. o_user x = u) (resting b))) \<and>
     (\<forall>x \<in> set (resting b). o_user x \<in> fst ` set (user_orders b)))"

definition book_ok :: "book \<Rightarrow> bool" where
  "book_ok b = (side_ok Bid b \<and> side_ok Ask b \<and> index_ok b \<and> users_ok b \<and>
     (\<forall>x \<in> set (resting b). o_market x = ob_market b \<and> o_outcome x = ob_outcome b))"

subsection \<open>Projections\<close>

lemma ladder_set_ladder [book_simps]:
  "side_ladder s (set_ladder s' lad b) = (if s = s' then lad else side_ladder s b)"
  by (cases lad; cases s; cases s') (auto simp: side_levels_def side_prices_def set_ladder_def)

lemma side_set_ladder [simp]:
  "side_levels s (set_ladder s' lad b) = (if s = s' then fst lad else side_levels s b)"
  "side_prices s (set_ladder s' lad b) = (if s = s' then snd lad else side_prices s b)"
  by (cases s; cases s'; simp add: side_levels_def side_prices_def set_ladder_def)+

lemma iterate_set_ladder [book_simps]:
  "iterate_orders s (set_ladder s' lad b) = (if s = s' then queue lad else iterate_orders s b)"
  by (simp add: iterate_orders_def ladder_set_ladder)

lemma side_frame [simp]:
  "side_levels s (b\<lparr>order_map := om\<rparr>) = side_levels s b"
  "side_levels s (b\<lparr>user_orders := uo\<rparr>) = side_levels s b"
  "side_prices s (b\<lparr>order_map := om\<rparr>) = side_prices s b"
  "side_prices s (b\<lparr>user_orders := uo\<rparr>) = side_prices s b"
  by (cases s; simp add: side_levels_def side_prices_def)+

lemma iterate_frame [simp]:
  "iterate_orders s (b\<lparr>order_map := om\<rparr>) = iterate_orders s b"
  "iterate_orders s (b\<lparr>user_orders := uo\<rparr>) = iterate_orders s b"
  by (simp_all add: iterate_orders_def)

lemma set_ladder_frame [simp]:
  "ob_market (set_ladder s lad b) = ob_market b" "ob_outcome (set_ladder s lad b) = ob_outcome b"
  "order_map (set_ladder s lad b) = order_map b" "user_orders (set_ladder s lad b) = user_orders b"
  by (cases s; simp add: set_ladder_def)+

lemma set_resting: "x \<in> set (resting b) \<longleftrightarrow> (\<exists>s. x \<in> set (iterate_orders s b))"
  by (auto simp: resting_def) (metis book_side.exhaust)

lemma book_okD:
  assumes "book_ok b"
  shows "ladder_ok (better s) (side_ladder s b)"
    "x \<in> set (iterate_orders s b) \<Longrightarrow> o_side x = s"
    "distinct (map fst (order_map b))" "distinct (map o_id (resting b))"
    "set (order_map b) = (\<lambda>x. (o_id x, x)) ` set (resting b)" "users_ok b"
    "x \<in> set (resting b) \<Longrightarrow> o_market x = ob_market b \<and> o_outcome x = ob_outcome b"
    "distinct (map o_id (iterate_orders s b))"
proof -
  show "ladder_ok (better s) (side_ladder s b)"
    "x \<in> set (iterate_orders s b) \<Longrightarrow> o_side x = s"
    using assms by (cases s; simp add: book_ok_def side_ok_def)+
  show "distinct (map fst (order_map b))" and d: "distinct (map o_id (resting b))"
    and "set (order_map b) = (\<lambda>x. (o_id x, x)) ` set (resting b)" "users_ok b"
    "x \<in> set (resting b) \<Longrightarrow> o_market x = ob_market b \<and> o_outcome x = ob_outcome b"
    using assms by (simp_all add: book_ok_def index_ok_def)
  show "distinct (map o_id (iterate_orders s b))" using d by (cases s) (auto simp: resting_def)
qed

lemma order_map_resting:
  assumes "book_ok b"
  shows "map_of (order_map b) i = Some x \<longleftrightarrow> x \<in> set (resting b) \<and> o_id x = i"
  using book_okD(3,5) [OF assms] by (auto simp: map_of_eq_Some_set)

lemma order_map_None:
  assumes "book_ok b"
  shows "map_of (order_map b) i = None \<longleftrightarrow> i \<notin> o_id ` set (resting b)"
  using order_map_resting [OF assms, of i] by (metis image_iff not_Some_eq)

lemma resting_unique:
  "book_ok b \<Longrightarrow> x \<in> set (resting b) \<Longrightarrow> y \<in> set (resting b) \<Longrightarrow> o_id x = o_id y \<Longrightarrow> x = y"
  by (rule distinct_map_inj_mem [OF book_okD(4)])

lemma resting_side: "book_ok b \<Longrightarrow> x \<in> set (resting b) \<Longrightarrow> x \<in> set (iterate_orders (o_side x) b)"
  by (auto simp: set_resting dest: book_okD(2))

lemma users_okD:
  assumes "users_ok b"
  shows "distinct (map fst (user_orders b))"
    "map_of (user_orders b) u = Some ids \<Longrightarrow>
       ids \<noteq> [] \<and> distinct ids \<and> set ids = o_id ` {x \<in> set (resting b). o_user x = u}"
    "map_of (user_orders b) u = None \<Longrightarrow> x \<in> set (resting b) \<Longrightarrow> o_user x \<noteq> u"
  using assms by (auto simp: users_ok_def map_of_eq_None_iff dest!: map_of_SomeD)

text \<open>The invariant from the abstract contents: a sufficient condition phrased on the maps.\<close>

lemma users_okI:
  assumes "distinct (map fst (user_orders b))"
    and "\<And>u ids. map_of (user_orders b) u = Some ids \<Longrightarrow>
       ids \<noteq> [] \<and> distinct ids \<and> set ids = o_id ` {x \<in> set (resting b). o_user x = u}"
    and "\<And>x. x \<in> set (resting b) \<Longrightarrow> map_of (user_orders b) (o_user x) \<noteq> None"
  shows "users_ok b"
proof -
  have "ids \<noteq> [] \<and> distinct ids \<and> set ids = o_id ` set (filter (\<lambda>x. o_user x = u) (resting b))"
    if "(u, ids) \<in> set (user_orders b)" for u ids
    using assms(2) [OF map_of_is_SomeI [OF assms(1) that]] by simp
  moreover have "o_user x \<in> fst ` set (user_orders b)" if "x \<in> set (resting b)" for x
    using assms(3) [OF that] by (simp add: map_of_eq_None_iff)
  ultimately show ?thesis
    unfolding users_ok_def using assms(1) by blast
qed

lemma book_okI:
  assumes "\<And>s. ladder_ok (better s) (side_ladder s b)"
    and "\<And>s x. x \<in> set (iterate_orders s b) \<Longrightarrow> o_side x = s"
    and "distinct (map fst (order_map b))" and "\<And>s. distinct (map o_id (iterate_orders s b))"
    and "\<And>x y. x \<in> set (iterate_orders Bid b) \<Longrightarrow> y \<in> set (iterate_orders Ask b) \<Longrightarrow> o_id x \<noteq> o_id y"
    and "\<And>i x. map_of (order_map b) i = Some x \<longleftrightarrow> x \<in> set (resting b) \<and> o_id x = i"
    and "users_ok b"
    and "\<And>x. x \<in> set (resting b) \<Longrightarrow> o_market x = ob_market b \<and> o_outcome x = ob_outcome b"
  shows "book_ok b"
proof -
  have "distinct (map o_id (resting b))"
    using assms(4) [of Bid] assms(4) [of Ask] assms(5) by (auto simp: resting_def)
  moreover have "set (order_map b) = (\<lambda>x. (o_id x, x)) ` set (resting b)"
    using assms(6) map_of_eq_Some_set [OF assms(3)] by (auto simp: set_eq_iff)
  ultimately show ?thesis
    using assms(1) [of Bid] assms(1) [of Ask] assms(2,3,7,8)
    by (simp add: book_ok_def side_ok_def index_ok_def)
qed

subsection \<open>Adding an order\<close>

lemma add_order_total:
  assumes "o_market ord = ob_market b" "o_outcome ord = ob_outcome b"
    and "map_of (order_map b) (o_id ord) = None"
  shows "\<exists>b'. add_order ord b = Inr b'"
  using assms by (simp add: add_order_def Let_def)

lemma add_order_frame:
  assumes "add_order ord b = Inr b'"
  shows "o_market ord = ob_market b" "o_outcome ord = ob_outcome b"
    "map_of (order_map b) (o_id ord) = None"
    "ob_market b' = ob_market b" "ob_outcome b' = ob_outcome b"
    "order_map b' = AList.update (o_id ord) ord (order_map b)"
  using assms by (auto simp: add_order_def Let_def split: if_splits)

lemma add_order_ladder:
  assumes ok: "book_ok b" and add: "add_order ord b = Inr b'"
  shows "ladder_ok (better s) (side_ladder s b')"
    "iterate_orders s b' = (if s = o_side ord then insert_prio (better s) ord (iterate_orders s b)
                            else iterate_orders s b)"
proof -
  have eq: "side_ladder s b' = (if s = o_side ord
      then push_order (better s) ord (side_ladder s b) else side_ladder s b)"
    using add by (auto simp: add_order_def Let_def split: if_splits)
  show "ladder_ok (better s) (side_ladder s b')"
    unfolding eq using book_okD(1) [OF ok] ladder.push_ok(1) by simp
  show "iterate_orders s b' = (if s = o_side ord then insert_prio (better s) ord (iterate_orders s b)
                               else iterate_orders s b)"
    unfolding iterate_orders_def eq using ladder.push_ok(2) [OF book_okD(1) [OF ok]] by simp
qed

lemma add_order_resting:
  assumes "book_ok b" "add_order ord b = Inr b'"
  shows "set (resting b') = insert ord (set (resting b))"
  using add_order_ladder(2) [OF assms, of Bid] add_order_ladder(2) [OF assms, of Ask]
  by (cases "o_side ord") (auto simp: resting_def)

lemma add_order_users:
  assumes ok: "book_ok b" and add: "add_order ord b = Inr b'"
  shows "users_ok b'"
proof -
  note U = users_okD [OF book_okD(6) [OF ok]]
  have r: "set (resting b') = insert ord (set (resting b))" by (rule add_order_resting [OF assms])
  define ids where "ids = (case map_of (user_orders b) (o_user ord) of None \<Rightarrow> [] | Some s \<Rightarrow> s)"
  have u: "user_orders b' = AList.update (o_user ord) (set_add (o_id ord) ids) (user_orders b)"
    using add by (auto simp: add_order_def Let_def ids_def split: if_splits)
  have ids: "distinct ids \<and> set ids = o_id ` {x \<in> set (resting b). o_user x = o_user ord}"
    using U(2,3) [of "o_user ord"] by (cases "map_of (user_orders b) (o_user ord)") (auto simp: ids_def)
  show ?thesis
  proof (rule users_okI)
    show "distinct (map fst (user_orders b'))" using U(1) u by simp
    show "is \<noteq> [] \<and> distinct is \<and> set is = o_id ` {x \<in> set (resting b'). o_user x = v}"
      if "map_of (user_orders b') v = Some is" for v "is"
      using that ids U(2) [of v "is"] by (auto simp: u r split: if_splits)
    show "map_of (user_orders b') (o_user x) \<noteq> None" if "x \<in> set (resting b')" for x
      using that U(3) [of "o_user x" x] by (auto simp: u r)
  qed
qed

lemma add_order_book_ok:
  assumes ok: "book_ok b" and add: "add_order ord b = Inr b'"
  shows "book_ok b'"
proof (rule book_okI)
  have fresh: "o_id ord \<notin> o_id ` set (resting b)"
    using order_map_None [OF ok] add_order_frame(3) [OF add] by simp
  note q = add_order_ladder(2) [OF ok add]
  show "ladder_ok (better s) (side_ladder s b')" for s by (rule add_order_ladder(1) [OF assms])
  show "o_side x = s" if "x \<in> set (iterate_orders s b')" for s x
    using that book_okD(2) [OF ok] by (auto simp: q split: if_splits)
  show "distinct (map fst (order_map b'))"
    using book_okD(3) [OF ok] add_order_frame(6) [OF add] by simp
  show "distinct (map o_id (iterate_orders s b'))" for s
  proof (cases "s = o_side ord")
    case True
    have "mset (map o_id (iterate_orders s b')) = add_mset (o_id ord) (mset (map o_id (iterate_orders s b)))"
      using True by (simp add: q mset_insert_prio)
    moreover have "o_id ord \<notin> set (map o_id (iterate_orders s b))"
      using fresh by (cases s) (auto simp: resting_def)
    ultimately show ?thesis
      using book_okD(8) [OF ok, of s] mset_eq_imp_distinct_iff [of "map o_id (iterate_orders s b')"
          "o_id ord # map o_id (iterate_orders s b)"] by simp
  qed (use book_okD(8) [OF ok] q in simp)
  show "o_id x \<noteq> o_id y" if "x \<in> set (iterate_orders Bid b')" "y \<in> set (iterate_orders Ask b')" for x y
    using that book_okD(4) [OF ok] fresh
    by (cases "o_side ord") (auto simp: q resting_def, metis UnI1 image_eqI)
  show "map_of (order_map b') i = Some x \<longleftrightarrow> x \<in> set (resting b') \<and> o_id x = i" for i x
    using order_map_resting [OF ok, of i x] fresh
    by (auto simp: add_order_frame(6) [OF add] add_order_resting [OF assms]) (metis image_eqI)
  show "users_ok b'" by (rule add_order_users [OF assms])
  show "o_market x = ob_market b' \<and> o_outcome x = ob_outcome b'" if "x \<in> set (resting b')" for x
    using that book_okD(7) [OF ok, of x] add_order_frame [OF add] add_order_resting [OF assms] by auto
qed

subsection \<open>Removing an order\<close>

lemma remove_order_absent:
  assumes "book_ok b" "i \<notin> o_id ` set (resting b)"
  shows "remove_order i b = (None, b)"
proof -
  have "map_of (order_map b) i = None" using order_map_None [OF assms(1)] assms(2) by blast
  then show ?thesis by (simp add: remove_order_def)
qed

lemma remove_order_present:
  assumes ok: "book_ok b" and x: "x \<in> set (resting b)"
  shows "\<exists>b'. remove_order (o_id x) b = (Some x, b') \<and>
    (\<forall>s. ladder_ok (better s) (side_ladder s b')) \<and>
    (\<forall>s. iterate_orders s b' = filter (\<lambda>y. o_id y \<noteq> o_id x) (iterate_orders s b)) \<and>
    order_map b' = AList.delete (o_id x) (order_map b) \<and>
    ob_market b' = ob_market b \<and> ob_outcome b' = ob_outcome b"
proof -
  define s0 where "s0 = o_side x"
  have xs: "x \<in> set (queue (side_ladder s0 b))"
    using resting_side [OF ok x] by (simp add: iterate_orders_def s0_def)
  obtain lad where lad: "drop_order x (side_ladder s0 b) = Some lad" "ladder_ok (better s0) lad"
      "queue lad = filter (\<lambda>y. o_id y \<noteq> o_id x) (queue (side_ladder s0 b))"
    using ladder.drop_ok [OF book_okD(1) [OF ok] xs] book_okD(8) [OF ok, of s0]
    unfolding iterate_orders_def by blast
  have m: "map_of (order_map b) (o_id x) = Some x" using order_map_resting [OF ok] x by simp
  have other: "filter (\<lambda>y. o_id y \<noteq> o_id x) (iterate_orders s b) = iterate_orders s b" if "s \<noteq> s0" for s
  proof -
    have "o_id y \<noteq> o_id x" if "y \<in> set (iterate_orders s b)" for y
      using resting_unique [OF ok, of y x] x that \<open>s \<noteq> s0\<close> book_okD(2) [OF ok that]
      by (auto simp: set_resting s0_def)
    then show ?thesis by (simp add: filter_id_conv)
  qed
  obtain users where r: "remove_order (o_id x) b =
      (Some x, (set_ladder s0 lad b)\<lparr>order_map := AList.delete (o_id x) (order_map b), user_orders := users\<rparr>)"
    using m lad(1) by (simp add: remove_order_def s0_def Let_def)
  then show ?thesis
    using lad(2,3) other book_okD(1) [OF ok]
    by (auto simp: book_simps iterate_orders_def [symmetric])
qed

lemma remove_order_user_map:
  assumes ok: "book_ok b" and x: "x \<in> set (resting b)"
    and ids: "map_of (user_orders b) (o_user x) = Some ids"
  shows "user_orders (snd (remove_order (o_id x) b)) =
    (if remove1 (o_id x) ids = [] then AList.delete (o_user x) (user_orders b)
     else AList.update (o_user x) (remove1 (o_id x) ids) (user_orders b))"
proof -
  have m: "map_of (order_map b) (o_id x) = Some x" using order_map_resting [OF ok] x by simp
  moreover have "drop_order x (side_ladder (o_side x) b) \<noteq> None"
    using ladder.drop_ok [OF book_okD(1) [OF ok]] book_okD(8) [OF ok] resting_side [OF ok x]
    unfolding iterate_orders_def by fastforce
  ultimately show ?thesis
    using ids by (auto simp: remove_order_def Let_def)
qed

lemma remove_order_users:
  assumes ok: "book_ok b" and x: "x \<in> set (resting b)" and rem: "remove_order (o_id x) b = (r, b')"
    and rest: "set (resting b') = {y \<in> set (resting b). o_id y \<noteq> o_id x}"
  shows "users_ok b'"
proof -
  note U = users_okD [OF book_okD(6) [OF ok]]
  obtain ids where ids: "map_of (user_orders b) (o_user x) = Some ids"
    using U(3) [of "o_user x" x] x by (cases "map_of (user_orders b) (o_user x)") auto
  have u: "user_orders b' = (if remove1 (o_id x) ids = [] then AList.delete (o_user x) (user_orders b)
      else AList.update (o_user x) (remove1 (o_id x) ids) (user_orders b))"
    using remove_order_user_map [OF ok x ids] rem by simp
  have set1: "set (remove1 (o_id x) ids) = o_id ` {y \<in> set (resting b'). o_user y = o_user x}"
    using U(2) [OF ids] by (auto simp: rest)
  have d1: "distinct (remove1 (o_id x) ids)" using U(2) [OF ids] by simp
  have keep: "{y \<in> set (resting b'). o_user y = v} = {y \<in> set (resting b). o_user y = v}"
    if "v \<noteq> o_user x" for v
    using that resting_unique [OF ok _ x] by (auto simp: rest)
  show ?thesis
  proof (rule users_okI)
    show "distinct (map fst (user_orders b'))" using U(1) u by simp
    show "is \<noteq> [] \<and> distinct is \<and> set is = o_id ` {y \<in> set (resting b'). o_user y = v}"
      if "map_of (user_orders b') v = Some is" for v "is"
      using that set1 d1 U(2) [of v "is"] keep [of v] by (auto simp: u split: if_splits)
    show "map_of (user_orders b') (o_user y) \<noteq> None" if y: "y \<in> set (resting b')" for y
    proof (cases "o_user y = o_user x")
      case True
      then have "remove1 (o_id x) ids \<noteq> []" using y set1 by fastforce
      with True show ?thesis by (simp add: u)
    next
      case False
      with y U(3) [of "o_user y" y] show ?thesis by (auto simp: u rest)
    qed
  qed
qed

lemma resting_filter:
  assumes "\<And>s. iterate_orders s b' = filter P (iterate_orders s b)"
  shows "resting b' = filter P (resting b)"
  using assms by (simp add: resting_def)

lemma remove_order_book_ok:
  assumes ok: "book_ok b" and rem: "remove_order i b = (r, b')"
  shows "book_ok b'" "iterate_orders s b' = filter (\<lambda>y. o_id y \<noteq> i) (iterate_orders s b)"
    "r = map_of (order_map b) i" "ob_market b' = ob_market b" "ob_outcome b' = ob_outcome b"
    "order_map b' = AList.delete i (order_map b)"
proof -
  have "book_ok b' \<and> (\<forall>s. iterate_orders s b' = filter (\<lambda>y. o_id y \<noteq> i) (iterate_orders s b)) \<and>
    r = map_of (order_map b) i \<and> ob_market b' = ob_market b \<and> ob_outcome b' = ob_outcome b \<and>
    order_map b' = AList.delete i (order_map b)"
  proof (cases "i \<in> o_id ` set (resting b)")
    case False
    then have "r = None" "b' = b" using remove_order_absent [OF ok] rem by auto
    moreover have m: "map_of (order_map b) i = None" using order_map_None [OF ok] False by blast
    moreover have "\<forall>s. iterate_orders s b = filter (\<lambda>y. o_id y \<noteq> i) (iterate_orders s b)"
      using False by (auto intro!: filter_True [symmetric]) (metis image_eqI set_resting)
    moreover have "AList.delete i (order_map b) = order_map b"
      using m by (simp add: map_of_eq_None_iff)
    ultimately show ?thesis using ok by simp
  next
    case True
    then obtain x where x: "x \<in> set (resting b)" "i = o_id x" by blast
    note present = remove_order_present [OF ok x(1)]
    have P: "r = Some x" "\<And>s. ladder_ok (better s) (side_ladder s b')"
      "\<And>s. iterate_orders s b' = filter (\<lambda>y. o_id y \<noteq> o_id x) (iterate_orders s b)"
      "order_map b' = AList.delete (o_id x) (order_map b)"
      "ob_market b' = ob_market b" "ob_outcome b' = ob_outcome b"
      using present rem x(2) by auto
    have R: "resting b' = filter (\<lambda>y. o_id y \<noteq> o_id x) (resting b)"
      by (rule resting_filter) (rule P(3))
    have "book_ok b'"
    proof (rule book_okI)
      show "ladder_ok (better s) (side_ladder s b')" for s by (rule P(2))
      show "o_side y = s" if "y \<in> set (iterate_orders s b')" for s y
        using that book_okD(2) [OF ok] by (simp add: P(3))
      show "distinct (map fst (order_map b'))" using book_okD(3) [OF ok] by (simp add: P(4))
      show "distinct (map o_id (iterate_orders s b'))" for s
        using book_okD(8) [OF ok, of s] by (simp add: P(3) distinct_map_filter)
      show "o_id y \<noteq> o_id z" if "y \<in> set (iterate_orders Bid b')" "z \<in> set (iterate_orders Ask b')" for y z
        using that book_okD(4) [OF ok] by (auto simp: P(3) resting_def)
      show "map_of (order_map b') j = Some y \<longleftrightarrow> y \<in> set (resting b') \<and> o_id y = j" for j y
        using order_map_resting [OF ok, of j y] by (auto simp: P(4) R)
      show "users_ok b'" by (rule remove_order_users [OF ok x(1) rem [unfolded x(2)]]) (simp add: R)
      show "o_market y = ob_market b' \<and> o_outcome y = ob_outcome b'" if "y \<in> set (resting b')" for y
        using that book_okD(7) [OF ok, of y] by (simp add: P R)
    qed
    moreover have "map_of (order_map b) i = Some x" using order_map_resting [OF ok] x by simp
    ultimately show ?thesis using P x by simp
  qed
  then show "book_ok b'" "iterate_orders s b' = filter (\<lambda>y. o_id y \<noteq> i) (iterate_orders s b)"
    "r = map_of (order_map b) i" "ob_market b' = ob_market b" "ob_outcome b' = ob_outcome b"
    "order_map b' = AList.delete i (order_map b)" by auto
qed

subsection \<open>Changing a quantity\<close>

lemma set_quantity_simps [simp]:
  "o_id (set_quantity i q x) = o_id x" "o_user (set_quantity i q x) = o_user x"
  "o_side (set_quantity i q x) = o_side x" "o_price (set_quantity i q x) = o_price x"
  "o_market (set_quantity i q x) = o_market x" "o_outcome (set_quantity i q x) = o_outcome x"
  "o_timestamp (set_quantity i q x) = o_timestamp x"
  "o_quantity (set_quantity i q x) = (if o_id x = i then q else o_quantity x)"
  by (auto simp: set_quantity_def)

lemma set_quantity_other [simp]: "o_id x \<noteq> i \<Longrightarrow> set_quantity i q x = x"
  by (simp add: set_quantity_def)

lemma update_quantity_ladder:
  assumes ok: "book_ok b" and x: "x \<in> set (resting b)" and q: "0 < q"
  shows "\<exists>b'. update_order_quantity (o_id x) q b = Inr (True, b') \<and>
    (\<forall>s. ladder_ok (better s) (side_ladder s b')) \<and>
    (\<forall>s. iterate_orders s b' = map (set_quantity (o_id x) q) (iterate_orders s b)) \<and>
    order_map b' = AList.update (o_id x) (x\<lparr>o_quantity := q\<rparr>) (order_map b) \<and>
    user_orders b' = user_orders b \<and> ob_market b' = ob_market b \<and> ob_outcome b' = ob_outcome b"
proof -
  define s0 where "s0 = o_side x"
  have xs: "x \<in> set (queue (side_ladder s0 b))"
    using resting_side [OF ok x] by (simp add: iterate_orders_def s0_def)
  obtain lv where lv: "requantify x q (side_levels s0 b) = Some lv"
      "ladder_ok (better s0) (lv, side_prices s0 b)"
      "queue (lv, side_prices s0 b) = map (set_quantity (o_id x) q) (queue (side_ladder s0 b))"
    using ladder.requantify_ok [OF book_okD(1) [OF ok] xs] book_okD(8) [OF ok, of s0]
    unfolding iterate_orders_def by blast
  have m: "map_of (order_map b) (o_id x) = Some x" using order_map_resting [OF ok] x by simp
  have other: "map (set_quantity (o_id x) q) (iterate_orders s b) = iterate_orders s b" if "s \<noteq> s0" for s
  proof (rule map_idI)
    fix y assume y: "y \<in> set (iterate_orders s b)"
    then have "o_id y \<noteq> o_id x"
      using resting_unique [OF ok, of y x] x \<open>s \<noteq> s0\<close> book_okD(2) [OF ok y]
      by (auto simp: set_resting s0_def)
    then show "set_quantity (o_id x) q y = y" by simp
  qed
  have "update_order_quantity (o_id x) q b = Inr (True, (set_ladder s0 (lv, side_prices s0 b) b)
      \<lparr>order_map := AList.update (o_id x) (x\<lparr>o_quantity := q\<rparr>) (order_map b)\<rparr>)"
    using m lv(1) q by (simp add: update_order_quantity_def s0_def)
  then show ?thesis
    using lv(2,3) other book_okD(1) [OF ok]
    by (auto simp: book_simps iterate_orders_def [symmetric])
qed

lemma update_quantity_book_ok:
  assumes ok: "book_ok b" and x: "i \<in> o_id ` set (resting b)" and q: "0 < q"
  shows "\<exists>b'. update_order_quantity i q b = Inr (True, b') \<and> book_ok b' \<and>
    (\<forall>s. iterate_orders s b' = map (set_quantity i q) (iterate_orders s b)) \<and>
    ob_market b' = ob_market b \<and> ob_outcome b' = ob_outcome b"
proof -
  obtain x where x: "x \<in> set (resting b)" "i = o_id x" using x by blast
  obtain b' where b': "update_order_quantity (o_id x) q b = Inr (True, b')"
      "\<And>s. ladder_ok (better s) (side_ladder s b')"
      "\<And>s. iterate_orders s b' = map (set_quantity (o_id x) q) (iterate_orders s b)"
      "order_map b' = AList.update (o_id x) (x\<lparr>o_quantity := q\<rparr>) (order_map b)"
      "user_orders b' = user_orders b" "ob_market b' = ob_market b" "ob_outcome b' = ob_outcome b"
    using update_quantity_ladder [OF ok x(1) q] by blast
  have R: "set (resting b') = set_quantity (o_id x) q ` set (resting b)"
    by (auto simp: resting_def b'(3))
  have xq: "x\<lparr>o_quantity := q\<rparr> = set_quantity (o_id x) q x" by (simp add: set_quantity_def)
  have "book_ok b'"
  proof (rule book_okI)
    show "ladder_ok (better s) (side_ladder s b')" for s by (rule b'(2))
    show "o_side y = s" if "y \<in> set (iterate_orders s b')" for s y
      using that book_okD(2) [OF ok] by (auto simp: b'(3))
    show "distinct (map fst (order_map b'))" using book_okD(3) [OF ok] by (simp add: b'(4))
    show "distinct (map o_id (iterate_orders s b'))" for s
      using book_okD(8) [OF ok, of s] by (simp add: b'(3) comp_def)
    show "o_id y \<noteq> o_id z" if "y \<in> set (iterate_orders Bid b')" "z \<in> set (iterate_orders Ask b')" for y z
      using that book_okD(4) [OF ok] by (auto simp: b'(3) resting_def)
    show "map_of (order_map b') j = Some y \<longleftrightarrow> y \<in> set (resting b') \<and> o_id y = j" for j y
    proof (cases "j = o_id x")
      case True
      have "y \<in> set (resting b') \<and> o_id y = o_id x \<longleftrightarrow> y = set_quantity (o_id x) q x"
        using x(1) by (auto simp: R dest: resting_unique [OF ok _ x(1)])
      with True show ?thesis by (auto simp: b'(4) xq)
    next
      case False
      have "y \<in> set (resting b') \<and> o_id y = j \<longleftrightarrow> y \<in> set (resting b) \<and> o_id y = j"
        using False by (auto simp: R image_iff) (metis set_quantity_other)+
      with False show ?thesis using order_map_resting [OF ok, of j y] by (simp add: b'(4))
    qed
    have "{y \<in> set (resting b'). o_user y = u} =
        set_quantity (o_id x) q ` {y \<in> set (resting b). o_user y = u}" for u
      by (auto simp: R)
    then have "o_id ` {y \<in> set (resting b'). o_user y = u} = o_id ` {y \<in> set (resting b). o_user y = u}" for u
      by (simp add: image_image)
    note same = this and U = users_okD [OF book_okD(6) [OF ok]]
    show "users_ok b'"
    proof (rule users_okI)
      show "distinct (map fst (user_orders b'))" using U(1) by (simp add: b'(5))
      show "ids \<noteq> [] \<and> distinct ids \<and> set ids = o_id ` {y \<in> set (resting b'). o_user y = u}"
        if "map_of (user_orders b') u = Some ids" for u ids
        using U(2) [of u ids] that by (simp add: b'(5) same)
      show "map_of (user_orders b') (o_user y) \<noteq> None" if "y \<in> set (resting b')" for y
        using that U(3) by (auto simp: b'(5) R) (metis not_Some_eq)
    qed
    show "o_market y = ob_market b' \<and> o_outcome y = ob_outcome b'" if "y \<in> set (resting b')" for y
      using that book_okD(7) [OF ok] by (auto simp: b' R)
  qed
  then show ?thesis using b' x(2) by auto
qed

subsection \<open>Queries\<close>

lemma level_head:
  assumes "ladder_ok before (lv, p # ps)"
  obtains l x xs where "map_of lv p = Some l" "level_ok p l" "lv_orders l = x # xs"
    "queue (lv, p # ps) = x # xs @ queue (lv, ps)"
proof -
  obtain l where l: "map_of lv p = Some l" using ladder_okD(5) [OF assms, of p] by auto
  then have lok: "level_ok p l" by (rule ladder_okD(4) [OF assms])
  then obtain x xs where "lv_orders l = x # xs" by (cases "lv_orders l") (auto simp: level_ok_def)
  with l lok show thesis by (intro that [of l x xs]) (auto simp: level_queue_def)
qed

lemma best_head:
  assumes "book_ok b"
  shows "best s b = (case iterate_orders s b of [] \<Rightarrow> None | x # _ \<Rightarrow> Some x)"
proof (cases "side_prices s b")
  case Nil
  then show ?thesis by (simp add: best_def iterate_orders_def)
next
  case (Cons p ps)
  then have "ladder_ok (better s) (side_levels s b, p # ps)" using book_okD(1) [OF assms, of s] by simp
  from level_head [OF this] show ?thesis
    using Cons by (metis (no_types, lifting) best_def iterate_orders_def list.simps(5) option.simps(5))
qed

lemma queue_sorted:
  assumes "ladder_ok (comparison d) lad"
  shows "sorted_wrt (\<lambda>x y. \<not> comparison d (o_price y) (o_price x)) (queue lad)"
proof -
  obtain lv ps where lad: "lad = (lv, ps)" by (cases lad)
  have "sorted_wrt (\<lambda>x y. \<not> comparison d (o_price y) (o_price x)) (queue (lv, qs))"
    if "sorted_wrt (comparison d) qs" "set qs \<subseteq> set ps" for qs
    using that
  proof (induction qs)
    case (Cons p qs)
    have lev: "\<forall>x \<in> set (level_queue lv p). o_price x = p"
      using level_queue_price [OF assms [unfolded lad]] by blast
    have later: "\<forall>y \<in> set (queue (lv, qs)). \<not> comparison d (o_price y) p"
      using queue_prices [OF assms [unfolded lad], of qs] Cons.prems ladder.before_asym by fastforce
    have "sorted_wrt (\<lambda>x y. \<not> comparison d (o_price y) (o_price x)) (level_queue lv p)"
      by (rule sorted_wrt_mono_rel [of _ "\<lambda>_ _. True"])
         (use lev ladder.before_irrefl in \<open>auto simp: sorted_wrt_iff_nth_less\<close>)
    with Cons lev later show ?case by (auto simp: sorted_wrt_append)
  qed simp
  then show ?thesis using ladder_okD(1) [OF assms [unfolded lad]] by (simp add: lad)
qed

text \<open>\<open>iterateOrders\<close> is in price priority, and the best order is at its head.\<close>

lemma iterate_sorted:
  "book_ok b \<Longrightarrow> sorted_wrt (\<lambda>x y. \<not> better s (o_price y) (o_price x)) (iterate_orders s b)"
  unfolding iterate_orders_def by (rule queue_sorted) (rule book_okD(1))

lemma best_is_best:
  assumes "book_ok b" "best s b = Some x"
  shows "x \<in> set (iterate_orders s b)" "y \<in> set (iterate_orders s b) \<Longrightarrow> \<not> better s (o_price y) (o_price x)"
  using iterate_sorted [OF assms(1), of s] assms(2)
  by (auto simp: best_head [OF assms(1)] ladder.before_irrefl split: list.splits)

lemma best_in_resting: "book_ok b \<Longrightarrow> best s b = Some x \<Longrightarrow> x \<in> set (resting b)"
  using best_is_best(1) set_resting by blast

lemma get_orders_by_user_set:
  assumes ok: "book_ok b"
  shows "set (get_orders_by_user u b) = {x \<in> set (resting b). o_user x = u}"
    "distinct (get_orders_by_user u b)"
proof -
  note U = users_okD [OF book_okD(6) [OF ok]]
  have "set (get_orders_by_user u b) = {x \<in> set (resting b). o_user x = u} \<and>
    distinct (get_orders_by_user u b)"
  proof (cases "map_of (user_orders b) u")
    case None
    then show ?thesis using U(3) by (auto simp: get_orders_by_user_def)
  next
    case (Some ids)
    have get: "map_of (order_map b) i = Some x \<longleftrightarrow> x \<in> set (resting b) \<and> o_id x = i" for i x
      by (rule order_map_resting [OF ok])
    have "distinct (List.map_filter (\<lambda>i. map_of (order_map b) i) is)" if "distinct is" for "is"
      using that
    proof (induction "is")
      case (Cons i "is")
      show ?case
      proof (cases "map_of (order_map b) i")
        case (Some x)
        then have "x \<notin> set (List.map_filter (\<lambda>i. map_of (order_map b) i) is)"
          using Cons.prems get by (auto simp: in_set_map_filter)
        with Cons Some show ?thesis by (simp add: map_filter_simps)
      qed (use Cons in \<open>simp add: map_filter_simps\<close>)
    qed (simp add: map_filter_simps)
    then have "distinct (get_orders_by_user u b)"
      using U(2) [OF Some] by (simp add: get_orders_by_user_def Some)
    moreover have "x \<in> set (get_orders_by_user u b) \<longleftrightarrow> x \<in> set (resting b) \<and> o_user x = u" for x
    proof -
      have "x \<in> set (get_orders_by_user u b) \<longleftrightarrow> x \<in> set (resting b) \<and> o_id x \<in> set ids"
        by (auto simp: get_orders_by_user_def Some in_set_map_filter get)
      moreover have "x \<in> set (resting b) \<Longrightarrow> o_id x \<in> set ids \<longleftrightarrow> o_user x = u"
        using U(2) [OF Some] resting_unique [OF ok, of x] by blast
      ultimately show ?thesis by blast
    qed
    ultimately show ?thesis by blast
  qed
  then show "set (get_orders_by_user u b) = {x \<in> set (resting b). o_user x = u}"
    "distinct (get_orders_by_user u b)" by blast+
qed

lemma queue_price_runs:
  assumes "ladder_ok (comparison d) (lv, ps)" "sorted_wrt (comparison d) qs" "set qs \<subseteq> set ps"
  shows "remdups_adj (map o_price (queue (lv, qs))) = qs"
  using assms(2,3)
proof (induction qs)
  case (Cons p qs)
  obtain l where l: "map_of lv p = Some l"
    using ladder_okD(5) [OF assms(1), of p] Cons.prems(2) by auto
  have lok: "level_ok p l" by (rule ladder_okD(4) [OF assms(1) l])
  have run: "remdups_adj (map o_price os @ ws) = p # remdups_adj ws"
    if "os \<noteq> []" "\<forall>x \<in> set os. o_price x = p" "p \<notin> set ws" for os ws
    using that
  proof (induction os rule: induct_list012)
    case (2 x)
    then show ?case by (cases ws) auto
  qed auto
  have "p \<notin> set (map o_price (queue (lv, qs)))"
    using queue_prices [OF assms(1), of qs] Cons.prems ladder.before_irrefl by fastforce
  from run [OF _ _ this, of "lv_orders l"] Cons l lok show ?case
    by (simp add: level_queue_def level_ok_def)
qed simp

lemma level_orders_filter:
  assumes ok: "ladder_ok (comparison d) (lv, ps)" and l: "map_of lv p = Some l"
  shows "filter (\<lambda>x. o_price x = p) (queue (lv, ps)) = lv_orders l"
proof -
  have lok: "level_ok p l" by (rule ladder_okD(4) [OF ok l])
  then obtain x where x: "x \<in> set (lv_orders l)" "o_price x = p"
    by (cases "lv_orders l") (auto simp: level_ok_def)
  have "p \<in> set ps" using ladder_okD(5) [OF ok, of p] l by simp
  from ladder.sorted_block [OF ladder_okD(1) [OF ok] this]
  obtain xs ys where xy: "ps = xs @ p # ys" "p \<notin> set xs" "p \<notin> set ys" by blast
  then have "\<forall>y \<in> set (queue (lv, xs)) \<union> set (queue (lv, ys)). o_price y \<noteq> p"
    using queue_prices [OF ok, of xs] queue_prices [OF ok, of ys] by auto
  then show ?thesis
    using lok xy(1) l by (auto simp: level_queue_def level_ok_def filter_empty_conv)
qed

text \<open>The depth of a side, computed from its queue alone.\<close>

definition depth_spec :: "nat \<Rightarrow> order list \<Rightarrow> depth_level list" where
  "depth_spec n q = map (\<lambda>p. let os = filter (\<lambda>x. o_price x = p) q
       in \<lparr>dl_price = p, dl_quantity = sum_list (map o_quantity os), dl_count = length os\<rparr>)
     (take n (remdups_adj (map o_price q)))"

lemma depth_of_spec:
  assumes ok: "ladder_ok (comparison d) (lv, ps)"
  shows "depth_of n lv ps = depth_spec n (queue (lv, ps))"
proof -
  have ps: "remdups_adj (map o_price (queue (lv, ps))) = ps"
    by (rule queue_price_runs [OF ok ladder_okD(1) [OF ok]]) simp
  have "List.map_filter (\<lambda>p. map_option (\<lambda>l. \<lparr>dl_price = lv_price l, dl_quantity = lv_total l,
      dl_count = length (lv_orders l)\<rparr>) (map_of lv p)) qs =
    map (\<lambda>p. let os = filter (\<lambda>x. o_price x = p) (queue (lv, ps))
       in \<lparr>dl_price = p, dl_quantity = sum_list (map o_quantity os), dl_count = length os\<rparr>) qs"
    if "set qs \<subseteq> set ps" for qs
    using that
  proof (induction qs)
    case (Cons p qs)
    obtain l where l: "map_of lv p = Some l" using ladder_okD(5) [OF ok, of p] Cons.prems by auto
    have "level_ok p l" by (rule ladder_okD(4) [OF ok l])
    with Cons level_orders_filter [OF ok l] l show ?case
      by (simp add: map_filter_simps level_ok_def Let_def)
  qed (simp add: map_filter_simps)
  then show ?thesis
    by (simp add: depth_of_def depth_spec_def ps set_take_subset min_def)
qed

lemma get_depth_spec:
  "book_ok b \<Longrightarrow> get_depth n b = (depth_spec n (iterate_orders Bid b), depth_spec n (iterate_orders Ask b))"
  using depth_of_spec [OF book_okD(1) [of b Bid, simplified]] depth_of_spec [OF book_okD(1) [of b Ask, simplified]]
  by (simp add: get_depth_def iterate_orders_def side_levels_def side_prices_def)

lemma volume_side:
  assumes ok: "ladder_ok (comparison d) (lv, ps)"
  shows "foldl (\<lambda>v l. v + lv_total l) 0 (map snd lv) = sum_list (map o_quantity (queue (lv, ps)))"
proof -
  define tot where "tot p = (case map_of lv p of None \<Rightarrow> 0 | Some l \<Rightarrow> lv_total l)" for p
  note D = ladder_okD [OF ok]
  have f: "foldl (\<lambda>v l. v + lv_total l) a ls = a + sum_list (map lv_total ls)" for a ls
    by (induction ls arbitrary: a) auto
  have "map lv_total (map snd lv) = map tot (map fst lv)"
    using D(2) by (auto simp: tot_def)
  then have "foldl (\<lambda>v l. v + lv_total l) 0 (map snd lv) = sum_list (map tot (map fst lv))"
    by (simp only: f)
  also have "\<dots> = sum_list (map tot ps)"
    using D(2,3) ladder.distinct_prices [OF D(1)] by (simp add: sum_list_distinct_conv_sum_set del: map_map)
  also have "\<dots> = sum_list (map o_quantity (queue (lv, ps)))"
  proof -
    have "sum_list (map tot qs) = sum_list (map o_quantity (queue (lv, qs)))" for qs
      by (induction qs) (auto simp: tot_def level_queue_def level_ok_def split: option.splits dest: D(4))
    then show ?thesis .
  qed
  finally show ?thesis .
qed

lemma get_total_volume_spec:
  assumes "book_ok b"
  shows "get_total_volume b = (sum_list (map o_quantity (iterate_orders Bid b)),
                               sum_list (map o_quantity (iterate_orders Ask b)))"
  using volume_side [OF book_okD(1) [OF assms, of Bid, simplified]]
    volume_side [OF book_okD(1) [OF assms, of Ask, simplified]]
  by (simp add: get_total_volume_def iterate_orders_def side_levels_def side_prices_def)

lemma get_order_count_spec:
  assumes "book_ok b"
  shows "get_order_count b = length (resting b)"
proof -
  have "get_order_count b = card (set (order_map b))"
    using book_okD(3) [OF assms] by (simp add: get_order_count_def distinct_card distinct_map)
  also have "\<dots> = card (set (resting b))"
    unfolding book_okD(5) [OF assms] by (rule card_image) (simp add: inj_on_def)
  also have "\<dots> = length (resting b)"
    using book_okD(4) [OF assms] by (simp add: distinct_card distinct_map)
  finally show ?thesis .
qed

lemma new_book_ok [simp]: "book_ok (new_book m oc)" "resting (new_book m oc) = []"
  by (simp_all add: book_ok_def side_ok_def index_ok_def users_ok_def resting_def new_book_def
      ladder_ok_def iterate_orders_def side_levels_def side_prices_def)

lemma new_book_of [simp]: "ob_market (new_book m oc) = m" "ob_outcome (new_book m oc) = oc"
  by (simp_all add: new_book_def)

lemma clear_ok: "book_ok (clear b) \<and> resting (clear b) = []"
  by (simp add: book_ok_def side_ok_def index_ok_def users_ok_def resting_def clear_def
      ladder_ok_def iterate_orders_def side_levels_def side_prices_def)

end
