(* ===== verification/JsString.thy ===== *)
theory JsString
  imports Prelude "HOL-Library.Sublist"
begin

text \<open>
  JavaScript strings as character lists, and the string operations the code uses: decimal
  printing and reading of integers, \<open>split\<close> on a one-character separator, \<open>trim\<close>,
  \<open>toLowerCase\<close>, \<open>includes\<close> (\<open>contains\<close> here), \<open>startsWith\<close>, \<open>padStart\<close>, \<open>slice\<close>. Characters are 8-bit; white space is the ASCII
  white space. The lemmas are the round trips the components rely on.
\<close>

subsection \<open>Digits\<close>

definition digit_char :: "nat \<Rightarrow> char" where
  "digit_char d = char_of (48 + d)"

definition is_digit :: "char \<Rightarrow> bool" where
  "is_digit c = (48 \<le> (of_char c :: nat) \<and> (of_char c :: nat) \<le> 57)"

definition digit_val :: "char \<Rightarrow> nat" where
  "digit_val c = of_char c - 48"

lemma digit_char_val [simp]: "d < 10 \<Longrightarrow> digit_val (digit_char d) = d"
  by (simp add: digit_val_def digit_char_def)

lemma digit_char_is_digit [simp]: "d < 10 \<Longrightarrow> is_digit (digit_char d)"
  by (simp add: is_digit_def digit_char_def)

lemma digit_val_lt: "is_digit c \<Longrightarrow> digit_val c < 10"
  unfolding is_digit_def digit_val_def by linarith

lemma digit_val_char: "is_digit c \<Longrightarrow> digit_char (digit_val c) = c"
  by (simp add: is_digit_def digit_val_def digit_char_def)

fun nat_string :: "nat \<Rightarrow> string" where
  "nat_string n = (if n < 10 then [digit_char n] else nat_string (n div 10) @ [digit_char (n mod 10)])"

declare nat_string.simps [simp del]

definition int_string :: "int \<Rightarrow> string" where
  "int_string i = (if i < 0 then CHR ''-'' # nat_string (nat (- i)) else nat_string (nat i))"

definition digits_value :: "string \<Rightarrow> nat" where
  "digits_value s = foldl (\<lambda>n c. 10 * n + digit_val c) 0 s"

lemma digits_value_snoc [simp]: "digits_value (s @ [c]) = 10 * digits_value s + digit_val c"
  by (simp add: digits_value_def)

lemma digits_value_Nil [simp]: "digits_value [] = 0"
  by (simp add: digits_value_def)

lemma digits_value_append:
  "digits_value (s @ t) = digits_value s * 10 ^ length t + digits_value t"
  by (induction t rule: rev_induct) (simp_all add: append_assoc [symmetric] algebra_simps del: append_assoc)

lemma digits_value_lt: "\<forall>c \<in> set s. is_digit c \<Longrightarrow> digits_value s < 10 ^ length s"
proof (induction s rule: rev_induct)
  case (snoc c s)
  then have "digit_val c < 10" "digits_value s < 10 ^ length s" using digit_val_lt by auto
  then show ?case by simp
qed simp

lemma nat_string_value [simp]: "digits_value (nat_string n) = n"
proof (induction n rule: nat_string.induct)
  case (1 n)
  then show ?case by (cases "n < 10") (simp_all add: nat_string.simps [of n] digits_value_def)
qed

lemma nat_string_digits: "c \<in> set (nat_string n) \<Longrightarrow> is_digit c"
proof (induction n rule: nat_string.induct)
  case (1 n)
  then show ?case by (cases "n < 10") (auto simp: nat_string.simps [of n])
qed

lemma nat_string_nonempty [simp]: "nat_string n \<noteq> []"
  by (subst nat_string.simps) simp

lemma nat_string_inject [simp]: "nat_string m = nat_string n \<longleftrightarrow> m = n"
  by (metis nat_string_value)

lemma nat_string_all_digits [simp]: "list_all is_digit (nat_string n)"
  by (auto simp: list_all_iff dest: nat_string_digits)

lemma int_string_chars: "c \<in> set (int_string i) \<Longrightarrow> is_digit c \<or> c = CHR ''-''"
  by (auto simp: int_string_def dest: nat_string_digits split: if_splits)

lemma minus_not_digit [simp]: "\<not> is_digit (CHR ''-'')" "\<not> is_digit (CHR ''_'')" "\<not> is_digit (CHR ''.'')"
    "\<not> is_digit (CHR '':'')"
  by (simp_all add: is_digit_def)

lemma int_string_inject [simp]: "int_string i = int_string j \<longleftrightarrow> i = j"
proof
  have hd: "is_digit (hd (nat_string n))" for n
    by (meson list.set_sel(1) nat_string_digits nat_string_nonempty)
  have ne: "nat_string n \<noteq> CHR ''-'' # xs" for n xs using hd [of n] by fastforce
  then have "CHR ''-'' # xs \<noteq> nat_string n" for n xs by metis
  with ne show "int_string i = int_string j \<Longrightarrow> i = j"
    by (auto simp: int_string_def split: if_splits)
qed simp

subsection \<open>Splitting and joining\<close>

fun split_on :: "char \<Rightarrow> string \<Rightarrow> string list" where
  "split_on c [] = [[]]"
| "split_on c (x # xs) = (if x = c then [] # split_on c xs
     else (case split_on c xs of [] \<Rightarrow> [[x]] | w # ws \<Rightarrow> (x # w) # ws))"

fun join_with :: "string \<Rightarrow> string list \<Rightarrow> string" where
  "join_with sep [] = []"
| "join_with sep [w] = w"
| "join_with sep (w # ws) = w @ sep @ join_with sep ws"

lemma split_on_nonempty [simp]: "split_on c s \<noteq> []"
  by (cases s) (auto split: list.splits)

lemma split_on_none: "c \<notin> set s \<Longrightarrow> split_on c s = [s]"
  by (induction s) auto

lemma split_on_append: "c \<notin> set s \<Longrightarrow> split_on c (s @ c # t) = s # split_on c t"
  by (induction s) auto

lemma split_join: "ws \<noteq> [] \<Longrightarrow> \<forall>w \<in> set ws. c \<notin> set w \<Longrightarrow> split_on c (join_with [c] ws) = ws"
  by (induction "[c]" ws rule: join_with.induct) (auto simp: split_on_none split_on_append)

lemma join_split: "join_with [c] (split_on c s) = s"
proof (induction s)
  case (Cons x s)
  obtain w ws where w: "split_on c s = w # ws" by (cases "split_on c s") auto
  with Cons show ?case by (cases ws) auto
qed simp

text \<open>A suffix free of the separator is determined by the whole string.\<close>

lemma append_sep_inject:
  assumes "s @ c # t = s' @ c # t'" "c \<notin> set t" "c \<notin> set t'"
  shows "s = s' \<and> t = t'"
proof -
  have "takeWhile (\<lambda>x. x \<noteq> c) (rev (s @ c # t)) = rev t"
    using assms(2) by (auto simp: takeWhile_append)
  moreover have "takeWhile (\<lambda>x. x \<noteq> c) (rev (s' @ c # t')) = rev t'"
    using assms(3) by (auto simp: takeWhile_append)
  ultimately have "t = t'" using assms(1) by simp
  with assms(1) show ?thesis by simp
qed

subsection \<open>Other string operations\<close>

definition is_space :: "char \<Rightarrow> bool" where
  "is_space c = ((of_char c :: nat) \<in> {9, 10, 11, 12, 13, 32})"

definition trim :: "string \<Rightarrow> string" where
  "trim s = rev (dropWhile is_space (rev (dropWhile is_space s)))"

definition lower_char :: "char \<Rightarrow> char" where
  "lower_char c = (let n = of_char c :: nat in if 65 \<le> n \<and> n \<le> 90 then char_of (n + 32) else c)"

definition to_lower :: "string \<Rightarrow> string" where
  "to_lower s = map lower_char s"

definition upper_char :: "char \<Rightarrow> char" where
  "upper_char c = (let n = of_char c :: nat in if 97 \<le> n \<and> n \<le> 122 then char_of (n - 32) else c)"

definition to_upper :: "string \<Rightarrow> string" where
  "to_upper s = map upper_char s"

fun starts_with :: "string \<Rightarrow> string \<Rightarrow> bool" where
  "starts_with [] s = True"
| "starts_with (p # ps) [] = False"
| "starts_with (p # ps) (x # xs) = (p = x \<and> starts_with ps xs)"

fun contains :: "string \<Rightarrow> string \<Rightarrow> bool" where
  "contains p [] = (p = [])"
| "contains p (x # xs) = (starts_with p (x # xs) \<or> contains p xs)"

definition pad_start :: "nat \<Rightarrow> char \<Rightarrow> string \<Rightarrow> string" where
  "pad_start n c s = replicate (n - length s) c @ s"

definition pad_end :: "nat \<Rightarrow> char \<Rightarrow> string \<Rightarrow> string" where
  "pad_end n c s = s @ replicate (n - length s) c"

lemma starts_with_prefix: "starts_with p s \<longleftrightarrow> prefix p s"
  by (induction p s rule: starts_with.induct) auto

lemma contains_sublist: "contains p s \<longleftrightarrow> sublist p s"
proof (induction s)
  case (Cons x xs)
  then show ?case using starts_with_prefix [of p "x # xs"] by (auto simp: sublist_Cons_right)
qed auto

lemma trim_Nil [simp]: "trim [] = []"
  by (simp add: trim_def)

end
