(* ===== verification/Engine.thy ===== *)
theory Engine
  imports BookInvariant JsString
begin

text \<open>
  \<open>src/matching/engine.ts\<close>: matching an incoming order against the book. The engine calls five
  operations of the book, collected in \<open>book_ops\<close>; \<open>match_order\<close> and everything below it take
  that record, and \<open>order_book_ops\<close> is the class of \<open>orderbook.ts\<close>. The \<open>while\<close> loop is
  \<open>match_loop\<close>, a partial function on (book, trades, executed commands, remaining quantity):
  that it returns is proved, not assumed. \<open>hook\<close> is \<open>hooks.onTradeFilled\<close>: \<open>Some e\<close> is a
  callback that throws \<open>e\<close>. \<open>Date.now()\<close>, read once, is the argument \<open>now\<close>.
\<close>

datatype order_side = BUY | SELL
datatype outcome = YES | NO

record matching_order =
  mo_id :: string
  mo_user :: string
  mo_side :: order_side
  mo_price :: number
  mo_quantity :: int
  mo_market :: string
  mo_outcome :: outcome
  mo_timestamp :: int

record trade =
  tr_id :: string
  tr_market :: string
  tr_outcome :: outcome
  tr_buyer :: string
  tr_seller :: string
  tr_buy_order :: string
  tr_sell_order :: string
  tr_price :: number
  tr_quantity :: int
  tr_timestamp :: int

record position_delta =
  pd_user :: string
  pd_yes :: int
  pd_no :: int

record match_result =
  mr_trades :: "trade list"
  mr_remaining :: "matching_order option"
  mr_deltas :: "position_delta list"

record 'b book_ops =
  op_best_bid :: "'b \<Rightarrow> order option"
  op_best_ask :: "'b \<Rightarrow> order option"
  op_remove :: "string \<Rightarrow> 'b \<Rightarrow> order option \<times> 'b"
  op_update :: "string \<Rightarrow> int \<Rightarrow> 'b \<Rightarrow> string + bool \<times> 'b"
  op_add :: "order \<Rightarrow> 'b \<Rightarrow> string + 'b"

definition order_book_ops :: "book book_ops" where
  "order_book_ops = \<lparr>op_best_bid = get_best_bid, op_best_ask = get_best_ask,
     op_remove = remove_order, op_update = update_order_quantity, op_add = add_order\<rparr>"

subsection \<open>Commands\<close>

text \<open>\<open>RemoveOrder i r\<close>: \<open>r\<close> is the field \<open>removedOrder\<close>, set by \<open>execute\<close>.
  \<open>UpdateQuantity i n p\<close>: new and previous quantity.\<close>

datatype match_command = RemoveOrder string "order option" | UpdateQuantity string int int

fun execute :: "'b book_ops \<Rightarrow> match_command \<Rightarrow> 'b \<Rightarrow> string + match_command \<times> 'b" where
  "execute ops (RemoveOrder i r) b =
     (let (removed, b') = op_remove ops i b in Inr (RemoveOrder i removed, b'))"
| "execute ops (UpdateQuantity i n p) b =
     (case op_update ops i n b of Inl e \<Rightarrow> Inl e | Inr (_, b') \<Rightarrow> Inr (UpdateQuantity i n p, b'))"

fun rollback :: "'b book_ops \<Rightarrow> match_command \<Rightarrow> 'b \<Rightarrow> string + 'b" where
  "rollback ops (RemoveOrder i None) b = Inr b"
| "rollback ops (RemoveOrder i (Some ord)) b = op_add ops ord b"
| "rollback ops (UpdateQuantity i n p) b =
     (case op_update ops i p b of Inl e \<Rightarrow> Inl e | Inr (_, b') \<Rightarrow> Inr b')"

text \<open>From the last command to the first; \<open>Some e\<close> is a rollback that throws midway.\<close>

fun rollback_all :: "'b book_ops \<Rightarrow> match_command list \<Rightarrow> 'b \<Rightarrow> 'b \<times> string option" where
  "rollback_all ops [] b = (b, None)"
| "rollback_all ops (c # cs) b = (case rollback ops c b of
       Inl e \<Rightarrow> (b, Some e)
     | Inr b' \<Rightarrow> rollback_all ops cs b')"

definition rollback_commands :: "'b book_ops \<Rightarrow> match_command list \<Rightarrow> 'b \<Rightarrow> 'b \<times> string option" where
  "rollback_commands ops cs b = rollback_all ops (rev cs) b"

subsection \<open>Trades and deltas\<close>

definition outcome_to_number :: "outcome \<Rightarrow> nat" where
  "outcome_to_number oc = (if oc = YES then 0 else 1)"

definition can_match :: "number \<Rightarrow> number \<Rightarrow> order_side \<Rightarrow> bool" where
  "can_match taker maker side = (if side = BUY then maker \<le> taker else maker \<ge> taker)"

definition generate_trade_id :: "string \<Rightarrow> string \<Rightarrow> int \<Rightarrow> int \<Rightarrow> string" where
  "generate_trade_id buy sell quantity timestamp =
     ''trade_'' @ buy @ ''_'' @ sell @ ''_'' @ int_string quantity @ ''_'' @ int_string timestamp"

definition create_trade :: "matching_order \<Rightarrow> order \<Rightarrow> int \<Rightarrow> number \<Rightarrow> int \<Rightarrow> trade" where
  "create_trade new bo quantity price timestamp =
     (let is_buyer = (mo_side new = BUY) in
      \<lparr>tr_id = generate_trade_id (if is_buyer then mo_id new else o_id bo)
                 (if is_buyer then o_id bo else mo_id new) quantity timestamp,
       tr_market = mo_market new, tr_outcome = mo_outcome new,
       tr_buyer = (if is_buyer then mo_user new else o_user bo),
       tr_seller = (if is_buyer then o_user bo else mo_user new),
       tr_buy_order = (if is_buyer then mo_id new else o_id bo),
       tr_sell_order = (if is_buyer then o_id bo else mo_id new),
       tr_price = price, tr_quantity = quantity, tr_timestamp = timestamp\<rparr>)"

text \<open>The map \<open>user \<mapsto> {yes, no}\<close> of \<open>calculatePositionDeltas\<close>; when buyer and seller are the
  same user both updates hit the same entry.\<close>

type_synonym delta_map = "(string \<times> int \<times> int) list"

definition ensure_user :: "string \<Rightarrow> delta_map \<Rightarrow> delta_map" where
  "ensure_user u m = (if map_of m u = None then AList.update u (0, 0) m else m)"

definition bump :: "outcome \<Rightarrow> string \<Rightarrow> int \<Rightarrow> delta_map \<Rightarrow> delta_map" where
  "bump oc u q m = (case map_of m u of
       None \<Rightarrow> m
     | Some (yes, no) \<Rightarrow>
         AList.update u (if oc = YES then (yes + q, no) else (yes, no + q)) m)"

definition delta_step :: "delta_map \<Rightarrow> trade \<Rightarrow> delta_map" where
  "delta_step m t =
     (let m1 = ensure_user (tr_seller t) (ensure_user (tr_buyer t) m)
      in bump (tr_outcome t) (tr_seller t) (- tr_quantity t)
           (bump (tr_outcome t) (tr_buyer t) (tr_quantity t) m1))"

definition calculate_position_deltas :: "trade list \<Rightarrow> position_delta list" where
  "calculate_position_deltas ts =
     map (\<lambda>(u, yes, no). \<lparr>pd_user = u, pd_yes = yes, pd_no = no\<rparr>) (foldl delta_step [] ts)"

subsection \<open>The matching loop\<close>

record 'b match_state =
  ms_book :: 'b
  ms_trades :: "trade list"
  ms_commands :: "match_command list"
  ms_remaining :: int

definition best_opposite :: "'b book_ops \<Rightarrow> order_side \<Rightarrow> 'b \<Rightarrow> order option" where
  "best_opposite ops side = (if side = BUY then op_best_ask ops else op_best_bid ops)"

text \<open>One iteration: \<open>None\<close> is a \<open>break\<close>, \<open>Some (Some e, st)\<close> a throw with the state it leaves.\<close>

definition match_iteration :: "'b book_ops \<Rightarrow> (trade \<Rightarrow> string option) \<Rightarrow> int \<Rightarrow> matching_order \<Rightarrow>
    'b match_state \<Rightarrow> (string option \<times> 'b match_state) option" where
  "match_iteration ops hook now new st =
     (case best_opposite ops (mo_side new) (ms_book st) of
        None \<Rightarrow> None
      | Some bo \<Rightarrow>
          if \<not> can_match (mo_price new) (o_price bo) (mo_side new) then None
          else
            let fill_qty = min (ms_remaining st) (o_quantity bo);
                t = create_trade new bo fill_qty (o_price bo) now;
                st1 = st\<lparr>ms_trades := ms_trades st @ [t]\<rparr>
            in (case hook t of
                  Some e \<Rightarrow> Some (Some e, st1)
                | None \<Rightarrow>
                    let new_qty = o_quantity bo - fill_qty;
                        cmd = (if new_qty = 0 then RemoveOrder (o_id bo) None
                               else UpdateQuantity (o_id bo) new_qty (o_quantity bo))
                    in (case execute ops cmd (ms_book st) of
                          Inl e \<Rightarrow> Some (Some e, st1)
                        | Inr (cmd', b') \<Rightarrow>
                            Some (None, st1\<lparr>ms_book := b', ms_commands := ms_commands st @ [cmd'],
                                            ms_remaining := ms_remaining st - fill_qty\<rparr>))))"

partial_function (option) match_loop :: "'b book_ops \<Rightarrow> (trade \<Rightarrow> string option) \<Rightarrow> int \<Rightarrow>
    matching_order \<Rightarrow> 'b match_state \<Rightarrow> (string option \<times> 'b match_state) option" where
  "match_loop ops hook now new st =
     (if ms_remaining st > 0 then
        (case match_iteration ops hook now new st of
           None \<Rightarrow> Some (None, st)
         | Some (Some e, st') \<Rightarrow> Some (Some e, st')
         | Some (None, st') \<Rightarrow> match_loop ops hook now new st')
      else Some (None, st))"

declare match_loop.simps [code]

text \<open>\<open>matchOrder\<close>: the book it leaves, and the result or the exception (of the hook or a
  command, or of a rollback step, which replaces it). \<open>None\<close> is a loop that does not end.\<close>

definition match_order :: "'b book_ops \<Rightarrow> (trade \<Rightarrow> string option) \<Rightarrow> int \<Rightarrow> matching_order \<Rightarrow> 'b \<Rightarrow>
    ('b \<times> (string + match_result)) option" where
  "match_order ops hook now new b =
     (case match_loop ops hook now new
             \<lparr>ms_book = b, ms_trades = [], ms_commands = [], ms_remaining = mo_quantity new\<rparr> of
        None \<Rightarrow> None
      | Some (Some e, st) \<Rightarrow>
          (case rollback_commands ops (ms_commands st) (ms_book st) of
             (b', None) \<Rightarrow> Some (b', Inl e)
           | (b', Some e') \<Rightarrow> Some (b', Inl e'))
      | Some (None, st) \<Rightarrow>
          Some (ms_book st, Inr \<lparr>
            mr_trades = ms_trades st,
            mr_remaining = (if ms_remaining st > 0
                            then Some (new\<lparr>mo_quantity := ms_remaining st\<rparr>) else None),
            mr_deltas = calculate_position_deltas (ms_trades st)\<rparr>))"

end
