(* ===== verification/Matching.thy ===== *)
theory Matching
  imports Engine
begin

text \<open>
  What \<open>matchOrder\<close> promises. \<open>fill\<close> is its specification on the queue of the opposite side:
  the resting orders are taken in price-time priority while their price is acceptable and
  quantity is left. The locale \<open>book_interface\<close> states what the engine relies on from the
  book; inside it the loop is shown to end, to compute \<open>fill\<close>, and to be undone by the
  rollback when the callback throws. \<open>order_book_ops\<close> is shown to meet the interface.
\<close>

definition opposite :: "order_side \<Rightarrow> book_side" where
  "opposite side = (if side = BUY then Ask else Bid)"

definition own_side :: "order_side \<Rightarrow> book_side" where
  "own_side side = (if side = BUY then Bid else Ask)"

fun fill :: "matching_order \<Rightarrow> int \<Rightarrow> order list \<Rightarrow> (order \<times> int) list \<times> order list \<times> int" where
  "fill new r [] = ([], [], r)"
| "fill new r (x # q) =
     (if r \<le> 0 \<or> \<not> can_match (mo_price new) (o_price x) (mo_side new) then ([], x # q, r)
      else if o_quantity x \<le> r then
        (let (fs, q', r') = fill new (r - o_quantity x) q in ((x, o_quantity x) # fs, q', r'))
      else ([(x, r)], set_quantity (o_id x) (o_quantity x - r) x # q, 0))"

definition fill_trade :: "matching_order \<Rightarrow> int \<Rightarrow> order \<times> int \<Rightarrow> trade" where
  "fill_trade new now f = create_trade new (fst f) (snd f) (o_price (fst f)) now"

fun first_error :: "(trade \<Rightarrow> string option) \<Rightarrow> trade list \<Rightarrow> string option" where
  "first_error hook [] = None"
| "first_error hook (t # ts) = (case hook t of Some e \<Rightarrow> Some e | None \<Rightarrow> first_error hook ts)"

lemma fill_stop: "r \<le> 0 \<Longrightarrow> fill new r q = ([], q, r)"
  by (cases q) auto

lemma fill_full:
  "0 < r \<Longrightarrow> can_match (mo_price new) (o_price x) (mo_side new) \<Longrightarrow> o_quantity x \<le> r \<Longrightarrow>
     fill new r (x # q) =
       (let (fs, q', r') = fill new (r - o_quantity x) q in ((x, o_quantity x) # fs, q', r'))"
  "0 < r \<Longrightarrow> can_match (mo_price new) (o_price x) (mo_side new) \<Longrightarrow> \<not> o_quantity x \<le> r \<Longrightarrow>
     fill new r (x # q) = ([(x, r)], set_quantity (o_id x) (o_quantity x - r) x # q, 0)"
  by simp_all

declare fill.simps(2) [simp del]

lemma rollback_all_append:
  "rollback_all ops (cs @ ds) b = (case rollback_all ops cs b of
     (b', None) \<Rightarrow> rollback_all ops ds b' | (b', Some e) \<Rightarrow> (b', Some e))"
  by (induction cs arbitrary: b) (auto split: sum.splits)

locale book_interface =
  fixes ops :: "'b book_ops" and ok :: "'b \<Rightarrow> bool" and queue_of :: "book_side \<Rightarrow> 'b \<Rightarrow> order list"
    and admits :: "order \<Rightarrow> 'b \<Rightarrow> bool"
  assumes best_bid_law: "ok b \<Longrightarrow> op_best_bid ops b = (case queue_of Bid b of [] \<Rightarrow> None | x # _ \<Rightarrow> Some x)"
    and best_ask_law: "ok b \<Longrightarrow> op_best_ask ops b = (case queue_of Ask b of [] \<Rightarrow> None | x # _ \<Rightarrow> Some x)"
    and sorted_law: "ok b \<Longrightarrow> sorted_wrt (\<lambda>x y. \<not> better s (o_price y) (o_price x)) (queue_of s b)"
    and ids_law: "ok b \<Longrightarrow> distinct (map o_id (queue_of Bid b @ queue_of Ask b))"
    and member_law: "ok b \<Longrightarrow> x \<in> set (queue_of s b) \<Longrightarrow> o_side x = s \<and> admits x b"
    and admits_quantity: "admits (x\<lparr>o_quantity := n\<rparr>) b = admits x b"
    and remove_law: "ok b \<Longrightarrow> x \<in> set (queue_of s b) \<Longrightarrow>
      \<exists>b'. op_remove ops (o_id x) b = (Some x, b') \<and> ok b' \<and> (\<forall>y. admits y b' = admits y b) \<and>
        (\<forall>s. queue_of s b' = filter (\<lambda>y. o_id y \<noteq> o_id x) (queue_of s b))"
    and update_law: "ok b \<Longrightarrow> x \<in> set (queue_of s b) \<Longrightarrow> 0 < q \<Longrightarrow>
      \<exists>b'. op_update ops (o_id x) q b = Inr (True, b') \<and> ok b' \<and> (\<forall>y. admits y b' = admits y b) \<and>
        (\<forall>s. queue_of s b' = map (set_quantity (o_id x) q) (queue_of s b))"
    and add_law: "ok b \<Longrightarrow> admits x b \<Longrightarrow> (\<And>s y. y \<in> set (queue_of s b) \<Longrightarrow> o_id y \<noteq> o_id x) \<Longrightarrow>
      \<exists>b'. op_add ops x b = Inr b' \<and> ok b' \<and> (\<forall>y. admits y b' = admits y b) \<and>
        (\<forall>s. queue_of s b' = (if s = o_side x then insert_prio (better s) x (queue_of s b)
                              else queue_of s b))"
begin

text \<open>Two books with the same resting orders, whatever their time order.\<close>

definition contents :: "'b \<Rightarrow> 'b \<Rightarrow> bool" where
  "contents b c = (ok b \<and> ok c \<and> (\<forall>s. set (queue_of s b) = set (queue_of s c)) \<and>
     (\<forall>y. admits y b = admits y c))"

lemma contents_refl: "ok b \<Longrightarrow> contents b b"
  by (simp add: contents_def)

lemma best_opposite_head:
  "ok b \<Longrightarrow> best_opposite ops side b = (case queue_of (opposite side) b of [] \<Rightarrow> None | x # _ \<Rightarrow> Some x)"
  by (simp add: best_opposite_def opposite_def best_bid_law best_ask_law)

lemma unique_id:
  assumes "ok b" "x \<in> set (queue_of s b)" "y \<in> set (queue_of t b)" "o_id x = o_id y"
  shows "x = y" "s = t"
proof -
  have "x \<in> set (queue_of Bid b @ queue_of Ask b)" "y \<in> set (queue_of Bid b @ queue_of Ask b)"
    using assms(2,3) by (cases s; cases t; simp)+
  then show "x = y" using distinct_map_inj_mem [OF ids_law [OF assms(1)]] assms(4) by blast
  then show "s = t" using member_law [OF assms(1,2)] member_law [OF assms(1,3)] by simp
qed

lemma queue_ids: "ok b \<Longrightarrow> distinct (map o_id (queue_of s b))"
  using ids_law by (cases s) auto

lemma other_ids:
  assumes "ok b" "x \<in> set (queue_of s b)" "t \<noteq> s" "y \<in> set (queue_of t b)"
  shows "o_id y \<noteq> o_id x"
  using unique_id(2) [OF assms(1,4,2)] assms(3) by auto

lemma tail_ids:
  assumes "ok b" "queue_of s b = x # q"
  shows "\<forall>y \<in> set q. o_id y \<noteq> o_id x"
proof -
  have "o_id x \<notin> o_id ` set q" using queue_ids [OF assms(1), of s] assms(2) by simp
  then show ?thesis by (metis imageI)
qed

lemma remove_head:
  assumes "ok b" "queue_of s b = x # q"
  shows "\<exists>b'. op_remove ops (o_id x) b = (Some x, b') \<and> ok b' \<and> (\<forall>y. admits y b' = admits y b) \<and>
    queue_of s b' = q \<and> (\<forall>t. t \<noteq> s \<longrightarrow> queue_of t b' = queue_of t b)"
proof -
  have x: "x \<in> set (queue_of s b)" using assms(2) by simp
  have "\<forall>y \<in> set q. o_id y \<noteq> o_id x" by (rule tail_ids [OF assms(1,2)])
  then have "filter (\<lambda>y. o_id y \<noteq> o_id x) (queue_of s b) = q" using assms(2) by (simp add: filter_id_conv)
  moreover have "filter (\<lambda>y. o_id y \<noteq> o_id x) (queue_of t b) = queue_of t b" if "t \<noteq> s" for t
    using other_ids [OF assms(1) x that] by (simp add: filter_id_conv)
  ultimately show ?thesis using remove_law [OF assms(1) x] by auto
qed

lemma update_head:
  assumes "ok b" "queue_of s b = x # q" "0 < n"
  shows "\<exists>b'. op_update ops (o_id x) n b = Inr (True, b') \<and> ok b' \<and> (\<forall>y. admits y b' = admits y b) \<and>
    queue_of s b' = set_quantity (o_id x) n x # q \<and> (\<forall>t. t \<noteq> s \<longrightarrow> queue_of t b' = queue_of t b)"
proof -
  have x: "x \<in> set (queue_of s b)" using assms(2) by simp
  have "\<forall>y \<in> set q. o_id y \<noteq> o_id x" by (rule tail_ids [OF assms(1,2)])
  then have "map (set_quantity (o_id x) n) (queue_of s b) = set_quantity (o_id x) n x # q"
    using assms(2) by (simp add: map_idI)
  moreover have "map (set_quantity (o_id x) n) (queue_of t b) = queue_of t b" if "t \<noteq> s" for t
    using other_ids [OF assms(1) x that] by (simp add: map_idI)
  ultimately show ?thesis using update_law [OF assms(1) x assms(3)] by auto
qed

text \<open>Undoing one command on any book with the contents the command left.\<close>

lemma undo_remove:
  assumes b: "ok b" "queue_of s b = x # q"
    and b': "queue_of s b' = q" "\<forall>t. t \<noteq> s \<longrightarrow> queue_of t b' = queue_of t b" "\<forall>y. admits y b' = admits y b"
    and c: "contents b' c"
  shows "\<exists>c'. rollback ops (RemoveOrder i (Some x)) c = Inr c' \<and> contents b c'"
proof -
  have x: "x \<in> set (queue_of s b)" using b by simp
  have setc: "set (queue_of t c) = set (queue_of t b')" for t using c by (simp add: contents_def)
  have "o_id y \<noteq> o_id x" if "y \<in> set (queue_of t c)" for t y
  proof (cases "t = s")
    case True
    then show ?thesis using that setc b'(1) tail_ids [OF b] by auto
  next
    case False
    then show ?thesis using that setc b'(2) other_ids [OF b(1) x False] by auto
  qed
  moreover have "admits x c" using member_law [OF b(1) x] b'(3) c by (simp add: contents_def)
  ultimately obtain c' where c': "op_add ops x c = Inr c'" "ok c'" "\<forall>y. admits y c' = admits y c"
    "\<forall>t. queue_of t c' = (if t = o_side x then insert_prio (better t) x (queue_of t c) else queue_of t c)"
    using add_law [of c x] c by (auto simp: contents_def)
  have "set (queue_of t c') = set (queue_of t b)" for t
    using c'(4) setc [of t] b' b(2) member_law [OF b(1) x] by (cases "t = s") auto
  then have "contents b c'" using b(1) c' b'(3) c by (simp add: contents_def)
  then show ?thesis using c'(1) by simp
qed

lemma undo_update:
  assumes b: "ok b" "queue_of s b = x # q" and n: "0 < n" "0 < o_quantity x"
    and b': "queue_of s b' = set_quantity (o_id x) n x # q"
      "\<forall>t. t \<noteq> s \<longrightarrow> queue_of t b' = queue_of t b" "\<forall>y. admits y b' = admits y b"
    and c: "contents b' c"
  shows "\<exists>c'. rollback ops (UpdateQuantity (o_id x) n (o_quantity x)) c = Inr c' \<and> contents b c'"
proof -
  define x' where "x' = set_quantity (o_id x) n x"
  have setc: "set (queue_of t c) = set (queue_of t b')" for t using c by (simp add: contents_def)
  then have x': "x' \<in> set (queue_of s c)" using b'(1) by (simp add: x'_def)
  obtain c' where c': "op_update ops (o_id x') (o_quantity x) c = Inr (True, c')" "ok c'"
      "\<forall>y. admits y c' = admits y c"
      "\<forall>t. queue_of t c' = map (set_quantity (o_id x') (o_quantity x)) (queue_of t c)"
    using update_law [OF _ x' n(2)] c by (auto simp: contents_def)
  have id: "o_id x' = o_id x" and restore: "set_quantity (o_id x) (o_quantity x) x' = x"
    by (simp_all add: x'_def set_quantity_def)
  have "set (queue_of t c') = set (queue_of t b)" for t
  proof (cases "t = s")
    case True
    have "set_quantity (o_id x) (o_quantity x) ` set q = set q"
      using tail_ids [OF b] by (simp add: image_def)
    then show ?thesis using True c'(4) setc [of s] b'(1) b(2) restore by (simp add: id x'_def [symmetric])
  next
    case False
    have "set_quantity (o_id x) (o_quantity x) ` set (queue_of t b) = set (queue_of t b)"
      using other_ids [OF b(1) _ False, of x] b(2) by (simp add: image_def)
    then show ?thesis using False c'(4) setc [of t] b'(2) by (simp add: id)
  qed
  then have "contents b c'" using b(1) c' b'(3) c by (simp add: contents_def)
  then show ?thesis using c'(1) by (simp add: id)
qed

text \<open>One command of the loop, forwards and backwards.\<close>

lemma command_step:
  assumes b: "ok b" "queue_of s b = x # q" and r: "0 < r"
  defines "f \<equiv> min r (o_quantity x)"
  shows "\<exists>c b'. execute ops (if o_quantity x - f = 0 then RemoveOrder (o_id x) None
        else UpdateQuantity (o_id x) (o_quantity x - f) (o_quantity x)) b = Inr (c, b') \<and> ok b' \<and>
      (\<forall>y. admits y b' = admits y b) \<and> queue_of s b' = (if o_quantity x \<le> r then q else set_quantity (o_id x) (o_quantity x - r) x # q) \<and>
      (\<forall>t. t \<noteq> s \<longrightarrow> queue_of t b' = queue_of t b) \<and>
      (\<forall>d. contents b' d \<longrightarrow> (\<exists>d'. rollback ops c d = Inr d' \<and> contents b d'))"
proof (cases "o_quantity x \<le> r")
  case True
  obtain b' where b': "op_remove ops (o_id x) b = (Some x, b')" "ok b'" "\<forall>y. admits y b' = admits y b"
      "queue_of s b' = q" "\<forall>t. t \<noteq> s \<longrightarrow> queue_of t b' = queue_of t b"
    using remove_head [OF b] by blast
  then show ?thesis
    using True undo_remove [OF b b'(4,5,3)] by (simp add: f_def min_def)
next
  case False
  then have n: "0 < o_quantity x - r" "0 < o_quantity x" using r by auto
  obtain b' where b': "op_update ops (o_id x) (o_quantity x - r) b = Inr (True, b')" "ok b'"
      "\<forall>y. admits y b' = admits y b" "queue_of s b' = set_quantity (o_id x) (o_quantity x - r) x # q"
      "\<forall>t. t \<noteq> s \<longrightarrow> queue_of t b' = queue_of t b"
    using update_head [OF b n(1)] by blast
  then show ?thesis
    using False n undo_update [OF b n b'(4,5,3)] by (simp add: f_def min_def)
qed

text \<open>The loop returns, computes \<open>fill\<close> unless the callback throws, and its commands undo it.\<close>

definition loop_result :: "(trade \<Rightarrow> string option) \<Rightarrow> int \<Rightarrow> matching_order \<Rightarrow>
    'b match_state \<Rightarrow> string option \<Rightarrow> 'b match_state \<Rightarrow> bool" where
  "loop_result hook now new st e st' =
     (let (fs, q', r') = fill new (ms_remaining st) (queue_of (opposite (mo_side new)) (ms_book st))
      in e = first_error hook (map (fill_trade new now) fs) \<and> ok (ms_book st') \<and>
         (\<forall>y. admits y (ms_book st') = admits y (ms_book st)) \<and>
         queue_of (own_side (mo_side new)) (ms_book st') = queue_of (own_side (mo_side new)) (ms_book st) \<and>
         (e = None \<longrightarrow> queue_of (opposite (mo_side new)) (ms_book st') = q' \<and> ms_remaining st' = r' \<and>
            ms_trades st' = ms_trades st @ map (fill_trade new now) fs))"

definition undoable :: "'b match_state \<Rightarrow> 'b match_state \<Rightarrow> bool" where
  "undoable st st' = (\<exists>cs. ms_commands st' = ms_commands st @ cs \<and>
     (\<forall>d. contents (ms_book st') d \<longrightarrow>
        (\<exists>d'. rollback_all ops (rev cs) d = (d', None) \<and> contents (ms_book st) d')))"

lemma undoable_refl: "ms_commands st' = ms_commands st \<Longrightarrow> ms_book st' = ms_book st \<Longrightarrow> undoable st st'"
  by (auto simp: undoable_def)

lemma undoable_step:
  assumes "ms_commands st1 = ms_commands st @ [c]" "undoable st1 st'"
    and "\<forall>d. contents (ms_book st1) d \<longrightarrow> (\<exists>d'. rollback ops c d = Inr d' \<and> contents (ms_book st) d')"
  shows "undoable st st'"
proof -
  obtain cs where cs: "ms_commands st' = ms_commands st1 @ cs"
      "\<forall>d. contents (ms_book st') d \<longrightarrow>
        (\<exists>d'. rollback_all ops (rev cs) d = (d', None) \<and> contents (ms_book st1) d')"
    using assms(2) by (auto simp: undoable_def)
  have "\<exists>d'. rollback_all ops (rev (c # cs)) d = (d', None) \<and> contents (ms_book st) d'"
    if d: "contents (ms_book st') d" for d
  proof -
    obtain d1 where d1: "rollback_all ops (rev cs) d = (d1, None)" "contents (ms_book st1) d1"
      using cs(2) d by blast
    obtain d2 where "rollback ops c d1 = Inr d2" "contents (ms_book st) d2" using assms(3) d1(2) by blast
    with d1(1) show ?thesis by (simp add: rollback_all_append)
  qed
  then show ?thesis using cs(1) assms(1) by (auto simp: undoable_def intro!: exI [of _ "c # cs"])
qed

lemma loop_result_stop:
  assumes "ok (ms_book st)"
    and "fill new (ms_remaining st) (queue_of (opposite (mo_side new)) (ms_book st)) =
      ([], queue_of (opposite (mo_side new)) (ms_book st), ms_remaining st)"
  shows "loop_result hook now new st None st"
  using assms by (simp add: loop_result_def)

text \<open>An iteration on a matching head \<open>x\<close> of the opposite queue.\<close>

definition head_matches :: "matching_order \<Rightarrow> 'b match_state \<Rightarrow> order \<Rightarrow> order list \<Rightarrow> bool" where
  "head_matches new st x q = (ok (ms_book st) \<and> 0 < ms_remaining st \<and>
     queue_of (opposite (mo_side new)) (ms_book st) = x # q \<and>
     can_match (mo_price new) (o_price x) (mo_side new))"

lemma iteration_none:
  assumes "ok (ms_book st)" "\<nexists>x q. head_matches new st x q"
  shows "match_loop ops hook now new st = Some (None, st)" "loop_result hook now new st None st"
proof -
  have stop: "fill new (ms_remaining st) (queue_of (opposite (mo_side new)) (ms_book st)) =
      ([], queue_of (opposite (mo_side new)) (ms_book st), ms_remaining st)"
    using assms
    by (cases "queue_of (opposite (mo_side new)) (ms_book st)") (auto simp: head_matches_def fill.simps(2))
  show "loop_result hook now new st None st" by (rule loop_result_stop [OF assms(1) stop])
  have "match_iteration ops hook now new st = None" if "0 < ms_remaining st"
    using that assms best_opposite_head [OF assms(1), of "mo_side new"]
    by (auto simp: match_iteration_def head_matches_def split: list.splits)
  then show "match_loop ops hook now new st = Some (None, st)" by (simp add: match_loop.simps)
qed

lemma iteration_throw:
  assumes h: "head_matches new st x q" and f: "f = min (ms_remaining st) (o_quantity x)"
    and e: "hook (fill_trade new now (x, f)) = Some e"
  defines "st' \<equiv> st\<lparr>ms_trades := ms_trades st @ [fill_trade new now (x, f)]\<rparr>"
  shows "match_loop ops hook now new st = Some (Some e, st')" "loop_result hook now new st (Some e) st'"
proof -
  have "best_opposite ops (mo_side new) (ms_book st) = Some x"
    using h best_opposite_head [of "ms_book st" "mo_side new"] by (simp add: head_matches_def)
  then have "match_iteration ops hook now new st = Some (Some e, st')"
    using h e by (simp add: match_iteration_def head_matches_def f st'_def fill_trade_def)
  then show "match_loop ops hook now new st = Some (Some e, st')"
    using h by (simp add: match_loop.simps head_matches_def)
  obtain fs q' r' where "fill new (ms_remaining st) (x # q) = ((x, f) # fs, q', r')"
    using h fill_full(1,2) [of "ms_remaining st" new x q]
    by (cases "o_quantity x \<le> ms_remaining st") (auto simp: head_matches_def f min_def split: prod.splits)
  then show "loop_result hook now new st (Some e) st'"
    using h e by (simp add: loop_result_def head_matches_def st'_def)
qed

lemma iteration_fill:
  assumes h: "head_matches new st x q" and f: "f = min (ms_remaining st) (o_quantity x)"
    and e: "hook (fill_trade new now (x, f)) = None"
  shows "\<exists>st1. match_loop ops hook now new st = match_loop ops hook now new st1 \<and> ok (ms_book st1) \<and>
    (\<forall>y. admits y (ms_book st1) = admits y (ms_book st)) \<and>
    ms_trades st1 = ms_trades st @ [fill_trade new now (x, f)] \<and> ms_remaining st1 = ms_remaining st - f \<and>
    queue_of (opposite (mo_side new)) (ms_book st1) = (if o_quantity x \<le> ms_remaining st then q
       else set_quantity (o_id x) (o_quantity x - ms_remaining st) x # q) \<and>
    queue_of (own_side (mo_side new)) (ms_book st1) = queue_of (own_side (mo_side new)) (ms_book st) \<and>
    (\<forall>st'. undoable st1 st' \<longrightarrow> undoable st st')"
proof -
  have best: "best_opposite ops (mo_side new) (ms_book st) = Some x"
    using h best_opposite_head [of "ms_book st" "mo_side new"] by (simp add: head_matches_def)
  obtain c b' where step: "execute ops (if o_quantity x - f = 0 then RemoveOrder (o_id x) None
        else UpdateQuantity (o_id x) (o_quantity x - f) (o_quantity x)) (ms_book st) = Inr (c, b')"
    and b': "ok b'" "\<forall>y. admits y b' = admits y (ms_book st)"
          "queue_of (opposite (mo_side new)) b' = (if o_quantity x \<le> ms_remaining st then q
            else set_quantity (o_id x) (o_quantity x - ms_remaining st) x # q)"
          "\<forall>t. t \<noteq> opposite (mo_side new) \<longrightarrow> queue_of t b' = queue_of t (ms_book st)"
    and undo: "\<forall>d. contents b' d \<longrightarrow> (\<exists>d'. rollback ops c d = Inr d' \<and> contents (ms_book st) d')"
    using command_step [of "ms_book st" "opposite (mo_side new)" x q "ms_remaining st"] h
    unfolding f head_matches_def by blast
  define st1 where "st1 = st\<lparr>ms_trades := ms_trades st @ [fill_trade new now (x, f)], ms_book := b',
    ms_commands := ms_commands st @ [c], ms_remaining := ms_remaining st - f\<rparr>"
  have "match_iteration ops hook now new st = Some (None, st1)"
    using best h e step
    by (simp add: match_iteration_def head_matches_def f [symmetric] st1_def fill_trade_def Let_def
        del: execute.simps)
  then have "match_loop ops hook now new st = match_loop ops hook now new st1"
    using h by (simp add: match_loop.simps [of ops hook now new st] head_matches_def)
  moreover have "\<forall>st'. undoable st1 st' \<longrightarrow> undoable st st'"
    using undoable_step [of st1 st c] undo by (simp add: st1_def)
  moreover have "own_side (mo_side new) \<noteq> opposite (mo_side new)"
    by (simp add: own_side_def opposite_def)
  ultimately show ?thesis using b' by (intro exI [of _ st1]) (simp add: st1_def)
qed

lemma loop_result_step:
  assumes h: "head_matches new st x q" and f: "f = min (ms_remaining st) (o_quantity x)"
    and e: "hook (fill_trade new now (x, f)) = None"
    and st1: "\<forall>y. admits y (ms_book st1) = admits y (ms_book st)"
      "ms_trades st1 = ms_trades st @ [fill_trade new now (x, f)]"
      "ms_remaining st1 = ms_remaining st - f"
      "queue_of (opposite (mo_side new)) (ms_book st1) = (if o_quantity x \<le> ms_remaining st then q
         else set_quantity (o_id x) (o_quantity x - ms_remaining st) x # q)"
      "queue_of (own_side (mo_side new)) (ms_book st1) = queue_of (own_side (mo_side new)) (ms_book st)"
    and res: "loop_result hook now new st1 err st'"
  shows "loop_result hook now new st err st'"
proof (cases "o_quantity x \<le> ms_remaining st")
  case True
  then have "fill new (ms_remaining st) (x # q) =
      (let (fs, q', r') = fill new (ms_remaining st - f) q in ((x, f) # fs, q', r'))"
    using fill_full(1) [of "ms_remaining st" new x q] h f by (simp add: head_matches_def min_def)
  then show ?thesis
    using h True e st1 res by (simp add: loop_result_def head_matches_def split: prod.splits)
next
  case False
  then have "fill new (ms_remaining st) (x # q) =
      ([(x, f)], set_quantity (o_id x) (o_quantity x - ms_remaining st) x # q, 0)"
    using fill_full(2) [of "ms_remaining st" new x q] h f by (simp add: head_matches_def min_def)
  then show ?thesis
    using h False f e st1 res by (simp add: loop_result_def head_matches_def fill_stop)
qed

lemma match_loop_correct:
  assumes "ok (ms_book st)"
  shows "\<exists>e st'. match_loop ops hook now new st = Some (e, st') \<and>
    loop_result hook now new st e st' \<and> undoable st st'"
  using assms
proof (induction "length (queue_of (opposite (mo_side new)) (ms_book st))"
    arbitrary: st rule: less_induct)
  case less
  show ?case
  proof (cases "\<exists>x q. head_matches new st x q")
    case False
    then show ?thesis using iteration_none [OF less.prems] undoable_refl by blast
  next
    case True
    then obtain x q where h: "head_matches new st x q" by blast
    define f where "f = min (ms_remaining st) (o_quantity x)"
    show ?thesis
    proof (cases "hook (fill_trade new now (x, f))")
      case (Some e)
      then show ?thesis
        using iteration_throw [where hook = hook and now = now, OF h f_def Some]
          undoable_refl [of "st\<lparr>ms_trades := ms_trades st @ [fill_trade new now (x, f)]\<rparr>" st]
        by (intro exI conjI) simp_all
    next
      case None
      obtain st1 where st1: "match_loop ops hook now new st = match_loop ops hook now new st1"
          "ok (ms_book st1)" "\<forall>y. admits y (ms_book st1) = admits y (ms_book st)"
          "ms_trades st1 = ms_trades st @ [fill_trade new now (x, f)]"
          "ms_remaining st1 = ms_remaining st - f"
          "queue_of (opposite (mo_side new)) (ms_book st1) = (if o_quantity x \<le> ms_remaining st then q
             else set_quantity (o_id x) (o_quantity x - ms_remaining st) x # q)"
          "queue_of (own_side (mo_side new)) (ms_book st1) = queue_of (own_side (mo_side new)) (ms_book st)"
          "\<forall>st'. undoable st1 st' \<longrightarrow> undoable st st'"
        using iteration_fill [where hook = hook and now = now, OF h f_def None]
        by (elim exE conjE) (rule that; assumption)
      have "\<exists>e st'. match_loop ops hook now new st1 = Some (e, st') \<and>
          loop_result hook now new st1 e st' \<and> undoable st1 st'"
      proof (cases "o_quantity x \<le> ms_remaining st")
        case True
        then show ?thesis using less.hyps [of st1] st1(2,6) h by (simp add: head_matches_def)
      next
        case False
        then have "\<nexists>y r. head_matches new st1 y r" using st1(5) f_def by (simp add: head_matches_def)
        then show ?thesis using iteration_none [OF st1(2)] undoable_refl by blast
      qed
      then show ?thesis
        using loop_result_step [where hook = hook and now = now, OF h f_def None st1(3-7)] st1(1,8)
        by auto
    qed
  qed
qed

lemma match_order_correct:
  assumes "ok b"
  shows "case fill new (mo_quantity new) (queue_of (opposite (mo_side new)) b) of (fs, q', r) \<Rightarrow>
    (case first_error hook (map (fill_trade new now) fs) of
       None \<Rightarrow> \<exists>b'. match_order ops hook now new b = Some (b', Inr \<lparr>
           mr_trades = map (fill_trade new now) fs,
           mr_remaining = (if r > 0 then Some (new\<lparr>mo_quantity := r\<rparr>) else None),
           mr_deltas = calculate_position_deltas (map (fill_trade new now) fs)\<rparr>) \<and> ok b' \<and>
         (\<forall>y. admits y b' = admits y b) \<and>
         queue_of (opposite (mo_side new)) b' = q' \<and>
         queue_of (own_side (mo_side new)) b' = queue_of (own_side (mo_side new)) b
     | Some e \<Rightarrow> \<exists>b'. match_order ops hook now new b = Some (b', Inl e) \<and> contents b b')"
proof -
  define st where "st = \<lparr>ms_book = b, ms_trades = [], ms_commands = [], ms_remaining = mo_quantity new\<rparr>"
  obtain e st' where L: "match_loop ops hook now new st = Some (e, st')"
      "loop_result hook now new st e st'" "undoable st st'"
    using match_loop_correct [of st hook now new] assms by (auto simp: st_def)
  obtain fs q' r where fill: "fill new (mo_quantity new) (queue_of (opposite (mo_side new)) b) = (fs, q', r)"
    by (cases "fill new (mo_quantity new) (queue_of (opposite (mo_side new)) b)")
  have R: "e = first_error hook (map (fill_trade new now) fs)" "ok (ms_book st')"
    "\<forall>y. admits y (ms_book st') = admits y b"
    "queue_of (own_side (mo_side new)) (ms_book st') = queue_of (own_side (mo_side new)) b"
    "e = None \<Longrightarrow> queue_of (opposite (mo_side new)) (ms_book st') = q' \<and> ms_remaining st' = r \<and>
       ms_trades st' = map (fill_trade new now) fs"
    using L(2) fill by (auto simp: loop_result_def st_def)
  obtain d where d: "rollback_all ops (rev (ms_commands st')) (ms_book st') = (d, None)" "contents b d"
    using L(3) contents_refl [OF R(2)] by (auto simp: undoable_def st_def)
  show ?thesis
    using L(1) R d fill
    by (cases e) (auto simp: match_order_def st_def [symmetric] rollback_commands_def split: option.splits)
qed

end

subsection \<open>The order book meets the interface\<close>

definition admitted :: "order \<Rightarrow> book \<Rightarrow> bool" where
  "admitted x b = (o_market x = ob_market b \<and> o_outcome x = ob_outcome b)"

interpretation matcher: book_interface order_book_ops book_ok iterate_orders admitted
proof
  show "\<exists>b'. op_remove order_book_ops (o_id x) b = (Some x, b') \<and> book_ok b' \<and>
      (\<forall>y. admitted y b' = admitted y b) \<and>
      (\<forall>s. iterate_orders s b' = filter (\<lambda>y. o_id y \<noteq> o_id x) (iterate_orders s b))"
    if ok: "book_ok b" and x: "x \<in> set (iterate_orders s b)" for b x s
  proof -
    obtain r b' where r: "remove_order (o_id x) b = (r, b')" by (cases "remove_order (o_id x) b")
    have "r = Some x"
      using remove_order_book_ok(3) [OF ok r] order_map_resting [OF ok] x set_resting by auto
    then show ?thesis
      using remove_order_book_ok [OF ok r] r by (simp add: order_book_ops_def admitted_def)
  qed
  show "\<exists>b'. op_update order_book_ops (o_id x) q b = Inr (True, b') \<and> book_ok b' \<and>
      (\<forall>y. admitted y b' = admitted y b) \<and>
      (\<forall>s. iterate_orders s b' = map (set_quantity (o_id x) q) (iterate_orders s b))"
    if ok: "book_ok b" and x: "x \<in> set (iterate_orders s b)" and q: "0 < q" for b x s q
  proof -
    have "o_id x \<in> o_id ` set (resting b)" using x set_resting by blast
    from update_quantity_book_ok [OF ok this q] show ?thesis
      by (auto simp: order_book_ops_def admitted_def)
  qed
  show "\<exists>b'. op_add order_book_ops x b = Inr b' \<and> book_ok b' \<and> (\<forall>y. admitted y b' = admitted y b) \<and>
      (\<forall>s. iterate_orders s b' = (if s = o_side x then insert_prio (better s) x (iterate_orders s b)
                                  else iterate_orders s b))"
    if ok: "book_ok b" and x: "admitted x b"
      and fresh: "\<And>s y. y \<in> set (iterate_orders s b) \<Longrightarrow> o_id y \<noteq> o_id x" for b x
  proof -
    have "o_id x \<notin> o_id ` set (resting b)" using fresh set_resting by (metis imageE)
    then have "map_of (order_map b) (o_id x) = None" using order_map_None [OF ok] by blast
    then obtain b' where b': "add_order x b = Inr b'"
      using add_order_total x by (auto simp: admitted_def)
    show ?thesis
      using add_order_book_ok [OF ok b'] add_order_ladder(2) [OF ok b'] add_order_frame(4,5) [OF b'] b'
      by (auto simp: order_book_ops_def admitted_def)
  qed
  show "op_best_bid order_book_ops b = (case iterate_orders Bid b of [] \<Rightarrow> None | x # _ \<Rightarrow> Some x)"
    "op_best_ask order_book_ops b = (case iterate_orders Ask b of [] \<Rightarrow> None | x # _ \<Rightarrow> Some x)"
    if "book_ok b" for b
    using best_head [OF that] by (simp_all add: order_book_ops_def get_best_bid_def get_best_ask_def)
  show "o_side x = s \<and> admitted x b" if "book_ok b" "x \<in> set (iterate_orders s b)" for b x s
    using book_okD(2) [OF that] book_okD(7) [OF that(1), of x] that(2) set_resting
    by (auto simp: admitted_def)
qed (use book_okD(4) iterate_sorted in \<open>simp_all add: admitted_def resting_def\<close>)

end
