(* ===== verification/MatchProps.thy ===== *)
theory MatchProps
  imports Matching
begin

text \<open>
  The properties of the order book and of the matching engine
  (\<open>src/matching/orderbook.ts\<close>, \<open>src/matching/engine.ts\<close>), over the queue of each side.
\<close>

subsection \<open>Facts on \<open>fill\<close>\<close>

abbreviation total_quantity :: "order list \<Rightarrow> int" where
  "total_quantity q \<equiv> sum_list (map o_quantity q)"

lemma fill_step_cases:
  obtains (stop) "fill new r (x # q) = ([], x # q, r)" "r \<le> 0 \<or> \<not> can_match (mo_price new) (o_price x) (mo_side new)"
  | (full) fs q' r' where "0 < r" "can_match (mo_price new) (o_price x) (mo_side new)" "o_quantity x \<le> r"
      "fill new (r - o_quantity x) q = (fs, q', r')" "fill new r (x # q) = ((x, o_quantity x) # fs, q', r')"
  | (part) "0 < r" "can_match (mo_price new) (o_price x) (mo_side new)" "r < o_quantity x"
      "fill new r (x # q) = ([(x, r)], set_quantity (o_id x) (o_quantity x - r) x # q, 0)"
proof (cases "r \<le> 0 \<or> \<not> can_match (mo_price new) (o_price x) (mo_side new)")
  case True
  then show thesis by (intro stop) (simp_all add: fill.simps(2))
next
  case False
  then have c: "0 < r" "can_match (mo_price new) (o_price x) (mo_side new)" by auto
  obtain fs q' r' where "fill new (r - o_quantity x) q = (fs, q', r')"
    by (cases "fill new (r - o_quantity x) q")
  with c show thesis
    using fill_full [OF c] by (cases "o_quantity x \<le> r") (auto intro: full part)
qed

lemma fill_conserve:
  "fill new r q = (fs, q', r') \<Longrightarrow>
     sum_list (map snd fs) + r' = r \<and> total_quantity q' + sum_list (map snd fs) = total_quantity q"
proof (induction q arbitrary: r fs q' r')
  case (Cons x q)
  show ?case
  proof (cases rule: fill_step_cases [of new r x q])
    case (full fs1 q1 r1)
    with Cons.IH [OF full(4)] Cons.prems show ?thesis by auto
  qed (use Cons.prems in auto)
qed simp

lemma fill_members:
  "fill new r q = (fs, q', r') \<Longrightarrow>
     (\<forall>(x, n) \<in> set fs. x \<in> set q \<and> can_match (mo_price new) (o_price x) (mo_side new) \<and>
        n \<le> o_quantity x \<and> ((\<forall>y \<in> set q. 0 < o_quantity y) \<longrightarrow> 0 < n)) \<and>
     ((\<forall>y \<in> set q. 0 < o_quantity y) \<longrightarrow> (\<forall>y \<in> set q'. 0 < o_quantity y) \<and> (0 \<le> r \<longrightarrow> 0 \<le> r'))"
proof (induction q arbitrary: r fs q' r')
  case (Cons x q)
  show ?case
  proof (cases rule: fill_step_cases [of new r x q])
    case (full fs1 q1 r1)
    with Cons.IH [OF full(4)] Cons.prems show ?thesis by auto
  qed (use Cons.prems in auto)
qed auto

text \<open>Time priority: the fills take a prefix of the queue, and every fill but the last is complete.\<close>

lemma fill_prefix:
  "fill new r q = (fs, q', r') \<Longrightarrow>
     map fst fs = take (length fs) q \<and> (\<forall>(x, n) \<in> set (butlast fs). n = o_quantity x) \<and>
     length fs \<le> length q \<and>
     (q' = drop (length fs) q \<or>
      (\<exists>x n. fs \<noteq> [] \<and> last fs = (x, n) \<and> n < o_quantity x \<and> r' = 0 \<and>
         q' = set_quantity (o_id x) (o_quantity x - n) x # drop (length fs) q))"
proof (induction q arbitrary: r fs q' r')
  case (Cons x q)
  show ?case
  proof (cases rule: fill_step_cases [of new r x q])
    case (full fs1 q1 r1)
    with Cons.IH [OF full(4)] Cons.prems show ?thesis by (cases fs1) auto
  qed (use Cons.prems in auto)
qed simp

lemma can_match_sorted:
  assumes "\<not> better (opposite side) (o_price y) (o_price x)" "\<not> can_match p (o_price x) side"
  shows "\<not> can_match p (o_price y) side"
  using assms by (cases side) (auto simp: comparison_def opposite_def can_match_def)

lemma fill_uncrossed:
  "fill new r q = (fs, q', r') \<Longrightarrow>
     sorted_wrt (\<lambda>x y. \<not> better (opposite (mo_side new)) (o_price y) (o_price x)) q \<Longrightarrow> 0 < r' \<Longrightarrow>
     \<forall>x \<in> set q'. \<not> can_match (mo_price new) (o_price x) (mo_side new)"
proof (induction q arbitrary: r fs q' r')
  case (Cons x q)
  show ?case
  proof (cases rule: fill_step_cases [of new r x q])
    case stop
    then have "\<not> can_match (mo_price new) (o_price x) (mo_side new)" "q' = x # q"
      using Cons.prems by auto
    then show ?thesis using Cons.prems(2) by (auto dest: can_match_sorted)
  next
    case (full fs1 q1 r1)
    with Cons.IH [OF full(4)] Cons.prems show ?thesis by auto
  qed (use Cons.prems in auto)
qed simp

lemma create_trade_simps [simp]:
  "tr_price (create_trade new x n p now) = p" "tr_quantity (create_trade new x n p now) = n"
  "tr_timestamp (create_trade new x n p now) = now" "tr_outcome (create_trade new x n p now) = mo_outcome new"
  by (simp_all add: create_trade_def Let_def)

lemma fill_trade_simps [simp]:
  "tr_price (fill_trade new now f) = o_price (fst f)" "tr_quantity (fill_trade new now f) = snd f"
  "tr_outcome (fill_trade new now f) = mo_outcome new"
  by (simp_all add: fill_trade_def)

lemma fill_trade_quantities [simp]: "map (tr_quantity \<circ> fill_trade new now) fs = map snd fs"
  by simp

text \<open>Without a throwing callback, the result of \<open>matchOrder\<close> is that of \<open>fill\<close>.\<close>

lemma first_error_none: "first_error (\<lambda>_. None) ts = None"
  by (induction ts) auto

lemma match_ok_cases:
  assumes "book_ok b" "match_order order_book_ops hook now new b = Some (b', Inr res)"
  obtains fs q' r where "fill new (mo_quantity new) (iterate_orders (opposite (mo_side new)) b) = (fs, q', r)"
    "mr_trades res = map (fill_trade new now) fs"
    "mr_remaining res = (if r > 0 then Some (new\<lparr>mo_quantity := r\<rparr>) else None)"
    "mr_deltas res = calculate_position_deltas (mr_trades res)" "book_ok b'"
    "iterate_orders (opposite (mo_side new)) b' = q'"
    "iterate_orders (own_side (mo_side new)) b' = iterate_orders (own_side (mo_side new)) b"
proof -
  obtain fs q' r where f: "fill new (mo_quantity new) (iterate_orders (opposite (mo_side new)) b) = (fs, q', r)"
    by (cases "fill new (mo_quantity new) (iterate_orders (opposite (mo_side new)) b)")
  show thesis
    using matcher.match_order_correct [OF assms(1), where new = new and hook = hook and now = now] assms(2) f
    by (intro that [OF f]) (auto split: option.splits)
qed

lemma match_keeps_market:
  assumes "book_ok b" "match_order order_book_ops hook now new b = Some (b', Inr res)"
  shows "ob_market b' = ob_market b \<and> ob_outcome b' = ob_outcome b"
proof -
  have "\<forall>y. admitted y b' = admitted y b"
    using matcher.match_order_correct [OF assms(1), where new = new and hook = hook and now = now] assms(2)
    by (auto split: prod.splits option.splits)
  then have "admitted (undefined\<lparr>o_market := ob_market b, o_outcome := ob_outcome b\<rparr>) b' =
      admitted (undefined\<lparr>o_market := ob_market b, o_outcome := ob_outcome b\<rparr>) b"
    by blast
  then show ?thesis by (simp add: admitted_def)
qed

lemma match_deltas:
  assumes "book_ok b" "match_order order_book_ops hook now new b = Some (b', Inr res)"
  shows "mr_deltas res = calculate_position_deltas (mr_trades res)"
  by (rule match_ok_cases [OF assms]) blast

text \<open>No trade is lost: fills and remainder make up the order, whatever the resting quantities.\<close>

lemma trades_sum:
  assumes "book_ok b" "match_order order_book_ops hook now new b = Some (b', Inr res)"
    "0 \<le> mo_quantity new" "\<forall>x \<in> set (resting b). 0 < o_quantity x"
  shows "sum_list (map tr_quantity (mr_trades res)) +
    (case mr_remaining res of None \<Rightarrow> 0 | Some m \<Rightarrow> mo_quantity m) = mo_quantity new"
proof -
  obtain fs q' r where f: "fill new (mo_quantity new) (iterate_orders (opposite (mo_side new)) b) = (fs, q', r)"
    and R: "mr_trades res = map (fill_trade new now) fs"
      "mr_remaining res = (if r > 0 then Some (new\<lparr>mo_quantity := r\<rparr>) else None)"
    by (rule match_ok_cases [OF assms(1,2)]) blast
  have "\<forall>y \<in> set (iterate_orders s b). 0 < o_quantity y" for s using assms(4) set_resting by blast
  then have "0 \<le> r" using fill_members [OF f] assms(3) by blast
  then show ?thesis using fill_conserve [OF f] by (auto simp: R)
qed

subsection \<open>Trade identifiers\<close>

lemma int_string_no_sep: "CHR ''_'' \<notin> set (int_string n)"
  using int_string_chars [of "CHR ''_''" n] by auto

lemma trade_id_inject:
  assumes "generate_trade_id a b n t = generate_trade_id c d m t" "a = c \<or> b = d"
  shows "a = c \<and> b = d \<and> n = m"
proof -
  have "(a @ ''_'' @ b) @ CHR ''_'' # int_string n = (c @ ''_'' @ d) @ CHR ''_'' # int_string m"
    using assms(1) by (simp add: generate_trade_id_def)
  from append_sep_inject [OF this int_string_no_sep int_string_no_sep] show ?thesis
    using assms(2) by auto
qed

lemma fill_trade_ids:
  assumes "distinct (map o_id (map fst fs))"
  shows "distinct (map (\<lambda>f. tr_id (fill_trade new now f)) fs)"
proof -
  have "o_id (fst f) = o_id (fst g)" if "tr_id (fill_trade new now f) = tr_id (fill_trade new now g)" for f g
  proof (cases "mo_side new = BUY")
    case True
    with that have "generate_trade_id (mo_id new) (o_id (fst f)) (snd f) now =
        generate_trade_id (mo_id new) (o_id (fst g)) (snd g) now"
      by (simp add: fill_trade_def create_trade_def)
    from trade_id_inject [OF this] show ?thesis by simp
  next
    case False
    with that have "generate_trade_id (o_id (fst f)) (mo_id new) (snd f) now =
        generate_trade_id (o_id (fst g)) (mo_id new) (snd g) now"
      by (simp add: fill_trade_def create_trade_def)
    from trade_id_inject [OF this] show ?thesis by simp
  qed
  then show ?thesis using assms unfolding map_map distinct_map inj_on_def comp_def by blast
qed

subsection \<open>Position deltas\<close>

definition delta_at :: "delta_map \<Rightarrow> string \<Rightarrow> int \<times> int" where
  "delta_at m u = (case map_of m u of None \<Rightarrow> (0, 0) | Some v \<Rightarrow> v)"

text \<open>What a trade moves for a user, in one outcome: bought minus sold.\<close>

definition net_in :: "outcome \<Rightarrow> string \<Rightarrow> trade \<Rightarrow> int" where
  "net_in oc u t = (if tr_outcome t = oc
     then (if tr_buyer t = u then tr_quantity t else 0) - (if tr_seller t = u then tr_quantity t else 0)
     else 0)"

lemma delta_at_ensure [simp]: "delta_at (ensure_user u m) v = delta_at m v"
  by (simp add: ensure_user_def delta_at_def)

lemma keys_ensure [simp]: "fst ` set (ensure_user u m) = insert u (fst ` set m)"
  by (auto simp: ensure_user_def dom_map_of_conv_image_fst [symmetric] domIff)

lemma delta_at_bump:
  assumes "u \<in> fst ` set m"
  shows "delta_at (bump oc u q m) v = (if v = u then
      (if oc = YES then (fst (delta_at m u) + q, snd (delta_at m u))
       else (fst (delta_at m u), snd (delta_at m u) + q)) else delta_at m v)"
proof -
  obtain a b where "map_of m u = Some (a, b)"
    using assms by (cases "map_of m u") (auto simp: map_of_eq_None_iff)
  then show ?thesis by (simp add: bump_def delta_at_def)
qed

lemma keys_bump [simp]: "fst ` set (bump oc u q m) = fst ` set m"
proof (cases "map_of m u")
  case (Some v)
  then have "u \<in> fst ` set m" by (metis map_of_eq_None_iff not_None_eq)
  with Some show ?thesis by (cases v) (auto simp: bump_def insert_absorb)
qed (simp add: bump_def)

lemma distinct_bump: "distinct (map fst m) \<Longrightarrow> distinct (map fst (bump oc u q m))"
  by (auto simp: bump_def split: option.splits)

lemma distinct_ensure: "distinct (map fst m) \<Longrightarrow> distinct (map fst (ensure_user u m))"
  by (auto simp: ensure_user_def)

lemma delta_step_spec:
  "delta_at (delta_step m t) u =
     (fst (delta_at m u) + net_in YES u t, snd (delta_at m u) + net_in NO u t)"
  "fst ` set (delta_step m t) = {tr_buyer t, tr_seller t} \<union> fst ` set m"
  "distinct (map fst m) \<Longrightarrow> distinct (map fst (delta_step m t))"
  by (cases "tr_outcome t"; auto simp: delta_step_def Let_def delta_at_bump net_in_def prod_eq_iff)
     (auto simp: delta_step_def Let_def distinct_bump distinct_ensure)

lemma delta_fold_spec:
  "delta_at (foldl delta_step m ts) u = (fst (delta_at m u) + sum_list (map (net_in YES u) ts),
      snd (delta_at m u) + sum_list (map (net_in NO u) ts))"
  "fst ` set (foldl delta_step m ts) = tr_buyer ` set ts \<union> tr_seller ` set ts \<union> fst ` set m"
  "distinct (map fst m) \<Longrightarrow> distinct (map fst (foldl delta_step m ts))"
  by (induction ts arbitrary: m) (auto simp: delta_step_spec)

lemma net_sum_zero:
  assumes "finite U" "tr_buyer t \<in> U" "tr_seller t \<in> U"
  shows "(\<Sum>u \<in> U. net_in oc u t) = 0"
  using assms by (cases "tr_outcome t = oc") (simp_all add: net_in_def sum_subtractf)

lemma position_deltas_spec:
  "set (map pd_user (calculate_position_deltas ts)) = tr_buyer ` set ts \<union> tr_seller ` set ts \<and>
   distinct (map pd_user (calculate_position_deltas ts)) \<and>
   list_all (\<lambda>d. pd_yes d = sum_list (map (net_in YES (pd_user d)) ts) \<and>
                 pd_no d = sum_list (map (net_in NO (pd_user d)) ts)) (calculate_position_deltas ts) \<and>
   sum_list (map pd_yes (calculate_position_deltas ts)) = 0 \<and>
   sum_list (map pd_no (calculate_position_deltas ts)) = 0"
proof -
  define m where "m = foldl delta_step [] ts"
  have keys: "fst ` set m = tr_buyer ` set ts \<union> tr_seller ` set ts"
    and dist: "distinct (map fst m)"
    using delta_fold_spec(2,3) [of "[]" ts] by (simp_all add: m_def)
  have val: "v = (sum_list (map (net_in YES u) ts), sum_list (map (net_in NO u) ts))"
    if "(u, v) \<in> set m" for u v
    using that delta_fold_spec(1) [of "[]" ts u] dist by (simp add: m_def delta_at_def)
  have zero: "(\<Sum>u \<in> fst ` set m. sum_list (map (net_in oc u) ts)) = 0" for oc
  proof -
    have "(\<Sum>u \<in> fst ` set m. sum_list (map (net_in oc u) us)) = 0" if "set us \<subseteq> set ts" for us
      using that by (induction us) (auto simp: sum.distrib net_sum_zero keys)
    then show ?thesis by simp
  qed
  have total: "sum_list (map (\<lambda>x. sum_list (map (net_in oc (fst x)) ts)) m) = 0" for oc
    using sum_list_distinct_conv_sum_set [OF dist, of "\<lambda>u. sum_list (map (net_in oc u) ts)"] zero
    by (simp add: comp_def)
  have "sum_list (map (\<lambda>(u, yes, no). yes) m) = sum_list (map (\<lambda>(u, v). sum_list (map (net_in YES u) ts)) m)"
    "sum_list (map (\<lambda>(u, yes, no). no) m) = sum_list (map (\<lambda>(u, v). sum_list (map (net_in NO u) ts)) m)"
    using val by (auto intro!: arg_cong [of _ _ sum_list] map_cong)
  moreover have "list_all (\<lambda>d. pd_yes d = sum_list (map (net_in YES (pd_user d)) ts) \<and>
      pd_no d = sum_list (map (net_in NO (pd_user d)) ts)) (calculate_position_deltas ts)"
    using val by (auto simp: calculate_position_deltas_def list_all_iff m_def)
  ultimately show ?thesis
    using keys dist total
    by (simp add: calculate_position_deltas_def m_def [symmetric] comp_def split_def)
qed

subsection \<open>A concrete book\<close>

definition demo_order :: "string \<Rightarrow> string \<Rightarrow> book_side \<Rightarrow> number \<Rightarrow> int \<Rightarrow> order" where
  "demo_order i u s p q = \<lparr>o_id = i, o_user = u, o_side = s, o_price = p, o_quantity = q,
     o_timestamp = 0, o_market = ''m'', o_outcome = 0\<rparr>"

definition demo_orders :: "order list" where
  "demo_orders = [demo_order ''a1'' ''ann'' Ask (2 / 5) 5, demo_order ''a2'' ''bob'' Ask (2 / 5) 7,
     demo_order ''b1'' ''ann'' Bid (3 / 10) 4, demo_order ''a3'' ''cat'' Ask (1 / 4) 3]"

definition demo_book :: book where
  "demo_book = (case fold_res add_order demo_orders (new_book ''m'' 0) of
     Inr b \<Rightarrow> b | Inl _ \<Rightarrow> new_book ''m'' 0)"

definition demo_taker :: "string \<Rightarrow> order_side \<Rightarrow> number \<Rightarrow> int \<Rightarrow> matching_order" where
  "demo_taker u side p q = \<lparr>mo_id = ''t'', mo_user = u, mo_side = side, mo_price = p, mo_quantity = q,
     mo_market = ''m'', mo_outcome = YES, mo_timestamp = 0\<rparr>"

lemma demo_book_adds: "fold_res add_order demo_orders (new_book ''m'' 0) = Inr demo_book"
  by code_simp

lemma demo_book_ok: "book_ok demo_book"
  by (rule fold_res_invariant [OF demo_book_adds, of book_ok]) (auto intro: add_order_book_ok)

lemma demo_book_asks: "iterate_orders Ask demo_book = [demo_order ''a3'' ''cat'' Ask (1 / 4) 3,
    demo_order ''a1'' ''ann'' Ask (2 / 5) 5, demo_order ''a2'' ''bob'' Ask (2 / 5) 7]"
  by code_simp

subsection \<open>The order book\<close>

text \<open>C4: every operation of the order book keeps its invariant: sorted ladders with exact level
  totals, the id map and the per-user sets holding exactly the resting orders.\<close>
theorem book_invariant:
  assumes ok: "book_ok b"
  shows "(\<forall>b'. add_order ord b = Inr b' \<longrightarrow> book_ok b') \<and> book_ok (snd (remove_order i b)) \<and>
    (\<forall>r b'. update_order_quantity i q b = Inr (r, b') \<longrightarrow> book_ok b') \<and> book_ok (clear b)"
proof (intro conjI allI impI)
  show rem: "book_ok (snd (remove_order i b))"
    using remove_order_book_ok(1) [OF ok, of i] by (cases "remove_order i b") simp
  show "book_ok b'" if u: "update_order_quantity i q b = Inr (r, b')" for r b'
  proof (cases "i \<in> o_id ` set (resting b)")
    case True
    then show ?thesis
      using u rem ok update_quantity_book_ok [OF ok True, of q]
      by (cases "0 < q") (auto simp: update_order_quantity_def split: option.splits if_splits)
  next
    case False
    then have "map_of (order_map b) i = None" using order_map_None [OF ok] by blast
    with u ok show ?thesis by (simp add: update_order_quantity_def)
  qed
qed (use add_order_book_ok [OF ok] clear_ok in auto)

theorem book_invariant_witness:
  "book_ok (snd (remove_order ''a1'' demo_book)) \<and> get_order_count (snd (remove_order ''a1'' demo_book)) = 3"
proof
  show "book_ok (snd (remove_order ''a1'' demo_book))" using book_invariant [OF demo_book_ok] by blast
  show "get_order_count (snd (remove_order ''a1'' demo_book)) = 3" by code_simp
qed

text \<open>C9: on the queue of a side, adding an order inserts it in price-time priority (behind all
  orders at least as good), removing one filters it out, and changing a quantity keeps every
  position; an order is accepted exactly when it is of this book and its id is new.\<close>
theorem book_refines_queue:
  assumes ok: "book_ok b"
  shows "((\<exists>b'. add_order ord b = Inr b') = (o_market ord = ob_market b \<and> o_outcome ord = ob_outcome b \<and>
        o_id ord \<notin> o_id ` set (resting b))) \<and>
    (\<forall>b'. add_order ord b = Inr b' \<longrightarrow> iterate_orders s b' =
        (if s = o_side ord then insert_prio (better s) ord (iterate_orders s b) else iterate_orders s b)) \<and>
    fst (remove_order i b) = find (\<lambda>x. o_id x = i) (resting b) \<and>
    iterate_orders s (snd (remove_order i b)) = filter (\<lambda>x. o_id x \<noteq> i) (iterate_orders s b) \<and>
    (0 < q \<longrightarrow> i \<in> o_id ` set (resting b) \<longrightarrow> (\<exists>b'. update_order_quantity i q b = Inr (True, b') \<and>
        iterate_orders s b' = map (set_quantity i q) (iterate_orders s b)))"
proof (intro conjI allI impI)
  show "(\<exists>b'. add_order ord b = Inr b') = (o_market ord = ob_market b \<and> o_outcome ord = ob_outcome b \<and>
        o_id ord \<notin> o_id ` set (resting b))"
    using order_map_None [OF ok, of "o_id ord"] by (auto simp: add_order_def Let_def)
  obtain r b' where r: "remove_order i b = (r, b')" by (cases "remove_order i b")
  note R = remove_order_book_ok [OF ok r]
  have "map_of (order_map b) i = find (\<lambda>x. o_id x = i) (resting b)"
  proof (cases "find (\<lambda>x. o_id x = i) (resting b)")
    case None
    then have "i \<notin> o_id ` set (resting b)" by (auto simp: find_None_iff)
    then show ?thesis using order_map_None [OF ok, of i] None by simp
  next
    case (Some x)
    then have "x \<in> set (resting b) \<and> o_id x = i" by (auto simp: find_Some_iff)
    then show ?thesis using order_map_resting [OF ok, of i x] Some by simp
  qed
  then show "fst (remove_order i b) = find (\<lambda>x. o_id x = i) (resting b)" using R(3) r by simp
  show "iterate_orders s (snd (remove_order i b)) = filter (\<lambda>x. o_id x \<noteq> i) (iterate_orders s b)"
    using R(2) r by simp
qed (use add_order_ladder(2) [OF ok] update_quantity_book_ok [OF ok] in blast)+

theorem book_refines_queue_witness:
  "fst (remove_order ''a1'' demo_book) = Some (demo_order ''a1'' ''ann'' Ask (2 / 5) 5) \<and>
   iterate_orders Ask (snd (remove_order ''a1'' demo_book)) =
     [demo_order ''a3'' ''cat'' Ask (1 / 4) 3, demo_order ''a2'' ''bob'' Ask (2 / 5) 7]"
proof -
  have "fst (remove_order ''a1'' demo_book) = find (\<lambda>x. o_id x = ''a1'') (resting demo_book) \<and>
    iterate_orders Ask (snd (remove_order ''a1'' demo_book)) =
      filter (\<lambda>x. o_id x \<noteq> ''a1'') (iterate_orders Ask demo_book)"
    using book_refines_queue [OF demo_book_ok] by blast
  moreover have "find (\<lambda>x. o_id x = ''a1'') (resting demo_book) = Some (demo_order ''a1'' ''ann'' Ask (2 / 5) 5)"
    by code_simp
  ultimately show ?thesis by (simp add: demo_book_asks) (simp add: demo_order_def)
qed

text \<open>The queries agree with the resting orders: the best order is the head of the queue and
  no order has a better price, depth and volume add up the resting quantities level by level,
  a user's orders are exactly that user's resting orders, and the count is their number.\<close>
lemma book_queries_agree:
  assumes ok: "book_ok b"
  shows "best s b = (case iterate_orders s b of [] \<Rightarrow> None | x # _ \<Rightarrow> Some x) \<and>
    sorted_wrt (\<lambda>x y. \<not> better s (o_price y) (o_price x)) (iterate_orders s b) \<and>
    get_depth n b = (depth_spec n (iterate_orders Bid b), depth_spec n (iterate_orders Ask b)) \<and>
    get_total_volume b = (total_quantity (iterate_orders Bid b), total_quantity (iterate_orders Ask b)) \<and>
    distinct (get_orders_by_user u b) \<and> set (get_orders_by_user u b) = {x \<in> set (resting b). o_user x = u} \<and>
    get_order_count b = length (resting b)"
  using best_head [OF ok] iterate_sorted [OF ok] get_depth_spec [OF ok] get_total_volume_spec [OF ok]
    get_orders_by_user_set [OF ok] get_order_count_spec [OF ok] by simp

lemma book_queries_agree_witness:
  "best Ask demo_book = Some (demo_order ''a3'' ''cat'' Ask (1 / 4) 3) \<and> get_order_count demo_book = 4"
proof
  show "best Ask demo_book = Some (demo_order ''a3'' ''cat'' Ask (1 / 4) 3)"
    using book_queries_agree [OF demo_book_ok, of Ask] by (simp add: demo_book_asks)
  show "get_order_count demo_book = 4" by code_simp
qed

subsection \<open>The matching engine\<close>

text \<open>C2: \<open>matchOrder\<close> always returns, and computes the specification: on the opposite queue it
  makes the fills of \<open>fill\<close>, leaves the queue \<open>fill\<close> leaves and the own side untouched, and returns
  the unfilled part; when the callback throws at some trade, that error is what is raised.\<close>
theorem match_order_refines_fill:
  assumes ok: "book_ok b"
  shows "case fill new (mo_quantity new) (iterate_orders (opposite (mo_side new)) b) of (fs, q', r) \<Rightarrow>
    (case first_error hook (map (fill_trade new now) fs) of
       None \<Rightarrow> \<exists>b'. match_order order_book_ops hook now new b = Some (b', Inr \<lparr>
           mr_trades = map (fill_trade new now) fs,
           mr_remaining = (if r > 0 then Some (new\<lparr>mo_quantity := r\<rparr>) else None),
           mr_deltas = calculate_position_deltas (map (fill_trade new now) fs)\<rparr>) \<and> book_ok b' \<and>
         iterate_orders (opposite (mo_side new)) b' = q' \<and>
         iterate_orders (own_side (mo_side new)) b' = iterate_orders (own_side (mo_side new)) b
     | Some e \<Rightarrow> \<exists>b'. match_order order_book_ops hook now new b = Some (b', Inl e))"
  using matcher.match_order_correct [OF ok, where new = new and hook = hook and now = now] by (auto split: prod.splits option.splits)

theorem match_order_refines_fill_witness:
  "\<exists>b'. match_order order_book_ops (\<lambda>_. None) 9 (demo_taker ''tom'' BUY (1 / 2) 6) demo_book = Some (b', Inr \<lparr>
     mr_trades = [fill_trade (demo_taker ''tom'' BUY (1 / 2) 6) 9 (demo_order ''a3'' ''cat'' Ask (1 / 4) 3, 3),
                  fill_trade (demo_taker ''tom'' BUY (1 / 2) 6) 9 (demo_order ''a1'' ''ann'' Ask (2 / 5) 5, 3)],
     mr_remaining = None,
     mr_deltas = [\<lparr>pd_user = ''tom'', pd_yes = 6, pd_no = 0\<rparr>, \<lparr>pd_user = ''cat'', pd_yes = - 3, pd_no = 0\<rparr>,
                  \<lparr>pd_user = ''ann'', pd_yes = - 3, pd_no = 0\<rparr>]\<rparr>) \<and> book_ok b'"
proof -
  define new where "new = demo_taker ''tom'' BUY (1 / 2) 6"
  have f: "fill new (mo_quantity new) (iterate_orders (opposite (mo_side new)) demo_book) =
      ([(demo_order ''a3'' ''cat'' Ask (1 / 4) 3, 3), (demo_order ''a1'' ''ann'' Ask (2 / 5) 5, 3)],
       [demo_order ''a1'' ''ann'' Ask (2 / 5) 2, demo_order ''a2'' ''bob'' Ask (2 / 5) 7], 0)"
    unfolding new_def by code_simp
  have d: "calculate_position_deltas (map (fill_trade new 9)
      [(demo_order ''a3'' ''cat'' Ask (1 / 4) 3, 3), (demo_order ''a1'' ''ann'' Ask (2 / 5) 5, 3)]) =
    [\<lparr>pd_user = ''tom'', pd_yes = 6, pd_no = 0\<rparr>, \<lparr>pd_user = ''cat'', pd_yes = - 3, pd_no = 0\<rparr>,
     \<lparr>pd_user = ''ann'', pd_yes = - 3, pd_no = 0\<rparr>]"
    unfolding new_def by code_simp
  show ?thesis
    using match_order_refines_fill [OF demo_book_ok, where new = new and hook = "\<lambda>_. None" and now = 9] d
    by (auto simp: f first_error_none new_def [symmetric])
qed

text \<open>C5: when the match fails (the callback throws), the rollback restores the book: the invariant
  holds and both sides hold exactly the orders, with the quantities, they held before.\<close>
theorem rollback_restores_orders:
  assumes ok: "book_ok b" and fail: "match_order order_book_ops hook now new b = Some (b', Inl e)"
  shows "book_ok b' \<and> set (iterate_orders s b') = set (iterate_orders s b) \<and>
    mset (map o_quantity (iterate_orders s b')) = mset (map o_quantity (iterate_orders s b))"
proof -
  have "matcher.contents b b'"
    using matcher.match_order_correct [OF ok, where new = new and hook = hook and now = now] fail
    by (auto split: prod.splits option.splits)
  then have c: "book_ok b'" "set (iterate_orders s b') = set (iterate_orders s b)"
    by (simp_all add: matcher.contents_def)
  have "distinct (iterate_orders s b')" "distinct (iterate_orders s b)"
    using book_okD(8) [OF c(1), of s] book_okD(8) [OF ok, of s] by (simp_all add: distinct_map)
  then have "mset (iterate_orders s b') = mset (iterate_orders s b)"
    using c(2) by (simp add: set_eq_iff_mset_eq_distinct)
  then show ?thesis using c by simp
qed

definition failing_hook :: "trade \<Rightarrow> string option" where
  "failing_hook t = (if tr_sell_order t = ''a2'' then Some ''callback failed'' else None)"

theorem rollback_restores_orders_witness:
  "\<exists>b'. match_order order_book_ops failing_hook 9 (demo_taker ''tom'' BUY (1 / 2) 12) demo_book =
      Some (b', Inl ''callback failed'') \<and> book_ok b' \<and>
    set (iterate_orders Ask b') = set (iterate_orders Ask demo_book)"
proof -
  have "map_option snd (match_order order_book_ops failing_hook 9 (demo_taker ''tom'' BUY (1 / 2) 12)
      demo_book) = Some (Inl ''callback failed'')"
    by code_simp
  then obtain b' where b': "match_order order_book_ops failing_hook 9
      (demo_taker ''tom'' BUY (1 / 2) 12) demo_book = Some (b', Inl ''callback failed'')"
    by auto
  show ?thesis using b' rollback_restores_orders [OF demo_book_ok b', of Ask] by blast
qed

text \<open>But the rollback does not restore the queue: re-adding a removed order puts it at the back
  of its price level. Here \<open>a1\<close> rests before \<open>a2\<close> at the same price, is filled, and the callback
  throws on \<open>a2\<close>; after the rollback \<open>a2\<close> is ahead of \<open>a1\<close>.\<close>
lemma rollback_loses_time_priority:
  "map o_id (iterate_orders Ask demo_book) = [''a3'', ''a1'', ''a2''] \<and>
   (case match_order order_book_ops failing_hook 9 (demo_taker ''tom'' BUY (1 / 2) 12) demo_book of
      Some (b', Inl _) \<Rightarrow> map o_id (iterate_orders Ask b') = [''a3'', ''a2'', ''a1'']
    | _ \<Rightarrow> False)"
  by code_simp

text \<open>C6: quantities are conserved: the traded quantities and the remainder add up to the order,
  and the opposite side of the book shrinks by exactly the traded quantity.\<close>
theorem match_conserves_quantity:
  assumes "book_ok b" "match_order order_book_ops hook now new b = Some (b', Inr res)" "0 \<le> mo_quantity new"
    "\<forall>x \<in> set (resting b). 0 < o_quantity x"
  shows "sum_list (map tr_quantity (mr_trades res)) +
      (case mr_remaining res of None \<Rightarrow> 0 | Some m \<Rightarrow> mo_quantity m) = mo_quantity new \<and>
    total_quantity (iterate_orders (opposite (mo_side new)) b') + sum_list (map tr_quantity (mr_trades res)) =
      total_quantity (iterate_orders (opposite (mo_side new)) b) \<and>
    (\<forall>t \<in> set (mr_trades res). 0 < tr_quantity t) \<and> (\<forall>x \<in> set (resting b'). 0 < o_quantity x)"
proof -
  obtain fs q' r where f: "fill new (mo_quantity new) (iterate_orders (opposite (mo_side new)) b) = (fs, q', r)"
    and R: "mr_trades res = map (fill_trade new now) fs"
      "mr_remaining res = (if r > 0 then Some (new\<lparr>mo_quantity := r\<rparr>) else None)"
      "iterate_orders (opposite (mo_side new)) b' = q'"
      "iterate_orders (own_side (mo_side new)) b' = iterate_orders (own_side (mo_side new)) b"
    by (rule match_ok_cases [OF assms(1,2)]) blast
  have pos: "\<forall>y \<in> set (iterate_orders s b). 0 < o_quantity y" for s
    using assms(4) set_resting by blast
  have q: "map tr_quantity (mr_trades res) = map snd fs" by (simp add: R(1))
  have rest: "0 < o_quantity x" if "x \<in> set (resting b')" for x
  proof -
    have "x \<in> set q' \<or> x \<in> set (resting b)"
      using that R(3,4) by (cases "mo_side new") (auto simp: resting_def opposite_def own_side_def)
    then show ?thesis using fill_members [OF f] pos assms(4) by blast
  qed
  note trades_sum [OF assms]
  moreover have "\<forall>t \<in> set (mr_trades res). 0 < tr_quantity t"
    using fill_members [OF f] pos by (fastforce simp: R(1))
  ultimately show ?thesis
    using fill_conserve [OF f] rest unfolding q R(3) by simp
qed

definition demo_result :: "book \<times> match_result" where
  "demo_result = (case match_order order_book_ops (\<lambda>_. None) 9 (demo_taker ''tom'' BUY (2 / 5) 20) demo_book of
     Some (b', Inr res) \<Rightarrow> (b', res)
   | _ \<Rightarrow> (demo_book, \<lparr>mr_trades = [], mr_remaining = None, mr_deltas = []\<rparr>))"

lemma demo_result_match:
  "match_order order_book_ops (\<lambda>_. None) 9 (demo_taker ''tom'' BUY (2 / 5) 20) demo_book =
     Some (fst demo_result, Inr (snd demo_result))"
  by code_simp

lemma demo_positive: "\<forall>x \<in> set (resting demo_book). 0 < o_quantity x"
  by code_simp

theorem match_conserves_quantity_witness:
  "sum_list (map tr_quantity (mr_trades (snd demo_result))) = 15 \<and>
   total_quantity (iterate_orders Ask (fst demo_result)) = 0"
proof -
  have m: "mo_quantity (demo_taker ''tom'' BUY (2 / 5) 20) = 20"
    "opposite (mo_side (demo_taker ''tom'' BUY (2 / 5) 20)) = Ask"
    by (simp_all add: demo_taker_def opposite_def)
  have rem: "(case mr_remaining (snd demo_result) of None \<Rightarrow> 0 | Some m \<Rightarrow> mo_quantity m) = 5"
    by code_simp
  have "total_quantity (iterate_orders Ask demo_book) = 15" by code_simp
  then show ?thesis
    using match_conserves_quantity [OF demo_book_ok demo_result_match _ demo_positive] rem by (simp add: m)
qed

text \<open>C3: the taker is never filled outside its limit and every trade executes at the price of the
  resting order; orders are consumed in price-time priority, every one but the last completely;
  and when some of the order is left, no resting order of the opposite side could match it.\<close>
theorem match_price_time_priority:
  assumes "book_ok b" "match_order order_book_ops hook now new b = Some (b', Inr res)"
  shows "\<exists>fs. mr_trades res = map (fill_trade new now) fs \<and>
    map fst fs = take (length fs) (iterate_orders (opposite (mo_side new)) b) \<and>
    (\<forall>(x, n) \<in> set (butlast fs). n = o_quantity x) \<and>
    (\<forall>(x, n) \<in> set fs. n \<le> o_quantity x \<and> can_match (mo_price new) (o_price x) (mo_side new)) \<and>
    (mr_remaining res \<noteq> None \<longrightarrow> (\<forall>x \<in> set (iterate_orders (opposite (mo_side new)) b').
        \<not> can_match (mo_price new) (o_price x) (mo_side new)))"
proof -
  obtain fs q' r where f: "fill new (mo_quantity new) (iterate_orders (opposite (mo_side new)) b) = (fs, q', r)"
    and R: "mr_trades res = map (fill_trade new now) fs"
      "mr_remaining res = (if r > 0 then Some (new\<lparr>mo_quantity := r\<rparr>) else None)"
      "iterate_orders (opposite (mo_side new)) b' = q'"
    by (rule match_ok_cases [OF assms]) blast
  show ?thesis
    using fill_prefix [OF f] fill_members [OF f] fill_uncrossed [OF f iterate_sorted [OF assms(1)]] R
    by (intro exI [of _ fs]) (auto split: if_splits)
qed

theorem match_price_time_priority_witness:
  "\<exists>fs. mr_trades (snd demo_result) = map (fill_trade (demo_taker ''tom'' BUY (2 / 5) 20) 9) fs \<and>
    map fst fs = take (length fs) (iterate_orders (opposite (mo_side (demo_taker ''tom'' BUY (2 / 5) 20))) demo_book)"
  using match_price_time_priority [OF demo_book_ok demo_result_match] by blast

text \<open>Position deltas: each participant of the trades appears once, with exactly what that user
  bought minus what the user sold in each outcome, and the deltas of an outcome sum to zero.\<close>
lemma position_deltas_zero_sum:
  "set (map pd_user (calculate_position_deltas ts)) = tr_buyer ` set ts \<union> tr_seller ` set ts \<and>
   distinct (map pd_user (calculate_position_deltas ts)) \<and>
   list_all (\<lambda>d. pd_yes d = sum_list (map (net_in YES (pd_user d)) ts) \<and>
                 pd_no d = sum_list (map (net_in NO (pd_user d)) ts)) (calculate_position_deltas ts) \<and>
   sum_list (map pd_yes (calculate_position_deltas ts)) = 0 \<and>
   sum_list (map pd_no (calculate_position_deltas ts)) = 0"
  by (rule position_deltas_spec)

text \<open>Within one match the trade identifiers are pairwise different.\<close>
lemma trade_ids_distinct:
  assumes "book_ok b" "match_order order_book_ops hook now new b = Some (b', Inr res)"
  shows "distinct (map tr_id (mr_trades res))"
proof -
  obtain fs q' r where f: "fill new (mo_quantity new) (iterate_orders (opposite (mo_side new)) b) = (fs, q', r)"
    and R: "mr_trades res = map (fill_trade new now) fs"
    by (rule match_ok_cases [OF assms]) blast
  have "distinct (map o_id (map fst fs))"
    using fill_prefix [OF f] book_okD(8) [OF assms(1), of "opposite (mo_side new)"]
    by (simp add: take_map [symmetric] del: map_map)
  from fill_trade_ids [OF this] show ?thesis by (simp add: R comp_def)
qed

lemma trade_ids_distinct_witness:
  "distinct (map tr_id (mr_trades (snd demo_result))) \<and> length (mr_trades (snd demo_result)) = 3"
  using trade_ids_distinct [OF demo_book_ok demo_result_match] by (rule conjI) code_simp

end
