(* ===== verification/Mutex.thy ===== *)
theory Mutex
  imports Prelude
begin

text \<open>
  \<open>src/matching/mutex.ts\<close>: the promise-chain mutex that serialises work on one order book.
  A promise is a number; promise 0 is the initially resolved \<open>tail\<close>. A call of \<open>run\<close> reads the
  tail as its predecessor and installs a fresh promise of its own (synchronously: this is one
  step), waits until the predecessor is resolved, runs the callback, and resolves its own
  promise in the \<open>finally\<close> block, whether the callback returned or threw. The interleaving of
  the event loop is a step relation over these events; \<open>do_event\<close> is its executable form.
\<close>

datatype phase = Waiting | Running | Finished

record 'v task =
  tk_prev :: nat
  tk_mine :: nat
  tk_phase :: phase
  tk_result :: "(string + 'v) option"

record 'v mutex =
  mx_tail :: nat
  mx_fresh :: nat
  mx_resolved :: "nat list"
  mx_tasks :: "'v task list"

definition new_mutex :: "'v mutex" where
  "new_mutex = \<lparr>mx_tail = 0, mx_fresh = 1, mx_resolved = [0], mx_tasks = []\<rparr>"

text \<open>\<open>Call\<close> starts a \<open>run\<close>; \<open>Enter i\<close> is \<open>await prev\<close> continuing in the \<open>i\<close>-th call;
  \<open>Leave i r\<close> is its callback settling with \<open>r\<close> (\<open>Inl\<close> an exception).\<close>

datatype 'v event = Call | Enter nat | Leave nat "string + 'v"

definition run_call :: "'v mutex \<Rightarrow> 'v mutex" where
  "run_call m = m\<lparr>mx_tail := mx_fresh m, mx_fresh := Suc (mx_fresh m),
     mx_tasks := mx_tasks m @ [\<lparr>tk_prev = mx_tail m, tk_mine = mx_fresh m, tk_phase = Waiting,
                                tk_result = None\<rparr>]\<rparr>"

definition do_event :: "'v event \<Rightarrow> 'v mutex \<Rightarrow> 'v mutex option" where
  "do_event e m = (case e of
     Call \<Rightarrow> Some (run_call m)
   | Enter i \<Rightarrow>
       if i < length (mx_tasks m) \<and> tk_phase (mx_tasks m ! i) = Waiting \<and>
          tk_prev (mx_tasks m ! i) \<in> set (mx_resolved m)
       then Some (m\<lparr>mx_tasks := (mx_tasks m)[i := (mx_tasks m ! i)\<lparr>tk_phase := Running\<rparr>]\<rparr>)
       else None
   | Leave i r \<Rightarrow>
       if i < length (mx_tasks m) \<and> tk_phase (mx_tasks m ! i) = Running
       then Some (m\<lparr>mx_resolved := mx_resolved m @ [tk_mine (mx_tasks m ! i)],
              mx_tasks := (mx_tasks m)[i := (mx_tasks m ! i)\<lparr>tk_phase := Finished, tk_result := Some r\<rparr>]\<rparr>)
       else None)"

inductive mutex_step :: "'v mutex \<Rightarrow> 'v mutex \<Rightarrow> bool" where
  step: "do_event e m = Some m' \<Longrightarrow> mutex_step m m'"

inductive reachable :: "'v mutex \<Rightarrow> bool" where
  init: "reachable new_mutex"
| next_state: "reachable m \<Longrightarrow> mutex_step m m' \<Longrightarrow> reachable m'"

inductive_cases mutex_stepE: "mutex_step m m'"

definition phases :: "'v mutex \<Rightarrow> phase list" where
  "phases m = map tk_phase (mx_tasks m)"

text \<open>The chain: the \<open>i\<close>-th call waits for promise \<open>i\<close> and owns promise \<open>i + 1\<close> (\<open>ids_ok\<close>); the
  first \<open>a\<close> calls have finished, then \<open>r\<close> are running, then \<open>b\<close> wait (\<open>blocks\<close>).\<close>

definition ids_ok :: "'v mutex \<Rightarrow> bool" where
  "ids_ok m = (mx_tail m = length (mx_tasks m) \<and> mx_fresh m = Suc (length (mx_tasks m)) \<and>
     (\<forall>i < length (mx_tasks m). tk_prev (mx_tasks m ! i) = i \<and> tk_mine (mx_tasks m ! i) = Suc i \<and>
        (tk_result (mx_tasks m ! i) \<noteq> None) = (tk_phase (mx_tasks m ! i) = Finished)))"

definition blocks :: "nat \<Rightarrow> nat \<Rightarrow> nat \<Rightarrow> 'v mutex \<Rightarrow> bool" where
  "blocks a r b m = (r \<le> 1 \<and> set (mx_resolved m) = {0..a} \<and>
     phases m = replicate a Finished @ replicate r Running @ replicate b Waiting)"

lemma phases_nth: "i < length (mx_tasks m) \<Longrightarrow> tk_phase (mx_tasks m ! i) = phases m ! i"
  by (simp add: phases_def)

lemma length_phases [simp]: "length (phases m) = length (mx_tasks m)"
  by (simp add: phases_def)

lemma block_length: "blocks a r b m \<Longrightarrow> length (mx_tasks m) = a + r + b"
  unfolding blocks_def by (metis length_append length_phases length_replicate add.assoc)

lemma block_nth:
  "blocks a r b m \<Longrightarrow> i < a + r + b \<Longrightarrow>
     tk_phase (mx_tasks m ! i) = (if i < a then Finished else if i < a + r then Running else Waiting)"
  using block_length [of a r b m] by (auto simp: phases_nth blocks_def nth_append)

lemma chain_ids:
  assumes "ids_ok m" "i < length (mx_tasks m)"
  shows "tk_prev (mx_tasks m ! i) = i" "tk_mine (mx_tasks m ! i) = Suc i"
  using assms by (simp_all add: ids_ok_def)

text \<open>Only the first waiting call can enter, and only when no callback runs.\<close>

lemma enter_enabled:
  assumes "ids_ok m" "blocks a r b m"
  shows "do_event (Enter i) m \<noteq> None \<longleftrightarrow> i = a \<and> r = 0 \<and> 0 < b"
proof (cases "i < a + r + b")
  case True
  then show ?thesis
    using chain_ids [OF assms(1), of i] block_nth [OF assms(2) True] block_length [OF assms(2)] assms(2)
    by (auto simp: do_event_def blocks_def)
qed (use block_length [OF assms(2)] in \<open>auto simp: do_event_def\<close>)

lemma leave_enabled:
  assumes "blocks a r b m"
  shows "do_event (Leave i res) m \<noteq> None \<longleftrightarrow> a \<le> i \<and> i < a + r"
proof (cases "i < a + r + b")
  case True
  then show ?thesis
    using block_nth [OF assms True] block_length [OF assms] by (simp add: do_event_def)
qed (use block_length [OF assms] in \<open>auto simp: do_event_def\<close>)

lemma call_blocks:
  assumes "ids_ok m" "blocks a r b m"
  shows "ids_ok (run_call m)" "blocks a r (Suc b) (run_call m)"
  using assms by (auto simp: ids_ok_def blocks_def phases_def run_call_def nth_append less_Suc_eq
      replicate_append_same [symmetric])

lemma enter_blocks:
  assumes ok: "ids_ok m" "blocks a r b m" and e: "do_event (Enter i) m = Some m'"
  shows "ids_ok m' \<and> blocks a 1 (b - 1) m'"
proof -
  have i: "i = a" "r = 0" "0 < b" using enter_enabled [OF ok, of i] e by simp_all
  then obtain c where b: "b = Suc c" by (cases b) auto
  have m': "m' = m\<lparr>mx_tasks := (mx_tasks m)[i := (mx_tasks m ! i)\<lparr>tk_phase := Running\<rparr>]\<rparr>"
    using e by (simp add: do_event_def split: if_splits)
  have ph: "phases m' = (phases m)[i := Running]" by (simp add: m' phases_def map_update)
  then have "phases m' = replicate a Finished @ replicate 1 Running @ replicate c Waiting"
    using ok(2) i b by (simp add: blocks_def list_update_append)
  then have "blocks a 1 c m'" using ok(2) by (simp add: blocks_def m')
  moreover have "tk_phase (mx_tasks m ! i) = Waiting" "i < length (mx_tasks m)"
    using e by (simp_all add: do_event_def split: if_splits)
  then have "ids_ok m'" using ok(1) by (auto simp: ids_ok_def m' nth_list_update)
  ultimately show ?thesis using b by simp
qed

lemma leave_blocks:
  assumes ok: "ids_ok m" "blocks a r b m" and e: "do_event (Leave i res) m = Some m'"
  shows "ids_ok m' \<and> blocks (Suc a) 0 b m' \<and> i = a \<and> tk_result (mx_tasks m' ! i) = Some res"
proof -
  have i: "i = a" "r = 1" using leave_enabled [OF ok(2), of i res] e ok(2) by (auto simp: blocks_def)
  have l: "i < length (mx_tasks m)" using block_length [OF ok(2)] i by simp
  have m': "m' = m\<lparr>mx_resolved := mx_resolved m @ [tk_mine (mx_tasks m ! i)],
      mx_tasks := (mx_tasks m)[i := (mx_tasks m ! i)\<lparr>tk_phase := Finished, tk_result := Some res\<rparr>]\<rparr>"
    using e by (simp add: do_event_def split: if_splits)
  have ph: "phases m' = (phases m)[i := Finished]" by (simp add: m' phases_def map_update)
  then have "phases m' = replicate (Suc a) Finished @ replicate b Waiting"
    using ok(2) i by (simp add: blocks_def list_update_append replicate_append_same [symmetric])
  then have "blocks (Suc a) 0 b m'"
    using ok(2) chain_ids(2) [OF ok(1) l] i by (auto simp: blocks_def m')
  moreover have "ids_ok m'" using ok(1) l by (auto simp: ids_ok_def m' nth_list_update)
  ultimately show ?thesis using i l by (simp add: m')
qed

lemma reachable_blocks: "reachable m \<Longrightarrow> ids_ok m \<and> (\<exists>a r b. blocks a r b m)"
proof (induction rule: reachable.induct)
  case init
  have "blocks 0 0 0 new_mutex" by (simp add: blocks_def new_mutex_def phases_def)
  moreover have "ids_ok new_mutex" by (simp add: ids_ok_def new_mutex_def)
  ultimately show ?case by blast
next
  case (next_state m m')
  then obtain a r b e where B: "ids_ok m" "blocks a r b m" and e: "do_event e m = Some m'"
    by (auto elim: mutex_stepE)
  show ?case
  proof (cases e)
    case Call
    then have "m' = run_call m" using e by (simp add: do_event_def)
    then show ?thesis using call_blocks [OF B] by blast
  next
    case (Enter i)
    then show ?thesis using enter_blocks [OF B] e by blast
  next
    case (Leave i res)
    then show ?thesis using leave_blocks [OF B] e by blast
  qed
qed

text \<open>C7: in every interleaving at most one callback runs at a time; calls enter in the order in which
  \<open>run\<close> was called (a call that has entered has only finished calls before it); whenever calls
  wait and none runs, the first of them can enter, so neither a return nor a throw blocks the
  queue; and the result of a call is its callback's, exception included.\<close>
theorem mutex_fifo_exclusion:
  assumes "reachable m"
  shows "length (filter (\<lambda>p. p = Running) (phases m)) \<le> 1 \<and>
    (\<forall>j < length (phases m). phases m ! j \<noteq> Waiting \<longrightarrow> (\<forall>i < j. phases m ! i = Finished)) \<and>
    (Running \<notin> set (phases m) \<longrightarrow> Waiting \<in> set (phases m) \<longrightarrow>
       (\<exists>i m'. do_event (Enter i) m = Some m' \<and> (\<forall>j < i. phases m ! j = Finished))) \<and>
    (\<forall>i res m'. do_event (Leave i res) m = Some m' \<longrightarrow>
       tk_result (mx_tasks m' ! i) = Some res \<and> Running \<notin> set (phases m'))"
proof -
  obtain a r b where ids: "ids_ok m" and B: "blocks a r b m" using reachable_blocks [OF assms] by blast
  have r: "r \<le> 1" and ph: "phases m = replicate a Finished @ replicate r Running @ replicate b Waiting"
    using B by (simp_all add: blocks_def)
  have nth: "phases m ! i = (if i < a then Finished else if i < a + r then Running else Waiting)"
    if "i < a + r + b" for i
    using that by (auto simp: ph nth_append)
  have enter: "\<exists>i m'. do_event (Enter i) m = Some m' \<and> (\<forall>j < i. phases m ! j = Finished)"
    if "Running \<notin> set (phases m)" "Waiting \<in> set (phases m)"
  proof -
    have "r = 0" "0 < b" using that by (auto simp: ph split: if_splits)
    then have "do_event (Enter a) m \<noteq> None" using enter_enabled [OF ids B] by simp
    then show ?thesis using nth by auto
  qed
  have leave: "tk_result (mx_tasks m' ! i) = Some res \<and> Running \<notin> set (phases m')"
    if "do_event (Leave i res) m = Some m'" for i res m'
    using leave_blocks [OF ids B that] by (auto simp: blocks_def split: if_splits)
  have "phases m ! i = Finished" if "j < length (phases m)" "phases m ! j \<noteq> Waiting" "i < j" for i j
  proof -
    have "j < a + r + b" using that(1) by (simp add: ph)
    then show ?thesis using nth [of j] nth [of i] that(2,3) r by (auto split: if_splits)
  qed
  then show ?thesis using enter leave r by (auto simp: ph)
qed

definition demo_mutex :: "int mutex option" where
  "demo_mutex = Option.bind (do_event Call new_mutex) (\<lambda>m. Option.bind (do_event Call m)
     (\<lambda>m. Option.bind (do_event (Enter 0) m) (do_event (Leave 0 (Inl ''boom'')))))"

theorem mutex_fifo_exclusion_witness:
  "\<exists>m :: int mutex. demo_mutex = Some m \<and> phases m = [Finished, Waiting] \<and>
     (\<exists>i m'. do_event (Enter i) m = Some m')"
proof -
  define m1 m2 m3 :: "int mutex" where "m1 = run_call new_mutex" and "m2 = run_call m1"
    and "m3 = the (do_event (Enter 0) m2)"
  define m4 where "m4 = the (do_event (Leave 0 (Inl ''boom'')) m3)"
  note D = m1_def m2_def m3_def m4_def run_call_def new_mutex_def do_event_def
  have "mutex_step new_mutex m1" "mutex_step m1 m2" "mutex_step m2 m3" "mutex_step m3 m4"
    by (rule mutex_step.intros [of Call] mutex_step.intros [of "Enter 0"]
        mutex_step.intros [of "Leave 0 (Inl ''boom'')"], simp add: D)+
  then have r: "reachable m4" by (meson reachable.intros)
  have d: "demo_mutex = Some m4" and p: "phases m4 = [Finished, Waiting]"
    by (simp_all add: D demo_mutex_def phases_def)
  show ?thesis using mutex_fifo_exclusion [OF r] d p by auto
qed

end
