(* ===== verification/MatchingService.thy ===== *)
theory MatchingService
  imports MatchProps Mutex
begin

text \<open>
  \<open>src/matching/matching-service.ts\<close>: placing an order. The service caches one order book per
  (market, outcome), hydrated from the open orders of the database. \<open>place_order\<close> is the
  callback that \<open>placeOrder\<close> runs under the mutex of the book's key (\<open>Mutex.thy\<close>), so it is
  one atomic step. The database is abstract: \<open>order_store\<close> collects the Prisma calls of the
  file as functions on a state \<open>'db\<close>, each of which may reject; the transaction returns the old
  state when a call rejects. \<open>Math\<close> on collateral uses rounded doubles. The locale
  \<open>order_store_laws\<close> states what the calls do to the rows; \<open>StoreTables.thy\<close> meets it with
  tables that have the keys and constraints of \<open>prisma/schema.prisma\<close>.
\<close>

datatype order_status = OPEN | FILLED | CANCELLED | PARTIALLY_FILLED

record db_order =
  do_id :: string
  do_market :: string
  do_user :: string
  do_side :: order_side
  do_outcome :: outcome
  do_price :: number
  do_quantity :: int
  do_filled :: int
  do_status :: order_status
  do_created :: int

record 'db order_store =
  st_resting :: "string \<Rightarrow> outcome \<Rightarrow> 'db \<Rightarrow> string + db_order list"
  st_create :: "db_order \<Rightarrow> 'db \<Rightarrow> string + 'db"
  st_find :: "string \<Rightarrow> 'db \<Rightarrow> string + (int \<times> int) option"
  st_update :: "string \<Rightarrow> int \<Rightarrow> order_status \<Rightarrow> 'db \<Rightarrow> string + 'db"
  st_trade :: "trade \<Rightarrow> 'db \<Rightarrow> string + 'db"
  st_position :: "string \<Rightarrow> string \<Rightarrow> int \<Rightarrow> int \<Rightarrow> number \<Rightarrow> 'db \<Rightarrow> string + 'db"

record place_input =
  pi_market :: string
  pi_user :: string
  pi_side :: order_side
  pi_outcome :: outcome
  pi_price :: number
  pi_quantity :: int

datatype place_error = SelfTrade | Rejected string

datatype effect =
  AuditTrade trade
| EnqueueSettlement trade
| CacheBook string outcome "depth_level list" "depth_level list"

record place_result =
  pr_order :: db_order
  pr_trades :: "trade list"
  pr_filled :: int

record service =
  sv_books :: "(string \<times> book) list"
  sv_hydrated :: nat

definition book_side_of :: "order_side \<Rightarrow> book_side" where
  "book_side_of s = (if s = BUY then Bid else Ask)"

definition get_book_key :: "string \<Rightarrow> outcome \<Rightarrow> string" where
  "get_book_key m oc = m @ '':'' @ (case oc of YES \<Rightarrow> ''YES'' | NO \<Rightarrow> ''NO'')"

subsection \<open>Hydration\<close>

definition resting_order :: "string \<Rightarrow> outcome \<Rightarrow> db_order \<Rightarrow> order" where
  "resting_order m oc d = \<lparr>o_id = do_id d, o_user = do_user d, o_side = book_side_of (do_side d),
     o_price = do_price d, o_quantity = do_quantity d - do_filled d, o_timestamp = do_created d,
     o_market = m, o_outcome = outcome_to_number oc\<rparr>"

definition hydrate_step :: "string \<Rightarrow> outcome \<Rightarrow> db_order \<Rightarrow> book \<Rightarrow> string + book" where
  "hydrate_step m oc d b =
     (if do_quantity d - do_filled d \<le> 0 then Inr b else add_order (resting_order m oc d) b)"

definition hydrate_book :: "'db order_store \<Rightarrow> string \<Rightarrow> outcome \<Rightarrow> 'db \<Rightarrow> service \<Rightarrow>
    string + book \<times> service" where
  "hydrate_book st m oc db sv = (case st_resting st m oc db of
       Inl e \<Rightarrow> Inl e
     | Inr rows \<Rightarrow>
         (case fold_res (hydrate_step m oc) rows (new_book m (outcome_to_number oc)) of
            Inl e \<Rightarrow> Inl e
          | Inr b \<Rightarrow> Inr (b, sv\<lparr>sv_books := AList.update (get_book_key m oc) b (sv_books sv)\<rparr>)))"

definition invalidate_book :: "string \<Rightarrow> outcome \<Rightarrow> service \<Rightarrow> service" where
  "invalidate_book m oc sv = sv\<lparr>sv_books := AList.delete (get_book_key m oc) (sv_books sv)\<rparr>"

text \<open>Both outcomes of every active market; the books are independent, so their order is that
  of the list. \<open>warm = False\<close> is \<open>WARM_MARKETS_ON_STARTUP=false\<close>.\<close>

definition hydrate_all_active_markets :: "'db order_store \<Rightarrow> bool \<Rightarrow> string list \<Rightarrow> 'db \<Rightarrow> service \<Rightarrow>
    string + service" where
  "hydrate_all_active_markets st warm markets db sv =
     (if \<not> warm then Inr sv
      else case fold_res (\<lambda>(m, oc) s. case hydrate_book st m oc db s of
                    Inl e \<Rightarrow> Inl e | Inr (_, s') \<Rightarrow> Inr s')
                  (concat (map (\<lambda>m. [(m, YES), (m, NO)]) markets)) sv of
             Inl e \<Rightarrow> Inl e
           | Inr s \<Rightarrow> Inr (s\<lparr>sv_hydrated := length markets\<rparr>))"

definition get_or_hydrate_book :: "'db order_store \<Rightarrow> string \<Rightarrow> outcome \<Rightarrow> 'db \<Rightarrow> service \<Rightarrow>
    string + book \<times> service" where
  "get_or_hydrate_book st m oc db sv = (case map_of (sv_books sv) (get_book_key m oc) of
       Some b \<Rightarrow> Inr (b, sv)
     | None \<Rightarrow> hydrate_book st m oc db sv)"

subsection \<open>The transaction\<close>

definition fill_status :: "int \<Rightarrow> int \<Rightarrow> order_status" where
  "fill_status filled quantity =
     (if filled = 0 then OPEN else if filled < quantity then PARTIALLY_FILLED else FILLED)"

definition maker_of :: "string \<Rightarrow> trade \<Rightarrow> string" where
  "maker_of taker t = (if tr_buy_order t = taker then tr_sell_order t else tr_buy_order t)"

definition update_maker :: "'db order_store \<Rightarrow> string \<Rightarrow> trade \<Rightarrow> 'db \<Rightarrow> string + 'db" where
  "update_maker st taker t db = (case st_find st (maker_of taker t) db of
       Inl e \<Rightarrow> Inl e
     | Inr None \<Rightarrow> Inl (''Maker order not found: '' @ maker_of taker t)
     | Inr (Some (quantity, filled)) \<Rightarrow>
         let new_filled = filled + tr_quantity t
         in st_update st (maker_of taker t) new_filled (fill_status new_filled quantity) db)"

definition collateral_step :: "(string \<times> number) list \<Rightarrow> trade \<Rightarrow> (string \<times> number) list" where
  "collateral_step m t =
     (let cost = js_mul (tr_price t) (of_int (tr_quantity t));
          amount = (\<lambda>u c. case map_of c u of None \<Rightarrow> 0 | Some v \<Rightarrow> v);
          m1 = AList.update (tr_buyer t) (js_add (amount (tr_buyer t) m) cost) m
      in AList.update (tr_seller t) (js_sub (amount (tr_seller t) m1) cost) m1)"

definition collateral_deltas :: "trade list \<Rightarrow> (string \<times> number) list" where
  "collateral_deltas ts = foldl collateral_step [] ts"

definition update_position :: "'db order_store \<Rightarrow> string \<Rightarrow> (string \<times> number) list \<Rightarrow> position_delta \<Rightarrow>
    'db \<Rightarrow> string + 'db" where
  "update_position st market coll d db =
     st_position st market (pd_user d) (pd_yes d) (pd_no d)
       (case map_of coll (pd_user d) of None \<Rightarrow> 0 | Some v \<Rightarrow> v) db"

definition persist_match :: "'db order_store \<Rightarrow> db_order \<Rightarrow> match_result \<Rightarrow> 'db \<Rightarrow> string + 'db" where
  "persist_match st taker res db = (case st_create st taker db of
       Inl e \<Rightarrow> Inl e
     | Inr db1 \<Rightarrow>
         (case fold_res (update_maker st (do_id taker)) (mr_trades res) db1 of
            Inl e \<Rightarrow> Inl e
          | Inr db2 \<Rightarrow>
              (case fold_res (st_trade st) (mr_trades res) db2 of
                 Inl e \<Rightarrow> Inl e
               | Inr db3 \<Rightarrow> fold_res (update_position st (do_market taker)
                               (collateral_deltas (mr_trades res))) (mr_deltas res) db3)))"

text \<open>\<open>$transaction\<close>: nothing is kept when the callback rejects.\<close>

definition run_transaction :: "('db \<Rightarrow> string + 'db) \<Rightarrow> 'db \<Rightarrow> 'db \<times> string option" where
  "run_transaction body db = (case body db of Inl e \<Rightarrow> (db, Some e) | Inr db' \<Rightarrow> (db', None))"

subsection \<open>Placing an order\<close>

definition has_opposite_resting :: "place_input \<Rightarrow> book \<Rightarrow> bool" where
  "has_opposite_resting input b =
     list_ex (\<lambda>x. o_side x = (if pi_side input = BUY then Ask else Bid)) (get_orders_by_user (pi_user input) b)"

definition taker_order :: "place_input \<Rightarrow> string \<Rightarrow> int \<Rightarrow> matching_order" where
  "taker_order input uuid now = \<lparr>mo_id = uuid, mo_user = pi_user input, mo_side = pi_side input,
     mo_price = pi_price input, mo_quantity = pi_quantity input, mo_market = pi_market input,
     mo_outcome = pi_outcome input, mo_timestamp = now\<rparr>"

definition filled_quantity :: "place_input \<Rightarrow> match_result \<Rightarrow> int" where
  "filled_quantity input res =
     pi_quantity input - (case mr_remaining res of None \<Rightarrow> 0 | Some m \<Rightarrow> mo_quantity m)"

definition taker_row :: "place_input \<Rightarrow> string \<Rightarrow> int \<Rightarrow> int \<Rightarrow> db_order" where
  "taker_row input uuid created filled = \<lparr>do_id = uuid, do_market = pi_market input,
     do_user = pi_user input, do_side = pi_side input, do_outcome = pi_outcome input,
     do_price = pi_price input, do_quantity = pi_quantity input, do_filled = filled,
     do_status = fill_status filled (pi_quantity input), do_created = created\<rparr>"

definition remaining_book_order :: "place_input \<Rightarrow> matching_order \<Rightarrow> order" where
  "remaining_book_order input m = \<lparr>o_id = mo_id m, o_user = mo_user m,
     o_side = book_side_of (pi_side input), o_price = mo_price m, o_quantity = mo_quantity m,
     o_timestamp = mo_timestamp m, o_market = pi_market input,
     o_outcome = outcome_to_number (pi_outcome input)\<rparr>"

text \<open>The callback under the mutex. The book is one object: the cache holds the matched book as
  soon as the matching engine has run. \<open>created\<close> is the row's \<open>createdAt\<close>. The audit writes are
  started by the engine's callback, so they are among the effects also when the transaction
  rejects; \<open>logOrderMatch\<close> is an async function, so the callback itself does not throw.\<close>

definition set_book :: "place_input \<Rightarrow> book \<Rightarrow> service \<Rightarrow> service" where
  "set_book input b sv =
     sv\<lparr>sv_books := AList.update (get_book_key (pi_market input) (pi_outcome input)) b (sv_books sv)\<rparr>"

definition add_remaining :: "place_input \<Rightarrow> match_result \<Rightarrow> book \<Rightarrow> string + book" where
  "add_remaining input res b = (case mr_remaining res of
       None \<Rightarrow> Inr b
     | Some m \<Rightarrow> add_order (remaining_book_order input m) b)"

definition commit_effects :: "place_input \<Rightarrow> match_result \<Rightarrow> book \<Rightarrow> effect list" where
  "commit_effects input res b = map EnqueueSettlement (mr_trades res) @
     [CacheBook (pi_market input) (pi_outcome input) (fst (get_depth 20 b)) (snd (get_depth 20 b))]"

definition place_order :: "'db order_store \<Rightarrow> string \<Rightarrow> int \<Rightarrow> int \<Rightarrow> place_input \<Rightarrow> service \<Rightarrow> 'db \<Rightarrow>
    (service \<times> 'db \<times> effect list \<times> (place_error + place_result)) option" where
  "place_order st uuid now created input sv db =
     (case get_or_hydrate_book st (pi_market input) (pi_outcome input) db sv of
        Inl e \<Rightarrow> Some (sv, db, [], Inl (Rejected e))
      | Inr (b, sv1) \<Rightarrow>
          if has_opposite_resting input b then Some (sv1, db, [], Inl SelfTrade)
          else
            (case match_order order_book_ops (\<lambda>_. None) now (taker_order input uuid now) b of
               None \<Rightarrow> None
             | Some (b1, Inl e) \<Rightarrow> Some (set_book input b1 sv1, db, [], Inl (Rejected e))
             | Some (b1, Inr res) \<Rightarrow>
                 let filled = filled_quantity input res;
                     row = taker_row input uuid created filled;
                     audits = map AuditTrade (mr_trades res)
                 in (case run_transaction (persist_match st row res) db of
                       (db', Some e) \<Rightarrow>
                         Some (invalidate_book (pi_market input) (pi_outcome input) (set_book input b1 sv1),
                               db', audits, Inl (Rejected e))
                     | (db', None) \<Rightarrow>
                         (case add_remaining input res b1 of
                            Inl e \<Rightarrow> Some (set_book input b1 sv1, db', audits, Inl (Rejected e))
                          | Inr b2 \<Rightarrow>
                              Some (set_book input b2 sv1, db', audits @ commit_effects input res b2,
                                    Inr \<lparr>pr_order = row, pr_trades = mr_trades res, pr_filled = filled\<rparr>)))))"

end
