(* ===== verification/ServiceProps.thy ===== *)
theory ServiceProps
  imports MatchingService
begin

text \<open>
  The matching service keeps its cached books in agreement with the database. \<open>coherent\<close> relates
  a book to the order rows: the book is well formed and holds exactly the live rows of its
  market and outcome, each with the row's remaining quantity. The locale \<open>order_store_laws\<close> is
  the contract of the Prisma calls; inside it hydration is shown to build a coherent book and
  \<open>place_order\<close> to keep every cached book coherent, whether the transaction commits or rejects.
\<close>

type_synonym rows = "string \<Rightarrow> db_order option"

definition live :: "string \<Rightarrow> outcome \<Rightarrow> db_order \<Rightarrow> bool" where
  "live m oc d = (do_market d = m \<and> do_outcome d = oc \<and> do_status d \<in> {OPEN, PARTIALLY_FILLED} \<and>
     do_filled d < do_quantity d)"

text \<open>What a resting order and a live row have in common: id, user, side, price and quantity left.\<close>

definition book_view :: "order \<Rightarrow> string \<times> string \<times> book_side \<times> number \<times> int" where
  "book_view x = (o_id x, o_user x, o_side x, o_price x, o_quantity x)"

definition row_view :: "db_order \<Rightarrow> string \<times> string \<times> book_side \<times> number \<times> int" where
  "row_view d = (do_id d, do_user d, book_side_of (do_side d), do_price d, do_quantity d - do_filled d)"

definition live_view :: "string \<Rightarrow> outcome \<Rightarrow> db_order option \<Rightarrow>
    (string \<times> string \<times> book_side \<times> number \<times> int) option" where
  "live_view m oc r = (case r of None \<Rightarrow> None | Some d \<Rightarrow> if live m oc d then Some (row_view d) else None)"

definition coherent :: "string \<Rightarrow> outcome \<Rightarrow> book \<Rightarrow> rows \<Rightarrow> bool" where
  "coherent m oc b orders = (book_ok b \<and> ob_market b = m \<and> ob_outcome b = outcome_to_number oc \<and>
     (\<forall>i. map_option book_view (map_of (order_map b) i) = live_view m oc (orders i)))"

definition service_ok :: "service \<Rightarrow> rows \<Rightarrow> bool" where
  "service_ok sv orders =
     (\<forall>m oc b. map_of (sv_books sv) (get_book_key m oc) = Some b \<longrightarrow> coherent m oc b orders)"

lemma book_key_inject: "get_book_key m oc = get_book_key m' oc' \<Longrightarrow> m = m' \<and> oc = oc'"
proof -
  assume "get_book_key m oc = get_book_key m' oc'"
  then have "m @ CHR '':'' # (case oc of YES \<Rightarrow> ''YES'' | NO \<Rightarrow> ''NO'') =
      m' @ CHR '':'' # (case oc' of YES \<Rightarrow> ''YES'' | NO \<Rightarrow> ''NO'')"
    by (simp add: get_book_key_def)
  from append_sep_inject [OF this] show ?thesis by (cases oc; cases oc') auto
qed

lemma book_key_eq [simp]: "get_book_key m oc = get_book_key m' oc' \<longleftrightarrow> m = m' \<and> oc = oc'"
  using book_key_inject by blast

subsection \<open>Hydration\<close>

lemma resting_order_simps [simp]:
  "o_id (resting_order m oc d) = do_id d" "o_market (resting_order m oc d) = m"
  "o_outcome (resting_order m oc d) = outcome_to_number oc"
  by (simp_all add: resting_order_def)

lemma resting_order_view: "book_view (resting_order m oc d) = row_view d"
  by (simp add: book_view_def row_view_def resting_order_def)

lemma hydrate_fold:
  assumes "book_ok b" "ob_market b = m" "ob_outcome b = outcome_to_number oc"
    and "distinct (map do_id ds)" "\<And>d. d \<in> set ds \<Longrightarrow> do_id d \<notin> o_id ` set (resting b)"
  shows "\<exists>b'. fold_res (hydrate_step m oc) ds b = Inr b' \<and> book_ok b' \<and> ob_market b' = m \<and>
    ob_outcome b' = outcome_to_number oc \<and>
    set (resting b') = set (resting b) \<union> resting_order m oc ` {d \<in> set ds. do_filled d < do_quantity d}"
  using assms
proof (induction ds arbitrary: b)
  case (Cons d ds)
  show ?case
  proof (cases "do_quantity d - do_filled d \<le> 0")
    case True
    then show ?thesis using Cons.IH [of b] Cons.prems by (auto simp: hydrate_step_def)
  next
    case False
    have "map_of (order_map b) (do_id d) = None"
      using order_map_None [OF Cons.prems(1)] Cons.prems(5) [of d] by simp
    then obtain b1 where b1: "add_order (resting_order m oc d) b = Inr b1"
      using add_order_total [of "resting_order m oc d" b] Cons.prems(2,3) by auto
    have ok1: "book_ok b1" by (rule add_order_book_ok [OF Cons.prems(1) b1])
    have r1: "set (resting b1) = insert (resting_order m oc d) (set (resting b))"
      by (rule add_order_resting [OF Cons.prems(1) b1])
    have "do_id e \<notin> o_id ` set (resting b1)" if "e \<in> set ds" for e
      using that Cons.prems(4,5) by (auto simp: r1) (metis imageI)
    with Cons.IH [of b1] obtain b' where b': "fold_res (hydrate_step m oc) ds b1 = Inr b'" "book_ok b'"
      "ob_market b' = m" "ob_outcome b' = outcome_to_number oc"
      "set (resting b') = set (resting b1) \<union> resting_order m oc ` {e \<in> set ds. do_filled e < do_quantity e}"
      using ok1 add_order_frame(4,5) [OF b1] Cons.prems(2,3,4) by auto
    have step: "hydrate_step m oc d b = Inr b1" using b1 False by (simp add: hydrate_step_def)
    have "resting_order m oc ` {e \<in> set (d # ds). do_filled e < do_quantity e} =
        insert (resting_order m oc d) (resting_order m oc ` {e \<in> set ds. do_filled e < do_quantity e})"
      using False by auto
    then show ?thesis using b' step r1 by (intro exI [of _ b']) (simp del: list.set)
  qed
qed simp

lemma hydrate_coherent:
  assumes ids: "distinct (map do_id ds)"
    and rows: "\<And>d. d \<in> set ds \<longleftrightarrow> orders (do_id d) = Some d \<and> do_market d = m \<and> do_outcome d = oc \<and>
      do_status d \<in> {OPEN, PARTIALLY_FILLED}"
    and key: "\<And>i d. orders i = Some d \<Longrightarrow> do_id d = i"
  shows "\<exists>b. fold_res (hydrate_step m oc) ds (new_book m (outcome_to_number oc)) = Inr b \<and>
    coherent m oc b orders"
proof -
  obtain b where b: "fold_res (hydrate_step m oc) ds (new_book m (outcome_to_number oc)) = Inr b"
      "book_ok b" "ob_market b = m" "ob_outcome b = outcome_to_number oc"
      "set (resting b) = resting_order m oc ` {d \<in> set ds. do_filled d < do_quantity d}"
    using hydrate_fold [of "new_book m (outcome_to_number oc)" m oc ds] ids by auto
  have "map_option book_view (map_of (order_map b) i) = live_view m oc (orders i)" for i
  proof (cases "map_of (order_map b) i")
    case None
    then have "i \<notin> o_id ` set (resting b)" using order_map_None [OF b(2)] by blast
    moreover have "i \<in> o_id ` set (resting b)" if d: "orders i = Some d" "live m oc d" for d
    proof -
      have "d \<in> set ds" "do_filled d < do_quantity d"
        using rows [of d] key [OF d(1)] d by (auto simp: live_def)
      then have "resting_order m oc d \<in> set (resting b)" unfolding b(5) by blast
      then show ?thesis using key [OF d(1)] by (metis imageI resting_order_simps(1))
    qed
    ultimately have "\<not> live m oc d" if "orders i = Some d" for d using that by blast
    then show ?thesis using None by (auto simp: live_view_def split: option.splits)
  next
    case (Some x)
    then have xi: "x \<in> resting_order m oc ` {d \<in> set ds. do_filled d < do_quantity d}" "o_id x = i"
      using order_map_resting [OF b(2)] b(5) by simp_all
    obtain d where d: "x = resting_order m oc d" "d \<in> set ds" "do_filled d < do_quantity d"
      by (rule imageE [OF xi(1)]) simp
    then have "do_id d = i" using xi(2) by simp
    moreover have "orders (do_id d) = Some d \<and> do_market d = m \<and> do_outcome d = oc \<and>
        do_status d \<in> {OPEN, PARTIALLY_FILLED}"
      using rows [of d] d(2) by blast
    ultimately have "orders i = Some d" "live m oc d" using d(3) by (simp_all add: live_def)
    then show ?thesis using Some d(1) by (simp add: live_view_def resting_order_view)
  qed
  then show ?thesis using b by (auto simp: coherent_def)
qed

subsection \<open>What a match does to the id map\<close>

definition fill_amounts :: "(order \<times> int) list \<Rightarrow> (string \<times> int) list" where
  "fill_amounts fs = map (\<lambda>(x, n). (o_id x, n)) fs"

definition residual :: "(string \<times> int) list \<Rightarrow> order \<Rightarrow> order option" where
  "residual am x = (case map_of am (o_id x) of
     None \<Rightarrow> Some x
   | Some n \<Rightarrow> if n < o_quantity x then Some (set_quantity (o_id x) (o_quantity x - n) x) else None)"

lemma residual_id: "residual am x = Some y \<Longrightarrow> o_id y = o_id x"
  by (auto simp: residual_def split: option.splits if_splits)

lemma residual_other: "o_id x \<notin> fst ` set am \<Longrightarrow> residual am x = Some x"
  using map_of_eq_None_iff [of am "o_id x"] by (simp add: residual_def)

lemma residual_Cons:
  "o_id y \<noteq> o_id x \<Longrightarrow> residual ((o_id x, n) # am) y = residual am y"
  by (simp add: residual_def)

lemma fill_amounts_keys: "fst ` set (fill_amounts fs) = o_id ` fst ` set fs"
  by (force simp: fill_amounts_def)

lemma fill_residual:
  "fill new r q = (fs, q', r') \<Longrightarrow> distinct (map o_id q) \<Longrightarrow>
     set q' = {y. \<exists>x \<in> set q. residual (fill_amounts fs) x = Some y}"
proof (induction q arbitrary: r fs q' r')
  case (Cons x q)
  have d: "o_id y \<noteq> o_id x" if "y \<in> set q" for y using Cons.prems(2) that by (auto simp: image_iff)
  show ?case
  proof (cases rule: fill_step_cases [of new r x q])
    case (full fs1 q1 r1)
    have IH: "set q1 = {y. \<exists>z \<in> set q. residual (fill_amounts fs1) z = Some y}"
      using Cons.IH [OF full(4)] Cons.prems(2) by simp
    have fs: "fs = (x, o_quantity x) # fs1" "q' = q1" using full Cons.prems(1) by auto
    have "residual (fill_amounts fs) z = residual (fill_amounts fs1) z" if "z \<in> set q" for z
      using residual_Cons [OF d [OF that]] by (simp add: fs(1) fill_amounts_def)
    moreover have "residual (fill_amounts fs) x = None" by (simp add: fs(1) fill_amounts_def residual_def)
    ultimately show ?thesis unfolding fs(2) IH by auto
  next
    case part
    have fs: "fs = [(x, r)]" "q' = set_quantity (o_id x) (o_quantity x - r) x # q"
      using part Cons.prems(1) by auto
    have "residual (fill_amounts fs) z = Some z" if "z \<in> set q" for z
      using d [OF that] by (simp add: fs(1) fill_amounts_def residual_def)
    moreover have "residual (fill_amounts fs) x = Some (set_quantity (o_id x) (o_quantity x - r) x)"
      using part(3) by (simp add: fs(1) fill_amounts_def residual_def)
    ultimately show ?thesis unfolding fs(2) by auto
  qed (use Cons.prems in \<open>auto simp: fill_amounts_def residual_def\<close>)
qed (auto simp: fill_amounts_def)

lemma match_order_map:
  assumes ok: "book_ok b" "book_ok b'"
    and f: "fill new r (iterate_orders (opposite (mo_side new)) b) = (fs, q', r')"
    and b': "iterate_orders (opposite (mo_side new)) b' = q'"
      "iterate_orders (own_side (mo_side new)) b' = iterate_orders (own_side (mo_side new)) b"
  shows "map_of (order_map b') i =
    Option.bind (map_of (order_map b) i) (residual (fill_amounts fs))"
proof -
  define s t where "s = opposite (mo_side new)" and "t = own_side (mo_side new)"
  have st: "s \<noteq> t" "\<And>c. set (resting c) = set (iterate_orders s c) \<union> set (iterate_orders t c)"
    by (auto simp: s_def t_def opposite_def own_side_def resting_def)
  have q': "set (iterate_orders s b') = {y. \<exists>x \<in> set (iterate_orders s b). residual (fill_amounts fs) x = Some y}"
    using fill_residual [OF f book_okD(8) [OF ok(1)]] b'(1) by (simp add: s_def)
  have keys: "fst ` set (fill_amounts fs) \<subseteq> o_id ` set (iterate_orders s b)"
    using fill_members [OF f] unfolding fill_amounts_keys s_def by fastforce
  have own: "residual (fill_amounts fs) x = Some x" if "x \<in> set (iterate_orders t b)" for x
  proof (rule residual_other)
    show "o_id x \<notin> fst ` set (fill_amounts fs)"
      using keys matcher.other_ids [OF ok(1) _ st(1) [symmetric] that] by blast
  qed
  have R: "set (resting b') = {y. \<exists>x \<in> set (resting b). residual (fill_amounts fs) x = Some y}"
    unfolding st(2) q' using own b'(2) by (auto simp: t_def)
  show ?thesis
  proof (cases "map_of (order_map b) i")
    case None
    then have "i \<notin> o_id ` set (resting b')"
      using order_map_None [OF ok(1)] unfolding R by (auto dest!: residual_id)
    then show ?thesis using None order_map_None [OF ok(2)] by simp
  next
    case (Some x)
    then have x: "x \<in> set (resting b)" "o_id x = i" using order_map_resting [OF ok(1)] by auto
    have only: "z = x" if "z \<in> set (resting b)" "o_id z = i" for z
      using resting_unique [OF ok(1) that(1) x(1)] that(2) x(2) by simp
    show ?thesis
    proof (cases "residual (fill_amounts fs) x")
      case None
      then have "i \<notin> o_id ` set (resting b')"
        unfolding R using only residual_id by fastforce
      then show ?thesis using Some None order_map_None [OF ok(2)] by simp
    next
      case (Some y)
      then have "y \<in> set (resting b')" "o_id y = i" using x residual_id unfolding R by auto
      then show ?thesis using Some \<open>map_of (order_map b) i = Some x\<close> order_map_resting [OF ok(2)] by simp
    qed
  qed
qed

subsection \<open>The contract of the database calls\<close>

type_synonym shares = "string \<Rightarrow> string \<Rightarrow> int \<times> int"

definition fill_row :: "int \<Rightarrow> db_order \<Rightarrow> db_order" where
  "fill_row n d = d\<lparr>do_filled := do_filled d + n, do_status := fill_status (do_filled d + n) (do_quantity d)\<rparr>"

definition add_shares :: "string \<Rightarrow> string \<Rightarrow> int \<Rightarrow> int \<Rightarrow> shares \<Rightarrow> shares" where
  "add_shares m u y n sh = sh(m := (sh m)(u := (fst (sh m u) + y, snd (sh m u) + n)))"

fun apply_deltas :: "string \<Rightarrow> shares \<Rightarrow> position_delta list \<Rightarrow> shares" where
  "apply_deltas m sh [] = sh"
| "apply_deltas m sh (d # ds) = apply_deltas m (add_shares m (pd_user d) (pd_yes d) (pd_no d) sh) ds"

locale order_store_laws =
  fixes st :: "'db order_store" and orders_of :: "'db \<Rightarrow> rows" and shares_of :: "'db \<Rightarrow> shares"
    and stored :: "number \<Rightarrow> number"
  assumes id_law: "orders_of db i = Some d \<Longrightarrow> do_id d = i"
    and resting_law: "st_resting st m oc db = Inr ds \<Longrightarrow> distinct (map do_id ds) \<and>
      (\<forall>d. d \<in> set ds \<longleftrightarrow> orders_of db (do_id d) = Some d \<and> do_market d = m \<and> do_outcome d = oc \<and>
         do_status d \<in> {OPEN, PARTIALLY_FILLED})"
    and create_law: "st_create st d db = Inr db' \<Longrightarrow> orders_of db (do_id d) = None \<and>
      orders_of db' = (orders_of db)(do_id d \<mapsto> d\<lparr>do_price := stored (do_price d)\<rparr>) \<and>
      shares_of db' = shares_of db"
    and find_law: "st_find st i db = Inr r \<Longrightarrow>
      r = map_option (\<lambda>d. (do_quantity d, do_filled d)) (orders_of db i)"
    and update_law: "st_update st i f s db = Inr db' \<Longrightarrow> \<exists>d. orders_of db i = Some d \<and>
      orders_of db' = (orders_of db)(i \<mapsto> d\<lparr>do_filled := f, do_status := s\<rparr>) \<and> shares_of db' = shares_of db"
    and trade_law: "st_trade st t db = Inr db' \<Longrightarrow> orders_of db' = orders_of db \<and> shares_of db' = shares_of db"
    and position_law: "st_position st m u y n c db = Inr db' \<Longrightarrow> orders_of db' = orders_of db \<and>
      shares_of db' = add_shares m u y n (shares_of db)"
begin

lemma hydrate_book_coherent:
  assumes "hydrate_book st m oc db sv = Inr (b, sv')"
  shows "coherent m oc b (orders_of db)"
    "sv_books sv' = AList.update (get_book_key m oc) b (sv_books sv)"
proof -
  obtain ds where ds: "st_resting st m oc db = Inr ds"
    and f: "fold_res (hydrate_step m oc) ds (new_book m (outcome_to_number oc)) = Inr b"
    and sv': "sv' = sv\<lparr>sv_books := AList.update (get_book_key m oc) b (sv_books sv)\<rparr>"
    using assms by (auto simp: hydrate_book_def split: sum.splits)
  show "sv_books sv' = AList.update (get_book_key m oc) b (sv_books sv)" by (simp add: sv')
  show "coherent m oc b (orders_of db)"
    using hydrate_coherent [of ds "orders_of db" m oc] resting_law [OF ds] id_law f by auto
qed

lemma service_ok_update:
  assumes "service_ok sv (orders_of db)" "coherent m oc b (orders_of db)"
  shows "service_ok (sv\<lparr>sv_books := AList.update (get_book_key m oc) b (sv_books sv)\<rparr>) (orders_of db)"
  using assms by (auto simp: service_ok_def)

lemma get_or_hydrate_ok:
  assumes "service_ok sv (orders_of db)" "get_or_hydrate_book st m oc db sv = Inr (b, sv')"
  shows "coherent m oc b (orders_of db) \<and> service_ok sv' (orders_of db)"
proof (cases "map_of (sv_books sv) (get_book_key m oc)")
  case (Some c)
  then show ?thesis using assms by (auto simp: get_or_hydrate_book_def service_ok_def)
next
  case None
  then have h: "hydrate_book st m oc db sv = Inr (b, sv')" using assms(2) by (simp add: get_or_hydrate_book_def)
  show ?thesis
    using hydrate_book_coherent [OF h] assms(1) by (auto simp: service_ok_def)
qed

text \<open>Updating the makers of a list of fills.\<close>

lemma maker_of_fill: "maker_of (mo_id new) (fill_trade new now f) = o_id (fst f)"
  by (auto simp: maker_of_def fill_trade_def create_trade_def Let_def)

lemma update_maker_law:
  assumes "update_maker st (mo_id new) (fill_trade new now (x, n)) db = Inr db'"
  shows "\<exists>d. orders_of db (o_id x) = Some d \<and>
    orders_of db' = (orders_of db)(o_id x \<mapsto> fill_row n d) \<and> shares_of db' = shares_of db"
proof -
  obtain r where r: "st_find st (o_id x) db = Inr r"
    using assms by (auto simp: update_maker_def maker_of_fill split: sum.splits)
  obtain d where d: "orders_of db (o_id x) = Some d"
    using assms r find_law [OF r] by (cases "orders_of db (o_id x)") (auto simp: update_maker_def maker_of_fill)
  have "st_update st (o_id x) (do_filled d + n) (fill_status (do_filled d + n) (do_quantity d)) db = Inr db'"
    using assms r find_law [OF r] d by (simp add: update_maker_def maker_of_fill Let_def)
  from update_law [OF this] d show ?thesis by (auto simp: fill_row_def)
qed

lemma update_makers:
  assumes "fold_res (update_maker st (mo_id new)) (map (fill_trade new now) fs) db = Inr db'"
    and "distinct (map (o_id \<circ> fst) fs)"
  shows "orders_of db' i = (case map_of (fill_amounts fs) i of
      None \<Rightarrow> orders_of db i | Some n \<Rightarrow> map_option (fill_row n) (orders_of db i)) \<and>
    shares_of db' = shares_of db"
  using assms
proof (induction fs arbitrary: db)
  case (Cons f fs)
  obtain x n where f: "f = (x, n)" by (cases f)
  obtain db1 where s: "update_maker st (mo_id new) (fill_trade new now (x, n)) db = Inr db1"
      "fold_res (update_maker st (mo_id new)) (map (fill_trade new now) fs) db1 = Inr db'"
    using Cons.prems(1) f by (auto split: sum.splits)
  obtain d where d: "orders_of db (o_id x) = Some d"
      "orders_of db1 = (orders_of db)(o_id x \<mapsto> fill_row n d)" "shares_of db1 = shares_of db"
    using update_maker_law [OF s(1)] by blast
  have "map_of (fill_amounts fs) (o_id x) = None"
    using Cons.prems(2) f fill_amounts_keys [of fs] by (simp add: map_of_eq_None_iff image_comp)
  with Cons.IH [OF s(2)] Cons.prems(2) d show ?case
    by (auto simp: f fill_amounts_def split: option.splits)
qed (simp add: fill_amounts_def)

lemma trades_frame:
  "fold_res (st_trade st) ts db = Inr db' \<Longrightarrow> orders_of db' = orders_of db \<and> shares_of db' = shares_of db"
  by (induction ts arbitrary: db) (auto split: sum.splits dest: trade_law)

lemma positions_law:
  "fold_res (update_position st m coll) ds db = Inr db' \<Longrightarrow> orders_of db' = orders_of db \<and>
     shares_of db' = apply_deltas m (shares_of db) ds"
proof (induction ds arbitrary: db)
  case (Cons d ds)
  obtain db1 where s: "update_position st m coll d db = Inr db1"
      "fold_res (update_position st m coll) ds db1 = Inr db'"
    using Cons.prems by (auto split: sum.splits)
  show ?case
    using Cons.IH [OF s(2)] position_law [OF s(1) [unfolded update_position_def]] by simp
qed simp

lemma persist_match_law:
  assumes p: "persist_match st row res db = Inr db'" and id: "do_id row = mo_id new"
    and t: "mr_trades res = map (fill_trade new now) fs" and d: "distinct (map (o_id \<circ> fst) fs)"
    and fresh: "do_id row \<notin> fst ` set (fill_amounts fs)"
  shows "orders_of db (do_id row) = None"
    "orders_of db' i = (if i = do_id row then Some (row\<lparr>do_price := stored (do_price row)\<rparr>)
       else case map_of (fill_amounts fs) i of
         None \<Rightarrow> orders_of db i | Some n \<Rightarrow> map_option (fill_row n) (orders_of db i))"
proof -
  obtain db1 db2 db3 where s: "st_create st row db = Inr db1"
      "fold_res (update_maker st (mo_id new)) (map (fill_trade new now) fs) db1 = Inr db2"
      "fold_res (st_trade st) (mr_trades res) db2 = Inr db3"
      "fold_res (update_position st (do_market row) (collateral_deltas (mr_trades res))) (mr_deltas res) db3 = Inr db'"
    using p by (auto simp: persist_match_def id t split: sum.splits)
  note C = create_law [OF s(1)] and M = update_makers [OF s(2) d] and T = trades_frame [OF s(3)]
    and P = positions_law [OF s(4)]
  show "orders_of db (do_id row) = None" using C by blast
  show "orders_of db' i = (if i = do_id row then Some (row\<lparr>do_price := stored (do_price row)\<rparr>)
       else case map_of (fill_amounts fs) i of
         None \<Rightarrow> orders_of db i | Some n \<Rightarrow> map_option (fill_row n) (orders_of db i))"
  proof -
    have "map_of (fill_amounts fs) (do_id row) = None" using fresh by (simp add: map_of_eq_None_iff)
    then show ?thesis using C M [of i] T P by (auto split: option.splits)
  qed
qed

lemma makers_shares: "fold_res (update_maker st taker) ts db = Inr db' \<Longrightarrow> shares_of db' = shares_of db"
  by (induction ts arbitrary: db)
     (auto simp: update_maker_def Let_def split: sum.splits option.splits dest!: update_law)

lemma persist_shares: "persist_match st row res db = Inr db' \<Longrightarrow> shares_of db' =
    apply_deltas (do_market row) (shares_of db) (mr_deltas res)"
  by (auto simp: persist_match_def split: sum.splits
      dest!: create_law makers_shares trades_frame positions_law)

lemma persist_creates: "persist_match st row res db = Inr db' \<Longrightarrow> orders_of db (do_id row) = None"
  by (auto simp: persist_match_def split: sum.splits dest: create_law)

end

subsection \<open>The rows and the book after a match\<close>

lemma live_view_fill:
  assumes "live m oc d"
  shows "live_view m' oc' (Some (fill_row n d)) =
    (if m' = m \<and> oc' = oc \<and> do_filled d + n < do_quantity d then Some (row_view (fill_row n d)) else None)"
  using assms by (auto simp: live_view_def live_def fill_row_def fill_status_def)

lemma coherent_row:
  assumes "coherent m oc b orders" "map_of (order_map b) i = Some x"
  obtains d where "orders i = Some d" "live m oc d" "book_view x = row_view d"
proof -
  have "map_option book_view (map_of (order_map b) i) = live_view m oc (orders i)"
    using assms(1) by (simp add: coherent_def)
  then have "Some (book_view x) = live_view m oc (orders i)" using assms(2) by simp
  then show thesis using that by (auto simp: live_view_def split: option.splits if_splits)
qed

lemma coherent_positive:
  assumes "coherent m oc b orders"
  shows "\<forall>x \<in> set (resting b). 0 < o_quantity x"
proof
  fix x assume x: "x \<in> set (resting b)"
  have "book_ok b" using assms by (simp add: coherent_def)
  then have "map_of (order_map b) (o_id x) = Some x" using order_map_resting x by simp
  then show "0 < o_quantity x"
    by (rule coherent_row [OF assms]) (simp add: live_def book_view_def row_view_def)
qed

lemma coherent_none:
  assumes "coherent m oc b orders" "orders i = None"
  shows "map_of (order_map b) i = None"
proof -
  have "map_option book_view (map_of (order_map b) i) = live_view m oc (orders i)"
    using assms(1) by (simp add: coherent_def)
  then show ?thesis using assms(2) by (simp add: live_view_def)
qed

lemma match_rows:
  assumes coh: "coherent m oc b orders"
    and om: "map_of (order_map b1) i = Option.bind (map_of (order_map b) i) (residual am)"
    and keys: "i \<in> fst ` set am \<Longrightarrow> map_of (order_map b) i \<noteq> None"
    and rows: "orders' i = (case map_of am i of None \<Rightarrow> orders i | Some n \<Rightarrow> map_option (fill_row n) (orders i))"
  shows "map_option book_view (map_of (order_map b1) i) = live_view m oc (orders' i)"
    "m' \<noteq> m \<or> oc' \<noteq> oc \<Longrightarrow> live_view m' oc' (orders' i) = live_view m' oc' (orders i)"
proof -
  have both: "map_option book_view (map_of (order_map b1) i) = live_view m oc (orders' i) \<and>
    (m' \<noteq> m \<or> oc' \<noteq> oc \<longrightarrow> live_view m' oc' (orders' i) = live_view m' oc' (orders i))"
  proof (cases "map_of am i")
    case None
    have "map_of (order_map b1) i = map_of (order_map b) i"
    proof (cases "map_of (order_map b) i")
      case (Some x)
      then have "o_id x = i" using order_map_resting coh by (auto simp: coherent_def)
      then show ?thesis using om Some None by (simp add: residual_def)
    qed (use om in simp)
    then show ?thesis using coh rows None by (simp add: coherent_def)
  next
    case (Some n)
    then have "map_of (order_map b) i \<noteq> None" using keys by (metis map_of_eq_None_iff option.distinct(1))
    then obtain x where x: "map_of (order_map b) i = Some x" by blast
    then have id: "o_id x = i" using order_map_resting coh by (auto simp: coherent_def)
    obtain d where d: "orders i = Some d" "live m oc d" "book_view x = row_view d"
      by (rule coherent_row [OF coh x])
    then have q: "o_quantity x = do_quantity d - do_filled d" by (simp add: book_view_def row_view_def)
    have "residual am x = (if n < o_quantity x then Some (set_quantity i (o_quantity x - n) x) else None)"
      using Some id by (simp add: residual_def)
    moreover have "book_view (set_quantity i (o_quantity x - n) x) = row_view (fill_row n d)"
      using d(3) id q by (simp add: book_view_def row_view_def fill_row_def)
    moreover have "orders' i = Some (fill_row n d)" using rows Some d(1) by simp
    moreover have "do_filled d + n < do_quantity d \<longleftrightarrow> n < o_quantity x" using q by auto
    moreover have "live_view m' oc' (orders i) = None" if "m' \<noteq> m \<or> oc' \<noteq> oc"
      using that d(1,2) by (auto simp: live_view_def live_def)
    ultimately show ?thesis using om x live_view_fill [OF d(2)] by auto
  qed
  then show "map_option book_view (map_of (order_map b1) i) = live_view m oc (orders' i)" by blast
  show "m' \<noteq> m \<or> oc' \<noteq> oc \<Longrightarrow> live_view m' oc' (orders' i) = live_view m' oc' (orders i)"
    using both by blast
qed

lemma taker_row_view:
  assumes "0 < pi_quantity input" "0 \<le> r"
  shows "live_view m oc (Some (taker_row input uuid created (pi_quantity input - r))) =
    (if m = pi_market input \<and> oc = pi_outcome input \<and> 0 < r
     then Some (uuid, pi_user input, book_side_of (pi_side input), pi_price input, r) else None)"
  using assms by (auto simp: live_view_def live_def taker_row_def fill_status_def row_view_def)

lemma taker_order_simps [simp]:
  "mo_id (taker_order input uuid now) = uuid" "mo_side (taker_order input uuid now) = pi_side input"
  "mo_price (taker_order input uuid now) = pi_price input" "mo_user (taker_order input uuid now) = pi_user input"
  "mo_quantity (taker_order input uuid now) = pi_quantity input"
  "mo_outcome (taker_order input uuid now) = pi_outcome input"
  by (simp_all add: taker_order_def)

text \<open>The remainder joins the book; the order map gains one entry.\<close>

lemma add_remaining_ok:
  assumes ok: "book_ok b1" "ob_market b1 = pi_market input" "ob_outcome b1 = outcome_to_number (pi_outcome input)"
    and fresh: "map_of (order_map b1) uuid = None"
    and rem: "mr_remaining res = (if r > 0 then Some ((taker_order input uuid now)\<lparr>mo_quantity := r\<rparr>) else None)"
  shows "\<exists>b2. add_remaining input res b1 = Inr b2 \<and> book_ok b2 \<and> ob_market b2 = pi_market input \<and>
    ob_outcome b2 = outcome_to_number (pi_outcome input) \<and>
    (\<forall>i. map_option book_view (map_of (order_map b2) i) =
       (if i = uuid \<and> r > 0 then Some (uuid, pi_user input, book_side_of (pi_side input), pi_price input, r)
        else map_option book_view (map_of (order_map b1) i)))"
proof (cases "r > 0")
  case False
  then show ?thesis using assms by (simp add: add_remaining_def)
next
  case True
  define x where "x = remaining_book_order input ((taker_order input uuid now)\<lparr>mo_quantity := r\<rparr>)"
  have x: "o_market x = ob_market b1" "o_outcome x = ob_outcome b1" "o_id x = uuid"
    "book_view x = (uuid, pi_user input, book_side_of (pi_side input), pi_price input, r)"
    using ok by (simp_all add: x_def remaining_book_order_def book_view_def)
  obtain b2 where b2: "add_order x b1 = Inr b2" using add_order_total [OF x(1,2)] fresh x(3) by auto
  have "add_remaining input res b1 = Inr b2" using b2 rem True by (simp add: add_remaining_def x_def)
  then show ?thesis
    using add_order_book_ok [OF ok(1) b2] add_order_frame [OF b2] ok x True by auto
qed

context order_store_laws begin

lemma commit_coherent:
  assumes coh: "coherent (pi_market input) (pi_outcome input) b (orders_of db)"
    and m: "match_order order_book_ops (\<lambda>_. None) now (taker_order input uuid now) b = Some (b1, Inr res)"
    and p: "persist_match st (taker_row input uuid created (filled_quantity input res)) res db = Inr db'"
    and q: "0 < pi_quantity input" and price: "stored (pi_price input) = pi_price input"
  shows "\<exists>b2. add_remaining input res b1 = Inr b2 \<and>
    coherent (pi_market input) (pi_outcome input) b2 (orders_of db') \<and>
    (\<forall>m' oc' c. (m' \<noteq> pi_market input \<or> oc' \<noteq> pi_outcome input) \<longrightarrow>
       coherent m' oc' c (orders_of db) \<longrightarrow> coherent m' oc' c (orders_of db'))"
proof -
  define new where "new = taker_order input uuid now"
  have ok: "book_ok b" "ob_market b = pi_market input" "ob_outcome b = outcome_to_number (pi_outcome input)"
    using coh by (simp_all add: coherent_def)
  obtain fs q' r where f: "fill new (mo_quantity new) (iterate_orders (opposite (mo_side new)) b) = (fs, q', r)"
    and R: "mr_trades res = map (fill_trade new now) fs"
      "mr_remaining res = (if r > 0 then Some (new\<lparr>mo_quantity := r\<rparr>) else None)" "book_ok b1"
      "iterate_orders (opposite (mo_side new)) b1 = q'"
      "iterate_orders (own_side (mo_side new)) b1 = iterate_orders (own_side (mo_side new)) b"
    by (rule match_ok_cases [OF ok(1) m [folded new_def]]) blast
  define am where "am = fill_amounts fs"
  define row where "row = taker_row input uuid created (pi_quantity input - r)"
  note pos = coherent_positive [OF coh, rule_format]
  have r0: "0 \<le> r" using fill_members [OF f] pos q set_resting by (auto simp: new_def)
  have fq: "filled_quantity input res = pi_quantity input - r"
    using R(2) r0 by (simp add: filled_quantity_def)
  have fresh: "orders_of db uuid = None" using persist_creates [OF p] by (simp add: taker_row_def)
  have keyed: "map_of (order_map b) i \<noteq> None" if "i \<in> fst ` set am" for i
    using that fill_members [OF f] order_map_None [OF ok(1), of i] set_resting
    unfolding am_def fill_amounts_keys by fastforce
  have om: "map_of (order_map b1) i = Option.bind (map_of (order_map b) i) (residual am)" for i
    unfolding am_def by (rule match_order_map [OF ok(1) R(3) f R(4,5)])
  have bu: "map_of (order_map b) uuid = None" by (rule coherent_none [OF coh fresh])
  then have ua: "uuid \<notin> fst ` set am" using keyed by blast
  have d: "distinct (map (o_id \<circ> fst) fs)"
  proof -
    have "distinct (map o_id (map fst fs))"
      using fill_prefix [OF f] book_okD(8) [OF ok(1), of "opposite (mo_side new)"]
      by (simp add: take_map [symmetric] del: map_map)
    then show ?thesis by simp
  qed
  have rows: "orders_of db' i = (if i = uuid then Some row
      else case map_of am i of None \<Rightarrow> orders_of db i | Some n \<Rightarrow> map_option (fill_row n) (orders_of db i))" for i
    using persist_match_law(2) [OF p [unfolded fq] _ R(1) d, of i] ua price
    by (simp add: taker_row_def row_def am_def new_def)
  have other: "map_option book_view (map_of (order_map b1) i) = live_view (pi_market input) (pi_outcome input) (orders_of db' i)"
    "m' \<noteq> pi_market input \<or> oc' \<noteq> pi_outcome input \<Longrightarrow>
      live_view m' oc' (orders_of db' i) = live_view m' oc' (orders_of db i)"
    if "i \<noteq> uuid" for i m' oc'
    using match_rows [OF coh om keyed, of i "orders_of db'"] rows [of i] that by auto
  have b1u: "map_of (order_map b1) uuid = None" using om [of uuid] bu by simp
  have frame: "ob_market b1 = pi_market input" "ob_outcome b1 = outcome_to_number (pi_outcome input)"
    using match_keeps_market [OF ok(1) m] ok by simp_all
  obtain b2 where b2: "add_remaining input res b1 = Inr b2" "book_ok b2" "ob_market b2 = pi_market input"
    "ob_outcome b2 = outcome_to_number (pi_outcome input)"
    "\<And>i. map_option book_view (map_of (order_map b2) i) =
       (if i = uuid \<and> r > 0 then Some (uuid, pi_user input, book_side_of (pi_side input), pi_price input, r)
        else map_option book_view (map_of (order_map b1) i))"
    using add_remaining_ok [OF R(3) frame b1u R(2) [unfolded new_def]] by blast
  have tv: "live_view m' oc' (orders_of db' uuid) = (if m' = pi_market input \<and> oc' = pi_outcome input \<and> 0 < r
     then Some (uuid, pi_user input, book_side_of (pi_side input), pi_price input, r) else None)" for m' oc'
    using rows [of uuid] taker_row_view [OF q r0] by (simp add: row_def)
  have "map_option book_view (map_of (order_map b2) i) =
      live_view (pi_market input) (pi_outcome input) (orders_of db' i)" for i
    using other(1) [of i] b2(5) [of i] tv b1u by (cases "i = uuid") auto
  then have "coherent (pi_market input) (pi_outcome input) b2 (orders_of db')"
    using b2 by (simp add: coherent_def)
  moreover have "coherent m' oc' c (orders_of db')"
    if "m' \<noteq> pi_market input \<or> oc' \<noteq> pi_outcome input" "coherent m' oc' c (orders_of db)" for m' oc' c
  proof -
    have "live_view m' oc' (orders_of db' i) = live_view m' oc' (orders_of db i)" for i
      using other(2) [OF _ that(1), of i] tv [of m' oc'] fresh that(1)
      by (cases "i = uuid") (auto simp: live_view_def)
    then show ?thesis using that(2) by (simp add: coherent_def)
  qed
  ultimately show ?thesis using b2(1) by blast
qed

lemma no_self_trade:
  assumes ok: "book_ok b" and no: "\<not> has_opposite_resting input b"
    and m: "match_order order_book_ops hook now (taker_order input uuid now) b = Some (b1, Inr res)"
  shows "\<forall>t \<in> set (mr_trades res). tr_buyer t \<noteq> tr_seller t"
proof -
  define new where "new = taker_order input uuid now"
  obtain fs q' r where f: "fill new (mo_quantity new) (iterate_orders (opposite (mo_side new)) b) = (fs, q', r)"
    and R: "mr_trades res = map (fill_trade new now) fs"
    by (rule match_ok_cases [OF ok m [folded new_def]]) blast
  have "o_user x \<noteq> pi_user input" if "x \<in> set (iterate_orders (opposite (mo_side new)) b)" for x
  proof
    assume u: "o_user x = pi_user input"
    have "x \<in> set (get_orders_by_user (pi_user input) b)"
      using get_orders_by_user_set(1) [OF ok, of "pi_user input"] that u set_resting by blast
    moreover have "o_side x = opposite (pi_side input)" using book_okD(2) [OF ok that] by (simp add: new_def)
    ultimately show False using no by (auto simp: has_opposite_resting_def list_ex_iff opposite_def)
  qed
  then have "o_user (fst g) \<noteq> pi_user input" if "g \<in> set fs" for g
    using fill_members [OF f] that by (cases g) auto
  then have "tr_buyer (fill_trade new now g) \<noteq> tr_seller (fill_trade new now g)" if "g \<in> set fs" for g
    using that by (cases "pi_side input = BUY") (fastforce simp: fill_trade_def create_trade_def new_def)+
  then show ?thesis by (auto simp: R)
qed

lemma add_shares_at:
  "add_shares m u y n sh m' u' = (if m' = m \<and> u' = u then (fst (sh m u) + y, snd (sh m u) + n) else sh m' u')"
  by (simp add: add_shares_def)

lemma add_shares_other: "u \<notin> pd_user ` set ds \<or> m' \<noteq> m \<Longrightarrow>
    apply_deltas m sh ds m' u = sh m' u"
  by (induction ds arbitrary: sh) (auto simp: add_shares_at)

lemma add_shares_delta: "distinct (map pd_user ds) \<Longrightarrow> d \<in> set ds \<Longrightarrow>
    apply_deltas m sh ds m (pd_user d) =
      (fst (sh m (pd_user d)) + pd_yes d, snd (sh m (pd_user d)) + pd_no d)"
proof (induction ds arbitrary: sh)
  case (Cons e ds)
  show ?case
  proof (cases "d = e")
    case True
    then show ?thesis using Cons.prems add_shares_other [of "pd_user e" ds m m] by (simp add: add_shares_at)
  next
    case False
    then have "d \<in> set ds" "pd_user d \<noteq> pd_user e" using Cons.prems by (auto simp: image_iff)
    then show ?thesis using Cons.IH Cons.prems(1) by (simp add: add_shares_at)
  qed
qed simp

lemma net_absent: "u \<notin> tr_buyer ` set ts \<union> tr_seller ` set ts \<Longrightarrow> sum_list (map (net_in oc u) ts) = 0"
  by (induction ts) (auto simp: net_in_def)

lemma shares_after:
  "apply_deltas m sh (calculate_position_deltas ts) m u =
     (fst (sh m u) + sum_list (map (net_in YES u) ts), snd (sh m u) + sum_list (map (net_in NO u) ts))"
proof (cases "u \<in> pd_user ` set (calculate_position_deltas ts)")
  case True
  then obtain d where d: "d \<in> set (calculate_position_deltas ts)" "u = pd_user d" by blast
  then show ?thesis
    using add_shares_delta [of "calculate_position_deltas ts" d m sh] position_deltas_spec [of ts]
    by (simp add: list_all_iff)
next
  case False
  then show ?thesis
    using add_shares_other [of u "calculate_position_deltas ts" m m sh] position_deltas_spec [of ts]
      net_absent [of u ts YES] net_absent [of u ts NO] by simp
qed

text \<open>The whole operation.\<close>

lemma place_order_correct:
  assumes sv: "service_ok sv (orders_of db)" and q: "0 < pi_quantity input"
    and price: "stored (pi_price input) = pi_price input"
  shows "\<exists>sv' db' eff out. place_order st uuid now created input sv db = Some (sv', db', eff, out) \<and>
    service_ok sv' (orders_of db') \<and> ((\<exists>e. out = Inl e) \<longrightarrow> db' = db) \<and>
    (\<forall>p. out = Inr p \<longrightarrow> (\<forall>t \<in> set (pr_trades p). tr_buyer t \<noteq> tr_seller t) \<and>
       sum_list (map tr_quantity (pr_trades p)) = pr_filled p \<and>
       (\<forall>u. shares_of db' (pi_market input) u =
          (fst (shares_of db (pi_market input) u) + sum_list (map (net_in YES u) (pr_trades p)),
           snd (shares_of db (pi_market input) u) + sum_list (map (net_in NO u) (pr_trades p)))))"
proof (cases "get_or_hydrate_book st (pi_market input) (pi_outcome input) db sv")
  case (Inl e)
  then show ?thesis using sv by (simp add: place_order_def)
next
  case (Inr bs)
  obtain b sv1 where bs: "bs = (b, sv1)" by (cases bs)
  have coh: "coherent (pi_market input) (pi_outcome input) b (orders_of db)" and sv1: "service_ok sv1 (orders_of db)"
    using get_or_hydrate_ok [OF sv Inr [unfolded bs]] by simp_all
  then have ok: "book_ok b" by (simp add: coherent_def)
  show ?thesis
  proof (cases "has_opposite_resting input b")
    case True
    then show ?thesis using Inr bs sv1 by (simp add: place_order_def)
  next
    case False
    obtain b1 res where m: "match_order order_book_ops (\<lambda>_. None) now (taker_order input uuid now) b = Some (b1, Inr res)"
      using matcher.match_order_correct [OF ok, where new = "taker_order input uuid now" and hook = "\<lambda>_. None" and now = now]
      by (auto simp: first_error_none split: prod.splits)
    show ?thesis
    proof (cases "persist_match st (taker_row input uuid created (filled_quantity input res)) res db")
      case rej: (Inl e)
      have "service_ok (invalidate_book (pi_market input) (pi_outcome input) (set_book input b1 sv1)) (orders_of db)"
        using sv1 by (simp add: service_ok_def invalidate_book_def set_book_def)
      then show ?thesis
        using Inr bs False m rej by (simp add: place_order_def run_transaction_def Let_def)
    next
      case com: (Inr db')
      obtain b2 where b2: "add_remaining input res b1 = Inr b2"
        "coherent (pi_market input) (pi_outcome input) b2 (orders_of db')"
        "\<And>m' oc' c. m' \<noteq> pi_market input \<or> oc' \<noteq> pi_outcome input \<Longrightarrow>
           coherent m' oc' c (orders_of db) \<Longrightarrow> coherent m' oc' c (orders_of db')"
        using commit_coherent [OF coh m com q price] by blast
      have out: "place_order st uuid now created input sv db = Some (set_book input b2 sv1, db',
          map AuditTrade (mr_trades res) @ commit_effects input res b2,
          Inr \<lparr>pr_order = taker_row input uuid created (filled_quantity input res),
               pr_trades = mr_trades res, pr_filled = filled_quantity input res\<rparr>)"
        using Inr bs False m com b2(1) by (simp add: place_order_def run_transaction_def Let_def)
      have "service_ok (set_book input b2 sv1) (orders_of db')"
        using sv1 b2(2,3) by (auto simp: service_ok_def set_book_def)
      moreover have "sum_list (map tr_quantity (mr_trades res)) = filled_quantity input res"
        using trades_sum [OF ok m] q coherent_positive [OF coh] by (simp add: filled_quantity_def)
      moreover have "shares_of db' (pi_market input) u =
          (fst (shares_of db (pi_market input) u) + sum_list (map (net_in YES u) (mr_trades res)),
           snd (shares_of db (pi_market input) u) + sum_list (map (net_in NO u) (mr_trades res)))" for u
        using shares_after [of "pi_market input"] persist_shares [OF com] match_deltas [OF ok m]
        by (simp add: taker_row_def)
      ultimately show ?thesis using out no_self_trade [OF ok False m] by simp
    qed
  qed
qed

end

end
