(* ===== verification/StoreTables.thy ===== *)
theory StoreTables
  imports ServiceProps
begin

text \<open>
  The tables behind the Prisma calls of \<open>matching-service.ts\<close>, with the constraints of
  \<open>prisma/schema.prisma\<close>: orders by primary key with a foreign key to markets, trades unique by
  \<open>tradeId\<close>, positions unique by (market, user); \<open>price\<close> is \<open>Decimal(10, 8)\<close> and read back with
  \<open>Number\<close>. They meet \<open>order_store_laws\<close>, so the contract is one a database can keep; the
  properties of \<open>placeOrder\<close> follow for them.
\<close>

record tables =
  tb_markets :: "string list"
  tb_orders :: "(string \<times> db_order) list"
  tb_trades :: "(string \<times> trade) list"
  tb_positions :: "((string \<times> string) \<times> (int \<times> int) \<times> number) list"

text \<open>\<open>Number(price)\<close> after storage with eight decimals.\<close>

definition decimal8 :: "number \<Rightarrow> number" where
  "decimal8 p = fl (of_int (math_round (p * 10 ^ 8)) / 10 ^ 8)"

definition table_orders :: "tables \<Rightarrow> rows" where
  "table_orders db i = map_option (\<lambda>d. d\<lparr>do_id := i\<rparr>) (map_of (tb_orders db) i)"

definition table_shares :: "tables \<Rightarrow> shares" where
  "table_shares db m u = (case map_of (tb_positions db) (m, u) of None \<Rightarrow> (0, 0) | Some p \<Rightarrow> fst p)"

definition t_resting :: "string \<Rightarrow> outcome \<Rightarrow> tables \<Rightarrow> string + db_order list" where
  "t_resting m oc db = Inr (sort_key do_price (sort_key do_created
     (filter (\<lambda>d. do_market d = m \<and> do_outcome d = oc \<and> do_status d \<in> {OPEN, PARTIALLY_FILLED})
        (List.map_filter (table_orders db) (remdups (map fst (tb_orders db)))))))"

definition t_create :: "db_order \<Rightarrow> tables \<Rightarrow> string + tables" where
  "t_create d db =
     (if map_of (tb_orders db) (do_id d) \<noteq> None then Inl ''Unique constraint failed on the fields: (id)''
      else if do_market d \<notin> set (tb_markets db) then Inl ''Foreign key constraint failed: orders_market_id_fkey''
      else Inr (db\<lparr>tb_orders := AList.update (do_id d) (d\<lparr>do_price := decimal8 (do_price d)\<rparr>) (tb_orders db)\<rparr>))"

definition t_find :: "string \<Rightarrow> tables \<Rightarrow> string + (int \<times> int) option" where
  "t_find i db = Inr (map_option (\<lambda>d. (do_quantity d, do_filled d)) (table_orders db i))"

definition t_update :: "string \<Rightarrow> int \<Rightarrow> order_status \<Rightarrow> tables \<Rightarrow> string + tables" where
  "t_update i f s db = (case table_orders db i of
     None \<Rightarrow> Inl ''Record to update not found''
   | Some d \<Rightarrow> Inr (db\<lparr>tb_orders := AList.update i (d\<lparr>do_filled := f, do_status := s\<rparr>) (tb_orders db)\<rparr>))"

definition t_trade :: "trade \<Rightarrow> tables \<Rightarrow> string + tables" where
  "t_trade t db = Inr (case map_of (tb_trades db) (tr_id t) of
     Some _ \<Rightarrow> db
   | None \<Rightarrow> db\<lparr>tb_trades := AList.update (tr_id t) t (tb_trades db)\<rparr>)"

definition t_position :: "string \<Rightarrow> string \<Rightarrow> int \<Rightarrow> int \<Rightarrow> number \<Rightarrow> tables \<Rightarrow> string + tables" where
  "t_position m u y n c db =
     (if m \<notin> set (tb_markets db) then Inl ''Foreign key constraint failed: user_positions_market_id_fkey''
      else Inr (db\<lparr>tb_positions := AList.update (m, u)
        (case map_of (tb_positions db) (m, u) of
           None \<Rightarrow> ((y, n), c)
         | Some ((y0, n0), c0) \<Rightarrow> ((y0 + y, n0 + n), c0 + c)) (tb_positions db)\<rparr>))"

definition table_store :: "tables order_store" where
  "table_store = \<lparr>st_resting = t_resting, st_create = t_create, st_find = t_find, st_update = t_update,
     st_trade = t_trade, st_position = t_position\<rparr>"

lemma table_orders_id: "table_orders db i = Some d \<Longrightarrow> do_id d = i"
  by (auto simp: table_orders_def)

lemma map_filter_distinct:
  "distinct is \<Longrightarrow> distinct (map do_id (List.map_filter (table_orders db) is))"
proof (induction "is")
  case (Cons i "is")
  show ?case
  proof (cases "table_orders db i")
    case (Some d)
    have "do_id d \<noteq> do_id e" if "e \<in> set (List.map_filter (table_orders db) is)" for e
      using that Cons.prems table_orders_id [OF Some] table_orders_id by (fastforce simp: in_set_map_filter)
    then show ?thesis using Cons Some by (auto simp: map_filter_simps)
  qed (use Cons in \<open>simp add: map_filter_simps\<close>)
qed (simp add: map_filter_simps)

lemma t_resting_law:
  assumes "t_resting m oc db = Inr ds"
  shows "distinct (map do_id ds) \<and> (\<forall>d. d \<in> set ds \<longleftrightarrow> table_orders db (do_id d) = Some d \<and>
    do_market d = m \<and> do_outcome d = oc \<and> do_status d \<in> {OPEN, PARTIALLY_FILLED})"
proof -
  define rs where "rs = List.map_filter (table_orders db) (remdups (map fst (tb_orders db)))"
  have ds: "ds = sort_key do_price (sort_key do_created
      (filter (\<lambda>d. do_market d = m \<and> do_outcome d = oc \<and> do_status d \<in> {OPEN, PARTIALLY_FILLED}) rs))"
    using assms by (simp add: t_resting_def rs_def)
  have "distinct (map do_id rs)" unfolding rs_def by (rule map_filter_distinct) simp
  then have "distinct (map do_id ds)"
    unfolding ds by (simp add: distinct_map_filter distinct_map inj_on_def)
  moreover have "d \<in> set rs \<longleftrightarrow> table_orders db (do_id d) = Some d" for d
  proof -
    have "do_id d \<in> fst ` set (tb_orders db)" if "table_orders db (do_id d) = Some d"
      using that map_of_eq_None_iff [of "tb_orders db" "do_id d"] by (auto simp: table_orders_def)
    moreover have "(\<exists>i \<in> fst ` set (tb_orders db). table_orders db i = Some d) \<longleftrightarrow>
        do_id d \<in> fst ` set (tb_orders db) \<and> table_orders db (do_id d) = Some d"
      using table_orders_id [of db _ d] by metis
    ultimately show ?thesis by (simp add: rs_def in_set_map_filter) blast
  qed
  ultimately show ?thesis unfolding ds by auto
qed

interpretation table_laws: order_store_laws table_store table_orders table_shares decimal8
proof
  show "distinct (map do_id ds) \<and> (\<forall>d. d \<in> set ds \<longleftrightarrow> table_orders db (do_id d) = Some d \<and>
      do_market d = m \<and> do_outcome d = oc \<and> do_status d \<in> {OPEN, PARTIALLY_FILLED})"
    if "st_resting table_store m oc db = Inr ds" for m oc db ds
    using that t_resting_law [of m oc db ds] by (simp add: table_store_def)
  show "table_orders db (do_id d) = None \<and>
      table_orders db' = (table_orders db)(do_id d \<mapsto> d\<lparr>do_price := decimal8 (do_price d)\<rparr>) \<and>
      table_shares db' = table_shares db"
    if "st_create table_store d db = Inr db'" for d db db'
    using that by (auto simp: table_store_def t_create_def table_orders_def table_shares_def fun_eq_iff split: if_splits)
  show "\<exists>d. table_orders db i = Some d \<and>
      table_orders db' = (table_orders db)(i \<mapsto> d\<lparr>do_filled := f, do_status := s\<rparr>) \<and> table_shares db' = table_shares db"
    if upd: "st_update table_store i f s db = Inr db'" for i f s db db'
  proof -
    obtain d where d: "table_orders db i = Some d"
      "db' = db\<lparr>tb_orders := AList.update i (d\<lparr>do_filled := f, do_status := s\<rparr>) (tb_orders db)\<rparr>"
      using upd by (cases "table_orders db i") (simp_all add: table_store_def t_update_def)
    have "do_id d = i" by (rule table_orders_id [OF d(1)])
    then show ?thesis using d by (auto simp: table_orders_def table_shares_def fun_eq_iff)
  qed
  show "table_orders db' = table_orders db \<and> table_shares db' = table_shares db"
    if "st_trade table_store t db = Inr db'" for t db db'
    using that by (auto simp: table_store_def t_trade_def table_orders_def table_shares_def fun_eq_iff split: option.splits)
  show "table_orders db' = table_orders db \<and> table_shares db' = add_shares m u y n (table_shares db)"
    if "st_position table_store m u y n c db = Inr db'" for m u y n c db db'
    using that by (auto simp: table_store_def t_position_def table_orders_def table_shares_def add_shares_def
        fun_eq_iff split: if_splits option.splits)
qed (auto simp: table_store_def t_find_def table_orders_id)

text \<open>A price in whole cents survives the column.\<close>

lemma decimal8_cents:
  assumes "0 < k" "k < 100"
  shows "decimal8 (fl (of_int k / 100)) = fl (of_int k / 100)"
proof -
  define p where "p = fl (of_int k / 100)"
  have "\<bar>(of_int k / 100 :: rat)\<bar> \<le> 1" using assms by simp
  from fl_abs_error [OF this] have "\<bar>p - of_int k / 100\<bar> \<le> 1 / 1000000000000000"
    using eps_bounds unfolding p_def by linarith
  then have "\<bar>p * 100000000 - of_int k * 1000000\<bar> < 1 / 2" by linarith
  then have "\<bar>p * 10 ^ 8 - of_int (k * 10 ^ 6)\<bar> < 1 / 2" by simp
  then have "math_round (p * 10 ^ 8) = k * 10 ^ 6" by (rule math_round_unique)
  then show ?thesis by (simp add: decimal8_def p_def)
qed

subsection \<open>A concrete service\<close>

definition demo_row :: "string \<Rightarrow> string \<Rightarrow> order_side \<Rightarrow> number \<Rightarrow> int \<Rightarrow> int \<Rightarrow> int \<Rightarrow> db_order" where
  "demo_row i u s p q f c = \<lparr>do_id = i, do_market = ''m'', do_user = u, do_side = s, do_outcome = YES,
     do_price = p, do_quantity = q, do_filled = f, do_status = fill_status f q, do_created = c\<rparr>"

definition demo_tables :: tables where
  "demo_tables = \<lparr>tb_markets = [''m''],
     tb_orders = map (\<lambda>d. (do_id d, d)) [demo_row ''a2'' ''bob'' SELL (1 / 2) 7 0 2,
       demo_row ''a1'' ''ann'' SELL (1 / 2) 9 4 1, demo_row ''b1'' ''ann'' BUY (1 / 4) 3 3 3],
     tb_trades = [], tb_positions = []\<rparr>"

definition empty_service :: service where
  "empty_service = \<lparr>sv_books = [], sv_hydrated = 0\<rparr>"

definition demo_input :: "string \<Rightarrow> int \<Rightarrow> place_input" where
  "demo_input u q = \<lparr>pi_market = ''m'', pi_user = u, pi_side = BUY, pi_outcome = YES,
     pi_price = 1 / 2, pi_quantity = q\<rparr>"

lemma empty_service_ok: "service_ok empty_service orders"
  by (simp add: service_ok_def empty_service_def)

lemma demo_input_price: "0 < q \<Longrightarrow> 0 < pi_quantity (demo_input u q) \<and>
    decimal8 (pi_price (demo_input u q)) = pi_price (demo_input u q)"
proof
  have "decimal8 (1 / 2) = 1 / 2" by code_simp
  then show "decimal8 (pi_price (demo_input u q)) = pi_price (demo_input u q)" by (simp add: demo_input_def)
qed (simp add: demo_input_def)

subsection \<open>Properties of \<open>placeOrder\<close>\<close>



text \<open>C8: when \<open>placeOrder\<close> succeeds no user has traded with itself, the trades add up to the filled
  quantity it reports, and every user's position in the market has moved by exactly what that
  user bought minus what the user sold in each outcome.\<close>
theorem place_order_positions:
  assumes "service_ok sv (table_orders db)" "0 < pi_quantity input"
    "decimal8 (pi_price input) = pi_price input"
    and "place_order table_store uuid now created input sv db = Some (sv', db', eff, Inr p)"
  shows "(\<forall>t \<in> set (pr_trades p). tr_buyer t \<noteq> tr_seller t) \<and>
    sum_list (map tr_quantity (pr_trades p)) = pr_filled p \<and>
    (\<forall>u. table_shares db' (pi_market input) u =
       (fst (table_shares db (pi_market input) u) + sum_list (map (net_in YES u) (pr_trades p)),
        snd (table_shares db (pi_market input) u) + sum_list (map (net_in NO u) (pr_trades p))))"
  using table_laws.place_order_correct [OF assms(1-3), of uuid now created] assms(4) by auto

definition demo_placed :: "service \<times> tables \<times> effect list \<times> (place_error + place_result)" where
  "demo_placed = (case place_order table_store ''t'' 9 9 (demo_input ''tom'' 8) empty_service demo_tables of
     Some r \<Rightarrow> r | None \<Rightarrow> (empty_service, demo_tables, [], Inl SelfTrade))"

theorem place_order_positions_witness:
  "\<exists>p. snd (snd (snd demo_placed)) = Inr p \<and> sum_list (map tr_quantity (pr_trades p)) = pr_filled p"
proof -
  have "place_order table_store ''t'' 9 9 (demo_input ''tom'' 8) empty_service demo_tables = Some demo_placed"
    by code_simp
  moreover obtain p where p: "snd (snd (snd demo_placed)) = Inr p"
  proof -
    have "case snd (snd (snd demo_placed)) of Inl _ \<Rightarrow> False | Inr _ \<Rightarrow> True" by code_simp
    then show thesis using that by (auto split: sum.splits)
  qed
  ultimately have "place_order table_store ''t'' 9 9 (demo_input ''tom'' 8) empty_service demo_tables =
      Some (fst demo_placed, fst (snd demo_placed), fst (snd (snd demo_placed)), Inr p)"
    by (metis prod.collapse)
  with p place_order_positions [OF empty_service_ok _ _ this] demo_input_price [of 8 "''tom''"]
  show ?thesis by simp
qed

text \<open>Hydration turns the rows of a market and outcome into a well-formed book that holds exactly
  the live rows, with the price and the quantity left of each, and it never fails on them.\<close>
lemma hydration_coherent:
  "\<exists>b sv'. hydrate_book table_store m oc db sv = Inr (b, sv') \<and> coherent m oc b (table_orders db)"
proof -
  obtain ds where ds: "t_resting m oc db = Inr ds" by (simp add: t_resting_def)
  obtain b where "fold_res (hydrate_step m oc) ds (new_book m (outcome_to_number oc)) = Inr b"
      "coherent m oc b (table_orders db)"
    using hydrate_coherent [of ds "table_orders db" m oc] t_resting_law [OF ds] table_orders_id by blast
  then show ?thesis using ds by (simp add: hydrate_book_def table_store_def)
qed

text \<open>The audit log is written for trades that never happened: the match callback starts the audit
  writes before the transaction, so when the transaction rejects (here at a position) the
  order fails and no row changes, yet the matched trade has been audited.\<close>
lemma rejected_order_audited:
  "case place_order (table_store\<lparr>st_position := \<lambda>_ _ _ _ _ _. Inl ''deadlock''\<rparr>) ''t'' 9 9
      (demo_input ''tom'' 5) empty_service demo_tables of
     Some (sv', db', eff, Inl (Rejected e)) \<Rightarrow>
       db' = demo_tables \<and> sv_books sv' = [] \<and> e = ''deadlock'' \<and>
       (case eff of [AuditTrade t] \<Rightarrow> tr_sell_order t = ''a1'' \<and> tr_quantity t = 5 | _ \<Rightarrow> False)
   | _ \<Rightarrow> False"
  by code_simp

end
