(* ===== verification/JsValue.thy ===== *)
theory JsValue
  imports JsNumber JsString
begin

text \<open>
  Values of unknown type (\<open>unknown\<close> in the source: request bodies, decoded contract events,
  JSON documents). \<open>NaN\<close> is kept apart from the finite numbers; \<open>BigInt\<close> and \<open>Bytes\<close> are
  what \<open>scValToNative\<close> produces beside strings. An object is its list of properties in
  insertion order. The functions are the JavaScript operators the code applies to them.
\<close>

datatype js =
  Undefined
| Null
| Bool bool
| Num number
| NaN
| BigInt int
| Str string
| Bytes "nat list"
| Arr "js list"
| Obj "(string \<times> js) list"

definition nullish :: "js \<Rightarrow> bool" where
  "nullish v = (v = Null \<or> v = Undefined)"

definition js_typeof :: "js \<Rightarrow> string" where
  "js_typeof v = (case v of
     Undefined \<Rightarrow> ''undefined'' | Null \<Rightarrow> ''object'' | Bool _ \<Rightarrow> ''boolean'' | Num _ \<Rightarrow> ''number''
   | NaN \<Rightarrow> ''number'' | BigInt _ \<Rightarrow> ''bigint'' | Str _ \<Rightarrow> ''string'' | Bytes _ \<Rightarrow> ''object''
   | Arr _ \<Rightarrow> ''object'' | Obj _ \<Rightarrow> ''object'')"

definition is_plain_object :: "js \<Rightarrow> bool" where
  "is_plain_object v = (case v of Obj _ \<Rightarrow> True | _ \<Rightarrow> False)"

text \<open>Property access: a missing property of an object is \<open>undefined\<close>.\<close>

definition get_prop :: "string \<Rightarrow> (string \<times> js) list \<Rightarrow> js" where
  "get_prop k ps = (case map_of ps k of None \<Rightarrow> Undefined | Some v \<Rightarrow> v)"

definition is_integer :: "number \<Rightarrow> bool" where
  "is_integer x = (of_int \<lfloor>x\<rfloor> = x)"

lemma is_integer_of_int [simp]: "is_integer (of_int n)"
  by (simp add: is_integer_def)

lemma get_prop_update [simp]: "get_prop k (AList.update k' v ps) = (if k = k' then v else get_prop k ps)"
  by (simp add: get_prop_def)

subsection \<open>Conversions\<close>

text \<open>\<open>String(x)\<close> of a finite number: the fewest fractional digits that read back as the same
  double. (JavaScript switches to exponent notation below 1e-6 and from 1e21; the code prints
  prices, quantities, ledgers and timestamps.)\<close>

fun fraction_digits :: "nat \<Rightarrow> nat \<Rightarrow> number \<Rightarrow> nat" where
  "fraction_digits 0 d x = d"
| "fraction_digits (Suc n) d x =
     (if fl (of_int (math_round (x * 10 ^ d)) / 10 ^ d) = x then d else fraction_digits n (Suc d) x)"

definition decimal_string :: "nat \<Rightarrow> nat \<Rightarrow> string" where
  "decimal_string d m = (if d = 0 then nat_string m
     else nat_string (m div 10 ^ d) @ ''.'' @ pad_start d (CHR ''0'') (nat_string (m mod 10 ^ d)))"

definition number_string :: "number \<Rightarrow> string" where
  "number_string x =
     (if is_integer x then int_string \<lfloor>x\<rfloor>
      else let d = fraction_digits 25 0 \<bar>x\<bar>; m = nat (math_round (\<bar>x\<bar> * 10 ^ d))
           in (if x < 0 then ''-'' else []) @ decimal_string d m)"

lemma number_string_int [simp]: "number_string (of_int n) = int_string n"
  by (simp add: number_string_def)

text \<open>\<open>String(v)\<close>.\<close>

fun js_string :: "js \<Rightarrow> string" where
  "js_string Undefined = ''undefined''"
| "js_string Null = ''null''"
| "js_string (Bool b) = (if b then ''true'' else ''false'')"
| "js_string (Num x) = number_string x"
| "js_string NaN = ''NaN''"
| "js_string (BigInt n) = int_string n"
| "js_string (Str s) = s"
| "js_string (Bytes bs) = map char_of bs"
| "js_string (Arr vs) = join_with '','' (map (\<lambda>v. if v = Null \<or> v = Undefined then [] else js_string v) vs)"
| "js_string (Obj ps) = ''[object Object]''"

definition all_digits :: "string \<Rightarrow> bool" where
  "all_digits s = (s \<noteq> [] \<and> list_all is_digit s)"

text \<open>\<open>Number(s)\<close> for decimal notation without exponent; \<open>None\<close> is NaN.\<close>

definition unsigned_number :: "string \<Rightarrow> rat option" where
  "unsigned_number s = (case split_on (CHR ''.'') s of
     [a] \<Rightarrow> if all_digits a then Some (of_nat (digits_value a)) else None
   | [a, b] \<Rightarrow> if list_all is_digit (a @ b) \<and> a @ b \<noteq> []
       then Some (of_nat (digits_value (a @ b)) / 10 ^ length b) else None
   | _ \<Rightarrow> None)"

definition number_of_string :: "string \<Rightarrow> number option" where
  "number_of_string s = (let t = trim s in
     if t = [] then Some 0
     else if hd t = CHR ''-'' then map_option (\<lambda>x. fl (- x)) (unsigned_number (tl t))
     else if hd t = CHR ''+'' then map_option fl (unsigned_number (tl t))
     else map_option fl (unsigned_number t))"

text \<open>\<open>BigInt(s)\<close>: white space is trimmed, the empty string is 0n, a sign is allowed in decimal.\<close>

definition bigint_of_string :: "string \<Rightarrow> int option" where
  "bigint_of_string s = (let t = trim s in
     if t = [] then Some 0
     else if hd t = CHR ''-'' then (if all_digits (tl t) then Some (- int (digits_value (tl t))) else None)
     else if hd t = CHR ''+'' then (if all_digits (tl t) then Some (int (digits_value (tl t))) else None)
     else if all_digits t then Some (int (digits_value t)) else None)"

lemma all_digits_nat_string [simp]: "all_digits (nat_string n)"
  by (simp add: all_digits_def)

lemma digit_not_space: "is_digit c \<Longrightarrow> \<not> is_space c"
  by (auto simp: is_digit_def is_space_def)

lemma trim_digits: "list_all is_digit s \<Longrightarrow> trim s = s"
proof -
  assume s: "list_all is_digit s"
  have d: "dropWhile is_space t = t" if "list_all is_digit t" for t
    using that digit_not_space by (cases t) auto
  have "list_all is_digit (rev s)" using s by (simp add: list_all_iff)
  then show ?thesis using d [OF s] d by (simp add: trim_def)
qed

lemma hd_digits: "all_digits s \<Longrightarrow> hd s \<noteq> CHR ''-'' \<and> hd s \<noteq> CHR ''+''"
  by (cases s) (auto simp: all_digits_def is_digit_def)

lemma bigint_of_digits: "all_digits s \<Longrightarrow> bigint_of_string s = Some (int (digits_value s))"
  using trim_digits [of s] hd_digits [of s] by (auto simp: bigint_of_string_def all_digits_def)

lemma number_of_digits: "all_digits s \<Longrightarrow> number_of_string s = Some (fl (of_nat (digits_value s)))"
proof -
  assume s: "all_digits s"
  then have "CHR ''.'' \<notin> set s" by (auto simp: all_digits_def list_all_iff)
  then have "unsigned_number s = Some (of_nat (digits_value s))"
    using s by (simp add: unsigned_number_def split_on_none)
  then show ?thesis
    using trim_digits [of s] hd_digits [OF s] s by (simp add: number_of_string_def all_digits_def)
qed

end
