(* ===== verification/Validation.thy ===== *)
theory Validation
  imports JsValue
begin

text \<open>
  \<open>src/matching/validation.ts\<close>: validation of an order before it reaches the matching engine.
  A validator returns \<open>null\<close> (\<open>None\<close>) or a message. The fields are unknown values: TypeScript
  types are not checked at run time. The market lookup of \<open>validateMarketState\<close> is an argument
  (the Prisma client), as is the clock.
\<close>

record order_input =
  oi_market :: string
  oi_user :: js
  oi_side :: js
  oi_outcome :: js
  oi_price :: js
  oi_quantity :: js

type_synonym field_errors = "(string \<times> string) list"

record validation_result =
  vr_valid :: bool
  vr_errors :: field_errors

definition base32_char :: "char \<Rightarrow> bool" where
  "base32_char c = (let n = (of_char c :: nat) in 65 \<le> n \<and> n \<le> 90 \<or> 50 \<le> n \<and> n \<le> 55)"

text \<open>\<open>/^G[A-Z2-7]{55}$/\<close>\<close>

definition stellar_public_key :: "string \<Rightarrow> bool" where
  "stellar_public_key s = (case s of
     [] \<Rightarrow> False
   | c # cs \<Rightarrow> c = CHR ''G'' \<and> length cs = 55 \<and> list_all base32_char cs)"

definition validate_user_address :: "js \<Rightarrow> string option" where
  "validate_user_address v = (case v of
     Str s \<Rightarrow>
       if length s = 0 then Some ''User address is required''
       else if length s \<noteq> 56 then Some ''User address must be exactly 56 characters''
       else if \<not> starts_with ''G'' s then Some ''User address must start with G''
       else if \<not> stellar_public_key s
         then Some ''User address must be a valid Stellar public key (G + 55 base32 chars)''
       else None
   | _ \<Rightarrow> Some ''User address must be a string'')"

definition validate_order_side :: "js \<Rightarrow> string option" where
  "validate_order_side v =
     (if nullish v then Some ''Order side is required''
      else if v \<noteq> Str ''BUY'' \<and> v \<noteq> Str ''SELL'' then Some (''Order side must be '' @ [CHR 0x27] @ ''BUY'' @
        [CHR 0x27] @ '' or '' @ [CHR 0x27] @ ''SELL'' @ [CHR 0x27])
      else None)"

definition validate_outcome :: "js \<Rightarrow> string option" where
  "validate_outcome v =
     (if nullish v then Some ''Outcome is required''
      else if v \<noteq> Str ''YES'' \<and> v \<noteq> Str ''NO'' then Some (''Outcome must be '' @ [CHR 0x27] @ ''YES'' @
        [CHR 0x27] @ '' or '' @ [CHR 0x27] @ ''NO'' @ [CHR 0x27])
      else None)"

definition TICK_SIZE :: number where
  "TICK_SIZE = fl (1 / 100)"

definition validate_tick_size :: "number \<Rightarrow> string option" where
  "validate_tick_size price =
     (let ticks = math_round (js_div price TICK_SIZE)
      in if \<bar>js_sub (js_mul (of_int ticks) TICK_SIZE) price\<bar> > fl (1 / 1000000000)
         then Some ''Price must be a multiple of 0.01 (e.g. 0.01, 0.50, 0.99)''
         else None)"

definition validate_price :: "js \<Rightarrow> string option" where
  "validate_price v =
     (if nullish v then Some ''Price is required''
      else (case v of
        Num p \<Rightarrow> if p \<le> 0 \<or> p \<ge> 1 then Some ''Price must be between 0 and 1 (exclusive)''
                 else validate_tick_size p
      | _ \<Rightarrow> Some ''Price must be a number''))"

definition validate_quantity :: "js \<Rightarrow> string option" where
  "validate_quantity v =
     (if nullish v then Some ''Quantity is required''
      else (case v of
        Num q \<Rightarrow> if \<not> is_integer q then Some ''Quantity must be an integer''
                 else if q \<le> 0 then Some ''Quantity must be positive''
                 else None
      | _ \<Rightarrow> Some ''Quantity must be a number''))"

definition note_error :: "string \<Rightarrow> string option \<Rightarrow> field_errors \<Rightarrow> field_errors" where
  "note_error k e errs = (case e of None \<Rightarrow> errs | Some m \<Rightarrow> AList.update k m errs)"

definition validate_order_fields :: "order_input \<Rightarrow> validation_result" where
  "validate_order_fields ord =
     (let e1 = note_error ''userAddress'' (validate_user_address (oi_user ord)) [];
          e2 = note_error ''side'' (validate_order_side (oi_side ord)) e1;
          e3 = note_error ''outcome'' (validate_outcome (oi_outcome ord)) e2;
          e4 = note_error ''price'' (validate_price (oi_price ord)) e3;
          e5 = note_error ''quantity'' (validate_quantity (oi_quantity ord)) e4
      in \<lparr>vr_valid = (e5 = []), vr_errors = e5\<rparr>)"

record market_state =
  mk_status :: string
  mk_end :: int

definition validate_market_state :: "(string \<Rightarrow> market_state option) \<Rightarrow> int \<Rightarrow> string \<Rightarrow> validation_result" where
  "validate_market_state find_market now market_id = (case find_market market_id of
     None \<Rightarrow> \<lparr>vr_valid = False, vr_errors = [(''marketId'', ''Market not found'')]\<rparr>
   | Some m \<Rightarrow>
       let e1 = (if mk_status m \<noteq> ''ACTIVE''
                 then [(''marketId'', ''Market is '' @ to_lower (mk_status m) @ '', orders cannot be placed'')]
                 else []);
           e2 = (if mk_end m \<le> now
                 then AList.update ''marketId'' (case map_of e1 ''marketId'' of
                        Some msg \<Rightarrow> msg @ ''; market has ended'' | None \<Rightarrow> ''Market has ended'') e1
                 else e1)
       in \<lparr>vr_valid = (e2 = []), vr_errors = e2\<rparr>)"

definition validate_order :: "(string \<Rightarrow> market_state option) \<Rightarrow> int \<Rightarrow> order_input \<Rightarrow> validation_result" where
  "validate_order find_market now ord =
     (let fields = validate_order_fields ord
      in if \<not> vr_valid fields then fields else validate_market_state find_market now (oi_market ord))"

text \<open>\<open>OrderValidationError\<close>: its message and its field errors.\<close>

definition order_validation_error :: "field_errors \<Rightarrow> string \<times> field_errors" where
  "order_validation_error errs = (join_with ''; '' (map snd errs), errs)"

definition assert_valid_order ::
    "(string \<Rightarrow> market_state option) \<Rightarrow> int \<Rightarrow> order_input \<Rightarrow> (string \<times> field_errors) + unit" where
  "assert_valid_order find_market now ord =
     (let result = validate_order find_market now ord
      in if \<not> vr_valid result then Inl (order_validation_error (vr_errors result)) else Inr ())"

subsection \<open>Properties\<close>

lemmas validator_defs = validate_user_address_def validate_order_side_def validate_outcome_def
  validate_price_def validate_quantity_def

lemma note_error_Nil [simp]: "note_error k e errs = [] \<longleftrightarrow> e = None \<and> errs = []"
proof -
  have "AList.update k m errs \<noteq> []" for m by (cases errs) auto
  then show ?thesis by (auto simp: note_error_def split: option.splits)
qed

lemma user_address_ok: "validate_user_address v = None \<longleftrightarrow> (\<exists>s. v = Str s \<and> stellar_public_key s)"
  by (cases v) (auto simp: validate_user_address_def stellar_public_key_def split: list.splits)

lemma price_ok: "validate_price v = None \<longleftrightarrow> (\<exists>p. v = Num p \<and> 0 < p \<and> p < 1 \<and> validate_tick_size p = None)"
  by (cases v) (auto simp: validate_price_def nullish_def)

lemma quantity_ok: "validate_quantity v = None \<longleftrightarrow> (\<exists>n. v = Num (of_int n) \<and> 0 < n)"
proof (cases v)
  case (Num q)
  have "is_integer q \<longleftrightarrow> (\<exists>n. q = of_int n)" by (auto simp: is_integer_def dest: sym)
  with Num show ?thesis by (auto simp: validate_quantity_def nullish_def)
qed (auto simp: validate_quantity_def nullish_def)

text \<open>C10: an order is accepted exactly when every field is well formed and the market exists, is
  ACTIVE and has not ended; \<open>assertValidOrder\<close> throws in all other cases, and only then.\<close>
theorem assert_valid_order_spec:
  "assert_valid_order find_market now ord = Inr () \<longleftrightarrow>
     (\<exists>s. oi_user ord = Str s \<and> stellar_public_key s) \<and>
     oi_side ord \<in> {Str ''BUY'', Str ''SELL''} \<and> oi_outcome ord \<in> {Str ''YES'', Str ''NO''} \<and>
     (\<exists>p. oi_price ord = Num p \<and> 0 < p \<and> p < 1 \<and> validate_tick_size p = None) \<and>
     (\<exists>n. oi_quantity ord = Num (of_int n) \<and> 0 < n) \<and>
     (\<exists>m. find_market (oi_market ord) = Some m \<and> mk_status m = ''ACTIVE'' \<and> now < mk_end m)"
proof -
  have fields: "vr_valid (validate_order_fields ord) \<longleftrightarrow>
      (\<exists>s. oi_user ord = Str s \<and> stellar_public_key s) \<and>
      oi_side ord \<in> {Str ''BUY'', Str ''SELL''} \<and> oi_outcome ord \<in> {Str ''YES'', Str ''NO''} \<and>
      (\<exists>p. oi_price ord = Num p \<and> 0 < p \<and> p < 1 \<and> validate_tick_size p = None) \<and>
      (\<exists>n. oi_quantity ord = Num (of_int n) \<and> 0 < n)"
    by (auto simp: validate_order_fields_def Let_def user_address_ok price_ok quantity_ok
        validate_order_side_def validate_outcome_def nullish_def)
  have market: "vr_valid (validate_market_state find_market now i) \<longleftrightarrow>
      (\<exists>m. find_market i = Some m \<and> mk_status m = ''ACTIVE'' \<and> now < mk_end m)" for i
    by (auto simp: validate_market_state_def Let_def split: option.splits)
  show ?thesis
    using fields market by (auto simp: assert_valid_order_def validate_order_def Let_def)
qed

lemma tick_bounds: "\<bar>TICK_SIZE - 1 / 100\<bar> \<le> 1 / 1000000000000000" "1 / 200 \<le> TICK_SIZE"
proof -
  show t: "\<bar>TICK_SIZE - 1 / 100\<bar> \<le> 1 / 1000000000000000"
    using fl_abs_error [of "1 / 100" 1] eps_bounds unfolding TICK_SIZE_def by linarith
  then show "1 / 200 \<le> TICK_SIZE" by linarith
qed

lemma tick_multiple:
  assumes "0 \<le> k" "k \<le> 200"
  shows "\<bar>of_int k * TICK_SIZE - of_int k / 100\<bar> \<le> 200 / 1000000000000000"
proof -
  have k: "(of_int k :: rat) \<le> 200" "0 \<le> (of_int k :: rat)" using assms by simp_all
  have "of_int k * TICK_SIZE - of_int k / 100 = of_int k * (TICK_SIZE - 1 / 100)"
    by (simp add: algebra_simps)
  then have "\<bar>of_int k * TICK_SIZE - of_int k / 100\<bar> = of_int k * \<bar>TICK_SIZE - 1 / 100\<bar>"
    using k by (simp add: abs_mult)
  also have "\<dots> \<le> 200 * (1 / 1000000000000000)" using k tick_bounds(1) by (intro mult_mono) auto
  finally show ?thesis by simp
qed

lemma tick_product:
  assumes "0 \<le> k" "k \<le> 200"
  shows "\<bar>js_mul (of_int k) TICK_SIZE - of_int k / 100\<bar> \<le> 300 / 1000000000000000"
proof -
  have "(of_int k :: rat) \<le> 200" "0 \<le> (of_int k :: rat)" using assms by simp_all
  then have "\<bar>of_int k * TICK_SIZE\<bar> \<le> 3" using tick_multiple [OF assms] by linarith
  from fl_abs_error [OF this] tick_multiple [OF assms] eps_bounds show ?thesis
    unfolding js_mul_def by linarith
qed

lemma cents_pass:
  assumes "0 < k" "k < 100"
  shows "validate_price (Num (fl (of_int k / 100))) = None"
proof -
  define p where "p = fl (of_int k / 100)"
  have "1 \<le> k" "k \<le> 99" using assms by simp_all
  then have k: "1 \<le> (of_int k :: rat)" "(of_int k :: rat) \<le> 99" by simp_all
  then have "\<bar>(of_int k / 100 :: rat)\<bar> \<le> 1" by simp
  from fl_abs_error [OF this] have p: "\<bar>p - of_int k / 100\<bar> \<le> 1 / 1000000000000000"
    using eps_bounds unfolding p_def by linarith
  then have p01: "0 < p" "p < 1" using k by linarith+
  have T: "0 < TICK_SIZE" using tick_bounds(2) by linarith
  have "\<bar>p - of_int k * TICK_SIZE\<bar> \<le> 1 / 100 * TICK_SIZE"
    using tick_multiple [of k] assms p tick_bounds(2) by linarith
  then have "\<bar>p - of_int k * TICK_SIZE\<bar> / TICK_SIZE \<le> 1 / 100" using T by (simp add: field_simps)
  moreover have "p / TICK_SIZE - of_int k = (p - of_int k * TICK_SIZE) / TICK_SIZE"
    using T by (simp add: diff_divide_distrib)
  ultimately have near: "\<bar>p / TICK_SIZE - of_int k\<bar> \<le> 1 / 100" using T by simp
  then have "\<bar>p / TICK_SIZE\<bar> \<le> 100" using k by linarith
  from fl_abs_error [OF this] have "\<bar>js_div p TICK_SIZE - of_int k\<bar> < 1 / 2"
    using near eps_bounds unfolding js_div_def by linarith
  then have ticks: "math_round (js_div p TICK_SIZE) = k" by (rule math_round_unique)
  have "\<bar>js_mul (of_int k) TICK_SIZE - p\<bar> \<le> 400 / 1000000000000000"
    using tick_product [of k] assms p by linarith
  from fl_abs_le [OF this] have "\<bar>js_sub (js_mul (of_int k) TICK_SIZE) p\<bar> \<le> 800 / 1000000000000000"
    unfolding js_sub_def by linarith
  also have "\<dots> \<le> fl (1 / 1000000000)" using fl_abs_ge [of "1 / 1000000000"] fl_abs_error [of "1 / 1000000000" "1 / 1000000000"]
      eps_bounds by linarith
  finally have "validate_tick_size p = None" using ticks by (simp add: validate_tick_size_def)
  then show ?thesis using p01 price_ok by (simp add: p_def)
qed

text \<open>C11: every price of a whole number of cents from 0.01 to 0.99, as the double JavaScript reads,
  passes the tick check despite the rounding of \<open>price / 0.01\<close> and \<open>ticks * 0.01\<close>.\<close>
theorem cent_prices_accepted:
  assumes "0 < k" "k < 100"
  shows "validate_price (Num (fl (of_int k / 100))) = None"
  by (rule cents_pass) (rule assms)+

theorem cent_prices_accepted_witness: "validate_price (Num (fl (7 / 100))) = None"
  using cent_prices_accepted [of 7] by simp

lemma tiny_price_accepted:
  assumes "0 < p" "p \<le> 2 / 10000000000"
  shows "validate_price (Num p) = None"
proof -
  have T: "0 < TICK_SIZE" using tick_bounds(2) by linarith
  have "\<bar>p\<bar> \<le> 1 / 100 * TICK_SIZE" using assms tick_bounds(2) by linarith
  then have "\<bar>p / TICK_SIZE\<bar> \<le> 1 / 100" using T by (simp add: field_simps)
  from fl_abs_le [OF this] have "math_round (js_div p TICK_SIZE) = 0"
    by (intro math_round_unique) (simp add: js_div_def)
  moreover have "\<bar>js_sub 0 p\<bar> \<le> 4 / 10000000000"
    using fl_abs_le [of "0 - p" "2 / 10000000000"] assms unfolding js_sub_def by simp
  moreover have "4 / 10000000000 \<le> fl (1 / 1000000000)"
    using fl_abs_ge [of "1 / 1000000000"] fl_abs_error [of "1 / 1000000000" "1 / 1000000000"] eps_bounds
    by linarith
  ultimately have "validate_tick_size p = None" by (simp add: validate_tick_size_def js_mul_def)
  then show ?thesis using assms price_ok by simp
qed

text \<open>An accepted price is within 3e-9 of a whole number of cents, but need not be one: the
  absolute tolerance of the check lets every positive price up to 2e-10 through.\<close>
lemma tick_check_tolerance:
  "(validate_price (Num p) = None \<longrightarrow> (\<exists>k::int. \<bar>p - of_int k / 100\<bar> \<le> 3 / 1000000000)) \<and>
   (0 < p \<longrightarrow> p \<le> 2 / 10000000000 \<longrightarrow> validate_price (Num p) = None)"
proof (intro conjI impI)
  show "0 < p \<Longrightarrow> p \<le> 2 / 10000000000 \<Longrightarrow> validate_price (Num p) = None" by (rule tiny_price_accepted)
  assume "validate_price (Num p) = None"
  then have p: "0 < p" "p < 1" and ok: "validate_tick_size p = None" using price_ok by auto
  define k where "k = math_round (js_div p TICK_SIZE)"
  have T: "0 < TICK_SIZE" "1 / 200 \<le> TICK_SIZE" using tick_bounds(2) by linarith+
  have "p \<le> 200 * TICK_SIZE" using p T by linarith
  then have q: "p / TICK_SIZE \<le> 200" "0 \<le> p / TICK_SIZE" using p T by (simp_all add: field_simps)
  have t: "99 / 10000 \<le> TICK_SIZE" using tick_bounds(1) by linarith
  have "p \<le> 102 * TICK_SIZE" using p t by linarith
  then have "p / TICK_SIZE \<le> 102" using T by (simp add: field_simps)
  then have d: "js_div p TICK_SIZE \<le> 103" "- 1 / 4 \<le> js_div p TICK_SIZE"
    using fl_abs_error [of "p / TICK_SIZE" 200] q eps_bounds unfolding js_div_def by linarith+
  have "(of_int k :: rat) \<le> 104" "- 1 < (of_int k :: rat)"
    using math_round_error [of "js_div p TICK_SIZE"] d unfolding k_def by linarith+
  then have k: "0 \<le> k" "k \<le> 200" by linarith+
  have e9: "fl (1 / 1000000000) \<le> 11 / 10000000000"
    using fl_abs_error [of "1 / 1000000000" "1 / 1000000000"] eps_bounds by linarith
  have "\<bar>js_sub (js_mul (of_int k) TICK_SIZE) p\<bar> \<le> fl (1 / 1000000000)"
    using ok by (simp add: validate_tick_size_def k_def Let_def split: if_splits)
  then have "\<bar>js_mul (of_int k) TICK_SIZE - p\<bar> \<le> 22 / 10000000000"
    using e9 fl_abs_ge [of "js_mul (of_int k) TICK_SIZE - p"] unfolding js_sub_def by linarith
  then have "\<bar>p - of_int k / 100\<bar> \<le> 3 / 1000000000"
    using tick_product [OF k] by linarith
  then show "\<exists>k::int. \<bar>p - of_int k / 100\<bar> \<le> 3 / 1000000000" by blast
qed

lemma tick_check_tolerance_witness:
  "validate_price (Num (1 / 10000000000)) = None \<and>
   (\<exists>k::int. \<bar>1 / 10000000000 - of_int k / 100 :: rat\<bar> \<le> 3 / 1000000000)"
  using tick_check_tolerance [of "1 / 10000000000"] by simp

end
