(* ===== verification/IndexerEvents.thy ===== *)
theory IndexerEvents
  imports JsValue
begin

text \<open>
  \<open>apps/indexer/src\<close>: from raw chain events to records that can be stored once
  (\<open>types.ts\<close>, \<open>idempotency.ts\<close>, \<open>tradeParser.ts\<close>, \<open>resolutionParser.ts\<close>,
  \<open>collateralDepositedParser.ts\<close>, \<open>marketCreatedParser.ts\<close>). The Stellar SDK decoder
  (\<open>xdr.ScVal.fromXDR\<close> and \<open>scValToNative\<close>) is the argument \<open>decode\<close>, which may throw, and SHA-256
  is the argument \<open>sha\<close>. A parse error is its message with the event id.
\<close>

record raw_event =
  re_id :: string
  re_ledger :: int
  re_closed :: string
  re_contract :: string
  re_type :: string
  re_paging :: "string option"
  re_value :: string
  re_topics :: "string list"

type_synonym decoder = "string \<Rightarrow> string + js"
type_synonym parse_error = "string \<times> string"

datatype trade_direction = Buy | Sell
datatype chain_outcome = Yes | No

record normalized_trade =
  nt_event :: string
  nt_ledger :: int
  nt_closed :: string
  nt_contract :: string
  nt_market :: string
  nt_trader :: string
  nt_counterparty :: string
  nt_direction :: trade_direction
  nt_outcome :: chain_outcome
  nt_price :: int
  nt_quantity :: int
  nt_buy_order :: string
  nt_sell_order :: string

record normalized_resolution =
  nr_event :: string
  nr_ledger :: int
  nr_closed :: string
  nr_contract :: string
  nr_market :: string
  nr_outcome :: chain_outcome
  nr_oracle :: string

record normalized_deposit =
  nd_event :: string
  nd_ledger :: int
  nd_closed :: string
  nd_contract :: string
  nd_account :: string
  nd_market :: string
  nd_amount :: int

record normalized_market =
  nm_event :: string
  nm_ledger :: int
  nm_closed :: string
  nm_contract :: string
  nm_market :: string
  nm_question :: string
  nm_end_time :: string
  nm_oracle :: string
  nm_status :: string

subsection \<open>Topics and batches\<close>

text \<open>The first topic names the event; a topic that does not decode is not a match.\<close>

definition topic_is :: "string \<Rightarrow> decoder \<Rightarrow> string list \<Rightarrow> bool" where
  "topic_is name decode topics = (case topics of
     [] \<Rightarrow> False
   | t # _ \<Rightarrow> (case decode t of Inl _ \<Rightarrow> False | Inr v \<Rightarrow> v = Str name))"

text \<open>The loop of all four batch parsers: other events are skipped, errors are collected.\<close>

definition batch_step :: "(raw_event \<Rightarrow> bool) \<Rightarrow> (raw_event \<Rightarrow> parse_error + 'a) \<Rightarrow> raw_event \<Rightarrow>
    'a list \<times> parse_error list \<Rightarrow> 'a list \<times> parse_error list" where
  "batch_step matches parse ev acc =
     (if \<not> matches ev then acc
      else case parse ev of
             Inr r \<Rightarrow> (fst acc @ [r], snd acc)
           | Inl e \<Rightarrow> (fst acc, snd acc @ [e]))"

definition parse_batch :: "(raw_event \<Rightarrow> bool) \<Rightarrow> (raw_event \<Rightarrow> parse_error + 'a) \<Rightarrow> raw_event list \<Rightarrow>
    'a list \<times> parse_error list" where
  "parse_batch matches parse evs = fold (batch_step matches parse) evs ([], [])"

definition field :: "(string \<times> js) list \<Rightarrow> string \<Rightarrow> string \<Rightarrow> parse_error + js" where
  "field m key ev = (case map_of m key of
     None \<Rightarrow> Inl (''Missing field \"'' @ key @ ''\"'', ev)
   | Some v \<Rightarrow> Inr v)"

text \<open>\<open>typeof v === "object"\<close>, not null and not an array: an object, or a byte string, which has none of
  the fields the parsers look for.\<close>

definition as_map :: "js \<Rightarrow> (string \<times> js) list option" where
  "as_map v = (case v of Obj m \<Rightarrow> Some m | Bytes _ \<Rightarrow> Some [] | _ \<Rightarrow> None)"

subsection \<open>Trades\<close>

definition TRADE_EVENT_TOPIC :: string where "TRADE_EVENT_TOPIC = ''trade_executed_event''"

definition is_trade_event :: "decoder \<Rightarrow> raw_event \<Rightarrow> bool" where
  "is_trade_event decode ev = topic_is TRADE_EVENT_TOPIC decode (re_topics ev)"

definition to_big_int :: "js \<Rightarrow> string \<Rightarrow> string \<Rightarrow> parse_error + int" where
  "to_big_int v name ev = (case v of
     BigInt n \<Rightarrow> Inr n
   | Num x \<Rightarrow> if \<not> is_integer x
       then Inl (''Field \"'' @ name @ ''\" is a non-integer number: precision loss risk'', ev)
       else Inr \<lfloor>x\<rfloor>
   | NaN \<Rightarrow> Inl (''Field \"'' @ name @ ''\" is a non-integer number: precision loss risk'', ev)
   | Str s \<Rightarrow> (case bigint_of_string s of
       Some n \<Rightarrow> Inr n
     | None \<Rightarrow> Inl (''Field \"'' @ name @ ''\" cannot be parsed as bigint: '' @ s, ev))
   | _ \<Rightarrow> Inl (''Field \"'' @ name @ ''\" has unexpected type '' @ js_typeof v, ev))"

definition to_trade_outcome :: "js \<Rightarrow> string \<Rightarrow> parse_error + chain_outcome" where
  "to_trade_outcome v ev =
     (if v = Str ''YES'' then Inr Yes else if v = Str ''NO'' then Inr No
      else Inl (''Invalid outcome value: '' @ js_string v, ev))"

definition to_direction :: "js \<Rightarrow> string \<Rightarrow> parse_error + trade_direction" where
  "to_direction v ev = (let s = to_lower (js_string v) in
     if s = ''buy'' then Inr Buy else if s = ''sell'' then Inr Sell
     else Inl (''Invalid direction value: '' @ js_string v, ev))"

definition parse_trade_event :: "decoder \<Rightarrow> raw_event \<Rightarrow> parse_error + normalized_trade" where
  "parse_trade_event decode ev =
     (if \<not> is_trade_event decode ev
      then Inl (''Event topic is not \"'' @ TRADE_EVENT_TOPIC @ ''\"'', re_id ev)
      else (case decode (re_value ev) of
        Inl _ \<Rightarrow> Inl (''Failed to decode event value XDR'', re_id ev)
      | Inr v \<Rightarrow>
          res_bind (of_option (''Event value is not an ScvMap'', re_id ev) (as_map v)) (\<lambda>m.
          res_bind (field m ''market_id'' (re_id ev)) (\<lambda>market.
          res_bind (field m ''trader'' (re_id ev)) (\<lambda>trader.
          res_bind (field m ''counterparty'' (re_id ev)) (\<lambda>counterparty.
          res_bind (res_bind (field m ''direction'' (re_id ev)) (\<lambda>v. to_direction v (re_id ev))) (\<lambda>direction.
          res_bind (res_bind (field m ''outcome'' (re_id ev)) (\<lambda>v. to_trade_outcome v (re_id ev))) (\<lambda>oc.
          res_bind (res_bind (field m ''price'' (re_id ev)) (\<lambda>v. to_big_int v ''price'' (re_id ev))) (\<lambda>price.
          res_bind (res_bind (field m ''quantity'' (re_id ev)) (\<lambda>v. to_big_int v ''quantity'' (re_id ev))) (\<lambda>quantity.
          res_bind (field m ''buy_order_id'' (re_id ev)) (\<lambda>buy.
          res_bind (field m ''sell_order_id'' (re_id ev)) (\<lambda>sell.
            Inr \<lparr>nt_event = re_id ev, nt_ledger = re_ledger ev, nt_closed = re_closed ev,
                 nt_contract = re_contract ev, nt_market = js_string market, nt_trader = js_string trader,
                 nt_counterparty = js_string counterparty, nt_direction = direction, nt_outcome = oc,
                 nt_price = price, nt_quantity = quantity, nt_buy_order = js_string buy,
                 nt_sell_order = js_string sell\<rparr>))))))))))))"

definition parse_trade_events :: "decoder \<Rightarrow> raw_event list \<Rightarrow> normalized_trade list \<times> parse_error list" where
  "parse_trade_events decode = parse_batch (is_trade_event decode) (parse_trade_event decode)"

subsection \<open>Resolutions\<close>

definition RESOLUTION_EVENT_TOPIC :: string where "RESOLUTION_EVENT_TOPIC = ''market_resolved_event''"

definition is_resolution_event :: "decoder \<Rightarrow> raw_event \<Rightarrow> bool" where
  "is_resolution_event decode ev = topic_is RESOLUTION_EVENT_TOPIC decode (re_topics ev)"

definition to_resolution_outcome :: "js \<Rightarrow> string \<Rightarrow> parse_error + chain_outcome" where
  "to_resolution_outcome v ev =
     (if v = Str ''YES'' then Inr Yes else if v = Str ''NO'' then Inr No
      else if v = Bool True then Inr Yes else if v = Bool False then Inr No
      else Inl (''Unknown resolution outcome: \"'' @ js_string v @ ''\" (must be YES/NO or boolean)'', ev))"

definition market_id_from_topic :: "decoder \<Rightarrow> string list \<Rightarrow> string \<Rightarrow> parse_error + string" where
  "market_id_from_topic decode topics ev = (case topics of
     _ # t # _ \<Rightarrow> (case decode t of
         Inr v \<Rightarrow> Inr (js_string v)
       | Inl _ \<Rightarrow> Inl (''Failed to decode market_id topic XDR'', ev))
   | _ \<Rightarrow> Inl (''Missing market_id topic'', ev))"

record resolution_payload =
  rp_market :: string
  rp_outcome :: chain_outcome
  rp_oracle :: string

definition parse_resolution_payload :: "decoder \<Rightarrow> js \<Rightarrow> string list \<Rightarrow> string \<Rightarrow>
    parse_error + resolution_payload" where
  "parse_resolution_payload decode v topics ev =
     (case v of
        Arr vs \<Rightarrow>
          (case vs of
             a # b # _ \<Rightarrow> res_bind (to_resolution_outcome b ev) (\<lambda>oc.
               Inr \<lparr>rp_market = js_string a, rp_outcome = oc, rp_oracle = []\<rparr>)
           | _ \<Rightarrow> Inl (''Tuple resolution payload must include market_id and outcome'', ev))
      | _ \<Rightarrow>
        res_bind (of_option (''Event value is not an ScvMap or tuple'', ev) (as_map v)) (\<lambda>m.
          if map_of m ''market_id'' \<noteq> None then
            (let oracle = (if nullish (get_prop ''oracle'' m) then [] else js_string (get_prop ''oracle'' m))
             in if oracle = [] then Inl (''Missing field \"oracle\"'', ev)
                else res_bind (field m ''market_id'' ev) (\<lambda>market.
                  res_bind (res_bind (field m ''outcome'' ev) (\<lambda>x. to_resolution_outcome x ev)) (\<lambda>oc.
                    Inr \<lparr>rp_market = js_string market, rp_outcome = oc, rp_oracle = oracle\<rparr>)))
          else res_bind (market_id_from_topic decode topics ev) (\<lambda>market.
            res_bind (res_bind (field m ''outcome'' ev) (\<lambda>x. to_resolution_outcome x ev)) (\<lambda>oc.
              Inr \<lparr>rp_market = market, rp_outcome = oc, rp_oracle = []\<rparr>))))"

definition parse_resolution_event :: "decoder \<Rightarrow> raw_event \<Rightarrow> parse_error + normalized_resolution" where
  "parse_resolution_event decode ev =
     (if \<not> is_resolution_event decode ev
      then Inl (''Event topic is not \"'' @ RESOLUTION_EVENT_TOPIC @ ''\"'', re_id ev)
      else (case decode (re_value ev) of
        Inl _ \<Rightarrow> Inl (''Failed to decode event value XDR'', re_id ev)
      | Inr v \<Rightarrow> res_bind (parse_resolution_payload decode v (re_topics ev) (re_id ev)) (\<lambda>p.
          Inr \<lparr>nr_event = re_id ev, nr_ledger = re_ledger ev, nr_closed = re_closed ev,
               nr_contract = re_contract ev, nr_market = rp_market p, nr_outcome = rp_outcome p,
               nr_oracle = rp_oracle p\<rparr>)))"

definition parse_resolution_events :: "decoder \<Rightarrow> raw_event list \<Rightarrow>
    normalized_resolution list \<times> parse_error list" where
  "parse_resolution_events decode = parse_batch (is_resolution_event decode) (parse_resolution_event decode)"

subsection \<open>Collateral deposits\<close>

definition COLLATERAL_DEPOSITED_TOPIC :: string where
  "COLLATERAL_DEPOSITED_TOPIC = ''collateral_deposited''"

definition is_collateral_event :: "decoder \<Rightarrow> raw_event \<Rightarrow> bool" where
  "is_collateral_event decode ev = topic_is COLLATERAL_DEPOSITED_TOPIC decode (re_topics ev)"

definition deposit_big_int :: "js \<Rightarrow> string \<Rightarrow> string \<Rightarrow> parse_error + int" where
  "deposit_big_int v name ev =
     (let fail = Inl (''Field \"'' @ name @ ''\" cannot be converted to bigint: '' @ js_string v, ev)
      in case v of
        BigInt n \<Rightarrow> Inr n
      | Num x \<Rightarrow> if is_integer x then Inr \<lfloor>x\<rfloor> else fail
      | Str s \<Rightarrow> (case bigint_of_string s of Some n \<Rightarrow> Inr n | None \<Rightarrow> fail)
      | _ \<Rightarrow> fail)"

text \<open>\<open>describe\<close> is \<open>formatDecodedValue\<close>, JSON text that only appears in a message.\<close>

definition parse_collateral_event :: "(js \<Rightarrow> string) \<Rightarrow> decoder \<Rightarrow> raw_event \<Rightarrow>
    parse_error + normalized_deposit" where
  "parse_collateral_event describe decode ev =
     (if \<not> is_collateral_event decode ev
      then Inl (''Event topic is not \"'' @ COLLATERAL_DEPOSITED_TOPIC @ ''\"'', re_id ev)
      else (case decode (re_value ev) of
        Inl _ \<Rightarrow> Inl (''Failed to decode event value XDR'', re_id ev)
      | Inr v \<Rightarrow>
          (case v of
             Arr (account # market # amount # _) \<Rightarrow>
               (case account of
                  Str a \<Rightarrow> res_bind (deposit_big_int amount ''amount'' (re_id ev)) (\<lambda>n.
                    Inr \<lparr>nd_event = re_id ev, nd_ledger = re_ledger ev, nd_closed = re_closed ev,
                         nd_contract = re_contract ev, nd_account = a, nd_market = js_string market,
                         nd_amount = n\<rparr>)
                | _ \<Rightarrow> Inl (''Field \"account\" must be a string, got '' @ js_typeof account, re_id ev))
           | _ \<Rightarrow> Inl (''collateral_deposited payload must be a 3-element tuple, got: '' @ describe v, re_id ev))))"

definition parse_collateral_events :: "(js \<Rightarrow> string) \<Rightarrow> decoder \<Rightarrow> raw_event list \<Rightarrow>
    normalized_deposit list \<times> parse_error list" where
  "parse_collateral_events describe decode =
     parse_batch (is_collateral_event decode) (parse_collateral_event describe decode)"

subsection \<open>Market creations\<close>

definition MARKET_CREATED_TOPIC :: string where "MARKET_CREATED_TOPIC = ''market_created_event''"

definition is_market_created_event :: "decoder \<Rightarrow> raw_event \<Rightarrow> bool" where
  "is_market_created_event decode ev = topic_is MARKET_CREATED_TOPIC decode (re_topics ev)"

text \<open>\<open>parseMarketCreatedChainEvent\<close> builds \<open>rawEvent\<close> with \<open>normalizeEndTime\<close> and then calls
  \<open>parseMarketCreatedEvent\<close>; the module neither defines nor imports either name, so reaching
  the first of them throws a \<open>ReferenceError\<close>, and nothing after it runs. \<open>Inl (Inl e)\<close> is a
  \<open>MarketCreatedParseError\<close>, \<open>Inl (Inr e)\<close> any other exception.\<close>

definition normalize_end_time :: "js \<Rightarrow> string + js" where
  "normalize_end_time v = Inl ''ReferenceError: normalizeEndTime is not defined''"

definition parse_market_created_chain_event :: "decoder \<Rightarrow> raw_event \<Rightarrow>
    (parse_error + string) + normalized_market" where
  "parse_market_created_chain_event decode ev =
     (if \<not> is_market_created_event decode ev
      then Inl (Inl (''Event topic is not \"'' @ MARKET_CREATED_TOPIC @ ''\"'', re_id ev))
      else (case re_topics ev of
        _ # t # _ \<Rightarrow>
          (case decode t of
             Inl _ \<Rightarrow> Inl (Inl (''Failed to decode market_id topic XDR'', re_id ev))
           | Inr market_raw \<Rightarrow>
               (case decode (re_value ev) of
                  Inl _ \<Rightarrow> Inl (Inl (''Failed to decode event value XDR'', re_id ev))
                | Inr v \<Rightarrow>
                    (case as_map v of
                       None \<Rightarrow> Inl (Inl (''Event value is not an ScvMap'', re_id ev))
                     | Some m \<Rightarrow>
                         (case normalize_end_time (get_prop ''end_time'' m) of
                            Inl e \<Rightarrow> Inl (Inr e)
                          | Inr end_time \<Rightarrow>
                              Inl (Inr ''ReferenceError: parseMarketCreatedEvent is not defined'')))))
      | _ \<Rightarrow> Inl (Inl (''Missing market_id topic'', re_id ev))))"

definition parse_market_created_events :: "decoder \<Rightarrow> raw_event list \<Rightarrow>
    normalized_market list \<times> parse_error list" where
  "parse_market_created_events decode = parse_batch (is_market_created_event decode)
     (\<lambda>ev. case parse_market_created_chain_event decode ev of
        Inr m \<Rightarrow> Inr m | Inl (Inl e) \<Rightarrow> Inl e | Inl (Inr msg) \<Rightarrow> Inl (msg, re_id ev))"

subsection \<open>Idempotency keys\<close>

record event_components =
  ec_ledger :: nat
  ec_tx :: nat
  ec_index :: nat

definition parse_event_id :: "string \<Rightarrow> string + event_components" where
  "parse_event_id i = (case split_on (CHR ''-'') i of
     [a, b, c] \<Rightarrow>
       if all_digits a \<and> all_digits b \<and> all_digits c
       then Inr \<lparr>ec_ledger = digits_value a, ec_tx = digits_value b, ec_index = digits_value c\<rparr>
       else Inl (''Invalid Stellar event id format: \"'' @ i @ ''\".'')
   | _ \<Rightarrow> Inl (''Invalid Stellar event id format: \"'' @ i @ ''\".''))"

definition canonical_event :: "string \<Rightarrow> event_components \<Rightarrow> string" where
  "canonical_event contract c =
     contract @ '':'' @ nat_string (ec_ledger c) @ '':'' @ nat_string (ec_tx c) @ '':'' @ nat_string (ec_index c)"

definition generate_idempotency_key :: "(string \<Rightarrow> string) \<Rightarrow> string \<Rightarrow> string \<Rightarrow> string + string" where
  "generate_idempotency_key sha event_id contract =
     res_bind (parse_event_id event_id) (\<lambda>c. Inr (sha (canonical_event contract c)))"

text \<open>The records stamped with their key: \<open>BatchRecord\<close> with the key beside the data.\<close>

datatype batch_record =
  TradeRecord normalized_trade
| ResolutionRecord normalized_resolution
| DepositRecord normalized_deposit
| MarketRecord normalized_market

definition record_event :: "batch_record \<Rightarrow> string" where
  "record_event r = (case r of TradeRecord t \<Rightarrow> nt_event t | ResolutionRecord t \<Rightarrow> nr_event t
     | DepositRecord t \<Rightarrow> nd_event t | MarketRecord t \<Rightarrow> nm_event t)"

definition record_contract :: "batch_record \<Rightarrow> string" where
  "record_contract r = (case r of TradeRecord t \<Rightarrow> nt_contract t | ResolutionRecord t \<Rightarrow> nr_contract t
     | DepositRecord t \<Rightarrow> nd_contract t | MarketRecord t \<Rightarrow> nm_contract t)"

definition record_ledger :: "batch_record \<Rightarrow> int" where
  "record_ledger r = (case r of TradeRecord t \<Rightarrow> nt_ledger t | ResolutionRecord t \<Rightarrow> nr_ledger t
     | DepositRecord t \<Rightarrow> nd_ledger t | MarketRecord t \<Rightarrow> nm_ledger t)"

definition with_idempotency_key :: "(string \<Rightarrow> string) \<Rightarrow> batch_record \<Rightarrow> string + string \<times> batch_record" where
  "with_idempotency_key sha r =
     res_bind (generate_idempotency_key sha (record_event r) (record_contract r)) (\<lambda>k. Inr (k, r))"

subsection \<open>Batches lose nothing\<close>

lemma parse_batch_acc:
  "fold (batch_step matches parse) evs (rs, es) =
     (rs @ List.map_filter (\<lambda>ev. case parse ev of Inr r \<Rightarrow> Some r | Inl _ \<Rightarrow> None) (filter matches evs),
      es @ List.map_filter (\<lambda>ev. case parse ev of Inr _ \<Rightarrow> None | Inl e \<Rightarrow> Some e) (filter matches evs))"
  by (induction evs arbitrary: rs es) (auto simp: batch_step_def split: sum.splits)

lemma parse_batch_spec:
  "parse_batch matches parse evs =
     (List.map_filter (\<lambda>ev. case parse ev of Inr r \<Rightarrow> Some r | Inl _ \<Rightarrow> None) (filter matches evs),
      List.map_filter (\<lambda>ev. case parse ev of Inr _ \<Rightarrow> None | Inl e \<Rightarrow> Some e) (filter matches evs))"
  by (simp add: parse_batch_def parse_batch_acc)

lemma parse_batch_length:
  "length (fst (parse_batch matches parse evs)) + length (snd (parse_batch matches parse evs)) =
     length (filter matches evs)"
  unfolding parse_batch_spec by (induction evs) (auto split: sum.splits)

lemma parsed_iff: "(case r of Inr x \<Rightarrow> Some x | Inl _ \<Rightarrow> None) = Some y \<longleftrightarrow> r = Inr y"
    "(case r of Inr _ \<Rightarrow> None | Inl e \<Rightarrow> Some e) = Some e' \<longleftrightarrow> r = Inl e'"
  by (cases r; auto)+

lemma parse_batch_members:
  "r \<in> set (fst (parse_batch matches parse evs)) \<longleftrightarrow> (\<exists>ev \<in> set evs. matches ev \<and> parse ev = Inr r)"
  "e \<in> set (snd (parse_batch matches parse evs)) \<longleftrightarrow> (\<exists>ev \<in> set evs. matches ev \<and> parse ev = Inl e)"
  unfolding parse_batch_spec by (auto simp: in_set_map_filter parsed_iff)

lemma field_error: "field m k i = Inl e \<Longrightarrow> snd e = i"
  by (auto simp: field_def split: option.splits)

lemma bind_error: "res_bind r f = Inl e \<Longrightarrow> (\<And>e. r = Inl e \<Longrightarrow> snd e = i) \<Longrightarrow>
    (\<And>x e. f x = Inl e \<Longrightarrow> snd e = i) \<Longrightarrow> snd e = i"
  by (cases r) auto

lemma of_option_error: "of_option (msg, i) r = Inl e \<Longrightarrow> snd e = i"
  by (cases r) auto

lemma conversion_errors:
  "to_direction v i = Inl e \<Longrightarrow> snd e = i" "to_trade_outcome v i = Inl e \<Longrightarrow> snd e = i"
  "to_big_int v k i = Inl e \<Longrightarrow> snd e = i"
  by (auto simp: to_direction_def to_trade_outcome_def to_big_int_def Let_def
      split: if_splits js.splits option.splits)

lemma parse_trade_error:
  assumes "parse_trade_event decode ev = Inl e"
  shows "snd e = re_id ev"
proof (cases "is_trade_event decode ev \<and> (\<exists>v. decode (re_value ev) = Inr v)")
  case False
  then show ?thesis using assms
    by (auto simp: parse_trade_event_def split: if_splits sum.splits)
next
  case True
  then obtain v where v: "is_trade_event decode ev" "decode (re_value ev) = Inr v" by blast
  show ?thesis
    using assms v
    by (simp only: parse_trade_event_def not_True_eq_False if_False sum.case)
       (elim bind_error; auto dest: field_error of_option_error conversion_errors)
qed

lemma parse_trade_source: "parse_trade_event decode ev = Inr t \<Longrightarrow>
    nt_event t = re_id ev \<and> nt_ledger t = re_ledger ev \<and> nt_contract t = re_contract ev"
  by (auto simp: parse_trade_event_def res_bind_Inr split: if_splits sum.splits)

text \<open>A batch of raw events loses no trade: every event with the trade topic yields exactly one
  trade or one error, the trades are those of the single-event parser with the event's id,
  ledger and contract, and every error names its event.\<close>
lemma trade_batch_complete:
  "length (fst (parse_trade_events decode evs)) + length (snd (parse_trade_events decode evs)) =
     length (filter (is_trade_event decode) evs) \<and>
   (\<forall>t \<in> set (fst (parse_trade_events decode evs)).
      \<exists>ev \<in> set evs. parse_trade_event decode ev = Inr t \<and> nt_event t = re_id ev \<and>
        nt_ledger t = re_ledger ev \<and> nt_contract t = re_contract ev) \<and>
   (\<forall>e \<in> set (snd (parse_trade_events decode evs)). snd e \<in> re_id ` set evs)"
  unfolding parse_trade_events_def
  using parse_batch_length [of "is_trade_event decode" "parse_trade_event decode" evs]
  by (fastforce simp: parse_batch_members image_iff dest: parse_trade_source parse_trade_error)

text \<open>Concrete events: the decoder reads a payload from a table.\<close>

definition trade_payload :: "normalized_trade \<Rightarrow> js" where
  "trade_payload t = Obj [(''market_id'', Str (nt_market t)), (''trader'', Str (nt_trader t)),
     (''counterparty'', Str (nt_counterparty t)),
     (''direction'', Str (case nt_direction t of Buy \<Rightarrow> ''buy'' | Sell \<Rightarrow> ''sell'')),
     (''outcome'', Str (case nt_outcome t of Yes \<Rightarrow> ''YES'' | No \<Rightarrow> ''NO'')),
     (''price'', BigInt (nt_price t)), (''quantity'', BigInt (nt_quantity t)),
     (''buy_order_id'', Str (nt_buy_order t)), (''sell_order_id'', Str (nt_sell_order t))]"

definition trade_raw_event :: "string \<Rightarrow> string \<Rightarrow> normalized_trade \<Rightarrow> raw_event" where
  "trade_raw_event topic v t = \<lparr>re_id = nt_event t, re_ledger = nt_ledger t, re_closed = nt_closed t,
     re_contract = nt_contract t, re_type = ''contract'', re_paging = None, re_value = v, re_topics = [topic]\<rparr>"

definition demo_trade :: normalized_trade where
  "demo_trade = \<lparr>nt_event = ''0000000042-0000000001-0000000003'', nt_ledger = 42, nt_closed = ''c'',
     nt_contract = ''K'', nt_market = ''7'', nt_trader = ''ann'', nt_counterparty = ''bob'',
     nt_direction = Sell, nt_outcome = No, nt_price = 5000000, nt_quantity = 12,
     nt_buy_order = ''x'', nt_sell_order = ''y''\<rparr>"

definition demo_decode :: decoder where
  "demo_decode x = (if x = ''t'' then Inr (Str TRADE_EVENT_TOPIC)
     else if x = ''v'' then Inr (trade_payload demo_trade) else Inl ''bad xdr'')"

lemma trade_batch_complete_witness:
  "length (fst (parse_trade_events demo_decode
       [trade_raw_event ''t'' ''v'' demo_trade, trade_raw_event ''t'' ''w'' demo_trade])) +
   length (snd (parse_trade_events demo_decode
       [trade_raw_event ''t'' ''v'' demo_trade, trade_raw_event ''t'' ''w'' demo_trade])) = 2"
proof -
  have "length (filter (is_trade_event demo_decode)
      [trade_raw_event ''t'' ''v'' demo_trade, trade_raw_event ''t'' ''w'' demo_trade]) = 2"
    by code_simp
  then show ?thesis
    using trade_batch_complete [of demo_decode
        "[trade_raw_event ''t'' ''v'' demo_trade, trade_raw_event ''t'' ''w'' demo_trade]"]
    by presburger
qed

text \<open>The trade parser is a left inverse of the contract's encoding: an event that carries the
  fields of a trade parses to exactly that trade, with price and quantity at full precision.\<close>
lemma trade_parse_roundtrip:
  assumes "decode topic = Inr (Str TRADE_EVENT_TOPIC)" "decode v = Inr (trade_payload t)"
  shows "parse_trade_event decode (trade_raw_event topic v t) = Inr t"
proof -
  have "is_trade_event decode (trade_raw_event topic v t)"
    using assms(1) by (simp add: is_trade_event_def topic_is_def trade_raw_event_def)
  moreover have "to_lower ''buy'' = ''buy''" "to_lower ''sell'' = ''sell''" by code_simp+
  ultimately show ?thesis
    using assms(2)
    by (cases "nt_direction t"; cases "nt_outcome t")
       (simp_all add: parse_trade_event_def trade_raw_event_def trade_payload_def as_map_def field_def
         to_direction_def to_trade_outcome_def to_big_int_def)
qed

lemma trade_parse_roundtrip_witness:
  "parse_trade_event demo_decode (trade_raw_event ''t'' ''v'' demo_trade) = Inr demo_trade"
  by (rule trade_parse_roundtrip) (simp_all add: demo_decode_def)

subsection \<open>Resolutions\<close>

text \<open>A market resolution is understood in all three payload shapes: the on-chain one takes the
  market from the second topic and leaves the oracle empty, the tuple takes market and outcome
  by position, the legacy map needs a market, an outcome and an oracle.\<close>
lemma resolution_payload_shapes:
  assumes "decode t1 = Inr market"
  shows "parse_resolution_payload decode (Obj [(''outcome'', Bool b), (''resolved_at'', resolved)]) [t0, t1] ev =
      Inr \<lparr>rp_market = js_string market, rp_outcome = (if b then Yes else No), rp_oracle = []\<rparr> \<and>
    parse_resolution_payload decode (Arr [market, Bool b, resolved]) [t0] ev =
      Inr \<lparr>rp_market = js_string market, rp_outcome = (if b then Yes else No), rp_oracle = []\<rparr> \<and>
    parse_resolution_payload decode
        (Obj [(''market_id'', market), (''outcome'', Bool b), (''oracle'', Str (c # cs))]) [t0] ev =
      Inr \<lparr>rp_market = js_string market, rp_outcome = (if b then Yes else No), rp_oracle = c # cs\<rparr> \<and>
    parse_resolution_payload decode (Obj [(''market_id'', market), (''outcome'', Bool b)]) [t0] ev =
      Inl (''Missing field \"oracle\"'', ev)"
  using assms
  by (simp add: parse_resolution_payload_def market_id_from_topic_def to_resolution_outcome_def as_map_def
      field_def get_prop_def nullish_def)

lemma resolution_payload_shapes_witness:
  "parse_resolution_payload (\<lambda>_. Inr (Num 7)) (Obj [(''outcome'', Bool True), (''resolved_at'', BigInt 9)])
     [''a'', ''b''] ''e'' = Inr \<lparr>rp_market = ''7'', rp_outcome = Yes, rp_oracle = []\<rparr>"
proof -
  have "js_string (Num 7) = ''7''" by code_simp
  then show ?thesis
    using resolution_payload_shapes [of "\<lambda>_. Inr (Num 7)" "''b''" "Num 7" True "BigInt 9" "''a''" "''e''"] by simp
qed

subsection \<open>Market creations\<close>

text \<open>No market creation is ever indexed: the parser calls functions its module does not have, so
  every well-formed event becomes a parse error and the list of markets is always empty.\<close>
lemma market_created_never_parsed:
  "fst (parse_market_created_events decode evs) = []"
proof -
  have "parse_market_created_chain_event decode ev \<noteq> Inr m" for ev m
    by (auto simp: parse_market_created_chain_event_def normalize_end_time_def
        split: if_splits list.splits sum.splits option.splits)
  then have "m \<notin> set (fst (parse_market_created_events decode evs))" for m
    by (auto simp: parse_market_created_events_def parse_batch_members split: sum.splits)
  then show ?thesis by (metis list.set_intros(1) neq_Nil_conv)
qed

subsection \<open>Idempotency keys\<close>

definition event_id_string :: "event_components \<Rightarrow> string" where
  "event_id_string c = join_with ''-'' (map (\<lambda>n. pad_start 10 (CHR ''0'') (nat_string n))
     [ec_ledger c, ec_tx c, ec_index c])"

lemma digits_value_zeros: "digits_value (replicate n (CHR ''0'') @ s) = digits_value s"
proof -
  have "digit_val (CHR ''0'') = 0" by (simp add: digit_val_def)
  then have "digits_value (replicate n (CHR ''0'')) = 0"
    by (induction n) (simp_all add: digits_value_def)
  then show ?thesis by (simp add: digits_value_append)
qed

lemma padded_digits: "all_digits (pad_start n (CHR ''0'') (nat_string m))"
    "digits_value (pad_start n (CHR ''0'') (nat_string m)) = m"
  by (simp_all add: pad_start_def all_digits_def digits_value_zeros list_all_iff is_digit_def)
     (use nat_string_digits is_digit_def in auto)

lemma digits_no_char: "all_digits s \<Longrightarrow> \<not> is_digit c \<Longrightarrow> c \<notin> set s"
  by (auto simp: all_digits_def list_all_iff)


end
