(* ===== verification/Calls.thy ===== *)
theory Calls
  imports Prelude
begin

text \<open>
  Asynchronous calls that may reject. A call takes the state of the world it acts on (a
  database, a queue, a remote service) and returns a rejection (\<open>Inl\<close>) or a result, with the
  state it leaves behind: a rejected call can have had effects, and code that catches the
  rejection goes on from them. Most rejections are messages (\<open>call\<close>); \<open>ecall\<close> has any type
  of them. \<open>call_bind\<close> is \<open>await\<close> in sequence, \<open>call_catch\<close> is \<open>try ... catch\<close>, \<open>call_fold\<close> a
  loop over a list.
\<close>

type_synonym ('w, 'e, 'a) ecall = "'w \<Rightarrow> ('e + 'a) \<times> 'w"
type_synonym ('w, 'a) call = "('w, string, 'a) ecall"

definition call_return :: "'a \<Rightarrow> ('w, 'e, 'a) ecall" where
  "call_return x w = (Inr x, w)"

definition call_throw :: "'e \<Rightarrow> ('w, 'e, 'a) ecall" where
  "call_throw e w = (Inl e, w)"

definition call_bind :: "('w, 'e, 'a) ecall \<Rightarrow> ('a \<Rightarrow> ('w, 'e, 'b) ecall) \<Rightarrow> ('w, 'e, 'b) ecall" where
  "call_bind c f w = (case c w of (Inl e, w') \<Rightarrow> (Inl e, w') | (Inr x, w') \<Rightarrow> f x w')"

definition call_catch :: "('w, 'e, 'a) ecall \<Rightarrow> ('e \<Rightarrow> ('w, 'e, 'a) ecall) \<Rightarrow> ('w, 'e, 'a) ecall" where
  "call_catch c h w = (case c w of (Inl e, w') \<Rightarrow> h e w' | (Inr x, w') \<Rightarrow> (Inr x, w'))"

text \<open>The world after \<open>n\<close> calls, whatever they answer.\<close>

fun world_after :: "('w, 'e, 'a) ecall \<Rightarrow> nat \<Rightarrow> 'w \<Rightarrow> 'w" where
  "world_after f 0 w = w"
| "world_after f (Suc n) w = world_after f n (snd (f w))"

fun call_fold :: "('a \<Rightarrow> 's \<Rightarrow> ('w, 'e, 's) ecall) \<Rightarrow> 'a list \<Rightarrow> 's \<Rightarrow> ('w, 'e, 's) ecall" where
  "call_fold f [] s = call_return s"
| "call_fold f (x # xs) s = call_bind (f x s) (call_fold f xs)"

lemma call_return_iff [simp]: "call_return x w = (r, w') \<longleftrightarrow> r = Inr x \<and> w' = w"
  by (auto simp: call_return_def)

lemma call_throw_iff [simp]: "call_throw e w = (r, w') \<longleftrightarrow> r = Inl e \<and> w' = w"
  by (auto simp: call_throw_def)

lemma call_bind_ok: "c w = (Inr x, w') \<Longrightarrow> call_bind c f w = f x w'"
  by (simp add: call_bind_def)

lemma call_bind_fail: "c w = (Inl e, w') \<Longrightarrow> call_bind c f w = (Inl e, w')"
  by (simp add: call_bind_def)

lemma call_bind_return [simp]: "call_bind (call_return x) f = f x"
  by (rule ext) (simp add: call_bind_def call_return_def)

lemma call_bind_throw [simp]: "call_bind (call_throw e) f = call_throw e"
  by (rule ext) (simp add: call_bind_def call_throw_def)

lemma call_catch_return [simp]: "call_catch (call_return x) h = call_return x"
  by (rule ext) (simp add: call_catch_def call_return_def)

lemma call_catch_throw [simp]: "call_catch (call_throw e) h = h e"
  by (rule ext) (simp add: call_catch_def call_throw_def)

lemma call_bind_cases:
  assumes "call_bind c f w = (r, w'')"
  obtains (fail) e where "c w = (Inl e, w'')" "r = Inl e"
  | (ok) x w' where "c w = (Inr x, w')" "f x w' = (r, w'')"
  using assms by (auto simp: call_bind_def split: prod.splits sum.splits)

lemma call_catch_cases:
  assumes "call_catch c h w = (r, w'')"
  obtains (caught) e w' where "c w = (Inl e, w')" "h e w' = (r, w'')"
  | (ok) x where "c w = (Inr x, w'')" "r = Inr x"
  using assms by (auto simp: call_catch_def split: prod.splits sum.splits)

text \<open>A relation between the accumulator and the states before and after, kept by every round.\<close>

lemma call_fold_induct [consumes 1, case_names start step]:
  assumes "call_fold f xs s w = (Inr s', w')"
    and "P [] s w"
    and "\<And>ys x t v t' v'. \<lbrakk>P ys t v; x \<in> set xs; f x t v = (Inr t', v')\<rbrakk> \<Longrightarrow> P (ys @ [x]) t' v'"
  shows "P xs s' w'"
proof -
  have "P (ys @ xs) s' w'" if "P ys s w" for ys
    using assms(1,3) that
  proof (induction xs arbitrary: s w ys)
    case Nil
    then show ?case by simp
  next
    case (Cons x xs)
    from Cons.prems(1) obtain t v where t: "f x s w = (Inr t, v)" "call_fold f xs t v = (Inr s', w')"
      by (auto elim!: call_bind_cases)
    have "P ((ys @ [x]) @ xs) s' w'"
    proof (rule Cons.IH [OF t(2)])
      show "P (ys @ [x]) t v" using Cons.prems(2) [OF Cons.prems(3) _ t(1)] by simp
    qed (use Cons.prems(2) in auto)
    then show ?case by simp
  qed
  from this [OF assms(2)] show ?thesis by simp
qed

text \<open>Calls that leave a part of the world alone.\<close>

definition preserves :: "('w \<Rightarrow> 'b) \<Rightarrow> ('w, 'e, 'a) ecall \<Rightarrow> bool" where
  "preserves view c \<longleftrightarrow> (\<forall>w. view (snd (c w)) = view w)"

lemma preserves_simps [simp]: "preserves view (call_return x)" "preserves view (call_throw e)"
  by (simp_all add: preserves_def call_return_def call_throw_def)

lemma preserves_bind: "preserves view c \<Longrightarrow> (\<And>x. preserves view (f x)) \<Longrightarrow> preserves view (call_bind c f)"
  by (auto simp: preserves_def call_bind_def split: prod.splits sum.splits) (metis snd_conv)+

lemma preserves_catch: "preserves view c \<Longrightarrow> (\<And>e. preserves view (h e)) \<Longrightarrow> preserves view (call_catch c h)"
  by (auto simp: preserves_def call_catch_def split: prod.splits sum.splits) (metis snd_conv)+

lemma preservesD: "preserves view c \<Longrightarrow> c w = (r, w') \<Longrightarrow> view w' = view w"
  by (auto simp: preserves_def) (metis snd_conv)

end
