(* ===== verification/IndexerStore.thy ===== *)
theory IndexerStore
  imports IndexerEvents Calls JsNumber
begin

text \<open>
  \<open>apps/indexer/src/batchWriter.ts\<close> and the duplicate guard of \<open>idempotency.ts\<close>: a batch of
  records is written in one transaction. The Prisma calls are the functions of an
  \<open>event_store\<close> on a state \<open>'db\<close>; \<open>es_commit before after\<close> is the end of the transaction whose
  callback returned. \<open>event_store_laws\<close> states what the writer relies on, and the tables of
  \<open>prisma/schema.prisma\<close> under PostgreSQL's transaction rule (after a statement fails, every
  later one fails and COMMIT rolls back) meet it. Log output is left out.
\<close>

record resolution_row =
  rr_market :: string
  rr_outcome :: bool
  rr_source :: string
  rr_operator :: string

type_synonym share_pair = "number \<times> number"

record 'db event_store =
  es_processed :: "string \<Rightarrow> ('db, bool) call"
  es_mark :: "string \<Rightarrow> string \<Rightarrow> int \<Rightarrow> ('db, unit) call"
  es_trade :: "string \<Rightarrow> normalized_trade \<Rightarrow> ('db, unit) call"
  es_resolution :: "string \<Rightarrow> resolution_row \<Rightarrow> ('db, unit) call"
  es_deposit :: "string \<Rightarrow> normalized_deposit \<Rightarrow> ('db, unit) call"
  es_market :: "normalized_market \<Rightarrow> ('db, unit) call"
  es_position :: "string \<Rightarrow> string \<Rightarrow> share_pair \<Rightarrow> share_pair \<Rightarrow> ('db, unit) call"
  es_commit :: "'db \<Rightarrow> 'db \<Rightarrow> 'db"

type_synonym keyed_record = "string \<times> batch_record"

record write_result =
  wr_written :: nat
  wr_skipped :: nat
  wr_errors :: "(keyed_record \<times> string) list"

datatype insert_result = Inserted keyed_record | Duplicate string

subsection \<open>The duplicate guard\<close>

definition insert_if_new :: "keyed_record \<Rightarrow> (keyed_record \<Rightarrow> ('db, keyed_record option) call) \<Rightarrow>
    ('db, insert_result) call" where
  "insert_if_new r upsert = call_bind (upsert r) (\<lambda>res.
     call_return (case res of None \<Rightarrow> Duplicate (fst r) | Some r' \<Rightarrow> Inserted r'))"

definition insert_all_if_new :: "keyed_record list \<Rightarrow>
    (keyed_record \<Rightarrow> ('db, keyed_record option) call) \<Rightarrow> ('db, keyed_record list \<times> nat) call" where
  "insert_all_if_new rs upsert = call_fold (\<lambda>r (inserted, duplicates).
     call_bind (insert_if_new r upsert) (\<lambda>res.
       call_return (case res of Duplicate _ \<Rightarrow> (inserted, duplicates + 1)
                              | Inserted r' \<Rightarrow> (inserted @ [r'], duplicates)))) rs ([], 0)"

subsection \<open>One record\<close>

definition CHAIN_RESOLUTION_SOURCE_PREFIX :: string where
  "CHAIN_RESOLUTION_SOURCE_PREFIX = ''chain:market_resolved''"

definition UNKNOWN_OPERATOR_ADDRESS :: string where
  "UNKNOWN_OPERATOR_ADDRESS = ''GAAAAAAAAAAAAAAAAAAAAAAAAAAAAAAAAAAAAAAAAAAAAAAAAAAAAWHF''"

definition record_kind :: "batch_record \<Rightarrow> string" where
  "record_kind r = (case r of TradeRecord _ \<Rightarrow> ''trade'' | ResolutionRecord _ \<Rightarrow> ''resolution''
     | DepositRecord _ \<Rightarrow> ''collateral_deposited'' | MarketRecord _ \<Rightarrow> ''market_created'')"

definition resolution_row_of :: "normalized_resolution \<Rightarrow> resolution_row" where
  "resolution_row_of r = \<lparr>rr_market = nr_market r, rr_outcome = (nr_outcome r = Yes),
     rr_source = CHAIN_RESOLUTION_SOURCE_PREFIX @ '':'' @ nr_contract r,
     rr_operator = (if trim (nr_oracle r) \<noteq> [] then nr_oracle r else UNKNOWN_OPERATOR_ADDRESS)\<rparr>"

text \<open>\<open>Number(bigint)\<close> is finite below \<open>2 ^ 1024 - 2 ^ 970\<close>.\<close>

definition max0 :: "number \<Rightarrow> number" where "max0 x = max 0 x"

definition trade_deltas :: "normalized_trade \<Rightarrow> share_pair" where
  "trade_deltas t =
     (let q = fl (of_int (nt_quantity t)); d = (if nt_direction t = Buy then q else - q)
      in (if nt_outcome t = Yes then d else 0, if nt_outcome t = No then d else 0))"

definition reconcile_trade_into_positions :: "'db event_store \<Rightarrow> normalized_trade \<Rightarrow> ('db, unit) call" where
  "reconcile_trade_into_positions st t =
     (if nt_quantity t \<ge> 2 ^ 1024 - 2 ^ 970 \<or> nt_quantity t \<le> 0 then call_return ()
      else let (y, n) = trade_deltas t in
        call_catch
          (call_bind (es_position st (nt_market t) (nt_trader t) (max0 y, max0 n) (y, n)) (\<lambda>_.
            es_position st (nt_market t) (nt_counterparty t) (max0 (- y), max0 (- n)) (- y, - n)))
          (\<lambda>_. call_return ()))"

definition persist_data :: "'db event_store \<Rightarrow> string \<Rightarrow> batch_record \<Rightarrow> ('db, unit) call" where
  "persist_data st k r = (case r of
     TradeRecord t \<Rightarrow> call_bind (es_trade st k t) (\<lambda>_. reconcile_trade_into_positions st t)
   | ResolutionRecord x \<Rightarrow> es_resolution st k (resolution_row_of x)
   | DepositRecord d \<Rightarrow> es_deposit st k d
   | MarketRecord m \<Rightarrow> es_market st m)"

definition persist_record :: "'db event_store \<Rightarrow> keyed_record \<Rightarrow> ('db, keyed_record option) call" where
  "persist_record st kr =
     call_bind (es_processed st (fst kr)) (\<lambda>existing.
       if existing then call_return None
       else call_bind (es_mark st (fst kr) (record_kind (snd kr)) (record_ledger (snd kr))) (\<lambda>_.
         call_bind (persist_data st (fst kr) (snd kr)) (\<lambda>_. call_return (Some kr))))"

subsection \<open>One batch\<close>

definition write_one :: "'db event_store \<Rightarrow> (string \<rightharpoonup> batch_record) \<Rightarrow> keyed_record \<Rightarrow> write_result \<Rightarrow>
    ('db, write_result) call" where
  "write_one st by_key deduped acc = (case by_key (fst deduped) of
     None \<Rightarrow> call_return acc
   | Some r \<Rightarrow> call_catch
       (call_bind (insert_if_new (fst deduped, r) (persist_record st)) (\<lambda>res. call_return (case res of
          Inserted _ \<Rightarrow> acc\<lparr>wr_written := wr_written acc + 1\<rparr>
        | Duplicate _ \<Rightarrow> acc\<lparr>wr_skipped := wr_skipped acc + 1\<rparr>)))
       (\<lambda>e. call_return (acc\<lparr>wr_errors := wr_errors acc @ [((fst deduped, r), e)]\<rparr>)))"

definition not_processed :: "'db event_store \<Rightarrow> keyed_record \<Rightarrow> ('db, keyed_record option) call" where
  "not_processed st r = call_bind (es_processed st (fst r)) (\<lambda>existing.
     call_return (if existing then None else Some r))"

definition write_transaction :: "'db event_store \<Rightarrow> keyed_record list \<Rightarrow> ('db, write_result) call" where
  "write_transaction st rs =
     call_bind (insert_all_if_new rs (not_processed st)) (\<lambda>(inserted, duplicates).
       call_fold (write_one st (map_of (rev rs))) inserted
         \<lparr>wr_written = 0, wr_skipped = duplicates, wr_errors = []\<rparr>)"

definition write_batch :: "'db event_store \<Rightarrow> keyed_record list \<Rightarrow> ('db, write_result) call" where
  "write_batch st rs db =
     (if rs = [] then (Inr \<lparr>wr_written = 0, wr_skipped = 0, wr_errors = []\<rparr>, db)
      else case write_transaction st rs db of
        (Inl e, _) \<Rightarrow> (Inl e, db)
      | (Inr res, db') \<Rightarrow> (Inr res, es_commit st db db'))"

subsection \<open>Counting\<close>

lemma insert_all_spec:
  assumes "insert_all_if_new rs (not_processed st) db = (Inr (ins, dups), db')"
  shows "length ins + dups = length rs \<and> set ins \<subseteq> set rs"
proof -
  let ?f = "\<lambda>r (inserted, duplicates). call_bind (insert_if_new r (not_processed st)) (\<lambda>res.
     call_return (case res of Duplicate _ \<Rightarrow> (inserted, duplicates + 1)
                            | Inserted r' \<Rightarrow> (inserted @ [r'], duplicates)))"
  from assms [unfolded insert_all_if_new_def]
  have "length (fst (ins, dups)) + snd (ins, dups) = length rs \<and> set (fst (ins, dups)) \<subseteq> set rs"
    by (induction rule: call_fold_induct)
       (auto simp: insert_if_new_def not_processed_def elim!: call_bind_cases split: if_splits)
  then show ?thesis by simp
qed

lemma write_one_counts:
  assumes "write_one st by_key d acc db = (Inr acc', db')" "by_key (fst d) \<noteq> None"
  shows "wr_written acc' + wr_skipped acc' + length (wr_errors acc') =
    Suc (wr_written acc + wr_skipped acc + length (wr_errors acc))"
  using assms by (auto simp: write_one_def elim!: call_catch_cases call_bind_cases split: insert_result.splits)

lemma map_of_rev_some: "x \<in> set rs \<Longrightarrow> map_of (rev rs) (fst x) \<noteq> None"
  by (simp add: map_of_eq_None_iff)

lemma write_transaction_counts:
  assumes "write_transaction st rs db = (Inr res, db')"
  shows "wr_written res + wr_skipped res + length (wr_errors res) = length rs"
proof -
  obtain ins dups db1 where i: "insert_all_if_new rs (not_processed st) db = (Inr (ins, dups), db1)"
    and f: "call_fold (write_one st (map_of (rev rs))) ins
         \<lparr>wr_written = 0, wr_skipped = dups, wr_errors = []\<rparr> db1 = (Inr res, db')"
    using assms by (auto simp: write_transaction_def elim!: call_bind_cases)
  have ins: "length ins + dups = length rs" "set ins \<subseteq> set rs" using insert_all_spec [OF i] by auto
  from f have "wr_written res + wr_skipped res + length (wr_errors res) = length ins + dups"
  proof (induction rule: call_fold_induct)
    case start
    then show ?case by simp
  next
    case (step ys x t v t' v')
    then show ?case
      using write_one_counts [OF step(3) map_of_rev_some] ins(2) by auto
  qed
  with ins(1) show ?thesis by simp
qed

subsection \<open>What the writer relies on\<close>

definition data_statements :: "'db event_store \<Rightarrow> ('db, unit) call set" where
  "data_statements st = {c. (\<exists>k t. c = es_trade st k t) \<or> (\<exists>k r. c = es_resolution st k r) \<or>
     (\<exists>k d. c = es_deposit st k d) \<or> (\<exists>m. c = es_market st m) \<or> (\<exists>m u p q. c = es_position st m u p q)}"

locale event_store_laws =
  fixes st :: "'db event_store" and keys :: "'db \<Rightarrow> string set" and live :: "'db \<Rightarrow> bool"
  assumes processed_law: "live db \<Longrightarrow> es_processed st k db = (Inr (k \<in> keys db), db)"
    and processed_dead: "\<not> live db \<Longrightarrow> \<exists>e. es_processed st k db = (Inl e, db)"
    and mark_law: "es_mark st k kd l db = (r, db') \<Longrightarrow> (live db' \<longleftrightarrow> live db \<and> r = Inr ()) \<and>
      (r = Inr () \<longrightarrow> keys db' = insert k (keys db))"
    and data_law: "c \<in> data_statements st \<Longrightarrow> c db = (r, db') \<Longrightarrow> (live db' \<longleftrightarrow> live db \<and> r = Inr ()) \<and>
      (r = Inr () \<longrightarrow> keys db' = keys db)"
    and commit_law: "es_commit st db db' = (if live db' then db' else db)"
begin

text \<open>A call that leaves the transaction usable has succeeded and kept the set of keys.\<close>

definition quiet :: "('db, 'a) call \<Rightarrow> bool" where
  "quiet c = (\<forall>db r db'. c db = (r, db') \<longrightarrow> live db' \<longrightarrow> live db \<and> isl r = False \<and> keys db' = keys db)"

lemma quiet_return: "quiet (call_return x)"
  by (simp add: quiet_def)

lemma quiet_data: "c \<in> data_statements st \<Longrightarrow> quiet c"
  unfolding quiet_def using data_law by (metis isl_def sum.distinct(1))

lemma quiet_bind: "quiet c \<Longrightarrow> (\<And>x. quiet (f x)) \<Longrightarrow> quiet (call_bind c f)"
  unfolding quiet_def by (fastforce elim!: call_bind_cases)

lemma quiet_catch: "quiet c \<Longrightarrow> (\<And>e. quiet (h e)) \<Longrightarrow> quiet (call_catch c h)"
  unfolding quiet_def by (fastforce elim!: call_catch_cases)

lemmas quiet_rules = quiet_return quiet_bind quiet_catch

lemma quiet_persist: "quiet (persist_data st k r)"
proof -
  have "c \<in> data_statements st \<Longrightarrow> quiet c" for c by (rule quiet_data)
  moreover have "es_trade st k t \<in> data_statements st" "es_resolution st k x \<in> data_statements st"
    "es_deposit st k d \<in> data_statements st" "es_market st m \<in> data_statements st"
    "es_position st i u p q \<in> data_statements st" for t x d m i u p q
    unfolding data_statements_def by blast+
  ultimately show ?thesis
    unfolding persist_data_def reconcile_trade_into_positions_def
    by (auto simp: Let_def split: batch_record.splits prod.splits intro!: quiet_rules)
qed

lemma persist_record_live:
  assumes "persist_record st kr db = (r, db')" "live db'"
  shows "live db \<and> isl r = False \<and> keys db' = insert (fst kr) (keys db)"
proof (cases "live db")
  case False
  then show ?thesis using assms processed_dead [of db "fst kr"]
    by (auto simp: persist_record_def call_bind_def)
next
  case True
  show ?thesis
  proof (cases "fst kr \<in> keys db")
    case in_keys: True
    then show ?thesis using assms True
      by (auto simp: persist_record_def call_bind_def processed_law [OF True])
  next
    case False
    with assms(1) have c: "call_bind (es_mark st (fst kr) (record_kind (snd kr)) (record_ledger (snd kr))) (\<lambda>_.
         call_bind (persist_data st (fst kr) (snd kr)) (\<lambda>_. call_return (Some kr))) db = (r, db')"
      by (simp add: persist_record_def call_bind_def [of "es_processed st _"] processed_law [OF True])
    have q: "quiet (call_bind (persist_data st (fst kr) (snd kr)) (\<lambda>_. call_return (Some kr)))"
      by (intro quiet_bind quiet_persist quiet_return)
    from c show ?thesis
    proof (cases rule: call_bind_cases)
      case (fail e)
      then show ?thesis using mark_law [OF fail(1)] assms(2) by simp
    next
      case (ok x w)
      then show ?thesis
        using q assms(2) mark_law [OF ok(1)] True unfolding quiet_def by (metis unit.exhaust)
    qed
  qed
qed

lemma write_one_live:
  assumes "write_one st by_key d acc db = (Inr acc', db')" "live db'" "by_key (fst d) \<noteq> None"
  shows "live db \<and> wr_errors acc' = wr_errors acc \<and> keys db' = insert (fst d) (keys db)"
proof -
  obtain r where r: "by_key (fst d) = Some r" using assms(3) by blast
  from assms(1) [unfolded write_one_def r option.case] show ?thesis
  proof (cases rule: call_catch_cases)
    case (caught e w)
    then show ?thesis using assms(2) persist_record_live [of "(fst d, r)" db]
      by (auto simp: insert_if_new_def elim!: call_bind_cases)
  next
    case (ok x)
    then show ?thesis using assms(2) persist_record_live [of "(fst d, r)" db]
      by (auto simp: insert_if_new_def elim!: call_bind_cases split: insert_result.splits option.splits)
  qed
qed

lemma insert_all_live:
  assumes "live db"
  shows "insert_all_if_new rs (not_processed st) db =
    (Inr (filter (\<lambda>r. fst r \<notin> keys db) rs, length (filter (\<lambda>r. fst r \<in> keys db) rs)), db)"
proof -
  have "call_fold (\<lambda>r (inserted, duplicates). call_bind (insert_if_new r (not_processed st)) (\<lambda>res.
     call_return (case res of Duplicate _ \<Rightarrow> (inserted, duplicates + 1)
                            | Inserted r' \<Rightarrow> (inserted @ [r'], duplicates)))) rs (ins, n) db =
     (Inr (ins @ filter (\<lambda>r. fst r \<notin> keys db) rs, n + length (filter (\<lambda>r. fst r \<in> keys db) rs)), db)" for ins n
    by (induction rs arbitrary: ins n)
       (simp_all add: insert_if_new_def not_processed_def call_bind_def call_return_def processed_law [OF assms])
  from this [of "[]" 0] show ?thesis by (simp add: insert_all_if_new_def)
qed

lemma insert_all_dead:
  assumes "\<not> live db" "rs \<noteq> []"
  shows "\<exists>e. insert_all_if_new rs (not_processed st) db = (Inl e, db)"
proof -
  obtain r rs' where rs: "rs = r # rs'" using assms(2) by (cases rs) auto
  obtain e where "es_processed st (fst r) db = (Inl e, db)" using processed_dead [OF assms(1)] by blast
  then show ?thesis
    by (auto simp: rs insert_all_if_new_def insert_if_new_def not_processed_def call_bind_def)
qed

lemma write_fold_live:
  assumes "call_fold (write_one st by_key) ins acc db = (Inr acc', db')" "live db'"
    and "\<And>d. d \<in> set ins \<Longrightarrow> by_key (fst d) \<noteq> None"
  shows "live db \<and> wr_errors acc' = wr_errors acc \<and> keys db' = keys db \<union> fst ` set ins"
proof -
  from assms(1) have "live db' \<longrightarrow> live db \<and> wr_errors acc' = wr_errors acc \<and> keys db' = keys db \<union> fst ` set ins"
  proof (induction rule: call_fold_induct)
    case start
    then show ?case by simp
  next
    case (step ys x t v t' v')
    then show ?case using write_one_live [OF step(3) _ assms(3) [OF step(2)]] by auto
  qed
  with assms(2) show ?thesis by simp
qed

lemma write_atomic:
  assumes "live db" "write_batch st rs db = (r, db')"
  shows "db' = db \<or> (\<exists>res. r = Inr res \<and> live db' \<and> wr_errors res = [] \<and> keys db' = keys db \<union> fst ` set rs)"
proof (cases "rs = []")
  case True
  then show ?thesis using assms by (simp add: write_batch_def)
next
  case False
  show ?thesis
  proof (cases "\<exists>res db1. write_transaction st rs db = (Inr res, db1) \<and> live db1")
    case True
    then obtain res db1 where t: "write_transaction st rs db = (Inr res, db1)" "live db1" by blast
    then have w: "r = Inr res" "db' = db1"
      using assms(2) False by (auto simp: write_batch_def commit_law)
    have "call_fold (write_one st (map_of (rev rs))) (filter (\<lambda>r. fst r \<notin> keys db) rs)
         \<lparr>wr_written = 0, wr_skipped = length (filter (\<lambda>r. fst r \<in> keys db) rs), wr_errors = []\<rparr> db = (Inr res, db1)"
      using t(1) by (simp add: write_transaction_def call_bind_def [of "insert_all_if_new _ _"] insert_all_live [OF assms(1)])
    from write_fold_live [OF this t(2) map_of_rev_some]
    have "wr_errors res = []" "keys db1 = keys db \<union> fst ` set (filter (\<lambda>r. fst r \<notin> keys db) rs)" by simp_all
    moreover have "keys db \<union> fst ` set (filter (\<lambda>r. fst r \<notin> keys db) rs) = keys db \<union> fst ` set rs" by force
    ultimately have "wr_errors res = []" "keys db1 = keys db \<union> fst ` set rs" by simp_all
    with t w show ?thesis by auto
  next
    case no: False
    then show ?thesis using assms(2) False
      by (auto simp: write_batch_def commit_law split: prod.splits sum.splits)
  qed
qed

lemma write_idempotent:
  assumes "live db" "fst ` set rs \<subseteq> keys db"
  shows "write_batch st rs db = (Inr \<lparr>wr_written = 0, wr_skipped = length rs, wr_errors = []\<rparr>, db)"
proof -
  have "filter (\<lambda>r. fst r \<notin> keys db) rs = []" "filter (\<lambda>r. fst r \<in> keys db) rs = rs"
    using assms(2) by (auto simp: filter_empty_conv filter_id_conv)
  then have "write_transaction st rs db = (Inr \<lparr>wr_written = 0, wr_skipped = length rs, wr_errors = []\<rparr>, db)"
    by (simp add: write_transaction_def call_bind_def [of "insert_all_if_new _ _"] insert_all_live [OF assms(1)])
  then show ?thesis using assms(1) by (simp add: write_batch_def commit_law)
qed

end

subsection \<open>The tables\<close>

record index_tables =
  ix_processed :: "(string \<times> string \<times> int) list"
  ix_trades :: "(string \<times> normalized_trade) list"
  ix_resolutions :: "(string \<times> resolution_row) list"
  ix_deposits :: "(string \<times> normalized_deposit) list"
  ix_markets :: "(string \<times> normalized_market) list"
  ix_positions :: "((string \<times> string) \<times> int \<times> int) list"
  ix_aborted :: bool

text \<open>A statement of a transaction: refused once an earlier one has failed.\<close>

definition statement :: "(index_tables \<Rightarrow> string + index_tables) \<Rightarrow> (index_tables, unit) call" where
  "statement f db =
     (if ix_aborted db then (Inl ''current transaction is aborted'', db)
      else case f db of Inl e \<Rightarrow> (Inl e, db\<lparr>ix_aborted := True\<rparr>) | Inr db' \<Rightarrow> (Inr (), db'))"

definition insert_unique :: "string \<Rightarrow> 'a \<Rightarrow> (string \<times> 'a) list \<Rightarrow> string + (string \<times> 'a) list" where
  "insert_unique k v m = (if map_of m k \<noteq> None then Inl ''Unique constraint failed''
     else if length k > 64 then Inl ''value too long'' else Inr (AList.update k v m))"

definition int32 :: "number \<Rightarrow> bool" where
  "int32 x \<longleftrightarrow> is_integer x \<and> - (2 ^ 31) \<le> x \<and> x < 2 ^ 31"

definition upsert_position :: "string \<Rightarrow> string \<Rightarrow> share_pair \<Rightarrow> share_pair \<Rightarrow> index_tables \<Rightarrow>
    string + index_tables" where
  "upsert_position m u p q db =
     (if \<not> (int32 (fst p) \<and> int32 (snd p) \<and> int32 (fst q) \<and> int32 (snd q)) then Inl ''Int out of range''
      else case map_of (ix_positions db) (m, u) of
        Some (y, n) \<Rightarrow>
          if int32 (of_int y + fst q) \<and> int32 (of_int n + snd q)
          then Inr (db\<lparr>ix_positions := AList.update (m, u) (y + \<lfloor>fst q\<rfloor>, n + \<lfloor>snd q\<rfloor>) (ix_positions db)\<rparr>)
          else Inl ''integer out of range''
      | None \<Rightarrow>
          if map_of (ix_markets db) m = None then Inl ''Foreign key constraint failed: user_positions_market_id_fkey''
          else if length u > 56 then Inl ''value too long''
          else Inr (db\<lparr>ix_positions := AList.update (m, u) (\<lfloor>fst p\<rfloor>, \<lfloor>snd p\<rfloor>) (ix_positions db)\<rparr>))"

definition index_store :: "index_tables event_store" where
  "index_store = \<lparr>
     es_processed = (\<lambda>k db. if ix_aborted db then (Inl ''current transaction is aborted'', db)
       else (Inr (map_of (ix_processed db) k \<noteq> None), db)),
     es_mark = (\<lambda>k kd l. statement (\<lambda>db. res_bind (insert_unique k (kd, l) (ix_processed db))
       (\<lambda>m. Inr (db\<lparr>ix_processed := m\<rparr>)))),
     es_trade = (\<lambda>k t. statement (\<lambda>db.
       if length (nt_trader t) > 56 \<or> length (nt_counterparty t) > 56 then Inl ''value too long''
       else res_bind (insert_unique k t (ix_trades db)) (\<lambda>m. Inr (db\<lparr>ix_trades := m\<rparr>)))),
     es_resolution = (\<lambda>k r. statement (\<lambda>db.
       if map_of (ix_markets db) (rr_market r) = None
       then Inl ''Foreign key constraint failed: resolution_candidates_market_id_fkey''
       else if length (rr_operator r) > 56 then Inl ''value too long''
       else res_bind (insert_unique k r (ix_resolutions db)) (\<lambda>m. Inr (db\<lparr>ix_resolutions := m\<rparr>)))),
     es_deposit = (\<lambda>k d. statement (\<lambda>db.
       if length (nd_account d) > 56 then Inl ''value too long''
       else res_bind (insert_unique k d (ix_deposits db)) (\<lambda>m. Inr (db\<lparr>ix_deposits := m\<rparr>)))),
     es_market = (\<lambda>x. statement (\<lambda>db.
       if length (nm_oracle x) > 56 then Inl ''value too long''
       else Inr (db\<lparr>ix_markets := AList.update (nm_market x) x (ix_markets db)\<rparr>))),
     es_position = (\<lambda>m u p q. statement (upsert_position m u p q)),
     es_commit = (\<lambda>db db'. if ix_aborted db' then db else db')\<rparr>"

definition processed_keys :: "index_tables \<Rightarrow> string set" where
  "processed_keys db = dom (map_of (ix_processed db))"

lemma statement_law:
  assumes "statement f db = (r, db')" "\<And>d. f db = Inr d \<Longrightarrow> ix_aborted d = ix_aborted db"
  shows "(\<not> ix_aborted db' \<longleftrightarrow> \<not> ix_aborted db \<and> r = Inr ()) \<and> (r = Inr () \<longrightarrow> f db = Inr db')"
  using assms by (auto simp: statement_def split: if_splits sum.splits)

lemma upsert_position_frame:
  "upsert_position m u p q db = Inr db' \<Longrightarrow> ix_aborted db' = ix_aborted db \<and> ix_processed db' = ix_processed db"
  by (auto simp: upsert_position_def split: if_splits option.splits)

lemma data_statement_cases:
  assumes "c \<in> data_statements index_store"
  obtains f where "c = statement f"
    "\<And>db db'. f db = Inr db' \<Longrightarrow> ix_aborted db' = ix_aborted db \<and> ix_processed db' = ix_processed db"
proof -
  consider (trade) k t where "c = es_trade index_store k t" | (resolution) k r where "c = es_resolution index_store k r"
    | (deposit) k d where "c = es_deposit index_store k d" | (market) x where "c = es_market index_store x"
    | (position) m u p q where "c = es_position index_store m u p q"
    using assms unfolding data_statements_def by blast
  then show ?thesis
  proof cases
    case position
    show ?thesis
    proof (rule that)
      show "c = statement (upsert_position m u p q)" using position by (simp add: index_store_def)
    qed (rule upsert_position_frame)
  qed (rule that, (simp add: index_store_def; fail), force simp: res_bind_Inr split: if_splits)+
qed

interpretation index_laws: event_store_laws index_store processed_keys "\<lambda>db. \<not> ix_aborted db"
proof
  show "es_processed index_store k db = (Inr (k \<in> processed_keys db), db)" if "\<not> ix_aborted db" for db k
    using that by (simp add: index_store_def processed_keys_def dom_def)
  show "\<exists>e. es_processed index_store k db = (Inl e, db)" if "\<not> \<not> ix_aborted db" for db k
    using that by (simp add: index_store_def)
  show "(\<not> ix_aborted db' \<longleftrightarrow> \<not> ix_aborted db \<and> r = Inr ()) \<and>
      (r = Inr () \<longrightarrow> processed_keys db' = insert k (processed_keys db))"
    if "es_mark index_store k kd l db = (r, db')" for k kd l db r db'
  proof -
    from that have s: "statement (\<lambda>db. res_bind (insert_unique k (kd, l) (ix_processed db))
       (\<lambda>m. Inr (db\<lparr>ix_processed := m\<rparr>))) db = (r, db')" by (simp add: index_store_def)
    have frame: "ix_aborted d = ix_aborted db \<and> processed_keys d = insert k (processed_keys db)"
      if "res_bind (insert_unique k (kd, l) (ix_processed db)) (\<lambda>m. Inr (db\<lparr>ix_processed := m\<rparr>)) = Inr d" for d
    proof -
      from that obtain m where "insert_unique k (kd, l) (ix_processed db) = Inr m" "d = db\<lparr>ix_processed := m\<rparr>"
        by (auto simp: res_bind_Inr)
      then show ?thesis
        by (simp add: insert_unique_def processed_keys_def split: if_splits)
           (drule sym, simp)
    qed
    show ?thesis using statement_law [OF s] frame by blast
  qed
  show "(\<not> ix_aborted db' \<longleftrightarrow> \<not> ix_aborted db \<and> r = Inr ()) \<and>
      (r = Inr () \<longrightarrow> processed_keys db' = processed_keys db)"
    if c: "c \<in> data_statements index_store" and r: "c db = (r, db')" for c db r db'
  proof -
    obtain f where f: "c = statement f" "\<And>db db'. f db = Inr db' \<Longrightarrow>
        ix_aborted db' = ix_aborted db \<and> ix_processed db' = ix_processed db"
      using data_statement_cases [OF c] by blast
    show ?thesis using statement_law [OF r [unfolded f(1)]] f(2) by (auto simp: processed_keys_def)
  qed
  show "es_commit index_store db db' = (if \<not> ix_aborted db' then db' else db)" for db db'
    by (simp add: index_store_def)
qed

subsection \<open>Exactly-once writing\<close>

text \<open>C13: a batch is written all or nothing and exactly once: every record is counted as written,
  skipped or failed; either the database is unchanged, or no record failed and exactly the keys
  of the batch have been added to the processed events, and then writing the same batch again
  skips every record and changes nothing.\<close>
theorem write_batch_exactly_once:
  assumes "\<not> ix_aborted db" "write_batch index_store rs db = (Inr res, db')"
  shows "wr_written res + wr_skipped res + length (wr_errors res) = length rs \<and>
    (db' = db \<or> wr_errors res = [] \<and> processed_keys db' = processed_keys db \<union> fst ` set rs \<and>
       write_batch index_store rs db' = (Inr \<lparr>wr_written = 0, wr_skipped = length rs, wr_errors = []\<rparr>, db'))"
proof
  show "wr_written res + wr_skipped res + length (wr_errors res) = length rs"
    using assms(2) write_transaction_counts
    by (auto simp: write_batch_def split: if_splits prod.splits sum.splits)
  show "db' = db \<or> wr_errors res = [] \<and> processed_keys db' = processed_keys db \<union> fst ` set rs \<and>
       write_batch index_store rs db' = (Inr \<lparr>wr_written = 0, wr_skipped = length rs, wr_errors = []\<rparr>, db')"
    using index_laws.write_atomic [OF assms] index_laws.write_idempotent [of db' rs] by auto
qed

definition empty_index :: "string list \<Rightarrow> index_tables" where
  "empty_index ms = \<lparr>ix_processed = [], ix_trades = [], ix_resolutions = [], ix_deposits = [],
     ix_markets = map (\<lambda>m. (m, \<lparr>nm_event = [], nm_ledger = 0, nm_closed = [], nm_contract = [], nm_market = m,
       nm_question = [], nm_end_time = [], nm_oracle = [], nm_status = ''ACTIVE''\<rparr>)) ms,
     ix_positions = [], ix_aborted = False\<rparr>"

definition demo_batch :: "keyed_record list" where
  "demo_batch = [(''k1'', TradeRecord demo_trade), (''k1'', TradeRecord demo_trade)]"

theorem write_batch_exactly_once_witness:
  "write_batch index_store demo_batch (snd (write_batch index_store demo_batch (empty_index [''7'']))) =
     (Inr \<lparr>wr_written = 0, wr_skipped = 2, wr_errors = []\<rparr>,
      snd (write_batch index_store demo_batch (empty_index [''7''])))"
proof -
  have w: "fst (write_batch index_store demo_batch (empty_index [''7''])) =
      Inr \<lparr>wr_written = 1, wr_skipped = 1, wr_errors = []\<rparr>" by code_simp
  have l: "length demo_batch = 2" and a: "\<not> ix_aborted (empty_index [''7''])"
    and n: "snd (write_batch index_store demo_batch (empty_index [''7''])) \<noteq> empty_index [''7'']" by code_simp+
  have "write_batch index_store demo_batch (empty_index [''7'']) =
      (Inr \<lparr>wr_written = 1, wr_skipped = 1, wr_errors = []\<rparr>,
       snd (write_batch index_store demo_batch (empty_index [''7''])))"
    using w by (simp add: prod_eq_iff)
  from write_batch_exactly_once [OF a this] n l show ?thesis by simp
qed

text \<open>A trade on a market that has no row yet is lost without trace: the position upsert violates
  the foreign key, the handler swallows the error and carries on, the statement has already
  aborted the transaction, and its COMMIT rolls the trade back, while the writer reports one
  written record and no error (so the caller moves its cursor past the event).\<close>
lemma failed_reconcile_loses_trade:
  assumes "\<not> ix_aborted db" "map_of (ix_markets db) (nt_market t) = None"
    and "map_of (ix_positions db) (nt_market t, nt_trader t) = None"
    and "map_of (ix_processed db) k = None" "map_of (ix_trades db) k = None" "length k \<le> 64"
    and "length (nt_trader t) \<le> 56" "length (nt_counterparty t) \<le> 56" "0 < nt_quantity t"
      "nt_quantity t < 2 ^ 1024 - 2 ^ 970"
  shows "write_batch index_store [(k, TradeRecord t)] db =
    (Inr \<lparr>wr_written = 1, wr_skipped = 0, wr_errors = []\<rparr>, db)"
proof -
  define db1 where "db1 = db\<lparr>ix_processed := AList.update k (''trade'', nt_ledger t) (ix_processed db)\<rparr>"
  define db2 where "db2 = db1\<lparr>ix_trades := AList.update k t (ix_trades db1)\<rparr>"
  have p: "es_processed index_store k db = (Inr False, db)" using assms by (simp add: index_store_def)
  have m: "es_mark index_store k ''trade'' (nt_ledger t) db = (Inr (), db1)"
    using assms by (simp add: index_store_def statement_def insert_unique_def db1_def)
  have i: "es_trade index_store k t db1 = (Inr (), db2)"
    using assms by (simp add: index_store_def statement_def insert_unique_def db1_def db2_def)
  have "\<exists>e. upsert_position (nt_market t) (nt_trader t) p' q' db2 = Inl e" for p' q'
    using assms by (simp add: upsert_position_def db1_def db2_def)
  then have u: "\<exists>e. es_position index_store (nt_market t) (nt_trader t) p' q' db2 = (Inl e, db2\<lparr>ix_aborted := True\<rparr>)"
    for p' q'
  proof -
    obtain e where "upsert_position (nt_market t) (nt_trader t) p' q' db2 = Inl e"
      using \<open>\<And>p' q'. \<exists>e. upsert_position _ _ p' q' db2 = Inl e\<close> by blast
    moreover have "\<not> ix_aborted db2" using assms(1) by (simp add: db1_def db2_def)
    ultimately show ?thesis by (simp add: index_store_def statement_def)
  qed
  have r: "reconcile_trade_into_positions index_store t db2 = (Inr (), db2\<lparr>ix_aborted := True\<rparr>)"
  proof -
    obtain y n where yn: "trade_deltas t = (y, n)" by (cases "trade_deltas t")
    obtain e where "es_position index_store (nt_market t) (nt_trader t) (max0 y, max0 n) (y, n) db2 =
      (Inl e, db2\<lparr>ix_aborted := True\<rparr>)" using u by blast
    then show ?thesis using assms(9,10)
      by (simp add: reconcile_trade_into_positions_def yn call_catch_def call_bind_def)
  qed
  have "persist_record index_store (k, TradeRecord t) db = (Inr (Some (k, TradeRecord t)), db2\<lparr>ix_aborted := True\<rparr>)"
    using p m i r
    by (simp add: persist_record_def persist_data_def record_kind_def record_ledger_def call_bind_def call_return_def)
  then have "write_one index_store [k \<mapsto> TradeRecord t] (k, TradeRecord t)
      \<lparr>wr_written = 0, wr_skipped = 0, wr_errors = []\<rparr> db =
    (Inr \<lparr>wr_written = 1, wr_skipped = 0, wr_errors = []\<rparr>, db2\<lparr>ix_aborted := True\<rparr>)"
    by (simp add: write_one_def insert_if_new_def call_catch_def call_bind_def call_return_def)
  then show ?thesis using p
    by (simp add: write_batch_def write_transaction_def insert_all_if_new_def insert_if_new_def not_processed_def
        call_bind_def call_return_def)
       (simp add: index_store_def)
qed

lemma failed_reconcile_loses_trade_witness:
  "write_batch index_store [(''k1'', TradeRecord demo_trade)] (empty_index []) =
     (Inr \<lparr>wr_written = 1, wr_skipped = 0, wr_errors = []\<rparr>, empty_index [])"
  by (rule failed_reconcile_loses_trade) (simp_all add: empty_index_def demo_trade_def)

subsection \<open>Positions\<close>

definition bump_row :: "(int \<times> int) option \<Rightarrow> int \<times> int \<Rightarrow> int \<times> int" where
  "bump_row r d = (case r of None \<Rightarrow> (max 0 (fst d), max 0 (snd d)) | Some (y, n) \<Rightarrow> (y + fst d, n + snd d))"

lemma int32_of_int: "int32 (of_int i) \<longleftrightarrow> - (2 ^ 31) \<le> i \<and> i < 2 ^ 31"
  by (auto simp: int32_def is_integer_def)

lemma max0_of_int: "max0 (of_int i) = of_int (max 0 i)" "max0 (- of_int i) = of_int (max 0 (- i))"
  by (simp_all add: max0_def)

lemma upsert_position_ok:
  assumes "map_of (ix_markets db) m \<noteq> None" "length u \<le> 56"
    and "\<bar>y\<bar> < 2 ^ 31" "\<bar>n\<bar> < 2 ^ 31"
    and "\<And>a b. map_of (ix_positions db) (m, u) = Some (a, b) \<Longrightarrow> \<bar>a + y\<bar> < 2 ^ 31 \<and> \<bar>b + n\<bar> < 2 ^ 31"
  shows "upsert_position m u (of_int (max 0 y), of_int (max 0 n)) (of_int y, of_int n) db =
    Inr (db\<lparr>ix_positions := AList.update (m, u) (bump_row (map_of (ix_positions db) (m, u)) (y, n)) (ix_positions db)\<rparr>)"
proof -
  have i: "int32 (of_int y)" "int32 (of_int n)" "int32 (of_int (max 0 y))" "int32 (of_int (max 0 n))"
    using assms(3,4) unfolding int32_of_int by linarith+
  show ?thesis
  proof (cases "map_of (ix_positions db) (m, u)")
    case None
    then show ?thesis using assms(1,2) i by (simp add: upsert_position_def bump_row_def)
  next
    case (Some p)
    obtain a b where p: "p = (a, b)" by (cases p)
    have "int32 (of_int (a + y))" "int32 (of_int (b + n))"
      using assms(5) [OF Some [unfolded p]] unfolding int32_of_int by linarith+
    then show ?thesis using i by (simp add: upsert_position_def bump_row_def Some p)
  qed
qed

definition signed_quantity :: "normalized_trade \<Rightarrow> chain_outcome \<Rightarrow> int" where
  "signed_quantity t oc = (if nt_outcome t \<noteq> oc then 0 else if nt_direction t = Buy then nt_quantity t
     else - nt_quantity t)"

lemma trade_deltas_exact:
  assumes "\<bar>nt_quantity t\<bar> < 2 ^ 31"
  shows "trade_deltas t = (of_int (signed_quantity t Yes), of_int (signed_quantity t No))"
proof -
  have "fl (of_int (nt_quantity t)) = of_int (nt_quantity t)" using assms by (intro fl_of_int) simp
  then show ?thesis by (cases "nt_outcome t") (simp_all add: trade_deltas_def signed_quantity_def)
qed

text \<open>An indexed trade moves exactly the shares of its two participants on its market, by the
  signed quantity and its opposite; but a participant without a row gets one whose negative
  shares are clamped to zero, so the first sale of an address is not recorded and the shares of
  the two sides then add up to the full quantity instead of zero.\<close>
lemma reconcile_positions:
  assumes "\<not> ix_aborted db" "map_of (ix_markets db) (nt_market t) \<noteq> None"
    and "length (nt_trader t) \<le> 56" "length (nt_counterparty t) \<le> 56" "nt_trader t \<noteq> nt_counterparty t"
    and "0 < nt_quantity t" "nt_quantity t < 2 ^ 31"
    and "\<forall>p \<in> set (ix_positions db). \<bar>fst (snd p)\<bar> + nt_quantity t < 2 ^ 31 \<and> \<bar>snd (snd p)\<bar> + nt_quantity t < 2 ^ 31"
  shows "\<exists>db'. reconcile_trade_into_positions index_store t db = (Inr (), db') \<and>
    map_of (ix_positions db') = (map_of (ix_positions db))
      ((nt_market t, nt_trader t) \<mapsto> bump_row (map_of (ix_positions db) (nt_market t, nt_trader t))
         (signed_quantity t Yes, signed_quantity t No),
       (nt_market t, nt_counterparty t) \<mapsto> bump_row (map_of (ix_positions db) (nt_market t, nt_counterparty t))
         (- signed_quantity t Yes, - signed_quantity t No)) \<and>
    (map_of (ix_positions db) (nt_market t, nt_trader t) = None \<longrightarrow>
     map_of (ix_positions db) (nt_market t, nt_counterparty t) = None \<longrightarrow> nt_outcome t = Yes \<longrightarrow>
       fst (the (map_of (ix_positions db') (nt_market t, nt_trader t))) +
       fst (the (map_of (ix_positions db') (nt_market t, nt_counterparty t))) = nt_quantity t)"
proof -
  let ?y = "signed_quantity t Yes" and ?n = "signed_quantity t No" and ?m = "nt_market t"
  let ?u = "nt_trader t" and ?v = "nt_counterparty t"
  have sq: "\<bar>?y\<bar> \<le> nt_quantity t" "\<bar>?n\<bar> \<le> nt_quantity t" using assms(6) by (auto simp: signed_quantity_def)
  have row: "\<bar>a + d\<bar> < 2 ^ 31 \<and> \<bar>b + e\<bar> < 2 ^ 31"
    if "map_of (ix_positions db) w = Some (a, b)" "\<bar>d\<bar> \<le> nt_quantity t" "\<bar>e\<bar> \<le> nt_quantity t" for w a b d e
    using assms(8) [rule_format, OF map_of_SomeD [OF that(1)]] that(2,3) by auto
  define db1 where "db1 = db\<lparr>ix_positions := AList.update (?m, ?u)
      (bump_row (map_of (ix_positions db) (?m, ?u)) (?y, ?n)) (ix_positions db)\<rparr>"
  define db2 where "db2 = db1\<lparr>ix_positions := AList.update (?m, ?v)
      (bump_row (map_of (ix_positions db1) (?m, ?v)) (- ?y, - ?n)) (ix_positions db1)\<rparr>"
  have 1: "upsert_position ?m ?u (of_int (max 0 ?y), of_int (max 0 ?n)) (of_int ?y, of_int ?n) db = Inr db1"
    unfolding db1_def by (rule upsert_position_ok) (use assms sq row in auto)
  have 2: "upsert_position ?m ?v (of_int (max 0 (- ?y)), of_int (max 0 (- ?n))) (of_int (- ?y), of_int (- ?n)) db1 = Inr db2"
    unfolding db2_def
  proof (rule upsert_position_ok)
    show "\<bar>a + - ?y\<bar> < 2 ^ 31 \<and> \<bar>b + - ?n\<bar> < 2 ^ 31" if "map_of (ix_positions db1) (?m, ?v) = Some (a, b)" for a b
      using row [of "(?m, ?v)" a b "- ?y" "- ?n"] that sq assms(5) by (simp add: db1_def)
  qed (use assms sq in \<open>auto simp: db1_def\<close>)
  have "reconcile_trade_into_positions index_store t db = (Inr (), db2)"
    using 1 2 assms(1,6,7)
    by (simp add: reconcile_trade_into_positions_def trade_deltas_exact max0_of_int call_catch_def call_bind_def
        index_store_def statement_def db1_def)
  moreover have "map_of (ix_positions db2) = (map_of (ix_positions db))
      ((?m, ?u) \<mapsto> bump_row (map_of (ix_positions db) (?m, ?u)) (?y, ?n),
       (?m, ?v) \<mapsto> bump_row (map_of (ix_positions db) (?m, ?v)) (- ?y, - ?n))"
    using assms(5) by (simp add: db1_def db2_def)
  ultimately show ?thesis
    using assms(5,6) by (auto simp: bump_row_def signed_quantity_def)
qed

lemma reconcile_positions_witness:
  "\<exists>db'. reconcile_trade_into_positions index_store (demo_trade\<lparr>nt_outcome := Yes\<rparr>) (empty_index [''7'']) = (Inr (), db') \<and>
     fst (the (map_of (ix_positions db') (''7'', ''ann''))) +
     fst (the (map_of (ix_positions db') (''7'', ''bob''))) = 12"
proof -
  let ?t = "demo_trade\<lparr>nt_outcome := Yes\<rparr>" and ?db = "empty_index [''7'']"
  have t: "nt_market ?t = ''7''" "nt_trader ?t = ''ann''" "nt_counterparty ?t = ''bob''" "nt_quantity ?t = 12"
    "nt_outcome ?t = Yes" by (simp_all add: demo_trade_def)
  have d: "\<not> ix_aborted ?db" "\<exists>y. map_of (ix_markets ?db) ''7'' = Some y" "ix_positions ?db = []"
    by (simp_all add: empty_index_def)
  show ?thesis using reconcile_positions [of ?db ?t] by (simp add: t d) blast
qed

end
