(* ===== verification/BoundedRetry.thy ===== *)
theory BoundedRetry
  imports Calls JsNumber
begin

text \<open>
  The retry loop that the fetcher and the oracle share:
  \<open>for (attempt = 0; attempt <= max; attempt++) try return await f() catch ...\<close>. An error ends the
  loop when it is not retryable or the budget is used up; otherwise the code sleeps for
  \<open>delay attempt\<close> milliseconds and tries again. \<open>sleep\<close> is what a sleep does to the world (it
  advances a clock, where the world has one). The slept delays are part of the result.
\<close>

function bounded_retry :: "('e \<Rightarrow> bool) \<Rightarrow> (nat \<Rightarrow> number) \<Rightarrow> (number \<Rightarrow> 'w \<Rightarrow> 'w) \<Rightarrow> 'e \<Rightarrow> ('w, 'e, 'a) ecall \<Rightarrow>
    nat \<Rightarrow> nat \<Rightarrow> 'w \<Rightarrow> ('e + 'a) \<times> 'w \<times> number list" where
  "bounded_retry retryable delay sleep exhausted f max_retries attempt w =
     (if max_retries < attempt then (Inl exhausted, w, [])
      else case f w of
        (Inr x, w') \<Rightarrow> (Inr x, w', [])
      | (Inl e, w') \<Rightarrow>
          if attempt = max_retries \<or> \<not> retryable e then (Inl e, w', [])
          else (case bounded_retry retryable delay sleep exhausted f max_retries (attempt + 1)
                       (sleep (delay attempt) w') of
            (r, w'', ds) \<Rightarrow> (r, w'', delay attempt # ds)))"
  by pat_completeness auto
termination by (relation "measure (\<lambda>(_, _, _, _, _, m, a, _). Suc m - a)") auto

declare bounded_retry.simps [simp del]

text \<open>The world in which attempt number \<open>a + k\<close> starts when the attempts from \<open>a\<close> on failed.\<close>

fun retry_world :: "(nat \<Rightarrow> number) \<Rightarrow> (number \<Rightarrow> 'w \<Rightarrow> 'w) \<Rightarrow> ('w, 'e, 'a) ecall \<Rightarrow> nat \<Rightarrow> nat \<Rightarrow> 'w \<Rightarrow> 'w" where
  "retry_world delay sleep f a 0 w = w"
| "retry_world delay sleep f a (Suc k) w = retry_world delay sleep f (Suc a) k (sleep (delay a) (snd (f w)))"

text \<open>The first \<open>k\<close> attempts failed with retryable errors.\<close>

definition failing_run :: "('e \<Rightarrow> bool) \<Rightarrow> (nat \<Rightarrow> number) \<Rightarrow> (number \<Rightarrow> 'w \<Rightarrow> 'w) \<Rightarrow> ('w, 'e, 'a) ecall \<Rightarrow>
    nat \<Rightarrow> nat \<Rightarrow> 'w \<Rightarrow> bool" where
  "failing_run retryable delay sleep f a k w \<longleftrightarrow>
     (\<forall>i<k. \<exists>e. fst (f (retry_world delay sleep f a i w)) = Inl e \<and> retryable e)"

lemma failing_run_Suc:
  assumes "f w = (Inl e, w')" "retryable e" "failing_run retryable delay sleep f (Suc a) k (sleep (delay a) w')"
  shows "failing_run retryable delay sleep f a (Suc k) w"
  unfolding failing_run_def
proof (intro allI impI)
  fix i assume i: "i < Suc k"
  show "\<exists>e. fst (f (retry_world delay sleep f a i w)) = Inl e \<and> retryable e"
    using assms i by (cases i) (auto simp: failing_run_def)
qed

lemma bounded_retry_spec:
  assumes "a \<le> m" "bounded_retry retryable delay sleep x f m a w = (r, w', ds)"
  shows "\<exists>k. a + k \<le> m \<and> failing_run retryable delay sleep f a k w \<and>
    f (retry_world delay sleep f a k w) = (r, w') \<and> ds = map delay [a..<a + k] \<and>
    (\<forall>e. r = Inl e \<longrightarrow> a + k = m \<or> \<not> retryable e)"
  using assms
proof (induction "m - a" arbitrary: a w r w' ds)
  case 0
  then have "m = a" by simp
  obtain res w1 where "f w = (res, w1)" by fastforce
  moreover from this have "r = res \<and> w' = w1 \<and> ds = []"
    using "0.prems"(2) unfolding \<open>m = a\<close>
    by (auto simp: bounded_retry.simps [of _ _ _ _ _ a a w] split: sum.splits)
  ultimately show ?case using \<open>m = a\<close> by (intro exI [of _ 0]) (simp add: failing_run_def)
next
  case (Suc n)
  obtain res w1 where f: "f w = (res, w1)" by fastforce
  show ?case
  proof (cases "\<exists>e. res = Inl e \<and> retryable e")
    case False
    then have "r = res \<and> w' = w1 \<and> ds = []"
      using Suc.prems f by (auto simp: bounded_retry.simps [of _ _ _ _ _ m a w] split: sum.splits if_splits)
    then show ?thesis using Suc.prems(1) f False
      by (intro exI [of _ 0]) (auto simp: failing_run_def)
  next
    case True
    then obtain e where e: "res = Inl e" "retryable e" by blast
    let ?w2 = "sleep (delay a) w1"
    obtain r2 w2 ds2 where rec: "bounded_retry retryable delay sleep x f m (Suc a) ?w2 = (r2, w2, ds2)"
      using prod_cases3 by blast
    have "a \<noteq> m" "\<not> m < a" using Suc.hyps(2) by auto
    then have eq: "r = r2" "w' = w2" "ds = delay a # ds2"
      using Suc.prems(2) e f rec by (auto simp: bounded_retry.simps [of _ _ _ _ _ m a w])
    have "n = m - Suc a" "Suc a \<le> m" using Suc.hyps(2) by auto
    from Suc.hyps(1) [OF this rec]
    obtain k where k: "Suc a + k \<le> m" "failing_run retryable delay sleep f (Suc a) k ?w2"
      "f (retry_world delay sleep f (Suc a) k ?w2) = (r2, w2)" "ds2 = map delay [Suc a..<Suc a + k]"
      "\<forall>e. r2 = Inl e \<longrightarrow> Suc a + k = m \<or> \<not> retryable e" by blast
    have "[a..<a + Suc k] = a # [Suc a..<Suc a + k]" by (simp add: upt_conv_Cons del: upt_Suc)
    then have "ds = map delay [a..<a + Suc k]" using eq(3) k(4) by (simp del: upt_Suc)
    moreover have "f (retry_world delay sleep f a (Suc k) w) = (r, w')" using k(3) f eq by simp
    moreover have "failing_run retryable delay sleep f a (Suc k) w"
      by (rule failing_run_Suc [OF f [unfolded e(1)] e(2) k(2)])
    ultimately show ?thesis using k(1,5) eq(1) by (intro exI [of _ "Suc k"]) auto
  qed
qed

end
