(* ===== verification/Retry.thy ===== *)
theory Retry
  imports BoundedRetry JsValue
begin

text \<open>
  \<open>apps/indexer/src/retry.ts\<close>: bounded retries with exponential backoff around a call that may
  reject. The milliseconds slept between attempts are part of the result. The event fetcher
  has the same loop (\<open>retry_loop\<close>).
\<close>

record net_error =
  ne_is_error :: bool
  ne_code :: "string option"
  ne_message :: string

definition TRANSIENT_CODES :: "string list" where
  "TRANSIENT_CODES = [''ECONNRESET'', ''ECONNREFUSED'', ''ETIMEDOUT'', ''ENOTFOUND'', ''socket hang up'']"

definition is_transient_error :: "net_error \<Rightarrow> bool" where
  "is_transient_error e \<longleftrightarrow> ne_is_error e \<and>
     ((case ne_code e of None \<Rightarrow> [] | Some c \<Rightarrow> c) \<in> set TRANSIENT_CODES \<or> ne_message e \<in> set TRANSIENT_CODES)"

definition plain_error :: "string \<Rightarrow> net_error" where
  "plain_error msg = \<lparr>ne_is_error = True, ne_code = None, ne_message = msg\<rparr>"

definition retry_loop :: "('w, net_error, 'a) ecall \<Rightarrow> nat \<Rightarrow> number \<Rightarrow> nat \<Rightarrow> 'w \<Rightarrow>
    (net_error + 'a) \<times> 'w \<times> number list" where
  "retry_loop f max_retries delay attempt w =
     bounded_retry is_transient_error (\<lambda>i. js_mul delay (2 ^ i)) (\<lambda>_ w. w)
       (plain_error ''withRetry: exhausted retries'') f max_retries attempt w"

record retry_options =
  ro_max_retries :: js
  ro_delay :: js

datatype retry_failure = RetryValidation string | Failed net_error

definition validate_retry_options :: "retry_options \<Rightarrow> string + nat \<times> number" where
  "validate_retry_options opts =
     (case ro_max_retries opts of
        Num m \<Rightarrow>
          if \<not> is_integer m \<or> m < 0 then Inl ''maxRetries must be a non-negative integer''
          else (case ro_delay opts of
              Num d \<Rightarrow> if d < 0 then Inl ''retryDelayMs must be a non-negative number'' else Inr (nat \<lfloor>m\<rfloor>, d)
            | _ \<Rightarrow> Inl ''retryDelayMs must be a non-negative number'')
      | _ \<Rightarrow> Inl ''maxRetries must be a non-negative integer'')"

definition with_retry :: "('w, net_error, 'a) ecall \<Rightarrow> retry_options \<Rightarrow> 'w \<Rightarrow>
    (retry_failure + 'a) \<times> 'w \<times> number list" where
  "with_retry f opts w = (case validate_retry_options opts of
     Inl msg \<Rightarrow> (Inl (RetryValidation msg), w, [])
   | Inr (m, d) \<Rightarrow> (case retry_loop f m d 0 w of
       (Inl e, w', ds) \<Rightarrow> (Inl (Failed e), w', ds) | (Inr x, w', ds) \<Rightarrow> (Inr x, w', ds)))"

text \<open>The first \<open>k\<close> calls failed with transient errors, and the next one decided.\<close>

definition transient_run :: "('w, net_error, 'a) ecall \<Rightarrow> nat \<Rightarrow> 'w \<Rightarrow> bool" where
  "transient_run f k w \<longleftrightarrow> (\<forall>i<k. \<exists>e. fst (f (world_after f i w)) = Inl e \<and> is_transient_error e)"

lemma retry_world_idle: "retry_world delay (\<lambda>_ w. w) f a k w = world_after f k w"
  by (induction k arbitrary: a w) simp_all

lemma retry_loop_spec:
  assumes "attempt \<le> m" "retry_loop f m d attempt w = (r, w', ds)"
  shows "\<exists>k. attempt + k \<le> m \<and> transient_run f k w \<and> f (world_after f k w) = (r, w') \<and>
    ds = map (\<lambda>i. js_mul d (2 ^ i)) [attempt..<attempt + k] \<and>
    (\<forall>e. r = Inl e \<longrightarrow> attempt + k = m \<or> \<not> is_transient_error e)"
  using bounded_retry_spec [OF assms(1) assms(2) [unfolded retry_loop_def]]
  by (simp add: retry_world_idle failing_run_def transient_run_def)

text \<open>\<open>withRetry\<close> always ends after at most \<open>maxRetries + 1\<close> attempts, whatever the operation
  does: with \<open>k\<close> retries, the first \<open>k\<close> attempts failed with transient errors and were followed by
  sleeps of \<open>delay * 2 ^ i\<close>, the result is that of the last attempt, and an error is only reported when
  it is not transient or the budget is used up.\<close>
lemma with_retry_bounded:
  assumes "ro_max_retries opts = Num (of_nat m)" "ro_delay opts = Num d" "0 \<le> d"
  shows "\<exists>k r w' ds. k \<le> m \<and> transient_run f k w \<and> f (world_after f k w) = (r, w') \<and>
    ds = map (\<lambda>i. js_mul d (2 ^ i)) [0..<k] \<and>
    (case r of Inr x \<Rightarrow> with_retry f opts w = (Inr x, w', ds)
             | Inl e \<Rightarrow> with_retry f opts w = (Inl (Failed e), w', ds) \<and> (k = m \<or> \<not> is_transient_error e))"
proof -
  have v: "validate_retry_options opts = Inr (m, d)"
    using assms is_integer_of_int [of "int m"] by (simp add: validate_retry_options_def)
  obtain r w' ds where l: "retry_loop f m d 0 w = (r, w', ds)" by (cases "retry_loop f m d 0 w")
  from retry_loop_spec [OF le0 l] obtain k where k: "k \<le> m" "transient_run f k w" "f (world_after f k w) = (r, w')"
      "ds = map (\<lambda>i. js_mul d (2 ^ i)) [0..<k]" "\<forall>e. r = Inl e \<longrightarrow> k = m \<or> \<not> is_transient_error e" by auto
  have "(case r of Inr x \<Rightarrow> with_retry f opts w = (Inr x, w', ds)
             | Inl e \<Rightarrow> with_retry f opts w = (Inl (Failed e), w', ds) \<and> (k = m \<or> \<not> is_transient_error e))"
    using k(5) by (cases r) (simp_all add: with_retry_def v l)
  with k show ?thesis by blast
qed

text \<open>An operation that answers from a script; the script is its world.\<close>

definition scripted :: "((net_error + 'a) list, net_error, 'a) ecall" where
  "scripted w = (case w of [] \<Rightarrow> (Inl (plain_error ''no answer''), []) | r # rs \<Rightarrow> (r, rs))"

lemma with_retry_bounded_witness:
  "\<exists>r w'. with_retry scripted \<lparr>ro_max_retries = Num 3, ro_delay = Num 500\<rparr>
       [Inl (plain_error ''ETIMEDOUT''), Inr (7::nat), Inr 8] = (r, w', [500]) \<and> r = Inr 7"
proof -
  let ?o = "\<lparr>ro_max_retries = Num 3, ro_delay = Num 500\<rparr>"
  let ?w = "[Inl (plain_error ''ETIMEDOUT''), Inr (7::nat), Inr 8]"
  obtain k r w' ds where k: "transient_run scripted k ?w" "scripted (world_after scripted k ?w) = (r, w')"
    "ds = map (\<lambda>i. js_mul 500 (2 ^ i)) [0..<k]"
    "(case r of Inr x \<Rightarrow> with_retry scripted ?o ?w = (Inr x, w', ds)
      | Inl e \<Rightarrow> with_retry scripted ?o ?w = (Inl (Failed e), w', ds) \<and> (k = 3 \<or> \<not> is_transient_error e))"
    using with_retry_bounded [of ?o 3 500 scripted ?w] by auto
  have "\<not> 1 < k"
  proof
    assume "1 < k"
    then have "\<exists>e. fst (scripted (world_after scripted 1 ?w)) = Inl e" using k(1) unfolding transient_run_def by blast
    then show False by (simp add: scripted_def)
  qed
  moreover have "k \<noteq> 0"
  proof
    assume z: "k = 0"
    have t: "is_transient_error (plain_error ''ETIMEDOUT'')" by code_simp
    from k(2) have "r = Inl (plain_error ''ETIMEDOUT'')" by (simp add: z scripted_def)
    with k(4) z t show False by simp
  qed
  ultimately have k1: "k = 1" by simp
  have "js_mul 500 1 = 500" by code_simp
  moreover have "r = Inr 7" using k(2) by (simp add: k1 scripted_def)
  ultimately show ?thesis using k(3,4) by (auto simp: k1)
qed

end
