(* ===== verification/EventFetcher.thy ===== *)
theory EventFetcher
  imports IndexerEvents Retry
begin

text \<open>
  \<open>apps/indexer/src/eventFetcher.ts\<close>: all contract events of a ledger window, page by page. The
  RPC server is an argument of type \<open>rpc_server\<close>; its answers and failures are those of the
  world it acts on. A server may send full pages for ever, so \<open>fetch_loop\<close> is partial: \<open>None\<close>
  means that the loop does not end. \<open>event_server\<close> states what \<open>getEvents\<close> promises.
\<close>

record event_response =
  er_id :: string
  er_ledger :: int
  er_closed :: string
  er_contract :: string
  er_type :: string
  er_paging :: "string option"
  er_value :: string
  er_topics :: "string list"

record events_page =
  pg_events :: "event_response list"
  pg_latest :: int

type_synonym 'w rpc_server = "int \<Rightarrow> string option \<Rightarrow> nat \<Rightarrow> ('w, net_error, events_page) ecall"

record fetcher_config =
  fc_max_retries :: nat
  fc_delay :: number
  fc_limit :: nat

definition default_fetcher_config :: fetcher_config where
  "default_fetcher_config = \<lparr>fc_max_retries = 3, fc_delay = 500, fc_limit = 100\<rparr>"

definition to_raw_event :: "event_response \<Rightarrow> raw_event" where
  "to_raw_event e = \<lparr>re_id = er_id e, re_ledger = er_ledger e, re_closed = er_closed e,
     re_contract = er_contract e, re_type = er_type e, re_paging = er_paging e, re_value = er_value e,
     re_topics = er_topics e\<rparr>"

text \<open>An empty cursor is not sent.\<close>

definition fetch_page_with_retry :: "'w rpc_server \<Rightarrow> fetcher_config \<Rightarrow> int \<Rightarrow> string option \<Rightarrow> 'w \<Rightarrow>
    (net_error + events_page) \<times> 'w \<times> number list" where
  "fetch_page_with_retry srv cfg start cursor w =
     retry_loop (srv start (if cursor = Some [] then None else cursor) (fc_limit cfg))
       (fc_max_retries cfg) (fc_delay cfg) 0 w"

definition in_window :: "int \<Rightarrow> int \<Rightarrow> event_response \<Rightarrow> bool" where
  "in_window start stop e \<longleftrightarrow> start \<le> er_ledger e \<and> er_ledger e \<le> stop"

definition next_page_cursor :: "fetcher_config \<Rightarrow> int \<Rightarrow> event_response list \<Rightarrow> string option" where
  "next_page_cursor cfg stop evs =
     (if fc_limit cfg \<le> length evs \<and> evs \<noteq> [] \<and> er_ledger (last evs) \<le> stop
      then er_paging (last evs) else None)"

partial_function (option) fetch_loop :: "'w rpc_server \<Rightarrow> fetcher_config \<Rightarrow> int \<Rightarrow> int \<Rightarrow> string option \<Rightarrow>
    raw_event list \<Rightarrow> 'w \<Rightarrow> ((net_error + raw_event list \<times> int) \<times> 'w) option" where
  "fetch_loop srv cfg start stop cursor acc w =
     (case fetch_page_with_retry srv cfg start cursor w of
        (Inl e, w', _) \<Rightarrow> Some (Inl e, w')
      | (Inr page, w', _) \<Rightarrow>
          (case next_page_cursor cfg stop (pg_events page) of
             None \<Rightarrow> Some (Inr (acc @ map to_raw_event (filter (in_window start stop) (pg_events page)),
                             pg_latest page), w')
           | Some c \<Rightarrow> fetch_loop srv cfg start stop (Some c)
               (acc @ map to_raw_event (filter (in_window start stop) (pg_events page))) w'))"

declare fetch_loop.simps [code]

definition fetch_by_ledger_window :: "'w rpc_server \<Rightarrow> fetcher_config \<Rightarrow> int \<Rightarrow> int \<Rightarrow> 'w \<Rightarrow>
    ((net_error + raw_event list \<times> int) \<times> 'w) option" where
  "fetch_by_ledger_window srv cfg start stop w = fetch_loop srv cfg start stop None [] w"

subsection \<open>The server's contract\<close>

text \<open>The events still to be sent: from the start ledger, or after the event that has the cursor.\<close>

definition remaining_events :: "event_response list \<Rightarrow> int \<Rightarrow> string option \<Rightarrow> event_response list" where
  "remaining_events chain start cursor = (case cursor of
     None \<Rightarrow> filter (\<lambda>e. start \<le> er_ledger e) chain
   | Some c \<Rightarrow> tl (dropWhile (\<lambda>e. er_paging e \<noteq> Some c) chain))"

definition well_paged :: "event_response list \<Rightarrow> bool" where
  "well_paged chain \<longleftrightarrow> sorted (map er_ledger chain) \<and> distinct (map er_paging chain) \<and>
     None \<notin> set (map er_paging chain) \<and> Some [] \<notin> set (map er_paging chain)"

lemma remaining_after:
  assumes "well_paged chain" "chain = pre @ e # post" "er_paging e = Some c"
  shows "remaining_events chain start (Some c) = post"
proof -
  have "\<forall>x \<in> set pre. er_paging x \<noteq> Some c"
    using assms by (auto simp: well_paged_def image_iff)
  then have "dropWhile (\<lambda>e. er_paging e \<noteq> Some c) chain = e # post"
    using assms(2,3) by (simp add: dropWhile_append)
  then show ?thesis by (simp add: remaining_events_def)
qed

lemma sorted_window_split:
  assumes "well_paged chain"
  obtains pre where "chain = pre @ filter (\<lambda>e. start \<le> er_ledger e) chain"
    "\<forall>e \<in> set pre. er_ledger e < start"
proof -
  have s: "sorted (map er_ledger chain)" using assms by (simp add: well_paged_def)
  have "dropWhile (\<lambda>e. er_ledger e < start) chain = filter (\<lambda>e. start \<le> er_ledger e) chain"
    using s
  proof (induction chain)
    case (Cons e es)
    show ?case
    proof (cases "er_ledger e < start")
      case False
      then have "filter (\<lambda>e. start \<le> er_ledger e) es = es" using Cons.prems by (fastforce simp: filter_id_conv)
      then show ?thesis using False by simp
    qed (use Cons in simp)
  qed simp
  then show ?thesis
    using that [of "takeWhile (\<lambda>e. er_ledger e < start) chain"] set_takeWhileD by (metis (no_types, lifting) takeWhile_dropWhile_id)
qed

locale event_server =
  fixes srv :: "'w rpc_server" and chain :: "event_response list" and latest :: int
  assumes page_law: "srv start cursor limit w = (Inr page, w') \<Longrightarrow>
      pg_events page = take limit (remaining_events chain start cursor) \<and> pg_latest page = latest"
    and chain_law: "well_paged chain"
begin

lemma fetched_page:
  assumes "fetch_page_with_retry srv cfg start cursor w = (Inr page, w', ds)" "cursor \<noteq> Some []"
  shows "pg_events page = take (fc_limit cfg) (remaining_events chain start cursor) \<and> pg_latest page = latest"
proof -
  from assms have "retry_loop (srv start cursor (fc_limit cfg)) (fc_max_retries cfg) (fc_delay cfg) 0 w =
      (Inr page, w', ds)" by (simp add: fetch_page_with_retry_def)
  from retry_loop_spec [OF le0 this]
  obtain k where "srv start cursor (fc_limit cfg) (world_after (srv start cursor (fc_limit cfg)) k w) = (Inr page, w')"
    by auto
  then show ?thesis by (rule page_law)
qed

lemma fetch_loop_complete:
  assumes "0 < fc_limit cfg" "chain = pre @ remaining_events chain start cursor" "cursor \<noteq> Some []"
    and "\<forall>e \<in> set (remaining_events chain start cursor). start \<le> er_ledger e"
  shows "\<exists>r w'. fetch_loop srv cfg start stop cursor acc w = Some (r, w') \<and>
    (\<forall>x. r = Inr x \<longrightarrow> x = (acc @ map to_raw_event (filter (in_window start stop)
        (remaining_events chain start cursor)), latest))"
  using assms(2-)
proof (induction "length (remaining_events chain start cursor)" arbitrary: cursor acc w pre rule: less_induct)
  case less
  define rest where "rest = remaining_events chain start cursor"
  obtain r w1 ds where f: "fetch_page_with_retry srv cfg start cursor w = (r, w1, ds)"
    by (cases "fetch_page_with_retry srv cfg start cursor w")
  show ?case
  proof (cases r)
    case (Inl e)
    then show ?thesis by (simp add: fetch_loop.simps [of srv cfg start stop cursor] f)
  next
    case (Inr page)
    have pg: "pg_events page = take (fc_limit cfg) rest" "pg_latest page = latest"
      using fetched_page [OF f [unfolded Inr] less.prems(2)] by (simp_all add: rest_def)
    let ?acc = "acc @ map to_raw_event (filter (in_window start stop) (take (fc_limit cfg) rest))"
    have sorted: "sorted (map er_ledger rest)"
      using chain_law less.prems(1) unfolding rest_def well_paged_def by (metis map_append sorted_append)
    show ?thesis
    proof (cases "next_page_cursor cfg stop (pg_events page)")
      case None
      have "\<not> in_window start stop e" if e: "e \<in> set (drop (fc_limit cfg) rest)" for e
      proof -
        have full: "fc_limit cfg \<le> length (take (fc_limit cfg) rest)" using e by (cases "fc_limit cfg \<le> length rest") auto
        then have ne: "take (fc_limit cfg) rest \<noteq> []" using assms(1) by (cases "fc_limit cfg") auto
        have m: "last (take (fc_limit cfg) rest) \<in> set rest" using ne by (meson in_set_takeD last_in_set)
        have "er_paging (last (take (fc_limit cfg) rest)) \<noteq> None"
        proof -
          have "last (take (fc_limit cfg) rest) \<in> set chain" using m less.prems(1) unfolding rest_def by (metis Un_iff set_append)
          then show ?thesis using chain_law unfolding well_paged_def by (metis image_eqI list.set_map)
        qed
        then have "stop < er_ledger (last (take (fc_limit cfg) rest))"
          using None full ne by (auto simp: next_page_cursor_def pg split: if_splits)
        moreover have "er_ledger (last (take (fc_limit cfg) rest)) \<le> er_ledger e"
        proof -
          have "sorted (map er_ledger (take (fc_limit cfg) rest @ drop (fc_limit cfg) rest))" using sorted by simp
          moreover have "er_ledger (last (take (fc_limit cfg) rest)) \<in> set (map er_ledger (take (fc_limit cfg) rest))"
            using ne by (metis image_eqI last_in_set list.set_map)
          ultimately show ?thesis using e unfolding map_append sorted_append by (metis image_eqI list.set_map)
        qed
        ultimately show ?thesis by (simp add: in_window_def)
      qed
      then have "filter (in_window start stop) (drop (fc_limit cfg) rest) = []" by (simp add: filter_empty_conv)
      then have "filter (in_window start stop) rest = filter (in_window start stop) (take (fc_limit cfg) rest)"
        by (metis append.right_neutral append_take_drop_id filter_append)
      then show ?thesis
        using None by (simp add: fetch_loop.simps [of srv cfg start stop cursor] f Inr pg rest_def)
    next
      case (Some c)
      then have full: "fc_limit cfg \<le> length (take (fc_limit cfg) rest)" and ne: "take (fc_limit cfg) rest \<noteq> []"
        and c: "er_paging (last (take (fc_limit cfg) rest)) = Some c"
        by (auto simp: next_page_cursor_def pg split: if_splits)
      obtain ys y where ys: "take (fc_limit cfg) rest = ys @ [y]" using ne by (meson rev_exhaust)
      have ch: "chain = (pre @ ys) @ y # drop (fc_limit cfg) rest"
        using less.prems(1) ys append_take_drop_id [of "fc_limit cfg" rest] unfolding rest_def
        by (metis append.assoc append_Cons append_Nil)
      have rem: "remaining_events chain start (Some c) = drop (fc_limit cfg) rest"
        by (rule remaining_after [OF chain_law ch]) (use c ys in simp)
      have "y \<in> set chain" by (subst ch) simp
      then have "Some c \<noteq> Some []" using chain_law c ys unfolding well_paged_def by (metis image_eqI last_snoc list.set_map)
      have "\<exists>r w'. fetch_loop srv cfg start stop (Some c) ?acc w1 = Some (r, w') \<and>
        (\<forall>x. r = Inr x \<longrightarrow> x = (?acc @ map to_raw_event (filter (in_window start stop)
          (remaining_events chain start (Some c))), latest))"
      proof (rule less.hyps)
        show "length (remaining_events chain start (Some c)) < length (remaining_events chain start cursor)"
          using assms(1) ne by (simp add: rem flip: rest_def)
        show "chain = (pre @ ys @ [y]) @ remaining_events chain start (Some c)" using ch unfolding rem by simp
        show "Some c \<noteq> Some []" by fact
        show "\<forall>e \<in> set (remaining_events chain start (Some c)). start \<le> er_ledger e"
          using less.prems(3) unfolding rem by (metis in_set_dropD rest_def)
      qed
      then show ?thesis
        using Some by (simp add: fetch_loop.simps [of srv cfg start stop cursor] f Inr pg rem flip: rest_def)
          (metis append_take_drop_id filter_append map_append)
    qed
  qed
qed

lemma fetch_window_complete:
  assumes "0 < fc_limit cfg"
  shows "\<exists>r w'. fetch_by_ledger_window srv cfg start stop w = Some (r, w') \<and>
    (\<forall>x. r = Inr x \<longrightarrow> x = (map to_raw_event (filter (in_window start stop) chain), latest))"
proof -
  obtain pre where pre: "chain = pre @ filter (\<lambda>e. start \<le> er_ledger e) chain" using sorted_window_split [OF chain_law] by blast
  have f: "filter (in_window start stop) (filter (\<lambda>e. start \<le> er_ledger e) chain) = filter (in_window start stop) chain"
    by (auto simp: in_window_def intro: filter_cong)
  have r: "remaining_events chain start None = filter (\<lambda>e. start \<le> er_ledger e) chain"
    by (simp add: remaining_events_def)
  show ?thesis
    using fetch_loop_complete [OF assms pre [folded r], of stop "[]" w]
    unfolding fetch_by_ledger_window_def r f by simp
qed

end

subsection \<open>A server\<close>

text \<open>A server that keeps the contract over a fixed chain and fails as its script says.\<close>

definition chain_server :: "event_response list \<Rightarrow> int \<Rightarrow> (net_error option list) rpc_server" where
  "chain_server chain latest start cursor limit w = (case w of
     Some e # w' \<Rightarrow> (Inl e, w')
   | _ \<Rightarrow> (Inr \<lparr>pg_events = take limit (remaining_events chain start cursor), pg_latest = latest\<rparr>, tl w))"

definition event_at :: "int \<Rightarrow> string \<Rightarrow> event_response" where
  "event_at l c = \<lparr>er_id = c, er_ledger = l, er_closed = [], er_contract = ''K'', er_type = ''contract'',
     er_paging = Some c, er_value = ''v'', er_topics = [''t'']\<rparr>"

definition demo_chain :: "event_response list" where
  "demo_chain = [event_at 3 ''a'', event_at 5 ''b'', event_at 5 ''c'', event_at 6 ''d'', event_at 9 ''e'']"

lemma chain_server_law: "well_paged chain \<Longrightarrow> event_server (chain_server chain latest) chain latest"
  by unfold_locales (auto simp: chain_server_def split: list.splits option.splits)

interpretation demo_server: event_server "chain_server demo_chain 9" demo_chain 9
  by (rule chain_server_law) (simp add: demo_chain_def well_paged_def event_at_def)

text \<open>C14: fetching a ledger window always ends against a server that keeps its paging contract, and
  when it returns events they are exactly the events of the window, in chain order, none twice
  and none lost at a page boundary, whatever the page size and the transient failures on the way.\<close>
theorem fetch_window_exact:
  assumes "well_paged chain" "0 < fc_limit cfg"
    and "\<And>start cursor limit w page w'. srv start cursor limit w = (Inr page, w') \<Longrightarrow>
      pg_events page = take limit (remaining_events chain start cursor) \<and> pg_latest page = latest"
  shows "\<exists>r w'. fetch_by_ledger_window srv cfg start stop w = Some (r, w') \<and>
    (\<forall>x. r = Inr x \<longrightarrow> x = (map to_raw_event (filter (in_window start stop) chain), latest))"
  using event_server.fetch_window_complete [OF event_server.intro [OF assms(3,1)] assms(2)] .

theorem fetch_window_exact_witness:
  "\<exists>r w'. fetch_by_ledger_window (chain_server demo_chain 9) \<lparr>fc_max_retries = 1, fc_delay = 1, fc_limit = 2\<rparr>
       4 6 [None, Some (plain_error ''ETIMEDOUT'')] = Some (r, w') \<and>
     (\<forall>x. r = Inr x \<longrightarrow> x = (map to_raw_event [event_at 5 ''b'', event_at 5 ''c'', event_at 6 ''d''], 9))"
proof -
  have "filter (in_window 4 6) demo_chain = [event_at 5 ''b'', event_at 5 ''c'', event_at 6 ''d'']"
    by (simp add: demo_chain_def in_window_def event_at_def)
  then show ?thesis
    using fetch_window_exact [OF demo_server.chain_law, of "\<lparr>fc_max_retries = 1, fc_delay = 1, fc_limit = 2\<rparr>"
        "chain_server demo_chain 9" 9 4 6 "[None, Some (plain_error ''ETIMEDOUT'')]"] demo_server.page_law
    by simp
qed

end
