(* ===== verification/Ingestion.thy ===== *)
theory Ingestion
  imports IndexerStore EventFetcher
begin

text \<open>
  \<open>apps/indexer/src/ingestion.ts\<close> with \<open>storage.ts\<close>, \<open>metrics.ts\<close> and \<open>startupHealth.ts\<close>: the polling
  loop that moves a ledger cursor over the chain. \<open>ingest_deps\<close> collects the loop's
  dependencies (fetcher, writer, cursor storage, configuration); \<open>tick_body\<close> is one ingestion
  batch and \<open>loop_event_step\<close> the timers: a tick that fires while another is active is skipped,
  \<open>stop\<close> waits for the active tick. Log output is left out.
\<close>

subsection \<open>Cursor storage\<close>

type_synonym cursor_table = "((string \<times> string) \<times> string option) list"

definition load_cursor :: "string \<Rightarrow> string \<Rightarrow> cursor_table \<Rightarrow> string option" where
  "load_cursor network key tab = (case map_of tab (network, key) of None \<Rightarrow> None | Some v \<Rightarrow> v)"

definition save_cursor :: "string \<Rightarrow> string \<Rightarrow> string \<Rightarrow> cursor_table \<Rightarrow> cursor_table" where
  "save_cursor network key cursor tab = AList.update (network, key) (Some cursor) tab"

lemma load_save_cursor: "load_cursor n k (save_cursor n' k' c tab) = (if n = n' \<and> k = k' then Some c else load_cursor n k tab)"
  by (simp add: load_cursor_def save_cursor_def)

subsection \<open>The startup check\<close>

record startup_health =
  sh_status :: nat
  sh_valid :: bool
  sh_errors :: "string list"

text \<open>\<open>describe\<close> is \<open>JSON.stringify\<close> of the rejected cursor.\<close>

definition check_startup_health :: "(string \<Rightarrow> string) \<Rightarrow> string option \<Rightarrow> string \<Rightarrow> string \<Rightarrow> startup_health" where
  "check_startup_health describe cursor network key =
     (let errors = (if trim network = [] then [''networkId must not be empty''] else []) @
        (if trim key = [] then [''cursorKey must not be empty''] else []) @
        (case cursor of None \<Rightarrow> [] | Some c \<Rightarrow> (case number_of_string c of
            Some x \<Rightarrow> if x < 0 \<or> \<not> is_integer x
              then [''cursor must be a non-negative integer, got: '' @ describe c] else []
          | None \<Rightarrow> [''cursor must be a non-negative integer, got: '' @ describe c]))
      in if errors \<noteq> [] then \<lparr>sh_status = 400, sh_valid = False, sh_errors = errors\<rparr>
         else \<lparr>sh_status = 200, sh_valid = True, sh_errors = []\<rparr>)"

subsection \<open>One batch\<close>

record 'w ingest_deps =
  dp_fetch :: "number \<Rightarrow> number \<Rightarrow> ('w, raw_event list \<times> int) call"
  dp_write :: "keyed_record list \<Rightarrow> ('w, write_result) call"
  dp_save :: "string \<Rightarrow> ('w, unit) call"
  dp_window :: number
  dp_flush_every :: nat
  dp_decode :: decoder
  dp_describe :: "js \<Rightarrow> string"
  dp_sha :: "string \<Rightarrow> string"

record batch_outcome =
  bo_next :: string
  bo_last :: number

definition safe_sequence :: "string option \<Rightarrow> number" where
  "safe_sequence cursor = (case cursor of
     None \<Rightarrow> 0
   | Some c \<Rightarrow> if c = [] then 0 else (case number_of_string c of Some x \<Rightarrow> if 0 \<le> x then x else 0 | None \<Rightarrow> 0))"

text \<open>The records of all parsed events; the first id that is malformed throws.\<close>

definition stamp_records :: "(string \<Rightarrow> string) \<Rightarrow> batch_record list \<Rightarrow> string + keyed_record list" where
  "stamp_records sha rs = fold_res (\<lambda>r acc. res_bind (with_idempotency_key sha r) (\<lambda>k. Inr (acc @ [k]))) rs []"

definition parsed_records :: "(js \<Rightarrow> string) \<Rightarrow> decoder \<Rightarrow> raw_event list \<Rightarrow> batch_record list" where
  "parsed_records describe decode evs =
     map MarketRecord (fst (parse_market_created_events decode evs)) @
     map TradeRecord (fst (parse_trade_events decode evs)) @
     map ResolutionRecord (fst (parse_resolution_events decode evs)) @
     map DepositRecord (fst (parse_collateral_events describe decode evs))"

definition ingest_from_cursor :: "'w ingest_deps \<Rightarrow> string option \<Rightarrow> ('w, batch_outcome) call" where
  "ingest_from_cursor dp cursor =
     (let seq = safe_sequence cursor;
          start = js_add seq 1;
          provisional_end = js_sub (js_add start (dp_window dp)) 1;
          stay = \<lparr>bo_next = (case cursor of None \<Rightarrow> number_string seq | Some c \<Rightarrow> c), bo_last = seq\<rparr>
      in call_bind (dp_fetch dp start provisional_end) (\<lambda>(evs, latest).
           if of_int latest < start then call_return stay
           else (case stamp_records (dp_sha dp) (parsed_records (dp_describe dp) (dp_decode dp) evs) of
               Inl e \<Rightarrow> call_throw e
             | Inr rs \<Rightarrow> call_bind (dp_write dp rs) (\<lambda>res.
                 if wr_errors res \<noteq> [] then call_return stay
                 else let stop = min provisional_end (of_int latest)
                      in call_return \<lparr>bo_next = number_string stop, bo_last = stop\<rparr>))))"

subsection \<open>The loop\<close>

record loop_state =
  ls_cursor :: "string option"
  ls_since_checkpoint :: nat
  ls_since_heartbeat :: nat
  ls_last_heartbeat :: "number option"
  ls_latest :: "number option"
  ls_busy :: bool

definition initial_loop :: loop_state where
  "initial_loop = \<lparr>ls_cursor = None, ls_since_checkpoint = 0, ls_since_heartbeat = 0, ls_last_heartbeat = None,
     ls_latest = None, ls_busy = False\<rparr>"

definition flush_checkpoint :: "'w ingest_deps \<Rightarrow> bool \<Rightarrow> loop_state \<Rightarrow> ('w, loop_state) call" where
  "flush_checkpoint dp force ls =
     (if ls_cursor ls = None \<or> ls_cursor ls = Some [] then call_return ls
      else if \<not> force \<and> ls_since_checkpoint ls < dp_flush_every dp then call_return ls
      else call_bind (dp_save dp (the (ls_cursor ls))) (\<lambda>_. call_return (ls\<lparr>ls_since_checkpoint := 0\<rparr>)))"

definition tick_body :: "'w ingest_deps \<Rightarrow> loop_state \<Rightarrow> 'w \<Rightarrow> loop_state \<times> 'w" where
  "tick_body dp ls w = (case ingest_from_cursor dp (ls_cursor ls) w of
     (Inl _, w') \<Rightarrow> (ls, w')
   | (Inr b, w') \<Rightarrow>
       if bo_next b \<noteq> [] \<and> Some (bo_next b) \<noteq> ls_cursor ls then
         (let ls' = ls\<lparr>ls_cursor := Some (bo_next b), ls_latest := Some (bo_last b),
                       ls_since_checkpoint := ls_since_checkpoint ls + 1,
                       ls_since_heartbeat := ls_since_heartbeat ls + 1\<rparr>
          in (case flush_checkpoint dp False ls' w' of
                (Inl _, w'') \<Rightarrow> (ls', w'') | (Inr ls'', w'') \<Rightarrow> (ls'', w'')))
       else (ls, w'))"

record heartbeat =
  hb_cursor :: "string option"
  hb_latest :: "number option"
  hb_batches :: nat
  hb_delta :: "number option"

definition emit_heartbeat :: "loop_state \<Rightarrow> heartbeat \<times> loop_state" where
  "emit_heartbeat ls =
     (\<lparr>hb_cursor = ls_cursor ls, hb_latest = ls_latest ls, hb_batches = ls_since_heartbeat ls,
       hb_delta = (case (ls_latest ls, ls_last_heartbeat ls) of (Some a, Some b) \<Rightarrow> Some (js_sub a b) | _ \<Rightarrow> None)\<rparr>,
      ls\<lparr>ls_since_heartbeat := 0, ls_last_heartbeat := ls_latest ls\<rparr>)"

text \<open>\<open>start\<close>: the loaded cursor is installed before the first tick.\<close>

definition start_loop :: "string option \<Rightarrow> loop_state \<Rightarrow> loop_state" where
  "start_loop cursor ls = ls\<lparr>ls_cursor := cursor,
     ls_latest := (case cursor of None \<Rightarrow> ls_latest ls
       | Some c \<Rightarrow> if c = [] then ls_latest ls
                  else (case number_of_string c of None \<Rightarrow> ls_latest ls | Some x \<Rightarrow> Some x))\<rparr>"

datatype loop_event = Fire | Complete | Beat | Stopped

definition loop_event_step :: "'w ingest_deps \<Rightarrow> loop_event \<Rightarrow> loop_state \<times> 'w \<Rightarrow> loop_state \<times> 'w" where
  "loop_event_step dp ev s = (case s of (ls, w) \<Rightarrow> (case ev of
     Fire \<Rightarrow> (if ls_busy ls then (ls, w) else (ls\<lparr>ls_busy := True\<rparr>, w))
   | Complete \<Rightarrow> (if ls_busy ls then (case tick_body dp ls w of (ls', w') \<Rightarrow> (ls'\<lparr>ls_busy := False\<rparr>, w')) else (ls, w))
   | Beat \<Rightarrow> (snd (emit_heartbeat ls), w)
   | Stopped \<Rightarrow> (if ls_busy ls then (ls, w)
       else (case flush_checkpoint dp True ls w of (Inl _, w') \<Rightarrow> (ls, w') | (Inr ls', w') \<Rightarrow> (ls', w')))))"

definition run_loop :: "'w ingest_deps \<Rightarrow> loop_event list \<Rightarrow> loop_state \<times> 'w \<Rightarrow> loop_state \<times> 'w" where
  "run_loop dp evs s = fold (loop_event_step dp) evs s"

subsection \<open>The cursor\<close>

lemma safe_sequence_nat: "n < 2 ^ 53 \<Longrightarrow> safe_sequence (Some (nat_string n)) = of_nat n"
proof -
  assume "n < 2 ^ 53"
  then have "fl (of_int (int n)) = of_int (int n)" by (intro fl_of_int) simp
  then show ?thesis
    using number_of_digits [OF all_digits_nat_string [of n]] by (simp add: safe_sequence_def)
qed

lemma window_numbers:
  assumes "n + k + 1 < 2 ^ 53" "0 < k"
  shows "js_add (of_nat n) 1 = of_nat (n + 1)" "js_sub (js_add (of_nat (n + 1)) (of_nat k)) 1 = of_nat (n + k)"
proof -
  have f: "fl (of_nat m) = of_nat m" if "m < 2 ^ 53" for m
    using fl_of_int [of "int m"] that by simp
  have 1: "js_add (of_nat n) 1 = fl (of_nat (n + 1))" by (simp add: js_add_def add.commute)
  have 2: "js_add (of_nat (n + 1)) (of_nat k) = fl (of_nat (n + 1 + k))" by (simp add: js_add_def ac_simps)
  have 3: "js_sub (of_nat (n + 1 + k)) 1 = fl (of_nat (n + k))" by (simp add: js_sub_def)
  have "n + 1 < 2 ^ 53" "n + 1 + k < 2 ^ 53" "n + k < 2 ^ 53" using assms by simp_all
  from this [THEN f] show "js_add (of_nat n) 1 = of_nat (n + 1)"
    "js_sub (js_add (of_nat (n + 1)) (of_nat k)) 1 = of_nat (n + k)" using 1 2 3 by simp_all
qed

lemma flush_checkpoint_frame:
  "flush_checkpoint dp force ls w = (Inr ls', w') \<Longrightarrow> ls_cursor ls' = ls_cursor ls \<and> ls_latest ls' = ls_latest ls \<and>
    ls_busy ls' = ls_busy ls"
  by (auto simp: flush_checkpoint_def elim!: call_bind_cases split: if_splits)

definition cursor_at :: "nat \<Rightarrow> string option \<Rightarrow> bool" where
  "cursor_at n c \<longleftrightarrow> c = Some (nat_string n) \<or> c = None \<and> n = 0"

lemma ingest_cases:
  assumes "n + k + 1 < 2 ^ 53" "0 < k" "dp_window dp = of_nat k" "cursor_at n c"
    and "ingest_from_cursor dp c w = (Inr b, w')"
  shows "b = \<lparr>bo_next = nat_string n, bo_last = of_nat n\<rparr> \<or>
    (\<exists>m evs latest rs res w1. n < m \<and> m \<le> n + k \<and> b = \<lparr>bo_next = nat_string m, bo_last = of_nat m\<rparr> \<and>
       dp_fetch dp (of_nat (n + 1)) (of_nat (n + k)) w = (Inr (evs, latest), w1) \<and> int m = min (int (n + k)) latest \<and>
       stamp_records (dp_sha dp) (parsed_records (dp_describe dp) (dp_decode dp) evs) = Inr rs \<and>
       dp_write dp rs w1 = (Inr res, w') \<and> wr_errors res = [])"
proof -
  have "number_string (of_int 0) = nat_string 0" unfolding number_string_int by (simp add: int_string_def)
  then have seq: "safe_sequence c = of_nat n" "(case c of None \<Rightarrow> number_string (of_nat n) | Some c \<Rightarrow> c) = nat_string n"
    using assms(4) safe_sequence_nat [of n] assms(1) by (auto simp: cursor_at_def safe_sequence_def)
  note wn = window_numbers [OF assms(1,2)]
  let ?stay = "\<lparr>bo_next = nat_string n, bo_last = of_nat n\<rparr>"
  have "call_bind (dp_fetch dp (of_nat (n + 1)) (of_nat (n + k))) (\<lambda>(evs, latest).
           if of_int latest < (of_nat (n + 1) :: number) then call_return ?stay
           else (case stamp_records (dp_sha dp) (parsed_records (dp_describe dp) (dp_decode dp) evs) of
               Inl e \<Rightarrow> call_throw e
             | Inr rs \<Rightarrow> call_bind (dp_write dp rs) (\<lambda>res.
                 if wr_errors res \<noteq> [] then call_return ?stay
                 else let stop = min (of_nat (n + k)) (of_int latest)
                      in call_return \<lparr>bo_next = number_string stop, bo_last = stop\<rparr>))) w = (Inr b, w')"
    using assms(5) unfolding ingest_from_cursor_def seq assms(3) Let_def wn .
  then obtain evs latest w1 where f: "dp_fetch dp (of_nat (n + 1)) (of_nat (n + k)) w = (Inr (evs, latest), w1)"
    and rest: "(if of_int latest < (of_nat (n + 1) :: number) then call_return ?stay
           else (case stamp_records (dp_sha dp) (parsed_records (dp_describe dp) (dp_decode dp) evs) of
               Inl e \<Rightarrow> call_throw e
             | Inr rs \<Rightarrow> call_bind (dp_write dp rs) (\<lambda>res.
                 if wr_errors res \<noteq> [] then call_return ?stay
                 else let stop = min (of_nat (n + k)) (of_int latest)
                      in call_return \<lparr>bo_next = number_string stop, bo_last = stop\<rparr>))) w1 = (Inr b, w')"
    by (rule call_bind_cases) (simp, metis (no_types, lifting) old.prod.case prod.exhaust)
  have lt: "of_int latest < (of_nat (n + 1) :: number) \<longleftrightarrow> latest < int (n + 1)"
    by (metis of_int_less_iff of_int_of_nat_eq)
  show ?thesis
  proof (cases "latest < int (n + 1)")
    case True
    then have "of_int latest < (of_nat (n + 1) :: number)" unfolding lt .
    then show ?thesis using rest by simp
  next
    case False
    then have nl: "\<not> of_int latest < (of_nat (n + 1) :: number)" unfolding lt .
    define m where "m = nat (min (int (n + k)) latest)"
    have m: "int m = min (int (n + k)) latest" "n < m" "m \<le> n + k" using False assms(2) by (auto simp: m_def)
    have "min (of_nat (n + k)) (of_int latest) = (of_int (min (int (n + k)) latest) :: number)"
      by (simp add: min_def)
    then have stop: "min (of_nat (n + k)) (of_int latest) = (of_int (int m) :: number)" by (simp only: m(1))
    have str: "number_string (of_int (int m)) = nat_string m" unfolding number_string_int by (simp add: int_string_def)
    show ?thesis
    proof (cases "stamp_records (dp_sha dp) (parsed_records (dp_describe dp) (dp_decode dp) evs)")
      case (Inl e)
      then show ?thesis using rest nl by simp
    next
      case (Inr rs)
      with rest nl have "call_bind (dp_write dp rs) (\<lambda>res.
                 if wr_errors res \<noteq> [] then call_return \<lparr>bo_next = nat_string n, bo_last = of_nat n\<rparr>
                 else call_return \<lparr>bo_next = nat_string m, bo_last = of_int (int m)\<rparr>) w1 = (Inr b, w')"
        by (simp only: if_False sum.case Let_def stop str)
      then show ?thesis
      proof (cases rule: call_bind_cases)
        case (ok res w2)
        then show ?thesis using m f Inr by (cases "wr_errors res = []") auto
      qed simp
    qed
  qed
qed

lemma tick_cases:
  assumes "n + k + 1 < 2 ^ 53" "0 < k" "dp_window dp = of_nat k" "cursor_at n (ls_cursor ls)"
    and "tick_body dp ls w = (ls', w')" "ls_cursor ls' \<noteq> ls_cursor ls" "ls_cursor ls \<noteq> None"
  obtains m evs latest rs res w1 w2 ls1 r where "n < m" "m \<le> n + k" "ls_cursor ls' = Some (nat_string m)"
    "ls_latest ls' = Some (of_nat m)" "int m = min (int (n + k)) latest"
    "dp_fetch dp (of_nat (n + 1)) (of_nat (n + k)) w = (Inr (evs, latest), w1)"
    "stamp_records (dp_sha dp) (parsed_records (dp_describe dp) (dp_decode dp) evs) = Inr rs"
    "dp_write dp rs w1 = (Inr res, w2)" "wr_errors res = []" "flush_checkpoint dp False ls1 w2 = (r, w')"
proof -
  have c: "ls_cursor ls = Some (nat_string n)" using assms(4,7) by (auto simp: cursor_at_def)
  obtain b w2 ls1 r where b: "ingest_from_cursor dp (ls_cursor ls) w = (Inr b, w2)"
      "ls_cursor ls' = Some (bo_next b)" "ls_latest ls' = Some (bo_last b)"
    and fl: "flush_checkpoint dp False ls1 w2 = (r, w')"
  proof -
    obtain r1 w2 where i: "ingest_from_cursor dp (ls_cursor ls) w = (r1, w2)" by fastforce
    then obtain b where b: "r1 = Inr b" "bo_next b \<noteq> [] \<and> Some (bo_next b) \<noteq> ls_cursor ls"
      using assms(5,6) by (auto simp: tick_body_def split: sum.splits if_splits)
    define ls1 where "ls1 = ls\<lparr>ls_cursor := Some (bo_next b), ls_latest := Some (bo_last b),
        ls_since_checkpoint := ls_since_checkpoint ls + 1, ls_since_heartbeat := ls_since_heartbeat ls + 1\<rparr>"
    obtain r2 w3 where fl: "flush_checkpoint dp False ls1 w2 = (r2, w3)" by fastforce
    have eq: "(case r2 of Inl _ \<Rightarrow> (ls1, w3) | Inr ls2 \<Rightarrow> (ls2, w3)) = (ls', w')"
      using assms(5) b fl by (simp add: tick_body_def i Let_def ls1_def split: sum.splits)
    have "ls_cursor ls' = Some (bo_next b) \<and> ls_latest ls' = Some (bo_last b) \<and> w' = w3"
    proof (cases r2)
      case (Inl e)
      then show ?thesis using eq by (auto simp: ls1_def)
    next
      case (Inr ls2)
      then show ?thesis using eq flush_checkpoint_frame [OF fl [unfolded Inr]] by (auto simp: ls1_def)
    qed
    then show ?thesis using that [OF i [unfolded b(1)]] fl by simp
  qed
  have "b \<noteq> \<lparr>bo_next = nat_string n, bo_last = of_nat n\<rparr>" using assms(6) b(2) c by auto
  with ingest_cases [OF assms(1-4) b(1)] obtain m evs latest rs res w1 where
    m: "n < m" "m \<le> n + k" "b = \<lparr>bo_next = nat_string m, bo_last = of_nat m\<rparr>"
    and d: "dp_fetch dp (of_nat (n + 1)) (of_nat (n + k)) w = (Inr (evs, latest), w1)" "int m = min (int (n + k)) latest"
      "stamp_records (dp_sha dp) (parsed_records (dp_describe dp) (dp_decode dp) evs) = Inr rs"
      "dp_write dp rs w1 = (Inr res, w2)" "wr_errors res = []" by blast
  have "ls_cursor ls' = Some (nat_string m)" "ls_latest ls' = Some (of_nat m)" using b(2,3) m(3) by simp_all
  from that [OF m(1,2) this d(2,1,3,4,5) fl] show ?thesis .
qed

text \<open>The ledger cursor moves only forward, over ledgers that have been written: from cursor n a
  tick either keeps it, or moves it to some m with n < m <= n + window, m being the end of the
  window or the latest ledger, after the events of exactly the ledgers n + 1 .. n + window were
  fetched, all their parsed records stamped and handed to the writer, which reported no error.\<close>
lemma tick_advances_over_written_ledgers:
  assumes "n + k + 1 < 2 ^ 53" "0 < k" "dp_window dp = of_nat k" "ls_cursor ls = Some (nat_string n)"
    and "tick_body dp ls w = (ls', w')"
  shows "ls_cursor ls' = ls_cursor ls \<or>
    (\<exists>m evs latest rs res w1 w2. n < m \<and> m \<le> n + k \<and> ls_cursor ls' = Some (nat_string m) \<and>
       ls_latest ls' = Some (of_nat m) \<and>
       dp_fetch dp (of_nat (n + 1)) (of_nat (n + k)) w = (Inr (evs, latest), w1) \<and> int m = min (int (n + k)) latest \<and>
       stamp_records (dp_sha dp) (parsed_records (dp_describe dp) (dp_decode dp) evs) = Inr rs \<and>
       dp_write dp rs w1 = (Inr res, w2) \<and> wr_errors res = [])"
proof (cases "ls_cursor ls' = ls_cursor ls")
  case False
  have at_n: "cursor_at n (ls_cursor ls)" "ls_cursor ls \<noteq> None" using assms(4) by (simp_all add: cursor_at_def)
  show ?thesis by (rule tick_cases [OF assms(1-3) at_n(1) assms(5) False at_n(2)]) blast
qed simp

subsection \<open>Checkpoints\<close>

text \<open>What the loop needs of its dependencies for its checkpoints: only \<open>saveCursor\<close> touches the saved
  cursor, and no ledger beyond \<open>tip\<close> is announced.\<close>

locale checkpoint_store =
  fixes dp :: "'w ingest_deps" and saved :: "'w \<Rightarrow> string option" and k tip :: nat
  assumes window_law: "dp_window dp = of_nat k" "0 < k" "tip + k + 1 < 2 ^ 53"
    and fetch_law: "dp_fetch dp s e w = (r, w') \<Longrightarrow> saved w' = saved w \<and>
      (\<forall>evs latest. r = Inr (evs, latest) \<longrightarrow> latest \<le> int tip)"
    and write_law: "dp_write dp rs w = (r', w') \<Longrightarrow> saved w' = saved w"
    and save_law: "dp_save dp c w = (r'', w') \<Longrightarrow> saved w' = Some c \<or> r'' \<noteq> Inr () \<and> saved w' = saved w"
begin

text \<open>The saved cursor is at a ledger not beyond that of the loop.\<close>

definition behind :: "loop_state \<times> 'w \<Rightarrow> bool" where
  "behind s \<longleftrightarrow> (\<exists>n m. m \<le> n \<and> n \<le> tip \<and> cursor_at n (ls_cursor (fst s)) \<and> cursor_at m (saved (snd s)))"

lemma behind_cong: "ls_cursor ls' = ls_cursor ls \<Longrightarrow> behind (ls', w) = behind (ls, w)"
  by (simp add: behind_def)

lemma flush_checkpoint_behind:
  assumes "flush_checkpoint dp force ls w = (r, w')" "behind (ls, w)"
  shows "behind (ls, w')" "\<forall>ls'. r = Inr ls' \<longrightarrow> behind (ls', w')"
proof -
  obtain n m where nm: "m \<le> n" "n \<le> tip" "cursor_at n (ls_cursor ls)" "cursor_at m (saved w)"
    using assms(2) by (auto simp: behind_def)
  have "saved w' = saved w \<or> (\<exists>c. ls_cursor ls = Some c \<and> saved w' = Some c)"
    using assms(1) save_law by (fastforce simp: flush_checkpoint_def elim!: call_bind_cases split: if_splits)
  then have "cursor_at m (saved w') \<or> cursor_at n (saved w')" using nm by (auto simp: cursor_at_def)
  then show 1: "behind (ls, w')" using nm unfolding behind_def by auto
  show "\<forall>ls'. r = Inr ls' \<longrightarrow> behind (ls', w')"
    using 1 assms(1) flush_checkpoint_frame [of dp force ls w] behind_cong by blast
qed

definition keeps :: "('w, string, 'a) ecall \<Rightarrow> bool" where
  "keeps c \<longleftrightarrow> (\<forall>w r w'. c w = (r, w') \<longrightarrow> saved w' = saved w)"

lemma keeps_rules:
  "keeps (call_return x)" "keeps (call_throw e)"
  "keeps c \<Longrightarrow> (\<And>x. keeps (f x)) \<Longrightarrow> keeps (call_bind c f)"
  by (auto simp: keeps_def) (metis call_bind_cases)

lemma keeps_deps: "keeps (dp_fetch dp s e)" "keeps (dp_write dp rs)"
  using fetch_law write_law by (auto simp: keeps_def)

lemma ingest_saved:
  assumes "ingest_from_cursor dp c w = (r, w')"
  shows "saved w' = saved w"
proof -
  have "keeps (ingest_from_cursor dp c)"
    unfolding ingest_from_cursor_def Let_def
    by (auto intro!: keeps_rules keeps_deps split: prod.splits sum.splits)
  then show ?thesis using assms by (auto simp: keeps_def)
qed

lemma tick_behind:
  assumes "tick_body dp ls w = (ls', w')" "behind (ls, w)"
  shows "behind (ls', w')"
proof -
  obtain n m where nm: "m \<le> n" "n \<le> tip" "cursor_at n (ls_cursor ls)" "cursor_at m (saved w)"
    using assms(2) by (auto simp: behind_def)
  have bound: "n + k + 1 < 2 ^ 53" using nm(2) window_law(3) by simp
  obtain r w1 where i: "ingest_from_cursor dp (ls_cursor ls) w = (r, w1)" by fastforce
  have s: "saved w1 = saved w" by (rule ingest_saved [OF i])
  have stay: "behind (ls, w1)" using assms(2) s by (simp add: behind_def)
  show ?thesis
  proof (cases "ls' = ls \<and> w' = w1")
    case True
    then show ?thesis using stay by simp
  next
    case False
    then obtain b where b: "r = Inr b" and adv: "bo_next b \<noteq> []" "Some (bo_next b) \<noteq> ls_cursor ls"
      using assms(1) i by (auto simp: tick_body_def split: sum.splits if_splits)
    define ls1 where "ls1 = ls\<lparr>ls_cursor := Some (bo_next b), ls_latest := Some (bo_last b),
        ls_since_checkpoint := ls_since_checkpoint ls + 1, ls_since_heartbeat := ls_since_heartbeat ls + 1\<rparr>"
    obtain n' where n': "n \<le> n'" "n' \<le> tip" "bo_next b = nat_string n'"
      using ingest_cases [OF bound window_law(2,1) nm(3) i [unfolded b]] nm(2) fetch_law
      by (elim disjE exE conjE) (fastforce)+
    have "behind (ls1, w1)" unfolding behind_def
      using n' nm s by (intro exI [of _ n'] exI [of _ m]) (simp add: ls1_def cursor_at_def)
    moreover obtain r2 w2 where fl: "flush_checkpoint dp False ls1 w1 = (r2, w2)" by fastforce
    moreover have "(ls', w') = (case r2 of Inl _ \<Rightarrow> (ls1, w2) | Inr ls2 \<Rightarrow> (ls2, w2))"
      using assms(1) adv fl by (simp add: tick_body_def i b Let_def ls1_def split: sum.splits)
    ultimately show ?thesis
      using flush_checkpoint_behind [OF fl] by (auto split: sum.splits)
  qed
qed

lemma step_behind: "behind s \<Longrightarrow> behind (loop_event_step dp ev s)"
proof -
  assume b: "behind s"
  obtain ls w where s: "s = (ls, w)" by fastforce
  have busy: "behind (ls1\<lparr>ls_busy := x\<rparr>, w1) = behind (ls1, w1)" for ls1 x w1 by (simp add: behind_def)
  have beat: "behind (snd (emit_heartbeat ls), w)" using b s by (simp add: behind_def emit_heartbeat_def)
  show ?thesis
    using b beat busy tick_behind [of ls w] flush_checkpoint_behind [of True ls w]
    by (auto simp: loop_event_step_def s split: loop_event.splits prod.splits sum.splits)
qed

lemma run_behind: "behind s \<Longrightarrow> behind (run_loop dp evs s)"
  unfolding run_loop_def by (induction evs arbitrary: s) (simp_all add: step_behind)

end

subsection \<open>The indexer put together\<close>

text \<open>\<open>main.ts\<close> wires the loop to the event fetcher, the batch writer and the cursor table; the
  server has the events of \<open>chain\<close>, up to ledger \<open>latest\<close>.\<close>

record indexer_world =
  iw_net :: "net_error option list"
  iw_db :: index_tables
  iw_cursors :: cursor_table

record indexer_config =
  ic_network :: string
  ic_key :: string
  ic_fetcher :: fetcher_config
  ic_window :: nat
  ic_flush :: nat

definition indexer_fetch :: "event_response list \<Rightarrow> int \<Rightarrow> indexer_config \<Rightarrow> number \<Rightarrow> number \<Rightarrow>
    (indexer_world, raw_event list \<times> int) call" where
  "indexer_fetch chain latest cfg s e w =
     (case fetch_by_ledger_window (chain_server chain latest) (ic_fetcher cfg) \<lfloor>s\<rfloor> \<lfloor>e\<rfloor> (iw_net w) of
        None \<Rightarrow> (Inl ''does not end'', w)
      | Some (Inl err, n) \<Rightarrow> (Inl (ne_message err), w\<lparr>iw_net := n\<rparr>)
      | Some (Inr x, n) \<Rightarrow> (Inr x, w\<lparr>iw_net := n\<rparr>))"

definition indexer_deps :: "event_response list \<Rightarrow> int \<Rightarrow> decoder \<Rightarrow> (js \<Rightarrow> string) \<Rightarrow> (string \<Rightarrow> string) \<Rightarrow>
    indexer_config \<Rightarrow> indexer_world ingest_deps" where
  "indexer_deps chain latest decode describe sha cfg = \<lparr>
     dp_fetch = indexer_fetch chain latest cfg,
     dp_write = (\<lambda>rs w. case write_batch index_store rs (iw_db w) of (r, db) \<Rightarrow> (r, w\<lparr>iw_db := db\<rparr>)),
     dp_save = (\<lambda>c w. (Inr (), w\<lparr>iw_cursors := save_cursor (ic_network cfg) (ic_key cfg) c (iw_cursors w)\<rparr>)),
     dp_window = of_nat (ic_window cfg), dp_flush_every = ic_flush cfg, dp_decode = decode,
     dp_describe = describe, dp_sha = sha\<rparr>"

definition saved_cursor :: "indexer_config \<Rightarrow> indexer_world \<Rightarrow> string option" where
  "saved_cursor cfg w = load_cursor (ic_network cfg) (ic_key cfg) (iw_cursors w)"

lemma indexer_fetch_exact:
  assumes "well_paged chain" "0 < fc_limit (ic_fetcher cfg)"
    and "indexer_fetch chain latest cfg (of_int s) (of_int e) w = (Inr (evs, l), w')"
  shows "evs = map to_raw_event (filter (in_window s e) chain) \<and> l = latest \<and> iw_db w' = iw_db w"
proof -
  have "event_server (chain_server chain latest) chain latest" by (rule chain_server_law [OF assms(1)])
  from event_server.fetch_window_complete [OF this assms(2), of s e "iw_net w"] assms(3)
  show ?thesis by (auto simp: indexer_fetch_def split: sum.splits)
qed

lemma indexer_deps_law:
  assumes "well_paged chain" "0 < fc_limit (ic_fetcher cfg)" "0 < ic_window cfg" "tip + ic_window cfg + 1 < 2 ^ 53"
  shows "checkpoint_store (indexer_deps chain (int tip) decode describe sha cfg) (saved_cursor cfg) (ic_window cfg) tip"
proof
  fix s e w r w'
  assume f: "dp_fetch (indexer_deps chain (int tip) decode describe sha cfg) s e w = (r, w')"
  have "event_server (chain_server chain (int tip)) chain (int tip)" by (rule chain_server_law [OF assms(1)])
  from event_server.fetch_window_complete [OF this assms(2), of "\<lfloor>s\<rfloor>" "\<lfloor>e\<rfloor>" "iw_net w"] f
  show "saved_cursor cfg w' = saved_cursor cfg w \<and> (\<forall>evs latest. r = Inr (evs, latest) \<longrightarrow> latest \<le> int tip)"
    by (auto simp: indexer_deps_def indexer_fetch_def saved_cursor_def split: sum.splits)
qed (use assms in \<open>auto simp: indexer_deps_def saved_cursor_def load_save_cursor split: prod.splits\<close>)

definition demo_config :: indexer_config where
  "demo_config = \<lparr>ic_network = ''testnet'', ic_key = ''k'',
     ic_fetcher = \<lparr>fc_max_retries = 3, fc_delay = 500, fc_limit = 2\<rparr>, ic_window = 5, ic_flush = 1\<rparr>"

definition trade_at :: "int \<Rightarrow> string \<Rightarrow> event_response" where
  "trade_at l i = \<lparr>er_id = i, er_ledger = l, er_closed = [], er_contract = ''K'', er_type = ''contract'',
     er_paging = Some i, er_value = ''v'', er_topics = [''t'']\<rparr>"

definition trade_chain :: "event_response list" where
  "trade_chain = [trade_at 3 ''3-1-1'', trade_at 5 ''5-1-1'', trade_at 5 ''5-2-1'', trade_at 9 ''9-1-1'']"

definition demo_deps :: "indexer_world ingest_deps" where
  "demo_deps = indexer_deps trade_chain (int 7) demo_decode js_string (\<lambda>s. s) demo_config"

definition demo_world :: indexer_world where
  "demo_world = \<lparr>iw_net = [], iw_db = empty_index [''7''], iw_cursors = []\<rparr>"

definition demo_loop :: loop_state where
  "demo_loop = initial_loop\<lparr>ls_cursor := Some (nat_string 2)\<rparr>"

lemma well_paged_trade_chain: "well_paged trade_chain"
  by (simp add: trade_chain_def trade_at_def well_paged_def)

interpretation demo_checkpoints: checkpoint_store demo_deps "saved_cursor demo_config" "ic_window demo_config" 7
  unfolding demo_deps_def
  by (rule indexer_deps_law [OF well_paged_trade_chain]) (simp_all add: demo_config_def)

lemma tick_advances_over_written_ledgers_witness:
  "\<exists>m evs latest rs res w1 w2. 2 < m \<and> m \<le> 7 \<and> nat_string m = ''7'' \<and>
     dp_fetch demo_deps 3 7 demo_world = (Inr (evs, latest), w1) \<and> dp_write demo_deps rs w1 = (Inr res, w2) \<and>
     wr_errors res = []"
proof -
  have c: "ls_cursor (fst (tick_body demo_deps demo_loop demo_world)) = Some ''7''" by code_simp
  have w: "dp_window demo_deps = of_nat 5" by (simp add: demo_deps_def indexer_deps_def demo_config_def)
  have l: "ls_cursor demo_loop = Some (nat_string 2)" "Some (nat_string 2) \<noteq> Some ''7''"
    by (simp add: demo_loop_def) code_simp
  have "(tick_body demo_deps demo_loop demo_world) =
      (fst (tick_body demo_deps demo_loop demo_world), snd (tick_body demo_deps demo_loop demo_world))" by simp
  from tick_advances_over_written_ledgers [OF _ _ w l(1) this] c l
  obtain m evs latest rs res w1 w2 where r: "2 < m" "m \<le> 2 + 5" "nat_string m = ''7''"
    "dp_fetch demo_deps (of_nat (2 + 1)) (of_nat (2 + 5)) demo_world = (Inr (evs, latest), w1)"
    "dp_write demo_deps rs w1 = (Inr res, w2)" "wr_errors res = []" by auto
  from r show ?thesis by (intro exI conjI) simp_all
qed

text \<open>C12: one tick of the assembled indexer that moves the cursor from n to m stamps exactly the parsed
  records of the chain's events in ledgers n + 1 .. m, once each, and either all of their keys
  are added to the processed events or (the transaction having been aborted behind the writer's
  back) the tables are unchanged.\<close>
theorem indexer_tick_exact:
  assumes "well_paged chain" "0 < fc_limit (ic_fetcher cfg)" "0 < ic_window cfg" "n + ic_window cfg + 1 < 2 ^ 53"
    and "\<forall>e \<in> set chain. er_ledger e \<le> latest" "\<not> ix_aborted (iw_db w)" "ls_cursor ls = Some (nat_string n)"
    and "tick_body (indexer_deps chain latest decode describe sha cfg) ls w = (ls', w')"
    and "ls_cursor ls' \<noteq> ls_cursor ls"
  shows "\<exists>m rs. n < m \<and> m \<le> n + ic_window cfg \<and> ls_cursor ls' = Some (nat_string m) \<and>
    stamp_records sha (parsed_records describe decode
      (map to_raw_event (filter (in_window (int n + 1) (int m)) chain))) = Inr rs \<and>
    (iw_db w' = iw_db w \<or> processed_keys (iw_db w') = processed_keys (iw_db w) \<union> fst ` set rs)"
proof -
  let ?dp = "indexer_deps chain latest decode describe sha cfg" and ?k = "ic_window cfg"
  have win: "dp_window ?dp = of_nat ?k" by (simp add: indexer_deps_def)
  have at_n: "cursor_at n (ls_cursor ls)" "ls_cursor ls \<noteq> None" using assms(7) by (simp_all add: cursor_at_def)
  show ?thesis
  proof (rule tick_cases [OF assms(4,3) win at_n(1) assms(8,9) at_n(2)])
    fix m evs l rs res w1 w2 ls1 r
    assume m: "n < m" "m \<le> n + ?k" "ls_cursor ls' = Some (nat_string m)" "int m = min (int (n + ?k)) l"
      and f: "dp_fetch ?dp (of_nat (n + 1)) (of_nat (n + ?k)) w = (Inr (evs, l), w1)"
      and rs: "stamp_records (dp_sha ?dp) (parsed_records (dp_describe ?dp) (dp_decode ?dp) evs) = Inr rs"
      and wr: "dp_write ?dp rs w1 = (Inr res, w2)" "wr_errors res = []"
      and fl: "flush_checkpoint ?dp False ls1 w2 = (r, w')"
    have "indexer_fetch chain latest cfg (of_int (int (n + 1))) (of_int (int (n + ?k))) w = (Inr (evs, l), w1)"
      using f by (simp add: indexer_deps_def)
    from indexer_fetch_exact [OF assms(1,2) this]
    have e: "evs = map to_raw_event (filter (in_window (int n + 1) (int (n + ?k))) chain)" "l = latest"
      "iw_db w1 = iw_db w" by (simp_all add: add.commute)
    have "in_window (int n + 1) (int (n + ?k)) x = in_window (int n + 1) (int m) x" if "x \<in> set chain" for x
      using assms(5) that m(4) e(2) by (auto simp: in_window_def)
    then have "filter (in_window (int n + 1) (int (n + ?k))) chain = filter (in_window (int n + 1) (int m)) chain"
      by (rule filter_cong [OF refl])
    then have r: "stamp_records sha (parsed_records describe decode
        (map to_raw_event (filter (in_window (int n + 1) (int m)) chain))) = Inr rs"
      using rs e(1) by (simp add: indexer_deps_def)
    have d: "iw_db w' = iw_db w2" using fl
      by (auto simp: flush_checkpoint_def indexer_deps_def elim!: call_bind_cases split: if_splits)
    obtain db2 where b: "write_batch index_store rs (iw_db w) = (Inr res, db2)" "iw_db w2 = db2"
      using wr(1) e(3) by (auto simp: indexer_deps_def split: prod.splits)
    have "iw_db w' = iw_db w \<or> processed_keys (iw_db w') = processed_keys (iw_db w) \<union> fst ` set rs"
      using index_laws.write_atomic [OF assms(6) b(1)] b(2) d by auto
    with m(1-3) r show ?thesis by blast
  qed
qed

theorem indexer_tick_exact_witness:
  "\<exists>rs. stamp_records (\<lambda>s. s) (parsed_records js_string demo_decode
      (map to_raw_event [trade_at 3 ''3-1-1'', trade_at 5 ''5-1-1'', trade_at 5 ''5-2-1''])) = Inr rs \<and>
    (iw_db (snd (tick_body (indexer_deps (butlast trade_chain) 7 demo_decode js_string (\<lambda>s. s) demo_config)
       demo_loop demo_world)) = iw_db demo_world \<or>
     processed_keys (iw_db (snd (tick_body (indexer_deps (butlast trade_chain) 7 demo_decode js_string (\<lambda>s. s)
       demo_config) demo_loop demo_world))) = processed_keys (iw_db demo_world) \<union> fst ` set rs)"
proof -
  let ?dp = "indexer_deps (butlast trade_chain) 7 demo_decode js_string (\<lambda>s. s) demo_config"
  let ?t = "tick_body ?dp demo_loop demo_world"
  have c: "ls_cursor (fst ?t) = Some ''7''" by code_simp
  have d: "ls_cursor demo_loop = Some (nat_string 2)" "Some ''7'' \<noteq> Some (nat_string 2)" "nat_string 7 = ''7''"
    by (simp_all add: demo_loop_def) code_simp+
  have h: "well_paged (butlast trade_chain)" "0 < fc_limit (ic_fetcher demo_config)" "0 < ic_window demo_config"
    "2 + ic_window demo_config + 1 < 2 ^ 53" "\<forall>e \<in> set (butlast trade_chain). er_ledger e \<le> 7"
    "\<not> ix_aborted (iw_db demo_world)"
    by (simp_all add: trade_chain_def trade_at_def well_paged_def demo_config_def demo_world_def empty_index_def)
  have "?t = (fst ?t, snd ?t)" by simp
  from indexer_tick_exact [OF h d(1) this] c d(2)
  obtain m rs where m: "ls_cursor (fst ?t) = Some (nat_string m)"
    "stamp_records (\<lambda>s. s) (parsed_records js_string demo_decode
      (map to_raw_event (filter (in_window (int 2 + 1) (int m)) (butlast trade_chain)))) = Inr rs"
    "iw_db (snd ?t) = iw_db demo_world \<or> processed_keys (iw_db (snd ?t)) = processed_keys (iw_db demo_world) \<union> fst ` set rs"
    by (metis d(1))
  have "nat_string m = nat_string 7" using m(1) c d(3) by simp
  then have "m = 7" by simp
  then have "filter (in_window (int 2 + 1) (int m)) (butlast trade_chain) =
      [trade_at 3 ''3-1-1'', trade_at 5 ''5-1-1'', trade_at 5 ''5-2-1'']"
    by (simp add: trade_chain_def trade_at_def in_window_def)
  with m(2,3) show ?thesis by auto
qed

text \<open>C15: whatever the order of timer ticks, completions, heartbeats and stops, the persisted checkpoint
  never runs ahead of the loop's cursor, so a restart from it skips no ledger; a stop with no
  active tick persists exactly the cursor.\<close>
theorem checkpoint_never_ahead:
  assumes "well_paged chain" "0 < fc_limit (ic_fetcher cfg)" "0 < ic_window cfg" "tip + ic_window cfg + 1 < 2 ^ 53"
    and "saved_cursor cfg w = None \<or> (\<exists>n \<le> tip. saved_cursor cfg w = Some (nat_string n))"
    and "run_loop (indexer_deps chain (int tip) decode describe sha cfg) evs
      (start_loop (saved_cursor cfg w) initial_loop, w) = (ls', w')"
  shows "safe_sequence (saved_cursor cfg w') \<le> safe_sequence (ls_cursor ls') \<and>
    (\<not> ls_busy ls' \<longrightarrow> ls_cursor ls' \<noteq> None \<longrightarrow>
       saved_cursor cfg (snd (loop_event_step (indexer_deps chain (int tip) decode describe sha cfg) Stopped (ls', w')))
         = ls_cursor ls')"
proof -
  let ?dp = "indexer_deps chain (int tip) decode describe sha cfg"
  have cs: "checkpoint_store ?dp (saved_cursor cfg) (ic_window cfg) tip" by (rule indexer_deps_law [OF assms(1-4)])
  have "\<exists>n \<le> tip. cursor_at n (saved_cursor cfg w)" using assms(5) by (auto simp: cursor_at_def)
  then have "checkpoint_store.behind (saved_cursor cfg) tip (start_loop (saved_cursor cfg w) initial_loop, w)"
    by (auto simp: checkpoint_store.behind_def [OF cs] start_loop_def)
  from checkpoint_store.run_behind [OF cs this, of evs]
  have "checkpoint_store.behind (saved_cursor cfg) tip (ls', w')" unfolding assms(6) .
  then obtain n m where nm: "m \<le> n" "n \<le> tip" "cursor_at n (ls_cursor ls')" "cursor_at m (saved_cursor cfg w')"
    by (auto simp: checkpoint_store.behind_def [OF cs])
  have seq: "safe_sequence c = of_nat i" if "cursor_at i c" "i \<le> tip" for i c
    using that safe_sequence_nat [of i] assms(4) by (auto simp: cursor_at_def safe_sequence_def)
  have "safe_sequence (saved_cursor cfg w') \<le> safe_sequence (ls_cursor ls')"
    using seq [OF nm(3,2)] seq [OF nm(4)] nm(1,2) by simp
  moreover have "saved_cursor cfg (snd (loop_event_step ?dp Stopped (ls', w'))) = ls_cursor ls'"
    if "\<not> ls_busy ls'" "ls_cursor ls' \<noteq> None"
    using that nm(3) by (auto simp: loop_event_step_def flush_checkpoint_def cursor_at_def call_bind_def call_return_def
        indexer_deps_def saved_cursor_def load_save_cursor)
  ultimately show ?thesis by blast
qed

theorem checkpoint_never_ahead_witness:
  "safe_sequence (saved_cursor demo_config (snd (run_loop demo_deps [Fire, Fire, Complete, Beat, Complete]
      (start_loop (saved_cursor demo_config demo_world) initial_loop, demo_world)))) \<le>
   safe_sequence (ls_cursor (fst (run_loop demo_deps [Fire, Fire, Complete, Beat, Complete]
      (start_loop (saved_cursor demo_config demo_world) initial_loop, demo_world))))"
proof -
  let ?r = "run_loop demo_deps [Fire, Fire, Complete, Beat, Complete]
      (start_loop (saved_cursor demo_config demo_world) initial_loop, demo_world)"
  have s: "saved_cursor demo_config demo_world = None" by (simp add: saved_cursor_def load_cursor_def demo_world_def)
  have h: "0 < fc_limit (ic_fetcher demo_config)" "0 < ic_window demo_config" "7 + ic_window demo_config + 1 < 2 ^ 53"
    by (simp_all add: demo_config_def)
  have "?r = (fst ?r, snd ?r)" by simp
  from checkpoint_never_ahead [OF well_paged_trade_chain h _ this [unfolded demo_deps_def]] s
  show ?thesis by (simp add: demo_deps_def)
qed

text \<open>One malformed event id stops ingestion: as long as the window contains an event that parses as
  a trade but whose id is not three numbers joined by dashes, stamping throws before the batch
  is written and every tick leaves the loop where it was.\<close>
lemma malformed_id_blocks_ingestion:
  assumes "dp_fetch dp (js_add (safe_sequence (ls_cursor ls)) 1)
      (js_sub (js_add (js_add (safe_sequence (ls_cursor ls)) 1) (dp_window dp)) 1) w = (Inr (evs, latest), w1)"
    and "js_add (safe_sequence (ls_cursor ls)) 1 \<le> of_int latest"
    and "t \<in> set (fst (parse_trade_events (dp_decode dp) evs))" "parse_event_id (nt_event t) = Inl e"
  shows "tick_body dp ls w = (ls, w1)"
proof -
  have "\<exists>e. fold_res (\<lambda>r acc. res_bind (with_idempotency_key sha r) (\<lambda>k. Inr (acc @ [k]))) rs acc = Inl e"
    if "TradeRecord t \<in> set rs" for rs acc and sha :: "string \<Rightarrow> string"
    using that assms(4)
    by (induction rs arbitrary: acc)
       (auto simp: with_idempotency_key_def generate_idempotency_key_def record_event_def split: sum.splits)
  moreover have "TradeRecord t \<in> set (parsed_records (dp_describe dp) (dp_decode dp) evs)"
    using assms(3) by (simp add: parsed_records_def)
  ultimately obtain e' where "stamp_records (dp_sha dp) (parsed_records (dp_describe dp) (dp_decode dp) evs) = Inl e'"
    unfolding stamp_records_def by blast
  then show ?thesis
    using assms(1,2) by (simp add: tick_body_def ingest_from_cursor_def Let_def call_bind_def call_throw_def call_return_def)
qed

lemma malformed_id_blocks_ingestion_witness:
  "tick_body (indexer_deps [trade_at 3 ''3-1''] 7 demo_decode js_string (\<lambda>s. s) demo_config) demo_loop demo_world =
     (demo_loop, demo_world)"
proof (rule malformed_id_blocks_ingestion)
  show "parse_event_id (nt_event (demo_trade\<lparr>nt_event := ''3-1'', nt_ledger := 3, nt_closed := []\<rparr>)) =
      Inl (''Invalid Stellar event id format: \"3-1\".'')" by code_simp
  show "js_add (safe_sequence (ls_cursor demo_loop)) 1 \<le> of_int 7" by code_simp
  show "dp_fetch (indexer_deps [trade_at 3 ''3-1''] 7 demo_decode js_string (\<lambda>s. s) demo_config)
      (js_add (safe_sequence (ls_cursor demo_loop)) 1) (js_sub (js_add (js_add (safe_sequence (ls_cursor demo_loop)) 1)
        (dp_window (indexer_deps [trade_at 3 ''3-1''] 7 demo_decode js_string (\<lambda>s. s) demo_config))) 1) demo_world =
      (Inr ([to_raw_event (trade_at 3 ''3-1'')], 7), demo_world)" by code_simp
  show "demo_trade\<lparr>nt_event := ''3-1'', nt_ledger := 3, nt_closed := []\<rparr> \<in>
      set (fst (parse_trade_events (dp_decode (indexer_deps [trade_at 3 ''3-1''] 7 demo_decode js_string (\<lambda>s. s) demo_config))
        [to_raw_event (trade_at 3 ''3-1'')]))" by code_simp
qed

end
