(* ===== verification/OracleProviders.thy ===== *)
theory OracleProviders
  imports BoundedRetry JsValue
begin

text \<open>
  \<open>apps/oracle\<close>: calling a resolution provider (\<open>retry-utils.ts\<close>, \<open>timeout-utils.ts\<close>,
  \<open>primary-adapter.ts\<close>, \<open>fallback-adapter.ts\<close>). The world has a clock in milliseconds, which the
  HTTP client and the sleeps advance; the HTTP client is an argument \<open>http\<close>. A timed operation
  that the clock shows to have taken the timeout or longer is aborted at the timeout.
  \<open>random\<close> gives \<open>Math.random()\<close> of each retry, \<open>now\<close> is \<open>new Date().toISOString()\<close>.
\<close>

datatype error_kind = NotAnError | ErrorNamed string | ProviderFailure string

record oracle_error =
  oe_kind :: error_kind
  oe_message :: string

definition js_error :: "string \<Rightarrow> oracle_error" where
  "js_error msg = \<lparr>oe_kind = ErrorNamed ''Error'', oe_message = msg\<rparr>"

definition type_error :: "string \<Rightarrow> oracle_error" where
  "type_error msg = \<lparr>oe_kind = ErrorNamed ''TypeError'', oe_message = msg\<rparr>"

type_synonym 'w timed = "number \<times> 'w"
type_synonym ('w, 'a) oracle_call = "('w timed, oracle_error, 'a) ecall"

definition advance :: "number \<Rightarrow> 'w timed \<Rightarrow> 'w timed" where
  "advance ms w = (fst w + ms, snd w)"

subsection \<open>Retries\<close>

record retry_config =
  rc_max_retries :: nat
  rc_initial_delay :: number
  rc_max_delay :: number
  rc_factor :: number
  rc_jitter :: bool

record partial_retry_config =
  pc_max_retries :: "nat option"
  pc_initial_delay :: "number option"
  pc_max_delay :: "number option"
  pc_factor :: "number option"
  pc_jitter :: "bool option"

definition no_retry_config :: partial_retry_config where
  "no_retry_config = \<lparr>pc_max_retries = None, pc_initial_delay = None, pc_max_delay = None, pc_factor = None,
     pc_jitter = None\<rparr>"

definition zero_retries :: partial_retry_config where
  "zero_retries = no_retry_config\<lparr>pc_max_retries := Some 0\<rparr>"

definition DEFAULT_RETRY_CONFIG :: retry_config where
  "DEFAULT_RETRY_CONFIG = \<lparr>rc_max_retries = 3, rc_initial_delay = 1000, rc_max_delay = 10000, rc_factor = 2,
     rc_jitter = True\<rparr>"

definition or_else :: "'a option \<Rightarrow> 'a \<Rightarrow> 'a" where
  "or_else x d = (case x of None \<Rightarrow> d | Some y \<Rightarrow> y)"

text \<open>Object spread: the fields that are present win.\<close>

definition with_defaults :: "partial_retry_config \<Rightarrow> retry_config" where
  "with_defaults c = \<lparr>rc_max_retries = or_else (pc_max_retries c) (rc_max_retries DEFAULT_RETRY_CONFIG),
     rc_initial_delay = or_else (pc_initial_delay c) (rc_initial_delay DEFAULT_RETRY_CONFIG),
     rc_max_delay = or_else (pc_max_delay c) (rc_max_delay DEFAULT_RETRY_CONFIG),
     rc_factor = or_else (pc_factor c) (rc_factor DEFAULT_RETRY_CONFIG),
     rc_jitter = or_else (pc_jitter c) (rc_jitter DEFAULT_RETRY_CONFIG)\<rparr>"

definition first_some :: "'a option \<Rightarrow> 'a option \<Rightarrow> 'a option" where
  "first_some x y = (case x of None \<Rightarrow> y | Some _ \<Rightarrow> x)"

definition override_config :: "partial_retry_config \<Rightarrow> partial_retry_config \<Rightarrow> partial_retry_config" where
  "override_config base over = \<lparr>pc_max_retries = first_some (pc_max_retries over) (pc_max_retries base),
     pc_initial_delay = first_some (pc_initial_delay over) (pc_initial_delay base),
     pc_max_delay = first_some (pc_max_delay over) (pc_max_delay base),
     pc_factor = first_some (pc_factor over) (pc_factor base),
     pc_jitter = first_some (pc_jitter over) (pc_jitter base)\<rparr>"

definition is_retryable_error :: "oracle_error \<Rightarrow> bool" where
  "is_retryable_error e \<longleftrightarrow> oe_kind e = NotAnError \<or>
     (let m = to_lower (oe_message e)
      in \<not> (contains ''400'' m \<or> contains ''401'' m \<or> contains ''403'' m \<or> contains ''404'' m \<or>
             contains ''bad request'' m \<or> contains ''invalid'' m))"

definition backoff_delay :: "(nat \<Rightarrow> number) \<Rightarrow> retry_config \<Rightarrow> nat \<Rightarrow> number" where
  "backoff_delay random c attempt =
     (let d = min (js_mul (rc_initial_delay c) (fl (rc_factor c ^ attempt))) (rc_max_delay c)
      in if rc_jitter c then max 0 (js_add d (js_mul (js_sub (js_mul (random attempt) (fl (2 / 5))) (fl (1 / 5))) d)) else d)"

definition with_backoff :: "(nat \<Rightarrow> number) \<Rightarrow> ('w, 'a) oracle_call \<Rightarrow> partial_retry_config \<Rightarrow> 'w timed \<Rightarrow>
    (oracle_error + 'a) \<times> 'w timed \<times> number list" where
  "with_backoff random f cfg w =
     bounded_retry is_retryable_error (backoff_delay random (with_defaults cfg)) advance
       \<lparr>oe_kind = NotAnError, oe_message = ''undefined''\<rparr> f (rc_max_retries (with_defaults cfg)) 0 w"

subsection \<open>Timeouts\<close>

definition MIN_TIMEOUT_MS :: number where "MIN_TIMEOUT_MS = 1000"
definition MAX_TIMEOUT_MS :: number where "MAX_TIMEOUT_MS = 300000"
definition DEFAULT_TIMEOUT_MS :: number where "DEFAULT_TIMEOUT_MS = 30000"

definition validate_timeout :: "js \<Rightarrow> oracle_error + number" where
  "validate_timeout v = (case v of
     Num x \<Rightarrow> if x < MIN_TIMEOUT_MS then Inr MIN_TIMEOUT_MS
       else if MAX_TIMEOUT_MS < x then Inr MAX_TIMEOUT_MS else Inr x
   | _ \<Rightarrow> Inl \<lparr>oe_kind = ErrorNamed ''TimeoutValidationError'', oe_message = ''Invalid timeout value: '' @ js_string v\<rparr>)"

record 'a timed_result =
  tr_value :: "'a option"
  tr_timed_out :: bool
  tr_duration :: number
  tr_error :: "oracle_error option"

definition as_error :: "oracle_error \<Rightarrow> oracle_error" where
  "as_error e = (if oe_kind e = NotAnError then js_error (oe_message e) else e)"

text \<open>The race of the operation and the abort signal, and the classification of what it threw.\<close>

definition with_timeout :: "('w, 'a) oracle_call \<Rightarrow> js \<Rightarrow> string option \<Rightarrow> ('w, 'a timed_result) oracle_call" where
  "with_timeout op timeout message w = (case validate_timeout timeout of
     Inl e \<Rightarrow> (Inl e, w)
   | Inr t \<Rightarrow>
       (case op w of (r, w') \<Rightarrow>
         (let late = t \<le> fst w' - fst w;
              w'' = (if late then (fst w + t, snd w') else w');
              r' = (if late then Inl (js_error (or_else message (''Operation timed out after '' @ js_string timeout @ ''ms'')))
                    else r)
          in (case r' of
                Inr x \<Rightarrow> (Inr \<lparr>tr_value = Some x, tr_timed_out = False, tr_duration = fst w'' - fst w, tr_error = None\<rparr>, w'')
              | Inl e \<Rightarrow> (Inr \<lparr>tr_value = None,
                    tr_timed_out = (oe_kind e \<noteq> NotAnError \<and>
                      (contains ''timed out'' (oe_message e) \<or> contains ''abort'' (oe_message e) \<or>
                       Some (oe_message e) = message)),
                    tr_duration = fst w'' - fst w, tr_error = Some (as_error e)\<rparr>, w'')))))"

subsection \<open>Requests and answers\<close>

record resolution_request =
  rq_market :: string
  rq_oracle :: string
  rq_timeout :: "number option"
  rq_retry :: "partial_retry_config option"

record provider_result =
  pv_outcome :: bool
  pv_confidence :: js
  pv_method :: string
  pv_source :: string
  pv_timestamp :: js
  pv_metadata :: "(string \<times> js) list"
  pv_signature :: "string option"
  pv_public_key :: "string option"

record http_request =
  hq_base :: string
  hq_path :: string
  hq_query :: "(string \<times> string) list"
  hq_headers :: "(string \<times> string) list"

record http_response =
  hr_status :: nat
  hr_json :: "oracle_error + js"

type_synonym 'w http_client = "http_request \<Rightarrow> ('w, http_response) oracle_call"

definition response_ok :: "http_response \<Rightarrow> bool" where
  "response_ok r \<longleftrightarrow> 200 \<le> hr_status r \<and> hr_status r \<le> 299"

text \<open>\<open>v.key\<close>; null and undefined have no properties.\<close>

definition js_member :: "js \<Rightarrow> string \<Rightarrow> oracle_error + js" where
  "js_member v key = (case v of
     Null \<Rightarrow> Inl (type_error (''Cannot read properties of null (reading '' @ key @ '')''))
   | Undefined \<Rightarrow> Inl (type_error (''Cannot read properties of undefined (reading '' @ key @ '')''))
   | Obj ps \<Rightarrow> Inr (get_prop key ps)
   | _ \<Rightarrow> Inr Undefined)"

text \<open>The properties that \<open>...v\<close> copies.\<close>

definition spread_props :: "js \<Rightarrow> (string \<times> js) list" where
  "spread_props v = (case v of
     Obj ps \<Rightarrow> ps
   | Arr vs \<Rightarrow> map (\<lambda>(i, x). (nat_string i, x)) (List.enumerate 0 vs)
   | Str s \<Rightarrow> map (\<lambda>(i, c). (nat_string i, Str [c])) (List.enumerate 0 s)
   | Bytes bs \<Rightarrow> map (\<lambda>(i, b). (nat_string i, Num (of_nat b))) (List.enumerate 0 bs)
   | _ \<Rightarrow> [])"

definition spread_onto :: "(string \<times> js) list \<Rightarrow> js \<Rightarrow> (string \<times> js) list" where
  "spread_onto ps v = fold (\<lambda>(k, x) m. AList.update k x m) (spread_props v) ps"

definition confidence_ok :: "js \<Rightarrow> bool" where
  "confidence_ok c = (case c of Num x \<Rightarrow> 0 \<le> x \<and> x \<le> 1 | NaN \<Rightarrow> True | _ \<Rightarrow> False)"

text \<open>The answer of a provider: \<open>source\<close> names it, \<open>bad_status\<close> and \<open>bad_answer\<close> are its errors.\<close>

definition read_provider_answer :: "string \<Rightarrow> string \<Rightarrow> string \<Rightarrow> string \<Rightarrow> (nat \<Rightarrow> oracle_error) \<Rightarrow> oracle_error \<Rightarrow>
    http_response \<Rightarrow> oracle_error + provider_result" where
  "read_provider_answer now market source method bad_status bad_answer response =
     (if \<not> response_ok response then Inl (bad_status (hr_status response))
      else res_bind (hr_json response) (\<lambda>payload.
        res_bind (js_member payload ''outcome'') (\<lambda>oc.
        res_bind (js_member payload ''confidence'') (\<lambda>confidence.
        res_bind (js_member payload ''timestamp'') (\<lambda>ts.
        res_bind (js_member payload ''metadata'') (\<lambda>metadata.
          case oc of
            Bool b \<Rightarrow>
              if \<not> confidence_ok confidence then Inl bad_answer
              else Inr \<lparr>pv_outcome = b, pv_confidence = confidence, pv_method = method, pv_source = source,
                pv_timestamp = (if nullish ts then Str now else ts),
                pv_metadata = spread_onto [(''provider'', Str source), (''marketId'', Str market)] metadata,
                pv_signature = None, pv_public_key = None\<rparr>
          | _ \<Rightarrow> Inl bad_answer))))))"

definition provider_headers :: "string option \<Rightarrow> (string \<times> string) list" where
  "provider_headers key = (''Accept'', ''application/json'') #
     (case key of None \<Rightarrow> [] | Some k \<Rightarrow> if k = [] then [] else [(''Authorization'', ''Bearer '' @ k)])"

definition resolve_query :: "resolution_request \<Rightarrow> (string \<times> string) list" where
  "resolve_query rq = [(''marketId'', rq_market rq), (''oracleAddress'', rq_oracle rq)]"

definition map_status :: "nat \<Rightarrow> string" where
  "map_status status = (if status = 401 \<or> status = 403 then ''AUTHENTICATION'' else if status = 404 then ''NOT_FOUND''
     else if status = 429 then ''RATE_LIMIT'' else ''UPSTREAM'')"

subsection \<open>The primary provider\<close>

record primary_config =
  pa_base :: string
  pa_key :: "string option"
  pa_timeout :: number
  pa_retry :: partial_retry_config

definition primary_adapter :: "string \<Rightarrow> primary_config" where
  "primary_adapter base = \<lparr>pa_base = base, pa_key = None, pa_timeout = DEFAULT_TIMEOUT_MS, pa_retry = zero_retries\<rparr>"

definition primary_error :: "string \<Rightarrow> string \<Rightarrow> oracle_error" where
  "primary_error type msg = \<lparr>oe_kind = ProviderFailure type, oe_message = msg\<rparr>"

definition primary_fetch :: "'w http_client \<Rightarrow> string \<Rightarrow> primary_config \<Rightarrow> resolution_request \<Rightarrow>
    ('w, provider_result) oracle_call" where
  "primary_fetch http now cfg rq = call_bind
     (http \<lparr>hq_base = pa_base cfg, hq_path = ''/resolve'', hq_query = resolve_query rq, hq_headers = provider_headers (pa_key cfg)\<rparr>)
     (\<lambda>response. case read_provider_answer now (rq_market rq) ''primary'' ''primary-provider''
          (\<lambda>s. primary_error (map_status s) (''Primary provider returned HTTP '' @ nat_string s))
          (primary_error ''INVALID_RESPONSE'' ''Primary provider response is missing a valid outcome or confidence'')
          response of
        Inl e \<Rightarrow> call_throw e | Inr r \<Rightarrow> call_return r)"

definition map_provider_error :: "oracle_error \<Rightarrow> oracle_error" where
  "map_provider_error e = (case oe_kind e of
     ProviderFailure _ \<Rightarrow> e
   | k \<Rightarrow> if k = ErrorNamed ''AbortError'' \<or> contains ''timed out'' (oe_message e)
       then primary_error ''TIMEOUT'' (oe_message e) else primary_error ''UPSTREAM'' (oe_message e))"

definition primary_attempt :: "'w http_client \<Rightarrow> string \<Rightarrow> primary_config \<Rightarrow> number \<Rightarrow> resolution_request \<Rightarrow>
    ('w, provider_result) oracle_call" where
  "primary_attempt http now cfg timeout rq = call_bind
     (with_timeout (primary_fetch http now cfg rq) (Num timeout)
        (Some (''Primary provider timed out after '' @ number_string timeout @ ''ms'')))
     (\<lambda>t. if tr_timed_out t
          then call_throw (primary_error ''TIMEOUT'' (case tr_error t of
            None \<Rightarrow> ''Primary provider request timed out'' | Some e \<Rightarrow> oe_message e))
        else (case (tr_error t, tr_value t) of
            (Some e, _) \<Rightarrow> call_throw (map_provider_error e)
          | (None, Some v) \<Rightarrow> call_return v
          | (None, None) \<Rightarrow> call_throw (type_error ''undefined'')))"

definition primary_resolve :: "(nat \<Rightarrow> number) \<Rightarrow> 'w http_client \<Rightarrow> string \<Rightarrow> primary_config \<Rightarrow> resolution_request \<Rightarrow>
    ('w, provider_result) oracle_call" where
  "primary_resolve random http now cfg rq w =
     (case with_backoff random (primary_attempt http now cfg (or_else (rq_timeout rq) (pa_timeout cfg)) rq)
        (override_config (pa_retry cfg) (or_else (rq_retry rq) no_retry_config)) w of (r, w', _) \<Rightarrow> (r, w'))"

definition primary_health :: "'w http_client \<Rightarrow> primary_config \<Rightarrow> 'w timed \<Rightarrow> bool \<times> 'w timed" where
  "primary_health http cfg w =
     (case with_timeout (call_bind
        (http \<lparr>hq_base = pa_base cfg, hq_path = ''/health'', hq_query = [], hq_headers = provider_headers (pa_key cfg)\<rparr>)
        (\<lambda>r. call_return (response_ok r))) (Num 5000) (Some ''Primary provider health check timed out'') w of
       (Inl _, w') \<Rightarrow> (False, w')
     | (Inr t, w') \<Rightarrow> (or_else (tr_value t) False, w'))"

subsection \<open>The fallback chain\<close>

record fallback_provider =
  fp_url :: string
  fp_key :: "string option"
  fp_source :: "string option"

record fallback_config =
  fb_providers :: "fallback_provider list"
  fb_timeout :: number
  fb_retry :: partial_retry_config

definition fallback_adapter :: "fallback_provider list \<Rightarrow> oracle_error + fallback_config" where
  "fallback_adapter ps = (if ps = [] then Inl (js_error ''FallbackAdapter requires at least one provider'')
     else Inr \<lparr>fb_providers = ps, fb_timeout = DEFAULT_TIMEOUT_MS, fb_retry = no_retry_config\<rparr>)"

definition fallback_label :: "fallback_provider \<Rightarrow> string" where
  "fallback_label p = or_else (fp_source p) (fp_url p)"

definition fallback_fetch :: "'w http_client \<Rightarrow> string \<Rightarrow> fallback_provider \<Rightarrow> resolution_request \<Rightarrow>
    ('w, provider_result) oracle_call" where
  "fallback_fetch http now p rq = call_bind
     (http \<lparr>hq_base = fp_url p, hq_path = ''/resolve'', hq_query = resolve_query rq, hq_headers = provider_headers (fp_key p)\<rparr>)
     (\<lambda>response. case read_provider_answer now (rq_market rq) (or_else (fp_source p) ''fallback'') ''fallback-provider''
          (\<lambda>s. primary_error (map_status s)
             (''Fallback provider '' @ fallback_label p @ '' returned HTTP '' @ nat_string s))
          (primary_error ''INVALID_RESPONSE''
             (''Fallback provider '' @ fallback_label p @ '' response is missing a valid outcome or confidence''))
          response of
        Inl e \<Rightarrow> call_throw e | Inr r \<Rightarrow> call_return r)"

text \<open>One provider of the chain: its result, or the error that is collected.\<close>

definition fallback_attempt :: "(nat \<Rightarrow> number) \<Rightarrow> 'w http_client \<Rightarrow> string \<Rightarrow> fallback_config \<Rightarrow> resolution_request \<Rightarrow>
    fallback_provider \<Rightarrow> ('w, provider_result) oracle_call" where
  "fallback_attempt random http now cfg rq p = (let timeout = or_else (rq_timeout rq) (fb_timeout cfg) in
     call_bind (with_timeout
       (\<lambda>w. case with_backoff random (fallback_fetch http now p rq) (fb_retry cfg) w of (r, w', _) \<Rightarrow> (r, w'))
       (Num timeout)
       (Some (''Fallback provider '' @ fallback_label p @ '' timed out after '' @ number_string timeout @ ''ms'')))
     (\<lambda>t. case (tr_error t, tr_value t) of
         (Some e, _) \<Rightarrow> call_throw e
       | (None, Some v) \<Rightarrow> call_return v
       | (None, None) \<Rightarrow> call_throw (type_error ''undefined'')))"

fun fallback_walk :: "('p \<Rightarrow> ('w, 'a) oracle_call) \<Rightarrow> 'p list \<Rightarrow> oracle_error list \<Rightarrow>
    ('w timed, oracle_error list, 'a) ecall" where
  "fallback_walk attempt [] errors w = (Inl errors, w)"
| "fallback_walk attempt (p # ps) errors w = (case attempt p w of
     (Inr r, w') \<Rightarrow> (Inr r, w')
   | (Inl e, w') \<Rightarrow> fallback_walk attempt ps (errors @ [as_error e]) w')"

definition fallback_resolve :: "(nat \<Rightarrow> number) \<Rightarrow> 'w http_client \<Rightarrow> string \<Rightarrow> fallback_config \<Rightarrow> resolution_request \<Rightarrow>
    ('w, provider_result) oracle_call" where
  "fallback_resolve random http now cfg rq w =
     (case fallback_walk (fallback_attempt random http now cfg rq) (fb_providers cfg) [] w of
        (Inr r, w') \<Rightarrow> (Inr r, w')
      | (Inl errors, w') \<Rightarrow> (Inl \<lparr>oe_kind = ProviderFailure ''ALL_PROVIDERS_FAILED'',
          oe_message = ''All fallback providers failed: '' @ join_with ''; '' (map oe_message errors)\<rparr>, w'))"

fun any_healthy :: "('p \<Rightarrow> 'w timed \<Rightarrow> bool \<times> 'w timed) \<Rightarrow> 'p list \<Rightarrow> 'w timed \<Rightarrow> bool \<times> 'w timed" where
  "any_healthy check [] w = (False, w)"
| "any_healthy check (p # ps) w = (case check p w of (True, w') \<Rightarrow> (True, w') | (False, w') \<Rightarrow> any_healthy check ps w')"

definition fallback_health :: "'w http_client \<Rightarrow> fallback_config \<Rightarrow> 'w timed \<Rightarrow> bool \<times> 'w timed" where
  "fallback_health http cfg = any_healthy (\<lambda>p w.
     case with_timeout (call_bind
        (http \<lparr>hq_base = fp_url p, hq_path = ''/health'', hq_query = [], hq_headers = provider_headers (fp_key p)\<rparr>)
        (\<lambda>r. call_return (response_ok r))) (Num 5000) (Some ''Fallback provider health check timed out'') w of
       (Inl _, w') \<Rightarrow> (False, w')
     | (Inr t, w') \<Rightarrow> (tr_value t = Some True, w')) (fb_providers cfg)"

subsection \<open>How long a provider call takes\<close>

lemma with_timeout_bound:
  assumes "validate_timeout timeout = Inr t" "with_timeout op timeout msg w = (r, w')"
  shows "fst w' - fst w \<le> t"
  using assms by (auto simp: with_timeout_def Let_def split: prod.splits sum.splits if_splits)

lemma bind_pure_world:
  assumes "call_bind c (\<lambda>x. if P x then call_throw (e x) else g x) w = (r, w')"
    and "\<And>x w r w'. g x w = (r, w') \<Longrightarrow> w' = w"
  shows "\<exists>r'. c w = (r', w')"
  using assms(1)
proof (cases rule: call_bind_cases)
  case (ok x w1)
  then have "w' = w1" using assms(2) by (auto split: if_splits)
  with ok show ?thesis by blast
qed blast

lemma bounded_retry_clock:
  assumes "\<And>w r w'. f w = (r, w') \<Longrightarrow> fst w' - fst w \<le> T" "0 \<le> T"
    and "bounded_retry retryable delay advance x f m a w = (r, w', ds)"
  shows "fst w' - fst w \<le> of_nat (length ds + 1) * T + sum_list ds"
  using assms(3)
proof (induction "Suc m - a" arbitrary: a w r w' ds)
  case 0
  then show ?case using assms(2) by (auto simp: bounded_retry.simps [of _ _ _ _ _ m a w])
next
  case (Suc n)
  obtain res w1 where f: "f w = (res, w1)" by (cases "f w")
  note d = assms(1) [OF f]
  have a: "\<not> m < a" using Suc.hyps(2) by auto
  show ?case
  proof (cases "\<exists>e. res = Inl e \<and> a \<noteq> m \<and> retryable e")
    case False
    then have "w' = w1 \<and> ds = []"
      using Suc.prems f a by (auto simp: bounded_retry.simps [of _ _ _ _ _ m a w] split: sum.splits if_splits)
    then show ?thesis using d by simp
  next
    case True
    then obtain e where e: "res = Inl e" "a \<noteq> m" "retryable e" by blast
    obtain r2 w2 ds2 where rec: "bounded_retry retryable delay advance x f m (Suc a) (advance (delay a) w1) = (r2, w2, ds2)"
      using prod_cases3 by blast
    have eq: "w' = w2" "ds = delay a # ds2"
      using Suc.prems e f rec a by (auto simp: bounded_retry.simps [of _ _ _ _ _ m a w])
    have "n = Suc m - Suc a" using Suc.hyps(2) by auto
    from Suc.hyps(1) [OF this rec] d show ?thesis
      by (simp add: eq advance_def algebra_simps)
  qed
qed

lemma primary_attempt_bound:
  assumes "validate_timeout (Num t) = Inr T" "primary_attempt http now cfg t rq w = (r, w')"
  shows "fst w' - fst w \<le> T"
proof -
  let ?c = "with_timeout (primary_fetch http now cfg rq) (Num t)
        (Some (''Primary provider timed out after '' @ number_string t @ ''ms''))"
  have "\<exists>r'. ?c w = (r', w')"
    using assms(2) unfolding primary_attempt_def
    by (rule bind_pure_world) (auto split: option.splits)
  then show ?thesis using with_timeout_bound [OF assms(1)] by blast
qed

text \<open>A call of the primary provider takes bounded time whatever the HTTP client does, even if it
  never answers: with k retries, at most k + 1 clamped timeouts plus the k backoff delays.\<close>
lemma provider_call_bounded:
  "\<exists>k \<le> rc_max_retries (with_defaults (override_config (pa_retry cfg) (or_else (rq_retry rq) no_retry_config))).
     fst (snd (primary_resolve random http now cfg rq w)) - fst w \<le>
       of_nat (k + 1) * max MIN_TIMEOUT_MS (min MAX_TIMEOUT_MS (or_else (rq_timeout rq) (pa_timeout cfg))) +
       sum_list (map (backoff_delay random (with_defaults
         (override_config (pa_retry cfg) (or_else (rq_retry rq) no_retry_config)))) [0..<k])"
proof -
  let ?t = "or_else (rq_timeout rq) (pa_timeout cfg)"
  let ?cfg = "override_config (pa_retry cfg) (or_else (rq_retry rq) no_retry_config)"
  let ?T = "max MIN_TIMEOUT_MS (min MAX_TIMEOUT_MS ?t)"
  have v: "validate_timeout (Num ?t) = Inr ?T"
    by (auto simp: validate_timeout_def MIN_TIMEOUT_MS_def MAX_TIMEOUT_MS_def)
  obtain r w' ds where b: "with_backoff random (primary_attempt http now cfg ?t rq) ?cfg w = (r, w', ds)"
    using prod_cases3 by blast
  have "fst w' - fst w \<le> of_nat (length ds + 1) * ?T + sum_list ds"
  proof (rule bounded_retry_clock [OF _ _ b [unfolded with_backoff_def]])
    show "fst w' - fst w \<le> ?T" if "primary_attempt http now cfg ?t rq w = (r, w')" for w r w'
      by (rule primary_attempt_bound [OF v that])
  qed (simp add: MIN_TIMEOUT_MS_def)
  moreover from bounded_retry_spec [OF le0 b [unfolded with_backoff_def]]
  obtain k where "k \<le> rc_max_retries (with_defaults ?cfg)" "ds = map (backoff_delay random (with_defaults ?cfg)) [0..<k]"
    by auto
  ultimately show ?thesis
    by (intro exI [of _ k]) (simp add: primary_resolve_def b)
qed

subsection \<open>The fallback chain\<close>

text \<open>The world in which provider number \<open>i\<close> is asked.\<close>

fun walk_world :: "('p \<Rightarrow> ('w, 'a) oracle_call) \<Rightarrow> 'p list \<Rightarrow> 'w timed \<Rightarrow> 'w timed" where
  "walk_world attempt [] w = w"
| "walk_world attempt (p # ps) w = walk_world attempt ps (snd (attempt p w))"

lemma fallback_walk_spec:
  "(\<exists>i < length ps. \<exists>r w'. attempt (ps ! i) (walk_world attempt (take i ps) w) = (Inr r, w') \<and>
      fallback_walk attempt ps errors w = (Inr r, w') \<and>
      (\<forall>j<i. \<exists>e. fst (attempt (ps ! j) (walk_world attempt (take j ps) w)) = Inl e)) \<or>
   (\<exists>es. fallback_walk attempt ps errors w = (Inl (errors @ es), walk_world attempt ps w) \<and> length es = length ps \<and>
      (\<forall>j<length ps. \<exists>e. fst (attempt (ps ! j) (walk_world attempt (take j ps) w)) = Inl e \<and> es ! j = as_error e))"
proof (induction ps arbitrary: errors w)
  case Nil
  then show ?case by simp
next
  case (Cons p ps)
  obtain r w1 where a: "attempt p w = (r, w1)" by (cases "attempt p w")
  show ?case
  proof (cases r)
    case (Inr x)
    then show ?thesis using a by (intro disjI1 exI [of _ 0]) simp
  next
    case (Inl e)
    from Cons.IH [of w1 "errors @ [as_error e]"] show ?thesis
    proof (elim disjE exE conjE)
      fix i r' w'
      assume i: "i < length ps" "attempt (ps ! i) (walk_world attempt (take i ps) w1) = (Inr r', w')"
        "fallback_walk attempt ps (errors @ [as_error e]) w1 = (Inr r', w')"
        "\<forall>j<i. \<exists>e. fst (attempt (ps ! j) (walk_world attempt (take j ps) w1)) = Inl e"
      then show ?thesis using a Inl
        by (intro disjI1 exI [of _ "Suc i"]) (auto simp: nth_Cons' less_Suc_eq_0_disj)
    next
      fix es
      assume es: "fallback_walk attempt ps (errors @ [as_error e]) w1 = (Inl ((errors @ [as_error e]) @ es), walk_world attempt ps w1)"
        "length es = length ps"
        "\<forall>j<length ps. \<exists>e. fst (attempt (ps ! j) (walk_world attempt (take j ps) w1)) = Inl e \<and> es ! j = as_error e"
      then show ?thesis using a Inl
        by (intro disjI2 exI [of _ "as_error e # es"]) (auto simp: less_Suc_eq_0_disj)
    qed
  qed
qed

end
