(* ===== verification/SubmissionQueue.thy ===== *)
theory SubmissionQueue
  imports OracleProviders
begin

text \<open>
  \<open>apps/oracle/submission-queue.ts\<close>: the items that carry a resolution from the oracle to the
  submission worker, their validation, and the queue that keeps them in memory.
\<close>

record submission_item =
  si_id :: string
  si_request :: resolution_request
  si_result :: provider_result
  si_status :: string
  si_enqueued_at :: string
  si_attempts :: nat
  si_last_attempt :: "string option"
  si_last_error :: "string option"

definition is_object :: "js \<Rightarrow> bool" where
  "is_object v = (case v of Obj _ \<Rightarrow> True | Arr _ \<Rightarrow> True | Bytes _ \<Rightarrow> True | _ \<Rightarrow> False)"

definition prop_of :: "js \<Rightarrow> string \<Rightarrow> js" where
  "prop_of v key = (case v of Obj ps \<Rightarrow> get_prop key ps | _ \<Rightarrow> Undefined)"

definition nonempty_string :: "js \<Rightarrow> bool" where
  "nonempty_string v = (case v of Str s \<Rightarrow> s \<noteq> [] | _ \<Rightarrow> False)"

definition VALID_STATUSES :: "string list" where
  "VALID_STATUSES = [''pending'', ''submitted'', ''failed'']"

definition validate_submission_queue_item :: "js \<Rightarrow> string + js" where
  "validate_submission_queue_item v =
     (if \<not> is_object v then Inl ''item must be an object''
      else if \<not> nonempty_string (prop_of v ''id'') then Inl ''id must be a non-empty string''
      else if \<not> is_object (prop_of v ''request'') then Inl ''request must be an object''
      else if \<not> nonempty_string (prop_of (prop_of v ''request'') ''marketId'')
        then Inl ''request.marketId must be a non-empty string''
      else if \<not> nonempty_string (prop_of (prop_of v ''request'') ''oracleAddress'')
        then Inl ''request.oracleAddress must be a non-empty string''
      else if \<not> is_object (prop_of v ''result'') then Inl ''result must be an object''
      else if prop_of v ''status'' \<notin> Str ` set VALID_STATUSES
        then Inl (''status must be one of: '' @ join_with '', '' VALID_STATUSES)
      else if \<not> nonempty_string (prop_of v ''enqueuedAt'') then Inl ''enqueuedAt must be a non-empty string''
      else (case prop_of v ''attempts'' of
          Num x \<Rightarrow> if is_integer x \<and> 0 \<le> x then Inr v else Inl ''attempts must be a non-negative integer''
        | _ \<Rightarrow> Inl ''attempts must be a non-negative integer''))"

text \<open>The item as the object that is validated; \<open>result\<close> only has to be an object.\<close>

definition item_object :: "submission_item \<Rightarrow> js" where
  "item_object i = Obj [(''id'', Str (si_id i)),
     (''request'', Obj [(''marketId'', Str (rq_market (si_request i))), (''oracleAddress'', Str (rq_oracle (si_request i)))]),
     (''result'', Obj [(''outcome'', Bool (pv_outcome (si_result i))), (''confidence'', pv_confidence (si_result i))]),
     (''status'', Str (si_status i)), (''enqueuedAt'', Str (si_enqueued_at i)), (''attempts'', Num (of_nat (si_attempts i)))]"

definition queue_enqueue :: "submission_item \<Rightarrow> submission_item list \<Rightarrow> string + submission_item list" where
  "queue_enqueue i items = res_bind (validate_submission_queue_item (item_object i)) (\<lambda>_. Inr (items @ [i]))"

end
