(* ===== verification/OracleService.thy ===== *)
theory OracleService
  imports SubmissionQueue
begin

text \<open>
  \<open>apps/oracle/oracle-service.ts\<close>: resolving a market with the primary provider, its retries and the
  failover to the fallback provider, the metrics, and handing the result to the submission queue. The providers are arguments, \<open>iso\<close> is \<open>Date.toISOString\<close>.
\<close>

subsection \<open>The service\<close>

record oracle_metrics =
  om_primary_success :: nat
  om_primary_failure :: nat
  om_fallback_usage :: nat
  om_fallback_failure :: nat
  om_total :: nat
  om_retries :: nat

definition zero_metrics :: oracle_metrics where
  "zero_metrics = \<lparr>om_primary_success = 0, om_primary_failure = 0, om_fallback_usage = 0, om_fallback_failure = 0,
     om_total = 0, om_retries = 0\<rparr>"

text \<open>Where results go: nowhere, the in-memory queue, or a callback that may reject.\<close>

datatype 'w sink = NoSink | Queue | Callback "submission_item \<Rightarrow> ('w, unit) oracle_call"

type_synonym 'w provider = "resolution_request \<Rightarrow> ('w, provider_result) oracle_call"

record 'w oracle_service =
  os_primary :: "'w provider"
  os_fallback :: "'w provider"
  os_enable_fallback :: bool
  os_retry :: partial_retry_config
  os_sink :: "'w sink"
  os_iso :: "int \<Rightarrow> string"
  os_random :: "nat \<Rightarrow> number"

record oracle_state =
  ot_metrics :: oracle_metrics
  ot_queue :: "submission_item list"

definition submission_of :: "'w oracle_service \<Rightarrow> resolution_request \<Rightarrow> provider_result \<Rightarrow> number \<Rightarrow> submission_item" where
  "submission_of sv rq r clock = \<lparr>si_id = rq_market rq @ ''-'' @ int_string \<lfloor>clock\<rfloor>, si_request = rq, si_result = r,
     si_status = ''pending'', si_enqueued_at = os_iso sv \<lfloor>clock\<rfloor>, si_attempts = 0,
     si_last_attempt = None, si_last_error = None\<rparr>"

text \<open>Errors of the queue are logged, never thrown.\<close>

definition enqueue_result :: "'w oracle_service \<Rightarrow> resolution_request \<Rightarrow> provider_result \<Rightarrow> oracle_state \<Rightarrow> 'w timed \<Rightarrow>
    oracle_state \<times> 'w timed" where
  "enqueue_result sv rq r st w = (let item = submission_of sv rq r (fst w) in
     case os_sink sv of
       NoSink \<Rightarrow> (st, w)
     | Callback f \<Rightarrow> (st, snd (f item w))
     | Queue \<Rightarrow> (case queue_enqueue item (ot_queue st) of Inl _ \<Rightarrow> (st, w) | Inr q \<Rightarrow> (st\<lparr>ot_queue := q\<rparr>, w)))"

definition bump_metrics :: "(oracle_metrics \<Rightarrow> oracle_metrics) \<Rightarrow> oracle_state \<Rightarrow> oracle_state" where
  "bump_metrics f st = st\<lparr>ot_metrics := f (ot_metrics st)\<rparr>"

definition resolve_with_fallback :: "'w oracle_service \<Rightarrow> resolution_request \<Rightarrow> oracle_state \<Rightarrow> 'w timed \<Rightarrow>
    (oracle_error + provider_result) \<times> oracle_state \<times> 'w timed" where
  "resolve_with_fallback sv rq st w = (case os_fallback sv rq w of
     (Inr r, w') \<Rightarrow>
       (case enqueue_result sv rq r (bump_metrics (\<lambda>m. m\<lparr>om_fallback_usage := om_fallback_usage m + 1\<rparr>) st) w' of
          (st', w'') \<Rightarrow> (Inr r, st', w''))
   | (Inl e, w') \<Rightarrow>
       (Inl (js_error (''All providers failed for market '' @ rq_market rq @ ''. Primary: '' @ oe_message e)),
        bump_metrics (\<lambda>m. m\<lparr>om_fallback_failure := om_fallback_failure m + 1\<rparr>) st, w'))"

definition oracle_resolve :: "'w oracle_service \<Rightarrow> resolution_request \<Rightarrow> oracle_state \<Rightarrow> 'w timed \<Rightarrow>
    (oracle_error + provider_result) \<times> oracle_state \<times> 'w timed" where
  "oracle_resolve sv rq st w =
     (let st1 = bump_metrics (\<lambda>m. m\<lparr>om_total := om_total m + 1\<rparr>) st
      in case with_backoff (os_random sv) (os_primary sv rq) (os_retry sv) w of
        (Inr r, w', ds) \<Rightarrow>
          (case enqueue_result sv rq r (bump_metrics (\<lambda>m. m\<lparr>om_retries := om_retries m + length ds,
                om_primary_success := om_primary_success m + 1\<rparr>) st1) w' of
             (st', w'') \<Rightarrow> (Inr r, st', w''))
      | (Inl e, w', ds) \<Rightarrow>
          let st2 = bump_metrics (\<lambda>m. m\<lparr>om_retries := om_retries m + length ds,
                om_primary_failure := om_primary_failure m + 1\<rparr>) st1
          in if \<not> os_enable_fallback sv \<or> \<not> is_retryable_error e then (Inl e, st2, w')
             else resolve_with_fallback sv rq st2 w')"

definition oracle_health :: "('w, bool) oracle_call \<Rightarrow> 'w timed \<Rightarrow> bool \<times> 'w timed" where
  "oracle_health primary w = (case primary w of (Inl _, w') \<Rightarrow> (False, w') | (Inr b, w') \<Rightarrow> (b, w'))"

definition reset_metrics :: "oracle_state \<Rightarrow> oracle_state" where
  "reset_metrics st = st\<lparr>ot_metrics := zero_metrics\<rparr>"

text \<open>A sequence of resolutions, for the metrics.\<close>

definition resolve_all :: "'w oracle_service \<Rightarrow> resolution_request list \<Rightarrow> oracle_state \<times> 'w timed \<Rightarrow> oracle_state \<times> 'w timed" where
  "resolve_all sv rqs s = fold (\<lambda>rq (st, w). snd (oracle_resolve sv rq st w)) rqs s"

subsection \<open>Failover\<close>

lemma enqueue_metrics [simp]: "ot_metrics (fst (enqueue_result sv rq r st w)) = ot_metrics st"
  by (simp add: enqueue_result_def Let_def split: sink.splits sum.splits)

lemma bump_simps [simp]: "ot_metrics (bump_metrics f st) = f (ot_metrics st)" "ot_queue (bump_metrics f st) = ot_queue st"
  by (simp_all add: bump_metrics_def)

definition metrics_ok :: "oracle_metrics \<Rightarrow> bool" where
  "metrics_ok m \<longleftrightarrow> om_total m = om_primary_success m + om_primary_failure m \<and>
     om_fallback_usage m + om_fallback_failure m \<le> om_primary_failure m"

lemma oracle_resolve_metrics:
  assumes "metrics_ok (ot_metrics st)"
  shows "metrics_ok (ot_metrics (fst (snd (oracle_resolve sv rq st w))))"
proof -
  have m: "ot_metrics st' = ot_metrics st0" if "enqueue_result sv rq r st0 w0 = (st', w')" for st' st0 w0 w' r
    using enqueue_metrics [of sv rq r st0 w0] that by simp
  show ?thesis
    using assms
    by (auto simp: oracle_resolve_def resolve_with_fallback_def metrics_ok_def Let_def m split: prod.splits sum.splits)
qed

lemma resolve_all_metrics:
  "metrics_ok (ot_metrics (fst s)) \<Longrightarrow> metrics_ok (ot_metrics (fst (resolve_all sv rqs s)))"
  unfolding resolve_all_def
  by (induction rqs arbitrary: s) (auto simp: split_beta oracle_resolve_metrics)

text \<open>The last of \<open>k + 1\<close> attempts of the primary provider.\<close>

definition primary_run :: "'w oracle_service \<Rightarrow> resolution_request \<Rightarrow> nat \<Rightarrow> 'w timed \<Rightarrow>
    (oracle_error + provider_result) \<times> 'w timed" where
  "primary_run sv rq k w = os_primary sv rq (retry_world (backoff_delay (os_random sv) (with_defaults (os_retry sv)))
     advance (os_primary sv rq) 0 k w)"

lemma with_backoff_spec:
  assumes "with_backoff random f cfg w = (r, w', ds)"
  shows "length ds \<le> rc_max_retries (with_defaults cfg) \<and>
    f (retry_world (backoff_delay random (with_defaults cfg)) advance f 0 (length ds) w) = (r, w') \<and>
    (\<forall>e. r = Inl e \<longrightarrow> length ds = rc_max_retries (with_defaults cfg) \<or> \<not> is_retryable_error e)"
proof -
  from bounded_retry_spec [OF le0 assms [unfolded with_backoff_def]]
  obtain k where k: "k \<le> rc_max_retries (with_defaults cfg)" "ds = map (backoff_delay random (with_defaults cfg)) [0..<k]"
    "f (retry_world (backoff_delay random (with_defaults cfg)) advance f 0 k w) = (r, w')"
    "\<forall>e. r = Inl e \<longrightarrow> k = rc_max_retries (with_defaults cfg) \<or> \<not> is_retryable_error e" by auto
  have "length ds = k" by (simp add: k(2))
  with k show ?thesis by simp
qed

lemma failover_cases:
  "\<exists>k r w'. k \<le> rc_max_retries (with_defaults (os_retry sv)) \<and> primary_run sv rq k w = (r, w') \<and>
    (case r of
       Inr p \<Rightarrow> fst (oracle_resolve sv rq st w) = Inr p
     | Inl e \<Rightarrow> (k = rc_max_retries (with_defaults (os_retry sv)) \<or> \<not> is_retryable_error e) \<and>
         (if \<not> os_enable_fallback sv \<or> \<not> is_retryable_error e
          then fst (oracle_resolve sv rq st w) = Inl e \<and> snd (snd (oracle_resolve sv rq st w)) = w'
          else fst (oracle_resolve sv rq st w) = (case fst (os_fallback sv rq w') of
             Inr p \<Rightarrow> Inr p
           | Inl e' \<Rightarrow> Inl (js_error (''All providers failed for market '' @ rq_market rq @ ''. Primary: '' @ oe_message e')))))"
proof -
  obtain r w' ds where b: "with_backoff (os_random sv) (os_primary sv rq) (os_retry sv) w = (r, w', ds)"
    using prod_cases3 by blast
  note spec = with_backoff_spec [OF b]
  have p: "primary_run sv rq (length ds) w = (r, w')" using spec by (simp add: primary_run_def)
  have "(case r of
       Inr p \<Rightarrow> fst (oracle_resolve sv rq st w) = Inr p
     | Inl e \<Rightarrow> (length ds = rc_max_retries (with_defaults (os_retry sv)) \<or> \<not> is_retryable_error e) \<and>
         (if \<not> os_enable_fallback sv \<or> \<not> is_retryable_error e
          then fst (oracle_resolve sv rq st w) = Inl e \<and> snd (snd (oracle_resolve sv rq st w)) = w'
          else fst (oracle_resolve sv rq st w) = (case fst (os_fallback sv rq w') of
             Inr p \<Rightarrow> Inr p
           | Inl e' \<Rightarrow> Inl (js_error (''All providers failed for market '' @ rq_market rq @ ''. Primary: '' @ oe_message e')))))"
  proof (cases r)
    case (Inr a)
    then show ?thesis by (simp add: oracle_resolve_def b Let_def split_beta)
  next
    case (Inl e)
    then show ?thesis using spec
      by (simp add: oracle_resolve_def b Let_def resolve_with_fallback_def split_beta split: sum.splits)
  qed
  with p spec show ?thesis by blast
qed


text \<open>The metrics always balance: every resolution is counted once as a primary success or a
  primary failure, and fallback attempts never outnumber primary failures.\<close>
lemma oracle_metrics_balance:
  "om_total (ot_metrics (fst (resolve_all sv rqs (\<lparr>ot_metrics = zero_metrics, ot_queue = q\<rparr>, w)))) =
     om_primary_success (ot_metrics (fst (resolve_all sv rqs (\<lparr>ot_metrics = zero_metrics, ot_queue = q\<rparr>, w)))) +
     om_primary_failure (ot_metrics (fst (resolve_all sv rqs (\<lparr>ot_metrics = zero_metrics, ot_queue = q\<rparr>, w)))) \<and>
   om_fallback_usage (ot_metrics (fst (resolve_all sv rqs (\<lparr>ot_metrics = zero_metrics, ot_queue = q\<rparr>, w)))) +
     om_fallback_failure (ot_metrics (fst (resolve_all sv rqs (\<lparr>ot_metrics = zero_metrics, ot_queue = q\<rparr>, w)))) \<le>
     om_primary_failure (ot_metrics (fst (resolve_all sv rqs (\<lparr>ot_metrics = zero_metrics, ot_queue = q\<rparr>, w))))"
  using resolve_all_metrics [of "(\<lparr>ot_metrics = zero_metrics, ot_queue = q\<rparr>, w)" sv rqs]
  by (simp add: metrics_ok_def zero_metrics_def)

subsection \<open>Classification of errors\<close>

text \<open>Which answers of the primary provider are retried and failed over: of the usual HTTP errors all but
  400, 401, 403 and 404 (so 422 and 429 are), and also answers without a valid outcome; but a
  timeout of 4000 ms is not, because its message contains 400, and then a healthy fallback
  provider is never asked.\<close>
lemma error_classification:
  assumes "\<And>req w. 4000 \<le> fst (snd (http req w)) - fst w"
    and "os_primary sv = primary_resolve random http now (primary_adapter base)" "rq_timeout rq = Some 4000"
  shows "(\<forall>s \<in> {400, 401, 403, 404, 422, 429, 503}. is_retryable_error (primary_error (map_status s) (''Primary provider returned HTTP '' @ nat_string s))
      \<longleftrightarrow> s \<notin> {400, 401, 403, 404}) \<and>
    is_retryable_error (primary_error ''INVALID_RESPONSE'' ''Primary provider response is missing a valid outcome or confidence'') \<and>
    fst (oracle_resolve sv rq st w) = Inl (primary_error ''TIMEOUT'' ''Primary provider timed out after 4000ms'')"
proof (intro conjI)
  have "list_all (\<lambda>s. is_retryable_error (primary_error (map_status s) (''Primary provider returned HTTP '' @ nat_string s))
      \<longleftrightarrow> s \<notin> {400, 401, 403, 404}) [400, 401, 403, 404, 422, 429, 503]" by code_simp
  then show "\<forall>s \<in> {400, 401, 403, 404, 422, 429, 503}. is_retryable_error (primary_error (map_status s) (''Primary provider returned HTTP '' @ nat_string s))
      \<longleftrightarrow> s \<notin> {400, 401, 403, 404}" by (simp only: list_all_iff list.set)
  show "is_retryable_error (primary_error ''INVALID_RESPONSE'' ''Primary provider response is missing a valid outcome or confidence'')"
    by code_simp
  let ?e = "primary_error ''TIMEOUT'' ''Primary provider timed out after 4000ms''"
  have msg: "''Primary provider timed out after '' @ number_string 4000 @ ''ms'' = ''Primary provider timed out after 4000ms''"
    "contains ''timed out'' ''Primary provider timed out after 4000ms''" "\<not> is_retryable_error ?e" by code_simp+
  have attempt: "\<exists>w'. primary_attempt http now (primary_adapter base) 4000 rq w = (Inl ?e, w')" for w
  proof -
    let ?q = "\<lparr>hq_base = pa_base (primary_adapter base), hq_path = ''/resolve'', hq_query = resolve_query rq,
      hq_headers = provider_headers (pa_key (primary_adapter base))\<rparr>"
    obtain r1 w1 where h: "http ?q w = (r1, w1)" by (cases "http ?q w")
    then have "4000 \<le> fst w1 - fst w" using assms(1) [of ?q w] by simp
    moreover have "snd (primary_fetch http now (primary_adapter base) rq w) = w1"
      by (simp add: primary_fetch_def call_bind_def h call_throw_def call_return_def split: sum.splits)
    ultimately have "4000 \<le> fst (snd (primary_fetch http now (primary_adapter base) rq w)) - fst w" by simp
    then show ?thesis using msg(1,2)
      by (auto simp: primary_attempt_def call_bind_def with_timeout_def validate_timeout_def MIN_TIMEOUT_MS_def
          MAX_TIMEOUT_MS_def Let_def js_error_def or_else_def as_error_def call_throw_def split: prod.splits)
  qed
  have stop: "\<exists>w' ds. bounded_retry is_retryable_error d advance x f m 0 w = (Inl ?e, w', ds)"
    if fails: "\<And>w. \<exists>w'. f w = (Inl ?e, w')" for d x m w and f :: "('a, provider_result) oracle_call"
  proof -
    obtain w' where "f w = (Inl ?e, w')" using fails by blast
    then show ?thesis using msg(3) by (simp add: bounded_retry.simps [of _ _ _ _ _ m 0 w])
  qed
  have prim: "\<exists>w'. os_primary sv rq w = (Inl ?e, w')" for w
  proof -
    obtain w' ds where "with_backoff random (primary_attempt http now (primary_adapter base) 4000 rq)
        (override_config (pa_retry (primary_adapter base)) (or_else (rq_retry rq) no_retry_config)) w = (Inl ?e, w', ds)"
      unfolding with_backoff_def using stop [of "primary_attempt http now (primary_adapter base) 4000 rq", OF attempt] by blast
    then show ?thesis by (simp add: assms(2,3) primary_resolve_def or_else_def [of "Some _"])
  qed
  obtain w' ds where "with_backoff (os_random sv) (os_primary sv rq) (os_retry sv) w = (Inl ?e, w', ds)"
    unfolding with_backoff_def using stop [of "os_primary sv rq", OF prim] by blast
  then show "fst (oracle_resolve sv rq st w) = Inl ?e"
    using msg(3) by (simp add: oracle_resolve_def Let_def)
qed

text \<open>A provider that never answers within an hour.\<close>

definition hanging_http :: "'w http_client" where
  "hanging_http req w = (Inl (js_error ''socket hang up''), (fst w + 3600000, snd w))"

lemma error_classification_witness:
  "fst (oracle_resolve \<lparr>os_primary = primary_resolve (\<lambda>_. 1 / 2) hanging_http ''2026'' (primary_adapter ''http://p''),
      os_fallback = (\<lambda>rq. call_throw (js_error ''never asked'')), os_enable_fallback = True, os_retry = zero_retries,
      os_sink = (NoSink :: unit sink), os_iso = int_string, os_random = (\<lambda>_. 1 / 2)\<rparr>
    \<lparr>rq_market = ''m'', rq_oracle = ''G'', rq_timeout = Some 4000, rq_retry = None\<rparr>
    \<lparr>ot_metrics = zero_metrics, ot_queue = []\<rparr> (0, ())) =
   Inl (primary_error ''TIMEOUT'' ''Primary provider timed out after 4000ms'')"
  by (rule error_classification [of hanging_http _ "\<lambda>_. 1 / 2" "''2026''" "''http://p''", THEN conjunct2, THEN conjunct2])
     (simp_all add: hanging_http_def)

end
