(* ===== verification/RedisService.thy ===== *)
theory RedisService
  imports Calls JsValue
begin

text \<open>
  \<open>src/services/redis.ts\<close>: the wrapper of the Redis client. The ioredis client is an argument
  (\<open>raw_redis\<close>), each command a call on the server's state that may reject; the life of the
  connection is a state of its own; log output is left out. \<open>redis_client\<close> is the interface the queues use, and
  \<open>service_client\<close> is the wrapper seen through it: the arguments of a call are passed as the code
  passes them, also where they do not fit the wrapper's parameters.
\<close>

definition js_truthy :: "js \<Rightarrow> bool" where
  "js_truthy v = (case v of Undefined \<Rightarrow> False | Null \<Rightarrow> False | Bool b \<Rightarrow> b | Num x \<Rightarrow> x \<noteq> 0 | NaN \<Rightarrow> False
     | BigInt n \<Rightarrow> n \<noteq> 0 | Str s \<Rightarrow> s \<noteq> [] | _ \<Rightarrow> True)"

text \<open>Fields of a stream entry: an object, or a flat array of keys and values.\<close>

datatype stream_fields = FieldObject "(string \<times> string) list" | FieldArray "string list"

record 'w raw_redis =
  rw_get :: "string \<Rightarrow> ('w, string option) call"
  rw_set :: "string \<Rightarrow> string \<Rightarrow> js list \<Rightarrow> ('w, unit) call"
  rw_del :: "string list \<Rightarrow> ('w, unit) call"
  rw_exists :: "string \<Rightarrow> ('w, int) call"
  rw_keys :: "string \<Rightarrow> ('w, string list) call"
  rw_ping :: "('w, string) call"
  rw_xgroup :: "string list \<Rightarrow> ('w, unit) call"
  rw_xadd :: "string list \<Rightarrow> ('w, string) call"
  rw_xreadgroup :: "string list \<Rightarrow> ('w, (string \<times> (string \<times> stream_fields) list) list) call"
  rw_xrange :: "string list \<Rightarrow> ('w, (string \<times> stream_fields) list) call"
  rw_xrevrange :: "string list \<Rightarrow> ('w, (string \<times> stream_fields) list) call"
  rw_xack :: "string \<Rightarrow> string \<Rightarrow> string list \<Rightarrow> ('w, int) call"
  rw_xclaim :: "string \<Rightarrow> string \<Rightarrow> string \<Rightarrow> nat \<Rightarrow> string list \<Rightarrow> ('w, unit) call"

subsection \<open>Configuration\<close>

definition ORDER_BOOK_TTL :: number where "ORDER_BOOK_TTL = 60"

definition load_key_prefix :: "string option \<Rightarrow> string" where
  "load_key_prefix env = (case env of Some raw \<Rightarrow> raw | None \<Rightarrow> ''vatix:'')"

definition parse_positive_int :: "string option \<Rightarrow> nat \<Rightarrow> nat" where
  "parse_positive_int raw fallback = (case raw of
     None \<Rightarrow> fallback
   | Some s \<Rightarrow> if trim s = [] then fallback else (case number_of_string s of
       Some x \<Rightarrow> if is_integer x \<and> 0 < x then nat \<lfloor>x\<rfloor> else fallback
     | None \<Rightarrow> fallback))"

record redis_retry =
  rr_max_retries :: nat
  rr_base_delay :: nat
  rr_max_delay :: nat
  rr_connect_timeout :: nat

definition load_retry_config :: "(string \<Rightarrow> string option) \<Rightarrow> redis_retry" where
  "load_retry_config env = \<lparr>rr_max_retries = parse_positive_int (env ''REDIS_MAX_RETRIES'') 3,
     rr_base_delay = parse_positive_int (env ''REDIS_RETRY_BASE_DELAY'') 100,
     rr_max_delay = parse_positive_int (env ''REDIS_RETRY_MAX_DELAY'') 2000,
     rr_connect_timeout = parse_positive_int (env ''REDIS_CONNECT_TIMEOUT'') 5000\<rparr>"

text \<open>The reconnection delay of attempt \<open>n\<close>, counted from 1; \<open>None\<close> gives up.\<close>

definition retry_strategy :: "redis_retry \<Rightarrow> nat \<Rightarrow> nat option" where
  "retry_strategy c n = (if rr_max_retries c < n then None
     else Some (min (rr_base_delay c * 2 ^ (n - 1)) (rr_max_delay c)))"

subsection \<open>The connection\<close>

text \<open>Clients are numbered in the order they are made; \<open>rv_open\<close> lists those that were made and not quit.\<close>

record redis_state =
  rv_client :: "nat option"
  rv_connecting :: bool
  rv_retry_count :: nat
  rv_next :: nat
  rv_open :: "nat list"

definition initial_redis :: redis_state where
  "initial_redis = \<lparr>rv_client = None, rv_connecting = False, rv_retry_count = 0, rv_next = 0, rv_open = []\<rparr>"

text \<open>The flag is lowered on every way out.\<close>

definition redis_connect :: "string option \<Rightarrow> (redis_state, unit) call" where
  "redis_connect url st = (if rv_connecting st then (Inr (), st)
     else (case url of
         Some (c # s) \<Rightarrow> (Inr (), st\<lparr>rv_client := Some (rv_next st), rv_next := rv_next st + 1,
           rv_open := rv_next st # rv_open st, rv_connecting := False\<rparr>)
       | _ \<Rightarrow> (Inl ''REDIS_URL environment variable is not set'', st\<lparr>rv_connecting := False\<rparr>)))"

definition redis_get_client :: "string option \<Rightarrow> (redis_state, nat option) call" where
  "redis_get_client url st = (if rv_client st = None
     then call_bind (redis_connect url) (\<lambda>_ st'. (Inr (rv_client st'), st')) st
     else (Inr (rv_client st), st))"

text \<open>\<open>disconnect\<close> waits for \<open>quit\<close>: what it does before, and after an answer.\<close>

definition disconnect_begins :: "redis_state \<Rightarrow> redis_state" where
  "disconnect_begins st = (case rv_client st of None \<Rightarrow> st | Some c \<Rightarrow> st\<lparr>rv_open := removeAll c (rv_open st)\<rparr>)"

definition disconnect_ends :: "redis_state \<Rightarrow> redis_state" where
  "disconnect_ends st = st\<lparr>rv_client := None, rv_retry_count := 0\<rparr>"

text \<open>The events of the client that the service listens to; \<open>error\<close> and \<open>close\<close> are only logged.\<close>

datatype client_event = ClientConnect | ClientError | ClientReconnecting | ClientClose

definition on_client_event :: "client_event \<Rightarrow> redis_state \<Rightarrow> redis_state" where
  "on_client_event ev st = (case ev of
     ClientConnect \<Rightarrow> st\<lparr>rv_retry_count := 0\<rparr>
   | ClientReconnecting \<Rightarrow> st\<lparr>rv_retry_count := rv_retry_count st + 1\<rparr>
   | _ \<Rightarrow> st)"

datatype redis_op = UseClient "string option" | QuitClient | ClientEvent client_event

text \<open>Operations one after the other; a disconnect is complete before the next.\<close>

definition redis_step :: "redis_op \<Rightarrow> redis_state \<Rightarrow> redis_state" where
  "redis_step op st = (case op of
     UseClient url \<Rightarrow> snd (redis_get_client url st)
   | QuitClient \<Rightarrow> (if rv_client st = None then st else disconnect_ends (disconnect_begins st))
   | ClientEvent ev \<Rightarrow> on_client_event ev st)"

definition connection_ok :: "redis_state \<Rightarrow> bool" where
  "connection_ok st \<longleftrightarrow> \<not> rv_connecting st \<and> rv_open st = (case rv_client st of None \<Rightarrow> [] | Some c \<Rightarrow> [c])"

text \<open>At most one connection is open, the one the service holds, and a client is to be had whenever there is a URL.\<close>

lemma connection_step: "connection_ok st \<Longrightarrow> connection_ok (redis_step op st)"
  by (cases op; cases "rv_client st")
    (auto simp: connection_ok_def redis_step_def redis_get_client_def redis_connect_def call_bind_def disconnect_begins_def
      disconnect_ends_def on_client_event_def split: option.splits list.splits client_event.split)

lemma connection_kept: "connection_ok (fold redis_step ops initial_redis)"
proof -
  have "connection_ok st \<Longrightarrow> connection_ok (fold redis_step ops st)" for st
    by (induction ops arbitrary: st) (simp_all add: connection_step)
  then show ?thesis by (simp add: connection_ok_def initial_redis_def)
qed

lemma client_available:
  assumes "connection_ok st" "u \<noteq> []"
  shows "\<exists>c. redis_get_client (Some u) st = (Inr (Some c), redis_step (UseClient (Some u)) st)"
  using assms by (cases u; cases "rv_client st")
    (auto simp: connection_ok_def redis_step_def redis_get_client_def redis_connect_def call_bind_def)

text \<open>While one disconnect waits for \<open>quit\<close> a second may begin; a client made after the first is then
  forgotten by the second and stays open.\<close>

lemma second_disconnect_leaks:
  "let st = disconnect_ends (redis_step (UseClient (Some ''redis://r'')) (disconnect_ends (disconnect_begins
       (disconnect_begins (redis_step (UseClient (Some ''redis://r'')) initial_redis)))))
   in rv_client st = None \<and> rv_open st = [1]"
  by code_simp

subsection \<open>Keys and values\<close>

definition redis_set :: "'w raw_redis \<Rightarrow> string \<Rightarrow> string \<Rightarrow> js \<Rightarrow> ('w, unit) call" where
  "redis_set raw key v ttl = (if js_truthy ttl then rw_set raw key v [Str ''EX'', ttl] else rw_set raw key v [])"

definition redis_exists :: "'w raw_redis \<Rightarrow> string \<Rightarrow> ('w, bool) call" where
  "redis_exists raw key = call_bind (rw_exists raw key) (\<lambda>n. call_return (n = 1))"

record book_data =
  bd_bids :: "(number \<times> int) list"
  bd_asks :: "(number \<times> int) list"
  bd_timestamp :: int

definition order_book_key :: "string \<Rightarrow> string \<Rightarrow> string \<Rightarrow> string" where
  "order_book_key kp market oc = kp @ ''orderbook:'' @ market @ '':'' @ oc"

definition set_order_book :: "'w raw_redis \<Rightarrow> string \<Rightarrow> (book_data \<Rightarrow> string) \<Rightarrow> string \<Rightarrow> string \<Rightarrow> book_data \<Rightarrow>
    ('w, unit) call" where
  "set_order_book raw kp json market oc d =
     redis_set raw (order_book_key kp market oc) (json d) (Num ORDER_BOOK_TTL)"

definition get_order_book :: "'w raw_redis \<Rightarrow> string \<Rightarrow> (string \<Rightarrow> string + book_data) \<Rightarrow> string \<Rightarrow> string \<Rightarrow>
    ('w, book_data option) call" where
  "get_order_book raw kp parse market oc =
     call_bind (rw_get raw (order_book_key kp market oc)) (\<lambda>data. case data of
       None \<Rightarrow> call_return None
     | Some s \<Rightarrow> if s = [] then call_return None
         else (case parse s of Inl e \<Rightarrow> call_throw e | Inr d \<Rightarrow> call_return (Some d)))"

definition clear_order_book :: "'w raw_redis \<Rightarrow> string \<Rightarrow> string \<Rightarrow> ('w, unit) call" where
  "clear_order_book raw kp market =
     call_bind (rw_keys raw (kp @ ''orderbook:'' @ market @ '':*'')) (\<lambda>ks.
       if ks = [] then call_return () else rw_del raw ks)"

definition redis_health_check :: "'w raw_redis \<Rightarrow> ('w, bool) call" where
  "redis_health_check raw = call_catch
     (call_bind (rw_ping raw) (\<lambda>r. call_return (r = ''PONG''))) (\<lambda>_. call_return False)"

subsection \<open>Streams\<close>

definition redis_xgroup :: "'w raw_redis \<Rightarrow> string \<Rightarrow> string \<Rightarrow> string \<Rightarrow> bool \<Rightarrow> ('w, unit) call" where
  "redis_xgroup raw key grp start mkstream = call_catch
     (rw_xgroup raw ([''CREATE'', key, grp, start] @ (if mkstream then [''MKSTREAM''] else [])))
     (\<lambda>e. if contains ''BUSYGROUP'' e then call_return () else call_throw e)"

definition redis_xreadgroup :: "'w raw_redis \<Rightarrow> string \<Rightarrow> string \<Rightarrow> string \<Rightarrow> string \<Rightarrow> nat \<Rightarrow> nat \<Rightarrow>
    ('w, (string \<times> (string \<times> stream_fields) list) list) call" where
  "redis_xreadgroup raw grp consumer key start count block =
     rw_xreadgroup raw ([''GROUP'', grp, consumer] @
       (if count \<noteq> 0 then [''COUNT'', nat_string count] else []) @
       (if block \<noteq> 0 then [''BLOCK'', nat_string block] else []) @ [''STREAMS'', key, start])"

definition redis_xadd :: "'w raw_redis \<Rightarrow> string list \<Rightarrow> ('w, string) call" where
  "redis_xadd raw args = rw_xadd raw args"

text \<open>The count is passed on only when both the keyword and a non-empty limit are given.\<close>

definition range_args :: "string \<Rightarrow> string \<Rightarrow> string \<Rightarrow> bool \<Rightarrow> string option \<Rightarrow> string list" where
  "range_args key start stop count_arg limit = [key, start, stop] @ (case limit of
     Some l \<Rightarrow> if count_arg \<and> l \<noteq> [] then [''COUNT'', l] else [] | None \<Rightarrow> [])"

definition redis_xrange :: "'w raw_redis \<Rightarrow> string \<Rightarrow> string \<Rightarrow> string \<Rightarrow> bool \<Rightarrow> string option \<Rightarrow>
    ('w, (string \<times> stream_fields) list) call" where
  "redis_xrange raw key start stop count_arg limit = rw_xrange raw (range_args key start stop count_arg limit)"

definition redis_xrevrange :: "'w raw_redis \<Rightarrow> string \<Rightarrow> string \<Rightarrow> string \<Rightarrow> bool \<Rightarrow> string option \<Rightarrow>
    ('w, (string \<times> stream_fields) list) call" where
  "redis_xrevrange raw key stop start count_arg limit = rw_xrevrange raw (range_args key stop start count_arg limit)"

definition redis_xack :: "'w raw_redis \<Rightarrow> string \<Rightarrow> string \<Rightarrow> string list \<Rightarrow> ('w, int) call" where
  "redis_xack raw key grp ids = rw_xack raw key grp ids"

definition redis_xclaim :: "'w raw_redis \<Rightarrow> string \<Rightarrow> string \<Rightarrow> string \<Rightarrow> nat \<Rightarrow> string list \<Rightarrow>
    ('w, unit) call" where
  "redis_xclaim raw key grp consumer idle ids = rw_xclaim raw key grp consumer idle ids"

subsection \<open>The interface of the queues\<close>

record 'w redis_client =
  rc_xgroup :: "string \<Rightarrow> string \<Rightarrow> string \<Rightarrow> bool \<Rightarrow> ('w, unit) call"
  rc_exists :: "string \<Rightarrow> ('w, js) call"
  rc_set :: "string \<Rightarrow> string \<Rightarrow> js list \<Rightarrow> ('w, unit) call"
  rc_del :: "string \<Rightarrow> ('w, unit) call"
  rc_xadd :: "string \<Rightarrow> string list \<Rightarrow> ('w, string) call"
  rc_xreadgroup :: "string \<Rightarrow> string \<Rightarrow> string \<Rightarrow> string \<Rightarrow> nat \<Rightarrow> nat \<Rightarrow>
    ('w, (string \<times> (string \<times> stream_fields) list) list) call"
  rc_xack :: "string \<Rightarrow> string \<Rightarrow> string \<Rightarrow> ('w, int) call"
  rc_xclaim :: "string \<Rightarrow> string \<Rightarrow> string \<Rightarrow> nat \<Rightarrow> string \<Rightarrow> ('w, unit) call"

text \<open>\<open>set\<close> has one parameter after the value; further arguments are dropped.\<close>

definition service_client :: "'w raw_redis \<Rightarrow> 'w redis_client" where
  "service_client raw = \<lparr>
     rc_xgroup = redis_xgroup raw,
     rc_exists = (\<lambda>key. call_bind (redis_exists raw key) (\<lambda>b. call_return (Bool b))),
     rc_set = (\<lambda>key v args. redis_set raw key v (case args of [] \<Rightarrow> Undefined | a # _ \<Rightarrow> a)),
     rc_del = (\<lambda>key. rw_del raw [key]),
     rc_xadd = (\<lambda>key fields. redis_xadd raw (key # ''*'' # fields)),
     rc_xreadgroup = redis_xreadgroup raw,
     rc_xack = (\<lambda>key grp i. redis_xack raw key grp [i]),
     rc_xclaim = (\<lambda>key grp consumer idle i. redis_xclaim raw key grp consumer idle [i])\<rparr>"

subsection \<open>A server\<close>

text \<open>An in-memory server with the documented behaviour of the commands the code uses: \<open>SET key value EX
  seconds\<close> wants an integer, \<open>XREADGROUP ... >\<close> delivers entries that no consumer of the group has
  received yet, \<open>XACK\<close> and \<open>XCLAIM\<close> act on pending entries only.\<close>

record memory_redis =
  mr_strings :: "(string \<times> string) list"
  mr_entries :: "(string \<times> (nat \<times> string list)) list"
  mr_next :: nat
  mr_delivered :: nat
  mr_pending :: "(string \<times> string) list"

definition empty_redis :: memory_redis where
  "empty_redis = \<lparr>mr_strings = [], mr_entries = [], mr_next = 1, mr_delivered = 0, mr_pending = []\<rparr>"

text \<open>The entries of a stream that come after the last delivered one, oldest first.\<close>

definition undelivered :: "string \<Rightarrow> memory_redis \<Rightarrow> (nat \<times> string list) list" where
  "undelivered key m = map snd (filter (\<lambda>(k, i, _). k = key \<and> mr_delivered m < i) (mr_entries m))"

definition memory_set :: "string \<Rightarrow> string \<Rightarrow> js list \<Rightarrow> (memory_redis, unit) call" where
  "memory_set key v args m = (case args of
     [] \<Rightarrow> (Inr (), m\<lparr>mr_strings := AList.update key v (mr_strings m)\<rparr>)
   | [Str o1, Num x] \<Rightarrow> if o1 = ''EX'' \<and> is_integer x \<and> 0 < x
       then (Inr (), m\<lparr>mr_strings := AList.update key v (mr_strings m)\<rparr>)
       else (Inl ''ERR value is not an integer or out of range'', m)
   | _ \<Rightarrow> (Inl ''ERR value is not an integer or out of range'', m))"

definition memory_server :: "memory_redis raw_redis" where
  "memory_server = \<lparr>
     rw_get = (\<lambda>k m. (Inr (map_of (mr_strings m) k), m)),
     rw_set = memory_set,
     rw_del = (\<lambda>ks m. (Inr (), m\<lparr>mr_strings := filter (\<lambda>(k, _). k \<notin> set ks) (mr_strings m)\<rparr>)),
     rw_exists = (\<lambda>k m. (Inr (if map_of (mr_strings m) k = None then 0 else 1), m)),
     rw_keys = (\<lambda>pattern m. (Inr (filter (starts_with (butlast pattern)) (map fst (mr_strings m))), m)),
     rw_ping = (\<lambda>m. (Inr ''PONG'', m)),
     rw_xgroup = (\<lambda>args m. (Inr (), m)),
     rw_xadd = (\<lambda>args m. (Inr (nat_string (mr_next m)),
       m\<lparr>mr_entries := mr_entries m @ [(hd args, mr_next m, drop 2 args)], mr_next := mr_next m + 1\<rparr>)),
     rw_xreadgroup = (\<lambda>args m. let key = last (butlast args) in (case undelivered key m of
         [] \<Rightarrow> (Inr [], m)
       | (i, fs) # _ \<Rightarrow> (Inr [(key, [(nat_string i, FieldArray fs)])],
           m\<lparr>mr_delivered := i, mr_pending := (nat_string i, args ! 2) # mr_pending m\<rparr>))),
     rw_xrange = (\<lambda>args m. (Inr (map (\<lambda>(_, i, fs). (nat_string i, FieldArray fs))
       (filter (\<lambda>(k, _). k = hd args) (mr_entries m))), m)),
     rw_xrevrange = (\<lambda>args m. (Inr (map (\<lambda>(_, i, fs). (nat_string i, FieldArray fs))
       (filter (\<lambda>(k, _). k = hd args) (rev (mr_entries m)))), m)),
     rw_xack = (\<lambda>key grp ids m. (Inr (int (length (filter (\<lambda>(i, _). i \<in> set ids) (mr_pending m)))),
       m\<lparr>mr_pending := filter (\<lambda>(i, _). i \<notin> set ids) (mr_pending m)\<rparr>)),
     rw_xclaim = (\<lambda>key grp consumer idle ids m. (Inr (),
       m\<lparr>mr_pending := map (\<lambda>(i, c). (i, if i \<in> set ids then consumer else c)) (mr_pending m)\<rparr>))\<rparr>"

text \<open>Facts on its keys.\<close>

definition memory_keys :: "memory_redis \<Rightarrow> string set" where
  "memory_keys m = fst ` set (mr_strings m)"

lemma memory_has: "(map_of (mr_strings m) k = None) = (k \<notin> memory_keys m)"
  by (simp add: memory_keys_def map_of_eq_None_iff)

lemma memory_exists:
  "rc_exists (service_client memory_server) k w = (Inr (Bool (k \<in> memory_keys w)), w)"
  using memory_has [of w k]
  by (auto simp: service_client_def redis_exists_def memory_server_def call_bind_def call_return_def)

lemma memory_keys_update:
  "memory_keys (w\<lparr>mr_strings := AList.update k v (mr_strings w)\<rparr>) = insert k (memory_keys w)"
  by (simp add: memory_keys_def dom_update)

lemma memory_set_cases:
  assumes "memory_set k v args w = (r, w')"
  obtains (refused) "w' = w" | (stored) "w' = w\<lparr>mr_strings := AList.update k v (mr_strings w)\<rparr>"
  using assms unfolding memory_set_def by (auto split: list.splits js.splits if_splits)

end
