(* ===== verification/RedisQueue.thy ===== *)
theory RedisQueue
  imports SubmissionQueue RedisService
begin

text \<open>
  \<open>apps/workers/src/oracle/redis-submission-queue.ts\<close>: the submission queue on a Redis stream with
  a consumer group, a content lock (\<open>oracle:dedup\<close>) and a market lock (\<open>oracle:inflight\<close>). The
  Redis client is an argument, as are JSON and SHA-256 (\<open>sq_encode\<close>, \<open>sq_decode\<close>, \<open>sq_hash\<close>) and the clock.
  The locale \<open>stream_client\<close> states what the commands do; it is extended by the two readings of
  \<open>set(key, value, "EX", ttl)\<close>: the service's \<open>set\<close>, which takes the string as the time to live,
  and a client that passes all the arguments on.
\<close>

definition STREAM_BASENAME :: string where "STREAM_BASENAME = ''oracle:submissions''"
definition CONSUMER_GROUP :: string where "CONSUMER_GROUP = ''oracle-worker''"

definition non_empty :: "string option \<Rightarrow> string option" where
  "non_empty s = (if s = Some [] then None else s)"

definition build_stream_key :: "string option \<Rightarrow> string option \<Rightarrow> string" where
  "build_stream_key explicit env =
     or_else (first_some (non_empty explicit) (non_empty env)) ''vatix:'' @ STREAM_BASENAME"

record queued_submission = submission_item +
  qs_stream_id :: string
  qs_expires_at :: number

record 'w redis_queue =
  sq_client :: "'w redis_client"
  sq_visibility :: number
  sq_ttl :: number
  sq_stream :: string
  sq_encode :: "submission_item \<Rightarrow> string"
  sq_decode :: "string \<Rightarrow> string + submission_item"
  sq_hash :: "provider_result \<Rightarrow> string"

definition redis_submission_queue :: "'w redis_client \<Rightarrow> number \<Rightarrow> number option \<Rightarrow> string option \<Rightarrow> string option \<Rightarrow>
    (submission_item \<Rightarrow> string) \<Rightarrow> (string \<Rightarrow> string + submission_item) \<Rightarrow> (provider_result \<Rightarrow> string) \<Rightarrow> 'w redis_queue" where
  "redis_submission_queue client visibility ttl kp env enc dec hash = \<lparr>sq_client = client, sq_visibility = visibility,
     sq_ttl = or_else ttl 86400, sq_stream = build_stream_key kp env, sq_encode = enc, sq_decode = dec, sq_hash = hash\<rparr>"

definition queue_initialize :: "'w redis_queue \<Rightarrow> ('w, unit) call" where
  "queue_initialize q = call_catch (rc_xgroup (sq_client q) (sq_stream q) CONSUMER_GROUP ''$'' True)
     (\<lambda>msg. if contains ''BUSYGROUP'' msg then call_return () else call_throw msg)"

text \<open>The comparison \<open>v > 0\<close> on the answer of \<open>exists\<close>, a count or a boolean.\<close>

definition js_positive :: "js \<Rightarrow> bool" where
  "js_positive v = (case v of Bool b \<Rightarrow> b | Num x \<Rightarrow> 0 < x | BigInt n \<Rightarrow> 0 < n
     | Str s \<Rightarrow> (case number_of_string s of Some x \<Rightarrow> 0 < x | None \<Rightarrow> False) | _ \<Rightarrow> False)"

definition dedup_key :: "string \<Rightarrow> string \<Rightarrow> string" where
  "dedup_key market hash = ''oracle:dedup:'' @ market @ '':'' @ hash"

definition market_lock_key :: "string \<Rightarrow> string" where
  "market_lock_key market = ''oracle:inflight:'' @ market"

definition is_already_queued :: "'w redis_queue \<Rightarrow> string \<Rightarrow> string \<Rightarrow> ('w, bool) call" where
  "is_already_queued q market hash =
     call_bind (rc_exists (sq_client q) (dedup_key market hash)) (\<lambda>v. call_return (js_positive v))"

definition mark_as_queued :: "'w redis_queue \<Rightarrow> string \<Rightarrow> string \<Rightarrow> string \<Rightarrow> ('w, unit) call" where
  "mark_as_queued q market hash sid = rc_set (sq_client q) (dedup_key market hash) sid [Str ''EX'', Num (sq_ttl q)]"

definition has_in_flight_submission :: "'w redis_queue \<Rightarrow> string \<Rightarrow> ('w, bool) call" where
  "has_in_flight_submission q market =
     call_bind (rc_exists (sq_client q) (market_lock_key market)) (\<lambda>v. call_return (js_positive v))"

definition mark_market_in_flight :: "'w redis_queue \<Rightarrow> string \<Rightarrow> string \<Rightarrow> ('w, unit) call" where
  "mark_market_in_flight q market sid = rc_set (sq_client q) (market_lock_key market) sid [Str ''EX'', Num (sq_ttl q)]"

definition clear_in_flight_submission :: "'w redis_queue \<Rightarrow> string \<Rightarrow> ('w, unit) call" where
  "clear_in_flight_submission q market = rc_del (sq_client q) (market_lock_key market)"

definition entry_fields :: "'w redis_queue \<Rightarrow> submission_item \<Rightarrow> string list" where
  "entry_fields q i = [''payload'', sq_encode q i, ''marketId'', rq_market (si_request i),
     ''payloadHash'', sq_hash q (si_result i)]"

definition redis_enqueue :: "'w redis_queue \<Rightarrow> submission_item \<Rightarrow> ('w, bool) call" where
  "redis_enqueue q i = (let hash = sq_hash q (si_result i); market = rq_market (si_request i) in
     call_bind (is_already_queued q market hash) (\<lambda>already. if already then call_return False else
     call_bind (has_in_flight_submission q market) (\<lambda>inflight. if inflight then call_return False else
     call_bind (rc_xadd (sq_client q) (sq_stream q) (entry_fields q i)) (\<lambda>sid.
     call_bind (mark_as_queued q market hash sid) (\<lambda>_.
     call_bind (mark_market_in_flight q market sid) (\<lambda>_. call_return True))))))"

text \<open>A flat array of fields as pairs; a key at the end without a value is undefined. Of equal keys the
  last one counts.\<close>

fun field_pairs :: "string list \<Rightarrow> (string \<times> string option) list" where
  "field_pairs (k # v # fs) = (k, Some v) # field_pairs fs"
| "field_pairs [k] = [(k, None)]"
| "field_pairs [] = []"

definition payload_field :: "stream_fields \<Rightarrow> string option" where
  "payload_field f = (case f of
     FieldObject ps \<Rightarrow> map_of ps ''payload''
   | FieldArray fs \<Rightarrow> (case map_of (rev (field_pairs fs)) ''payload'' of Some v \<Rightarrow> v | None \<Rightarrow> None))"

definition queued_of :: "'w redis_queue \<Rightarrow> number \<Rightarrow> string \<Rightarrow> submission_item \<Rightarrow> queued_submission" where
  "queued_of q now sid i = submission_item.extend i
     \<lparr>qs_stream_id = sid, qs_expires_at = now + sq_visibility q\<rparr>"

definition read_payload :: "'w redis_queue \<Rightarrow> stream_fields \<Rightarrow> string + submission_item" where
  "read_payload q f = (case payload_field f of
     None \<Rightarrow> Inl ''undefined is not valid JSON'' | Some s \<Rightarrow> sq_decode q s)"

definition redis_dequeue :: "'w redis_queue \<Rightarrow> string \<Rightarrow> nat \<Rightarrow> number \<Rightarrow> ('w, queued_submission option) call" where
  "redis_dequeue q consumer max_wait now =
     call_bind (rc_xreadgroup (sq_client q) CONSUMER_GROUP consumer (sq_stream q) ''>'' 1 max_wait) (\<lambda>messages.
       case messages of
         (_, (sid, f) # _) # _ \<Rightarrow>
           (case read_payload q f of Inl e \<Rightarrow> call_throw e | Inr i \<Rightarrow> call_return (Some (queued_of q now sid i)))
       | _ \<Rightarrow> call_return None)"

definition redis_acknowledge :: "'w redis_queue \<Rightarrow> queued_submission \<Rightarrow> ('w, unit) call" where
  "redis_acknowledge q s = call_bind (rc_xack (sq_client q) (sq_stream q) CONSUMER_GROUP (qs_stream_id s)) (\<lambda>_.
     clear_in_flight_submission q (rq_market (si_request s)))"

definition redis_nack :: "'w redis_queue \<Rightarrow> queued_submission \<Rightarrow> string \<Rightarrow> ('w, unit) call" where
  "redis_nack q s consumer = rc_xclaim (sq_client q) (sq_stream q) CONSUMER_GROUP consumer 0 (qs_stream_id s)"

subsection \<open>Sequences of operations\<close>

datatype queue_op = Enqueue submission_item | Dequeue string nat number | Ack queued_submission
  | Nack queued_submission string

datatype queue_answer = Added bool | Taken "queued_submission option" | Done | Rejected string

definition answer :: "('a \<Rightarrow> queue_answer) \<Rightarrow> (string + 'a) \<times> 'w \<Rightarrow> queue_answer \<times> 'w" where
  "answer f x = (case fst x of Inl e \<Rightarrow> Rejected e | Inr a \<Rightarrow> f a, snd x)"

fun queue_step :: "'w redis_queue \<Rightarrow> queue_op \<Rightarrow> 'w \<Rightarrow> queue_answer \<times> 'w" where
  "queue_step q (Enqueue i) w = answer Added (redis_enqueue q i w)"
| "queue_step q (Dequeue c n t) w = answer Taken (redis_dequeue q c n t w)"
| "queue_step q (Ack s) w = answer (\<lambda>_. Done) (redis_acknowledge q s w)"
| "queue_step q (Nack s c) w = answer (\<lambda>_. Done) (redis_nack q s c w)"

fun run_queue :: "'w redis_queue \<Rightarrow> queue_op list \<Rightarrow> 'w \<Rightarrow> queue_answer list \<times> 'w" where
  "run_queue q [] w = ([], w)"
| "run_queue q (x # xs) w = (let (a, w1) = queue_step q x w; (as, w2) = run_queue q xs w1 in (a # as, w2))"

fun taken_ids :: "queue_answer list \<Rightarrow> string list" where
  "taken_ids [] = []"
| "taken_ids (Taken (Some s) # as) = qs_stream_id s # taken_ids as"
| "taken_ids (_ # as) = taken_ids as"

fun enqueued_items :: "queue_op list \<Rightarrow> submission_item list" where
  "enqueued_items [] = []"
| "enqueued_items (Enqueue i # xs) = i # enqueued_items xs"
| "enqueued_items (_ # xs) = enqueued_items xs"

subsection \<open>What the commands do\<close>

text \<open>A server that answers: the keys it holds, the entries added to the stream, and the identifiers
  delivered so far. A read of new entries (\<open>></\<close>) never delivers an entry again.\<close>

locale stream_client =
  fixes client :: "'w redis_client"
    and keys :: "'w \<Rightarrow> string set"
    and entries :: "'w \<Rightarrow> string list list"
    and delivered :: "'w \<Rightarrow> string set"
  assumes exists_law: "\<exists>v. rc_exists client k w = (Inr v, w) \<and> (js_positive v \<longleftrightarrow> k \<in> keys w)"
    and xadd_law: "\<exists>i w'. rc_xadd client k fs w = (Inr i, w') \<and> keys w' = keys w \<and>
      entries w' = entries w @ [fs] \<and> delivered w' = delivered w"
    and read_law: "rc_xreadgroup client g c k ''>'' n b w = (r, w') \<Longrightarrow> keys w' = keys w \<and> entries w' = entries w \<and>
      delivered w \<subseteq> delivered w' \<and>
      (\<forall>ms. r = Inr ms \<longrightarrow> (\<forall>m \<in> set ms. \<forall>x \<in> set (snd m). fst x \<in> delivered w' - delivered w))"
    and ack_law: "rc_xack client k g i w = (r1, w') \<Longrightarrow>
      keys w' = keys w \<and> entries w' = entries w \<and> delivered w' = delivered w"
    and claim_law: "rc_xclaim client k g c n i w = (r2, w') \<Longrightarrow>
      keys w' = keys w \<and> entries w' = entries w \<and> delivered w' = delivered w"
    and del_law: "rc_del client k w = (r3, w') \<Longrightarrow>
      keys w - {k} \<subseteq> keys w' \<and> keys w' \<subseteq> keys w \<and> entries w' = entries w \<and> delivered w' = delivered w"
    and set_law: "rc_set client k v args w = (r4, w') \<Longrightarrow>
      keys w \<subseteq> keys w' \<and> entries w' = entries w \<and> delivered w' = delivered w"

locale ttl_client = stream_client +
  assumes set_refused: "\<exists>e. rc_set client k v [Str ''EX'', t] w = (Inl e, w)"

locale varargs_client = stream_client +
  assumes set_stored: "is_integer t \<Longrightarrow> 0 < t \<Longrightarrow>
    \<exists>w'. rc_set client k v [Str ''EX'', Num t] w = (Inr (), w') \<and> keys w' = insert k (keys w)"

context stream_client
begin

lemma queued_check:
  "sq_client q = client \<Longrightarrow> is_already_queued q m h w = (Inr (dedup_key m h \<in> keys w), w)"
  using exists_law [of "dedup_key m h" w] by (auto simp: is_already_queued_def call_bind_def)

lemma in_flight_check:
  "sq_client q = client \<Longrightarrow> has_in_flight_submission q m w = (Inr (market_lock_key m \<in> keys w), w)"
  using exists_law [of "market_lock_key m" w] by (auto simp: has_in_flight_submission_def call_bind_def)

lemma enqueue_eq:
  assumes "sq_client q = client"
  shows "redis_enqueue q i w =
    (if dedup_key (rq_market (si_request i)) (sq_hash q (si_result i)) \<in> keys w \<or>
        market_lock_key (rq_market (si_request i)) \<in> keys w then (Inr False, w)
     else call_bind (rc_xadd client (sq_stream q) (entry_fields q i)) (\<lambda>sid.
       call_bind (rc_set client (dedup_key (rq_market (si_request i)) (sq_hash q (si_result i))) sid
         [Str ''EX'', Num (sq_ttl q)]) (\<lambda>_.
       call_bind (rc_set client (market_lock_key (rq_market (si_request i))) sid [Str ''EX'', Num (sq_ttl q)]) (\<lambda>_.
       call_return True))) w)"
  unfolding redis_enqueue_def Let_def mark_as_queued_def mark_market_in_flight_def assms
  by (simp add: call_bind_ok [where c = "is_already_queued _ _ _", OF queued_check [OF assms]]
      call_bind_ok [where c = "has_in_flight_submission _ _", OF in_flight_check [OF assms]] call_return_def)

lemma enqueue_locked:
  assumes "sq_client q = client" "market_lock_key (rq_market (si_request i)) \<in> keys w"
  shows "redis_enqueue q i w = (Inr False, w)"
  by (simp add: enqueue_eq [OF assms(1)] assms(2))

lemma enqueue_frame:
  assumes "sq_client q = client" "redis_enqueue q i w = (r, w')"
  shows "keys w \<subseteq> keys w' \<and> delivered w' = delivered w"
proof (rule ccontr)
  assume no: "\<not> ?thesis"
  then have "w' \<noteq> w" by auto
  obtain a w1 where x: "rc_xadd client (sq_stream q) (entry_fields q i) w = (Inr a, w1)" "keys w1 = keys w"
    "delivered w1 = delivered w" using xadd_law by blast
  have "\<not> (dedup_key (rq_market (si_request i)) (sq_hash q (si_result i)) \<in> keys w \<or>
        market_lock_key (rq_market (si_request i)) \<in> keys w)"
    using assms(2) \<open>w' \<noteq> w\<close> unfolding enqueue_eq [OF assms(1)] by (auto split: if_splits)
  then have "call_bind (rc_set client (dedup_key (rq_market (si_request i)) (sq_hash q (si_result i))) a
         [Str ''EX'', Num (sq_ttl q)]) (\<lambda>_.
       call_bind (rc_set client (market_lock_key (rq_market (si_request i))) a [Str ''EX'', Num (sq_ttl q)]) (\<lambda>_.
       call_return True)) w1 = (r, w')"
    using assms(2) unfolding enqueue_eq [OF assms(1)] by (simp add: call_bind_ok [where c = "rc_xadd client (sq_stream q) (entry_fields q i)" and w = w, OF x(1)])
  then have "keys w1 \<subseteq> keys w' \<and> delivered w' = delivered w1"
    by (elim call_bind_cases) (auto dest!: set_law)
  with x no show False by simp
qed

lemma dequeue_frame:
  assumes "sq_client q = client" "redis_dequeue q c n t w = (r, w')"
  shows "keys w' = keys w \<and> entries w' = entries w \<and> delivered w \<subseteq> delivered w' \<and>
    (\<forall>s. r = Inr (Some s) \<longrightarrow> qs_stream_id s \<in> delivered w' - delivered w)"
proof -
  obtain r0 w0 where read: "rc_xreadgroup client CONSUMER_GROUP c (sq_stream q) ''>'' 1 n w = (r0, w0)" by fastforce
  have "w' = w0 \<and> (\<forall>s. r = Inr (Some s) \<longrightarrow> (\<exists>m f l ms. r0 = Inr ((m, (qs_stream_id s, f) # l) # ms)))"
    using assms(2) read unfolding redis_dequeue_def assms(1)
    by (auto simp: call_bind_def queued_of_def submission_item.extend_def call_return_def call_throw_def
        split: sum.splits list.splits prod.splits)
  then show ?thesis using read_law [OF read] by fastforce
qed

lemma ack_frame:
  assumes "sq_client q = client" "redis_acknowledge q s w = (r, w')"
  shows "keys w - {market_lock_key (rq_market (si_request s))} \<subseteq> keys w' \<and> keys w' \<subseteq> keys w \<and>
    entries w' = entries w \<and> delivered w' = delivered w"
  using assms(2) unfolding redis_acknowledge_def clear_in_flight_submission_def assms(1)
  by (rule call_bind_cases) (blast dest: ack_law, force dest: ack_law del_law)

lemma nack_frame:
  assumes "sq_client q = client" "redis_nack q s c w = (r, w')"
  shows "keys w' = keys w \<and> entries w' = entries w \<and> delivered w' = delivered w"
  using claim_law assms(2) unfolding redis_nack_def assms(1) by blast

lemma step_delivers:
  assumes "sq_client q = client" "queue_step q x w = (a, w')"
  shows "delivered w \<subseteq> delivered w' \<and> (\<forall>s. a = Taken (Some s) \<longrightarrow> qs_stream_id s \<in> delivered w' - delivered w)"
proof (cases x)
  case (Enqueue i)
  obtain r w1 where "redis_enqueue q i w = (r, w1)" by fastforce
  then show ?thesis using assms Enqueue enqueue_frame [OF assms(1)] by (auto simp: answer_def split: sum.splits)
next
  case (Dequeue c n t)
  obtain r w1 where "redis_dequeue q c n t w = (r, w1)" by fastforce
  then show ?thesis using assms Dequeue dequeue_frame [OF assms(1)] by (auto simp: answer_def split: sum.splits)
next
  case (Ack s)
  obtain r w1 where "redis_acknowledge q s w = (r, w1)" by fastforce
  then show ?thesis using assms Ack ack_frame [OF assms(1)] by (auto simp: answer_def split: sum.splits)
next
  case (Nack s c)
  obtain r w1 where "redis_nack q s c w = (r, w1)" by fastforce
  then show ?thesis using assms Nack nack_frame [OF assms(1)] by (auto simp: answer_def split: sum.splits)
qed

lemma delivers_once:
  assumes "sq_client q = client" "run_queue q xs w = (as, w')"
  shows "distinct (taken_ids as) \<and> set (taken_ids as) \<subseteq> delivered w' - delivered w \<and> delivered w \<subseteq> delivered w'"
  using assms(2)
proof (induction xs arbitrary: w as)
  case Nil
  then show ?case by simp
next
  case (Cons x xs)
  obtain a w1 where a: "queue_step q x w = (a, w1)" by fastforce
  obtain bs w2 where bs: "run_queue q xs w1 = (bs, w2)" by fastforce
  from Cons.prems a bs have e: "as = a # bs" "w' = w2" by simp_all
  from e(2) bs have "run_queue q xs w1 = (bs, w')" by simp
  note IH = Cons.IH [OF this]
  note step = step_delivers [OF assms(1) a]
  show ?case
  proof (cases "\<exists>s. a = Taken (Some s)")
    case True
    then show ?thesis using IH step e(1) by auto
  next
    case False
    then have "taken_ids as = taken_ids bs" using e(1) by (cases a) (auto split: option.splits)
    then show ?thesis using IH step by auto
  qed
qed

lemma lock_kept:
  assumes "sq_client q = client" "market_lock_key m \<in> keys w"
    and "\<And>s. Ack s \<in> set xs \<Longrightarrow> rq_market (si_request s) \<noteq> m"
  shows "market_lock_key m \<in> keys (snd (run_queue q xs w))"
  using assms(2,3)
proof (induction xs arbitrary: w)
  case Nil
  then show ?case by simp
next
  case (Cons x xs)
  have "market_lock_key m \<in> keys (snd (queue_step q x w))"
  proof (cases x)
    case (Enqueue i)
    obtain r w1 where "redis_enqueue q i w = (r, w1)" by fastforce
    from enqueue_frame [OF assms(1) this] this show ?thesis using Cons.prems(1) Enqueue by (auto simp: answer_def)
  next
    case (Dequeue c n t)
    obtain r w1 where "redis_dequeue q c n t w = (r, w1)" by fastforce
    then show ?thesis using Cons.prems(1) Dequeue dequeue_frame [OF assms(1)] by (auto simp: answer_def)
  next
    case (Ack s)
    obtain r w1 where r: "redis_acknowledge q s w = (r, w1)" by fastforce
    have "market_lock_key m \<noteq> market_lock_key (rq_market (si_request s))"
      using Cons.prems(2) [of s] Ack by (simp add: market_lock_key_def)
    then show ?thesis using Cons.prems(1) Ack r ack_frame [OF assms(1) r] by (auto simp: answer_def)
  next
    case (Nack s c)
    obtain r w1 where "redis_nack q s c w = (r, w1)" by fastforce
    then show ?thesis using Cons.prems(1) Nack nack_frame [OF assms(1)] by (auto simp: answer_def)
  qed
  from Cons.IH [OF this] Cons.prems(2) show ?case by (simp add: split_beta Let_def)
qed

end

context ttl_client
begin

lemma enqueue_refused:
  assumes "sq_client q = client" "keys w = {}"
  shows "\<exists>e w'. redis_enqueue q i w = (Inl e, w') \<and> keys w' = {} \<and> entries w' = entries w @ [entry_fields q i]"
proof -
  obtain a w1 where x: "rc_xadd client (sq_stream q) (entry_fields q i) w = (Inr a, w1)" "keys w1 = keys w"
    "entries w1 = entries w @ [entry_fields q i]" using xadd_law by blast
  obtain e where "rc_set client (dedup_key (rq_market (si_request i)) (sq_hash q (si_result i))) a
      [Str ''EX'', Num (sq_ttl q)] w1 = (Inl e, w1)" using set_refused by blast
  with x assms(2) show ?thesis by (simp add: enqueue_eq [OF assms(1)] call_bind_def)
qed

lemma step_never_locks:
  assumes "sq_client q = client" "keys w = {}" "queue_step q x w = (a, w')"
  shows "keys w' = {} \<and> entries w' = entries w @ map (entry_fields q) (enqueued_items [x]) \<and> (\<forall>b. a \<noteq> Added b)"
proof (cases x)
  case (Enqueue i)
  then show ?thesis using assms(3) enqueue_refused [OF assms(1,2), of i] by (auto simp: answer_def)
next
  case (Dequeue c n t)
  obtain r w1 where r: "redis_dequeue q c n t w = (r, w1)" by fastforce
  then show ?thesis using assms Dequeue dequeue_frame [OF assms(1) r] by (auto simp: answer_def split: sum.splits)
next
  case (Ack s)
  obtain r w1 where r: "redis_acknowledge q s w = (r, w1)" by fastforce
  then show ?thesis using assms Ack ack_frame [OF assms(1) r] by (auto simp: answer_def split: sum.splits)
next
  case (Nack s c)
  obtain r w1 where r: "redis_nack q s c w = (r, w1)" by fastforce
  then show ?thesis using assms Nack nack_frame [OF assms(1) r] by (auto simp: answer_def split: sum.splits)
qed

lemma never_locks:
  assumes "sq_client q = client" "keys w = {}" "run_queue q xs w = (as, w')"
  shows "keys w' = {} \<and> entries w' = entries w @ map (entry_fields q) (enqueued_items xs) \<and> (\<forall>b. Added b \<notin> set as)"
  using assms(2,3)
proof (induction xs arbitrary: w as)
  case Nil
  then show ?case by simp
next
  case (Cons x xs)
  obtain a w1 where a: "queue_step q x w = (a, w1)" by fastforce
  obtain bs w2 where bs: "run_queue q xs w1 = (bs, w2)" by fastforce
  from Cons.prems(2) a bs have e: "as = a # bs" "w' = w2" by simp_all
  note step = step_never_locks [OF assms(1) Cons.prems(1) a]
  from e(2) bs have "run_queue q xs w1 = (bs, w')" by simp
  from Cons.IH [OF _ this] step e(1) show ?case by (cases x) auto
qed

end

context varargs_client
begin

lemma enqueue_locks:
  assumes "sq_client q = client" "is_integer (sq_ttl q)" "0 < sq_ttl q" "redis_enqueue q i w = (Inr True, w')"
  shows "market_lock_key (rq_market (si_request i)) \<in> keys w'"
proof -
  obtain a w1 where x: "rc_xadd client (sq_stream q) (entry_fields q i) w = (Inr a, w1)" using xadd_law by blast
  obtain w2 where 2: "rc_set client (dedup_key (rq_market (si_request i)) (sq_hash q (si_result i))) a
      [Str ''EX'', Num (sq_ttl q)] w1 = (Inr (), w2)" using set_stored [OF assms(2,3)] by blast
  obtain w3 where 3: "rc_set client (market_lock_key (rq_market (si_request i))) a
      [Str ''EX'', Num (sq_ttl q)] w2 = (Inr (), w3)" "keys w3 = insert (market_lock_key (rq_market (si_request i))) (keys w2)"
    using set_stored [OF assms(2,3)] by blast
  have "w' = w3" using assms(4) x 2 3(1) unfolding enqueue_eq [OF assms(1)]
    by (auto simp: call_bind_def split: if_splits)
  with 3(2) show ?thesis by simp
qed

lemma market_exclusive:
  assumes "sq_client q = client" "is_integer (sq_ttl q)" "0 < sq_ttl q" "redis_enqueue q i w = (Inr True, w1)"
    and "\<And>s. Ack s \<in> set xs \<Longrightarrow> rq_market (si_request s) \<noteq> rq_market (si_request i)"
    and "rq_market (si_request j) = rq_market (si_request i)"
  shows "redis_enqueue q j (snd (run_queue q xs w1)) = (Inr False, snd (run_queue q xs w1))"
  using enqueue_locked [OF assms(1), of j "snd (run_queue q xs w1)"]
    lock_kept [OF assms(1) enqueue_locks [OF assms(1-4)] assms(5), of xs] assms(6) by simp

end

subsection \<open>The in-memory server behind the service\<close>

definition memory_entries :: "memory_redis \<Rightarrow> string list list" where
  "memory_entries m = map (\<lambda>(_, _, fs). fs) (mr_entries m)"

definition memory_delivered :: "memory_redis \<Rightarrow> string set" where
  "memory_delivered m = {nat_string i | i. i \<le> mr_delivered m}"

text \<open>A client whose \<open>set\<close> passes all its arguments on, as the queue expects.\<close>

definition forwarding_client :: "'w raw_redis \<Rightarrow> 'w redis_client" where
  "forwarding_client raw = (service_client raw)\<lparr>rc_set := rw_set raw\<rparr>"

lemma memory_read:
  assumes "redis_xreadgroup memory_server g c k ''>'' n b w = (r, w')"
  shows "memory_keys w' = memory_keys w \<and> memory_entries w' = memory_entries w \<and>
    memory_delivered w \<subseteq> memory_delivered w' \<and>
    (\<forall>ms. r = Inr ms \<longrightarrow> (\<forall>m \<in> set ms. \<forall>x \<in> set (snd m). fst x \<in> memory_delivered w' - memory_delivered w))"
proof (cases "undelivered k w")
  case Nil
  then show ?thesis using assms by (auto simp: redis_xreadgroup_def memory_server_def Let_def split: if_splits)
next
  case (Cons x xs)
  obtain i fs where x: "x = (i, fs)" by (cases x)
  have "x \<in> set (undelivered k w)" by (simp add: Cons)
  then have i: "mr_delivered w < i" by (auto simp: undelivered_def x)
  have key: "last (butlast ([''GROUP'', g, c] @ as @ bs @ [''STREAMS'', k, ''>''])) = k" for as bs
    by (simp add: butlast_append)
  have "r = Inr [(k, [(nat_string i, FieldArray fs)])]"
    "w' = w\<lparr>mr_delivered := i, mr_pending := (nat_string i, c) # mr_pending w\<rparr>"
    using assms Cons x unfolding redis_xreadgroup_def memory_server_def
    by (simp_all only: raw_redis.simps Let_def key list.case prod.case) auto
  then show ?thesis using i
    by (auto simp: memory_keys_def memory_entries_def memory_delivered_def)
qed

lemma memory_set_keeps:
  assumes "memory_set k v args w = (r, w')"
  shows "memory_keys w \<subseteq> memory_keys w' \<and> memory_entries w' = memory_entries w \<and>
    memory_delivered w' = memory_delivered w"
  using assms
proof (cases rule: memory_set_cases)
  case refused
  then show ?thesis by simp
next
  case stored
  then show ?thesis unfolding stored memory_keys_update by (auto simp: memory_entries_def memory_delivered_def)
qed

lemmas memory_client = service_client_def forwarding_client_def memory_server_def redis_xadd_def redis_xack_def
  redis_xclaim_def memory_keys_def memory_entries_def memory_delivered_def

lemma service_stream_client:
  "stream_client (service_client memory_server) memory_keys memory_entries memory_delivered"
proof (unfold_locales, goal_cases)
  case (1 k w) then show ?case by (simp add: memory_exists js_positive_def)
next
  case (2 k fs w) then show ?case by (simp add: memory_client)
next
  case (3 g c k n b w r w') then show ?case using memory_read by (simp add: service_client_def)
next
  case (4 k g i w r w') then show ?case by (auto simp: memory_client)
next
  case (5 k g c n i w r w') then show ?case by (auto simp: memory_client)
next
  case (6 k w r w') then show ?case by (auto simp: memory_client)
next
  case (7 k v args w r w') then show ?case using memory_set_keeps
    by (auto simp: service_client_def redis_set_def memory_server_def split: if_splits)
qed

interpretation ttl: ttl_client "service_client memory_server" memory_keys memory_entries memory_delivered
proof (rule ttl_client.intro [OF service_stream_client], unfold_locales)
  show "\<exists>e. rc_set (service_client memory_server) k v [Str ''EX'', t] w = (Inl e, w)" for k v t w
    by (simp add: service_client_def redis_set_def js_truthy_def memory_server_def memory_set_def)
qed

interpretation varargs: varargs_client "forwarding_client memory_server" memory_keys memory_entries memory_delivered
proof (unfold_locales, goal_cases)
  case (1 k w) then show ?case using memory_exists [of k w] by (simp add: forwarding_client_def js_positive_def)
next
  case (2 k fs w) then show ?case by (simp add: memory_client)
next
  case (3 g c k n b w r w') then show ?case using memory_read by (simp add: forwarding_client_def service_client_def)
next
  case (4 k g i w r w') then show ?case by (auto simp: memory_client)
next
  case (5 k g c n i w r w') then show ?case by (auto simp: memory_client)
next
  case (6 k w r w') then show ?case by (auto simp: memory_client)
next
  case (7 k v args w r w') then show ?case using memory_set_keeps
    by (auto simp: forwarding_client_def memory_server_def)
next
  case (8 t k v w) then show ?case
    by (auto simp: forwarding_client_def memory_server_def memory_set_def memory_keys_def dom_update)
qed

text \<open>With the service's Redis client the queue never deduplicates: over any sequence of operations no
  dedupe or market lock is ever written, every enqueue is rejected although the submission has
  been added to the stream, and each enqueued submission is in the stream as often as it was
  enqueued.\<close>
lemma queue_never_deduplicates:
  "mr_strings (snd (run_queue (redis_submission_queue (service_client memory_server) visibility ttl kp env enc dec hash)
      xs empty_redis)) = [] \<and>
   memory_entries (snd (run_queue (redis_submission_queue (service_client memory_server) visibility ttl kp env enc dec hash)
      xs empty_redis)) =
     map (entry_fields (redis_submission_queue (service_client memory_server) visibility ttl kp env enc dec hash))
       (enqueued_items xs) \<and>
   (\<forall>b. Added b \<notin> set (fst (run_queue (redis_submission_queue (service_client memory_server) visibility ttl kp env enc
      dec hash) xs empty_redis)))"
proof -
  let ?q = "redis_submission_queue (service_client memory_server) visibility ttl kp env enc dec hash"
  obtain as m where run: "run_queue ?q xs empty_redis = (as, m)" by fastforce
  have "sq_client ?q = service_client memory_server" "memory_keys empty_redis = {}" "memory_entries empty_redis = []"
    by (simp_all add: redis_submission_queue_def memory_keys_def memory_entries_def empty_redis_def)
  with ttl.never_locks [OF this(1,2) run] run show ?thesis by (simp add: memory_keys_def)
qed



definition demo_submission :: "string \<Rightarrow> string \<Rightarrow> bool \<Rightarrow> submission_item" where
  "demo_submission i market oc = \<lparr>si_id = i,
     si_request = \<lparr>rq_market = market, rq_oracle = ''GORACLE'', rq_timeout = None, rq_retry = None\<rparr>,
     si_result = \<lparr>pv_outcome = oc, pv_confidence = Num 1, pv_method = ''primary-provider'', pv_source = ''primary'',
       pv_timestamp = Str ''2026'', pv_metadata = [], pv_signature = Some ''sig'', pv_public_key = Some ''GKEY''\<rparr>,
     si_status = ''pending'', si_enqueued_at = ''2026'', si_attempts = 0, si_last_attempt = None, si_last_error = None\<rparr>"

text \<open>A queue whose encoding keeps the identifier and the outcome, enough to tell the demo submissions apart.\<close>

definition demo_queue :: "memory_redis redis_queue" where
  "demo_queue = redis_submission_queue (forwarding_client memory_server) 300000 (Some 60) None None
     (\<lambda>i. si_id i) (\<lambda>s. Inr (demo_submission s ''m'' True)) (\<lambda>r. if pv_outcome r then ''yes'' else ''no'')"

lemma demo_enqueued:
  "fst (redis_enqueue demo_queue (demo_submission ''a'' ''m'' True) empty_redis) = Inr True"
  by code_simp


end
