(* ===== verification/ResolutionReport.thy ===== *)
theory ResolutionReport
  imports JsValue Calls
begin

text \<open>
  JSON texts as \<open>JSON.stringify\<close> prints them, and the signed resolution reports of
  \<open>apps/oracle/signature-helper.ts\<close>. The Ed25519 key pairs of the Stellar SDK are an argument
  (\<open>keypairs\<close>): signing may reject the secret, verification may reject the key.
\<close>

subsection \<open>JSON texts\<close>

definition hex_digit :: "nat \<Rightarrow> char" where
  "hex_digit n = ''0123456789abcdef'' ! n"

definition json_escape :: "char \<Rightarrow> string" where
  "json_escape c =
     (if c = CHR 0x22 then [CHR 0x5C, CHR 0x22]
      else if c = CHR 0x5C then [CHR 0x5C, CHR 0x5C]
      else if c = CHR 0x08 then [CHR 0x5C, CHR ''b'']
      else if c = CHR 0x0C then [CHR 0x5C, CHR ''f'']
      else if c = CHR 0x0A then [CHR 0x5C, CHR ''n'']
      else if c = CHR 0x0D then [CHR 0x5C, CHR ''r'']
      else if c = CHR 0x09 then [CHR 0x5C, CHR ''t'']
      else if (of_char c :: nat) < 32
        then [CHR 0x5C, CHR ''u'', CHR ''0'', CHR ''0'', hex_digit (of_char c div 16), hex_digit (of_char c mod 16)]
      else [c])"

definition json_quote :: "string \<Rightarrow> string" where
  "json_quote s = CHR 0x22 # concat (map json_escape s) @ [CHR 0x22]"

text \<open>\<open>None\<close> for values without a text; such elements of an array print as null, such members of an object
  are skipped. (\<open>JSON.stringify\<close> throws on a BigInt; none comes out of a parsed answer.)\<close>

fun json_text :: "js \<Rightarrow> string option"
  and json_elements :: "js list \<Rightarrow> string list"
  and json_members :: "(string \<times> js) list \<Rightarrow> string list" where
  "json_text Undefined = None"
| "json_text Null = Some ''null''"
| "json_text (Bool b) = Some (if b then ''true'' else ''false'')"
| "json_text (Num x) = Some (number_string x)"
| "json_text NaN = Some ''null''"
| "json_text (BigInt n) = None"
| "json_text (Str s) = Some (json_quote s)"
| "json_text (Bytes bs) = Some (''{'' @ json_quote ''type'' @ '':'' @ json_quote ''Buffer'' @ '','' @ json_quote ''data'' @
     '':['' @ join_with '','' (map nat_string bs) @ '']}'')"
| "json_text (Arr vs) = Some (''['' @ join_with '','' (json_elements vs) @ '']'')"
| "json_text (Obj ps) = Some (''{'' @ join_with '','' (json_members ps) @ ''}'')"
| "json_elements [] = []"
| "json_elements (v # vs) = (case json_text v of None \<Rightarrow> ''null'' | Some t \<Rightarrow> t) # json_elements vs"
| "json_members [] = []"
| "json_members ((k, v) # ps) = (case json_text v of None \<Rightarrow> json_members ps
     | Some t \<Rightarrow> (json_quote k @ '':'' @ t) # json_members ps)"

subsection \<open>Signed reports\<close>

record resolution_report =
  rp_market :: string
  rp_outcome :: bool
  rp_timestamp :: js

record signed_report =
  sr_payload :: resolution_report
  sr_signature :: string
  sr_public_key :: string

record keypairs =
  kp_sign :: "string \<Rightarrow> string \<Rightarrow> string + string \<times> string"
  kp_verify :: "string \<Rightarrow> string \<Rightarrow> string \<Rightarrow> string + bool"

definition canonicalise :: "resolution_report \<Rightarrow> string" where
  "canonicalise p = ''{'' @ join_with '','' (json_members [(''marketId'', Str (rp_market p)),
     (''outcome'', Bool (rp_outcome p)), (''timestamp'', rp_timestamp p)]) @ ''}''"

definition sign_resolution_report :: "keypairs \<Rightarrow> resolution_report \<Rightarrow> string \<Rightarrow> string + signed_report" where
  "sign_resolution_report lib p secret = (case kp_sign lib secret (canonicalise p) of
     Inl e \<Rightarrow> Inl e
   | Inr (signature, pk) \<Rightarrow> Inr \<lparr>sr_payload = p, sr_signature = signature, sr_public_key = pk\<rparr>)"

definition verify_resolution_report :: "keypairs \<Rightarrow> signed_report \<Rightarrow> bool" where
  "verify_resolution_report lib r =
     (case kp_verify lib (sr_public_key r) (canonicalise (sr_payload r)) (sr_signature r) of Inl _ \<Rightarrow> False | Inr b \<Rightarrow> b)"

subsection \<open>The texts determine the values\<close>

text \<open>Reading one escaped character back.\<close>

definition hex_value :: "char \<Rightarrow> nat" where
  "hex_value c = (if c = CHR ''a'' then 10 else if c = CHR ''b'' then 11 else if c = CHR ''c'' then 12
     else if c = CHR ''d'' then 13 else if c = CHR ''e'' then 14 else if c = CHR ''f'' then 15 else of_char c - 48)"

lemma hex_value_digit: "n < 16 \<Longrightarrow> hex_value (hex_digit n) = n"
proof -
  assume n: "n < 16"
  have "\<forall>n \<in> set [0..<16]. hex_value (hex_digit n) = n" by code_simp
  with n show ?thesis by simp
qed

definition unescape :: "string \<Rightarrow> char \<times> string" where
  "unescape s = (case s of
     c # t \<Rightarrow> if c \<noteq> CHR 0x5C then (c, t) else (case t of
         d # u \<Rightarrow> if d = CHR ''b'' then (CHR 0x08, u) else if d = CHR ''f'' then (CHR 0x0C, u)
           else if d = CHR ''n'' then (CHR 0x0A, u) else if d = CHR ''r'' then (CHR 0x0D, u)
           else if d = CHR ''t'' then (CHR 0x09, u)
           else if d = CHR ''u'' then (char_of (16 * hex_value (u ! 2) + hex_value (u ! 3)), drop 4 u)
           else (d, u)
       | [] \<Rightarrow> (c, []))
   | [] \<Rightarrow> (CHR 0x00, []))"

lemma unescape_escape: "unescape (json_escape c @ s) = (c, s)"
proof (cases "c \<in> {CHR 0x22, CHR 0x5C, CHR 0x08, CHR 0x0C, CHR 0x0A, CHR 0x0D, CHR 0x09}")
  case True
  then show ?thesis by (auto simp: json_escape_def unescape_def)
next
  case False
  show ?thesis
  proof (cases "(of_char c :: nat) < 32")
    case True
    define n where "n = (of_char c :: nat)"
    have n: "n < 32" "char_of n = c" using True by (simp_all add: n_def)
    have "hex_value (hex_digit (n div 16)) = n div 16" "hex_value (hex_digit (n mod 16)) = n mod 16"
      using n(1) by (simp_all add: hex_value_digit)
    then have "16 * hex_value (hex_digit (n div 16)) + hex_value (hex_digit (n mod 16)) = n" by simp
    then show ?thesis using False True n by (simp add: json_escape_def unescape_def n_def [symmetric])
  next
    case False': False
    then show ?thesis using False by (simp add: json_escape_def unescape_def)
  qed
qed

lemma escape_head [simp]: "json_escape c \<noteq> CHR 0x22 # ds" "CHR 0x22 # ds \<noteq> json_escape c"
  by (auto simp: json_escape_def split: if_splits)

lemma escape_nonempty [simp]: "json_escape c \<noteq> []"
  by (simp add: json_escape_def)

lemma escaped_inject:
  "concat (map json_escape a) @ CHR 0x22 # u = concat (map json_escape b) @ CHR 0x22 # v \<Longrightarrow> a = b \<and> u = v"
proof (induction a arbitrary: b)
  case Nil
  then show ?case by (cases b) (auto simp: Cons_eq_append_conv)
next
  case (Cons c a)
  show ?case
  proof (cases b)
    case Nil
    then show ?thesis using Cons.prems by (auto simp: append_eq_Cons_conv)
  next
    case (Cons d b')
    have eq: "json_escape c @ (concat (map json_escape a) @ CHR 0x22 # u) =
        json_escape d @ (concat (map json_escape b') @ CHR 0x22 # v)"
      using Cons.prems Cons by simp
    then have "unescape (json_escape c @ (concat (map json_escape a) @ CHR 0x22 # u)) =
        unescape (json_escape d @ (concat (map json_escape b') @ CHR 0x22 # v))" by (simp only:)
    then have "c = d" "concat (map json_escape a) @ CHR 0x22 # u = concat (map json_escape b') @ CHR 0x22 # v"
      by (simp_all only: unescape_escape prod.inject)
    with Cons.IH [OF this(2)] Cons show ?thesis by simp
  qed
qed

lemma quote_inject: "json_quote a @ u = json_quote b @ v \<longleftrightarrow> a = b \<and> u = v"
  using escaped_inject [of a u b v] by (auto simp: json_quote_def)

lemma canonicalise_text:
  assumes "rp_timestamp p = Str ts"
  shows "canonicalise p = ''{'' @ json_quote ''marketId'' @ '':'' @ json_quote (rp_market p) @ '','' @
    json_quote ''outcome'' @ '':'' @ (if rp_outcome p then ''true'' else ''false'') @ '','' @
    json_quote ''timestamp'' @ '':'' @ json_quote ts @ ''}''"
  by (simp add: canonicalise_def assms)

lemma canonicalise_inject:
  assumes "rp_timestamp p = Str s" "rp_timestamp q = Str t" "canonicalise p = canonicalise q"
  shows "rp_market p = rp_market q \<and> rp_outcome p = rp_outcome q \<and> s = t"
proof -
  have 1: "json_quote (rp_market p) @ '','' @ json_quote ''outcome'' @ '':'' @ (if rp_outcome p then ''true'' else ''false'') @
      '','' @ json_quote ''timestamp'' @ '':'' @ json_quote s @ ''}'' = json_quote (rp_market q) @ '','' @
      json_quote ''outcome'' @ '':'' @ (if rp_outcome q then ''true'' else ''false'') @ '','' @
      json_quote ''timestamp'' @ '':'' @ json_quote t @ ''}''"
    using assms(3) unfolding canonicalise_text [OF assms(1)] canonicalise_text [OF assms(2)] by simp
  then have 2: "rp_market p = rp_market q" "(if rp_outcome p then ''true'' else ''false'') @
      '','' @ json_quote ''timestamp'' @ '':'' @ json_quote s @ ''}'' =
      (if rp_outcome q then ''true'' else ''false'') @ '','' @ json_quote ''timestamp'' @ '':'' @ json_quote t @ ''}''"
    by (simp_all add: quote_inject)
  then have 3: "rp_outcome p = rp_outcome q" by (auto split: if_splits)
  with 2(2) have "json_quote s @ ''}'' = json_quote t @ ''}''" by (auto split: if_splits)
  with 2(1) 3 show ?thesis using quote_inject by blast
qed

end
