(* ===== verification/ContractCalls.thy ===== *)
theory ContractCalls
  imports Calls JsValue
begin

text \<open>
  Invoking the Soroban contract, as \<open>submission-worker.ts\<close>, \<open>oracle/main.ts\<close> and
  \<open>settlement-worker.ts\<close> under \<open>apps/workers/src\<close> each do it: build, prepare, sign and send one
  transaction, then ask for its status once a second, at most 30 times. The Stellar SDK and its
  RPC server are an argument (\<open>stellar\<close>); accounts and transactions are their XDR texts.
\<close>

datatype sc_val = ScString string | ScBool bool | ScBytes string | ScAddress string | ScI128 int

record stellar_config =
  sc_rpc_url :: string
  sc_contract :: string
  sc_passphrase :: string
  sc_secret :: string

record invocation =
  iv_account :: string
  iv_contract :: string
  iv_function :: string
  iv_args :: "sc_val list"
  iv_fee :: string
  iv_passphrase :: string
  iv_timeout :: nat

record 'w stellar =
  sl_public_key :: "string \<Rightarrow> string + string"
  sl_contract :: "string \<Rightarrow> string + unit"
  sl_account :: "string \<Rightarrow> string \<Rightarrow> ('w, string) call"
  sl_build :: "invocation \<Rightarrow> string + string"
  sl_prepare :: "string \<Rightarrow> string \<Rightarrow> ('w, string) call"
  sl_sign :: "string \<Rightarrow> string \<Rightarrow> string"
  sl_send :: "string \<Rightarrow> string \<Rightarrow> ('w, string \<times> string) call"
  sl_status :: "string \<Rightarrow> string \<Rightarrow> ('w, string) call"
  sl_sleep :: "nat \<Rightarrow> 'w \<Rightarrow> 'w"

definition MAX_POLL_ATTEMPTS :: nat where "MAX_POLL_ATTEMPTS = 30"
definition POLL_INTERVAL_MS :: nat where "POLL_INTERVAL_MS = 1000"

definition sleep :: "'w stellar \<Rightarrow> nat \<Rightarrow> ('w, unit) call" where
  "sleep sl ms w = (Inr (), sl_sleep sl ms w)"

definition call_of :: "string + 'a \<Rightarrow> ('w, 'a) call" where
  "call_of r = (case r of Inl e \<Rightarrow> call_throw e | Inr x \<Rightarrow> call_return x)"

fun await_confirmation :: "'w stellar \<Rightarrow> stellar_config \<Rightarrow> string \<Rightarrow> string \<Rightarrow> nat \<Rightarrow> ('w, string) call" where
  "await_confirmation sl cfg fname hash 0 =
     call_throw (fname @ '' not confirmed after '' @ nat_string MAX_POLL_ATTEMPTS @ ''s: hash='' @ hash)"
| "await_confirmation sl cfg fname hash (Suc n) =
     call_bind (sleep sl POLL_INTERVAL_MS) (\<lambda>_.
     call_bind (sl_status sl (sc_rpc_url cfg) hash) (\<lambda>status.
       if status = ''SUCCESS'' then call_return hash
       else if status = ''FAILED'' then call_throw (fname @ '' transaction failed on-chain: hash='' @ hash)
       else await_confirmation sl cfg fname hash n))"

text \<open>Preparing, signing and sending the invocation; the arguments may not convert.\<close>

definition send_invocation :: "'w stellar \<Rightarrow> stellar_config \<Rightarrow> string \<Rightarrow> string + sc_val list \<Rightarrow> ('w, string) call" where
  "send_invocation sl cfg fname args =
     call_bind (call_of (sl_public_key sl (sc_secret cfg))) (\<lambda>pk.
     call_bind (call_of (sl_contract sl (sc_contract cfg))) (\<lambda>_.
     call_bind (sl_account sl (sc_rpc_url cfg) pk) (\<lambda>account.
     call_bind (call_of args) (\<lambda>vs.
     call_bind (call_of (sl_build sl \<lparr>iv_account = account, iv_contract = sc_contract cfg, iv_function = fname,
       iv_args = vs, iv_fee = ''100'', iv_passphrase = sc_passphrase cfg, iv_timeout = 30\<rparr>)) (\<lambda>tx.
     call_bind (sl_prepare sl (sc_rpc_url cfg) tx) (\<lambda>prepared.
     call_bind (sl_send sl (sc_rpc_url cfg) (sl_sign sl (sc_secret cfg) prepared)) (\<lambda>(status, hash).
       if status = ''ERROR'' then call_throw (fname @ '' submission failed: status=ERROR hash='' @ hash)
       else call_return hash)))))))"

definition invoke_contract :: "'w stellar \<Rightarrow> stellar_config \<Rightarrow> string \<Rightarrow> string + sc_val list \<Rightarrow> ('w, string) call" where
  "invoke_contract sl cfg fname args =
     call_bind (send_invocation sl cfg fname args) (\<lambda>hash. await_confirmation sl cfg fname hash MAX_POLL_ATTEMPTS)"

subsection \<open>Waiting for the confirmation\<close>

text \<open>The world before status query \<open>k\<close>, counted from 0, when the earlier ones were inconclusive.\<close>

fun poll_world :: "'w stellar \<Rightarrow> stellar_config \<Rightarrow> string \<Rightarrow> nat \<Rightarrow> 'w \<Rightarrow> 'w" where
  "poll_world sl cfg hash 0 w = sl_sleep sl POLL_INTERVAL_MS w"
| "poll_world sl cfg hash (Suc k) w =
     poll_world sl cfg hash k (snd (sl_status sl (sc_rpc_url cfg) hash (sl_sleep sl POLL_INTERVAL_MS w)))"

definition poll_answer :: "'w stellar \<Rightarrow> stellar_config \<Rightarrow> string \<Rightarrow> nat \<Rightarrow> 'w \<Rightarrow> string + string" where
  "poll_answer sl cfg hash k w = fst (sl_status sl (sc_rpc_url cfg) hash (poll_world sl cfg hash k w))"

definition inconclusive :: "string + string \<Rightarrow> bool" where
  "inconclusive a \<longleftrightarrow> (\<exists>s. a = Inr s \<and> s \<noteq> ''SUCCESS'' \<and> s \<noteq> ''FAILED'')"

lemma poll_answer_Suc:
  "poll_answer sl cfg hash (Suc k) w =
     poll_answer sl cfg hash k (snd (sl_status sl (sc_rpc_url cfg) hash (sl_sleep sl POLL_INTERVAL_MS w)))"
  by (simp add: poll_answer_def)

lemma await_step:
  "await_confirmation sl cfg fname hash (Suc n) w =
    (case poll_answer sl cfg hash 0 w of
       Inl e \<Rightarrow> (Inl e, snd (sl_status sl (sc_rpc_url cfg) hash (sl_sleep sl POLL_INTERVAL_MS w)))
     | Inr s \<Rightarrow> let w' = snd (sl_status sl (sc_rpc_url cfg) hash (sl_sleep sl POLL_INTERVAL_MS w)) in
         if s = ''SUCCESS'' then (Inr hash, w')
         else if s = ''FAILED'' then (Inl (fname @ '' transaction failed on-chain: hash='' @ hash), w')
         else await_confirmation sl cfg fname hash n w')"
  by (simp add: poll_answer_def call_bind_def sleep_def call_return_def call_throw_def Let_def
      split: sum.splits prod.splits)

text \<open>The wait ends with the first conclusive answer, or times out after \<open>n\<close> inconclusive ones.\<close>

lemma await_spec:
  "(\<exists>k < n. (\<forall>i < k. inconclusive (poll_answer sl cfg hash i w)) \<and> \<not> inconclusive (poll_answer sl cfg hash k w) \<and>
      fst (await_confirmation sl cfg fname hash n w) = (case poll_answer sl cfg hash k w of Inl e \<Rightarrow> Inl e
        | Inr s \<Rightarrow> if s = ''SUCCESS'' then Inr hash
            else Inl (fname @ '' transaction failed on-chain: hash='' @ hash))) \<or>
   (\<forall>i < n. inconclusive (poll_answer sl cfg hash i w)) \<and> fst (await_confirmation sl cfg fname hash n w) =
      Inl (fname @ '' not confirmed after '' @ nat_string MAX_POLL_ATTEMPTS @ ''s: hash='' @ hash)"
proof (induction n arbitrary: w)
  case 0
  then show ?case by (simp add: call_throw_def)
next
  case (Suc n)
  let ?w = "snd (sl_status sl (sc_rpc_url cfg) hash (sl_sleep sl POLL_INTERVAL_MS w))"
  show ?case
  proof (cases "inconclusive (poll_answer sl cfg hash 0 w)")
    case False
    have "fst (await_confirmation sl cfg fname hash (Suc n) w) = (case poll_answer sl cfg hash 0 w of Inl e \<Rightarrow> Inl e
        | Inr s \<Rightarrow> if s = ''SUCCESS'' then Inr hash
            else Inl (fname @ '' transaction failed on-chain: hash='' @ hash))"
      using False by (auto simp: await_step inconclusive_def Let_def simp del: await_confirmation.simps split: sum.splits)
    with False show ?thesis by (intro disjI1 exI [of _ 0]) simp
  next
    case True
    then have go: "await_confirmation sl cfg fname hash (Suc n) w = await_confirmation sl cfg fname hash n ?w"
      by (auto simp: await_step inconclusive_def Let_def simp del: await_confirmation.simps)
    have shift: "(\<forall>i < Suc k. inconclusive (poll_answer sl cfg hash i w)) \<longleftrightarrow>
        (\<forall>i < k. inconclusive (poll_answer sl cfg hash i ?w))" for k
      using True by (auto simp: All_less_Suc2 poll_answer_Suc)
    from Suc.IH [of ?w] show ?thesis
    proof (elim disjE exE conjE, goal_cases)
      case (1 k)
      then show ?thesis unfolding go
        by (intro disjI1 exI [of _ "Suc k"]) (simp add: shift poll_answer_Suc)
    next
      case 2
      then show ?thesis unfolding go by (intro disjI2) (simp add: shift)
    qed
  qed
qed

end
