(* ===== verification/JsNumeral.thy ===== *)
theory JsNumeral
  imports JsValue
begin

text \<open>
  Reading back printed numbers: \<open>Number(String(x))\<close> is \<open>x\<close> whenever some number of decimals
  (at most 25) identifies the double, in particular for prices in cents.
\<close>

lemma trim_id: "s \<noteq> [] \<Longrightarrow> \<not> is_space (hd s) \<Longrightarrow> \<not> is_space (last s) \<Longrightarrow> trim s = s"
proof -
  assume s: "s \<noteq> []" "\<not> is_space (hd s)" "\<not> is_space (last s)"
  have drop: "dropWhile is_space t = t" if "t \<noteq> []" "\<not> is_space (hd t)" for t
    using that by (cases t) auto
  have "hd (rev s) = last s" using s(1) by (simp add: hd_rev)
  then show ?thesis using drop [OF s(1,2)] drop [of "rev s"] s(1,3) by (simp add: trim_def)
qed

lemma zero_padded_value: "digits_value (replicate n (CHR ''0'') @ s) = digits_value s"
proof -
  have "foldl f a (replicate n z) = a" if "f a z = a" for f :: "nat \<Rightarrow> char \<Rightarrow> nat" and a z
    using that by (induction n) simp_all
  then have "digits_value (replicate n (CHR ''0'')) = 0" by (simp add: digits_value_def digit_val_def)
  then show ?thesis by (simp add: digits_value_append)
qed

lemma nat_string_length: "m < 10 ^ d \<Longrightarrow> 0 < d \<Longrightarrow> length (nat_string m) \<le> d"
proof (induction m arbitrary: d rule: nat_string.induct)
  case (1 m)
  show ?case
  proof (cases "m < 10")
    case True
    then show ?thesis using "1.prems" by (simp add: nat_string.simps [of m])
  next
    case False
    then have d: "1 < d" using "1.prems" by (cases "d = 1") auto
    then have "m div 10 < 10 ^ (d - 1)"
      using "1.prems"(1) by (cases d) (auto simp: less_mult_imp_div_less mult.commute)
    with "1.IH" [OF False this] d show ?thesis using False by (simp add: nat_string.simps [of m])
  qed
qed

lemma pad_digits:
  assumes "m < 10 ^ d" "0 < d"
  shows "length (pad_start d (CHR ''0'') (nat_string m)) = d \<and> digits_value (pad_start d (CHR ''0'') (nat_string m)) = m \<and>
    list_all is_digit (pad_start d (CHR ''0'') (nat_string m))"
  using nat_string_length [OF assms] by (auto simp: pad_start_def zero_padded_value list_all_iff is_digit_def
      dest: nat_string_digits)

lemma number_of_decimal:
  assumes "0 < d"
  shows "number_of_string (decimal_string d m) = Some (fl (of_nat m / 10 ^ d))"
proof -
  let ?a = "nat_string (m div 10 ^ d)" and ?b = "pad_start d (CHR ''0'') (nat_string (m mod 10 ^ d))"
  have b: "length ?b = d" "digits_value ?b = m mod 10 ^ d" "list_all is_digit ?b"
    using pad_digits [of "m mod 10 ^ d" d] assms by simp_all
  then have bne: "?b \<noteq> []" using assms by fastforce
  have a: "list_all is_digit ?a" "?a \<noteq> []" by simp_all
  let ?s = "?a @ CHR ''.'' # ?b"
  have hd: "is_digit (hd ?s)" using a by (cases ?a) simp_all
  have last: "is_digit (last ?s)" using b(3) bne by (simp add: list_all_iff)
  have trim: "trim ?s = ?s" using hd last digit_not_space by (intro trim_id) auto
  have nodot: "CHR ''.'' \<notin> set ?a" "CHR ''.'' \<notin> set ?b"
    using a(1) b(3) by (auto simp: list_all_iff is_digit_def)
  have split: "split_on (CHR ''.'') ?s = [?a, ?b]"
    using split_on_append [OF nodot(1)] split_on_none [OF nodot(2)] by simp
  have "digits_value (?a @ ?b) = m"
    unfolding digits_value_append b nat_string_value by (rule div_mult_mod_eq)
  then have "unsigned_number ?s = Some (of_nat m / 10 ^ d)"
    using a b bne by (simp add: unsigned_number_def split)
  moreover have "hd ?s \<noteq> CHR ''-'' \<and> hd ?s \<noteq> CHR ''+''" using hd by (auto simp: is_digit_def)
  ultimately show ?thesis using assms trim by (simp add: number_of_string_def decimal_string_def Let_def)
qed

lemma fraction_digits_good:
  assumes "j \<le> k" "k < j + n" "fl (of_int (math_round (x * 10 ^ k)) / 10 ^ k) = x"
  shows "fl (of_int (math_round (x * 10 ^ fraction_digits n j x)) / 10 ^ fraction_digits n j x) = x"
  using assms
proof (induction n j x rule: fraction_digits.induct)
  case (1 d x)
  then show ?case by simp
next
  case (2 n d x)
  show ?case
  proof (cases "fl (of_int (math_round (x * 10 ^ d)) / 10 ^ d) = x")
    case True
    then show ?thesis by simp
  next
    case False
    then have "Suc d \<le> k" using "2.prems" by (cases "d = k") auto
    with 2 False show ?thesis by simp
  qed
qed

lemma number_string_roundtrip:
  assumes "0 < x" "\<not> is_integer x" "k < 25" "fl (of_int (math_round (x * 10 ^ k)) / 10 ^ k) = x"
  shows "number_of_string (number_string x) = Some x"
proof -
  let ?d = "fraction_digits 25 0 x"
  have good: "fl (of_int (math_round (x * 10 ^ ?d)) / 10 ^ ?d) = x"
    using fraction_digits_good [of 0 k 25 x] assms(3,4) by simp
  have pos: "0 \<le> math_round (x * 10 ^ ?d)" using assms(1) by (simp add: math_round_def)
  have eq: "of_nat (nat (math_round (x * 10 ^ ?d))) = of_int (math_round (x * 10 ^ ?d))" using pos by simp
  have str: "number_string x = decimal_string ?d (nat (math_round (x * 10 ^ ?d)))"
    using assms(1,2) by (simp add: number_string_def Let_def)
  show ?thesis
  proof (cases "0 < ?d")
    case True
    then show ?thesis unfolding str number_of_decimal [OF True] eq good by simp
  next
    case False
    then have d: "?d = 0" by simp
    have "number_of_string (nat_string (nat (math_round (x * 10 ^ ?d)))) =
        Some (fl (of_nat (nat (math_round (x * 10 ^ ?d)))))"
      using number_of_digits [of "nat_string (nat (math_round (x * 10 ^ ?d)))"] by simp
    then show ?thesis unfolding str eq using good by (simp add: d decimal_string_def eq)
  qed
qed

lemma cents_bounds:
  assumes "1 \<le> c" "c \<le> 99"
  shows "\<bar>fl (of_int c / 100) - of_int c / 100\<bar> \<le> 1 / 1000000000000000"
proof -
  have "\<bar>fl (of_int c / 100) - of_int c / 100\<bar> \<le> 1 * eps" using assms by (intro fl_abs_error) auto
  with eps_bounds show ?thesis by linarith
qed

lemma cents_rounded:
  assumes "1 \<le> c" "c \<le> 99"
  shows "math_round (fl (of_int c / 100) * 10 ^ 2) = c"
  by (rule math_round_unique) (use cents_bounds [OF assms] in \<open>simp add: abs_less_iff abs_le_iff field_simps\<close>)

lemma cents_between:
  assumes "1 \<le> c" "c \<le> 99"
  shows "0 < fl (of_int c / 100)" "fl (of_int c / 100) < 1"
proof -
  have "(1::rat) \<le> of_int c" "of_int c \<le> (99::rat)" using assms by simp_all
  then show "0 < fl (of_int c / 100)" "fl (of_int c / 100) < 1"
    using cents_bounds [OF assms, THEN abs_le_D1] cents_bounds [OF assms, THEN abs_le_D2] by linarith+
qed

lemma cents_roundtrip:
  assumes "1 \<le> c" "c \<le> 99"
  shows "number_of_string (number_string (fl (of_int c / 100))) = Some (fl (of_int c / 100))"
proof (rule number_string_roundtrip [of _ 2])
  show "\<not> is_integer (fl (of_int c / 100))"
  proof
    assume "is_integer (fl (of_int c / 100))"
    then have "of_int \<lfloor>fl (of_int c / 100)\<rfloor> = fl (of_int c / 100)" by (simp add: is_integer_def)
    moreover have "\<lfloor>fl (of_int c / 100)\<rfloor> = 0" using cents_between [OF assms] by (simp add: floor_eq_iff)
    ultimately show False using cents_between(1) [OF assms] by simp
  qed
  show "fl (of_int (math_round (fl (of_int c / 100) * 10 ^ 2)) / 10 ^ 2) = fl (of_int c / 100)"
    unfolding cents_rounded [OF assms] by simp
qed (use cents_between [OF assms] in simp_all)

lemma decimal_string_chars: "c \<in> set (decimal_string d m) \<Longrightarrow> is_digit c \<or> c = CHR ''.''"
  by (auto simp: decimal_string_def pad_start_def is_digit_def dest!: nat_string_digits split: if_splits)

text \<open>The numbers that print to a literal which reads back to them.\<close>

definition printable :: "number \<Rightarrow> bool" where
  "printable x \<longleftrightarrow> number_of_string (number_string x) = Some x"

lemma printable_inject: "printable x \<Longrightarrow> printable y \<Longrightarrow> number_string x = number_string y \<Longrightarrow> x = y"
  by (simp add: printable_def)

lemma printable_nat: "n < 2 ^ 53 \<Longrightarrow> printable (of_int (int n))"
proof -
  assume n: "n < 2 ^ 53"
  have digits: "number_string (of_nat n) = nat_string n" using number_string_int [of "int n"] by (simp add: int_string_def)
  have "number_of_string (nat_string n) = Some (fl (of_nat n))" using number_of_digits [of "nat_string n"] by simp
  moreover have "fl (of_int (int n)) = of_int (int n)" using n by (intro fl_of_int) simp
  ultimately show ?thesis by (simp only: printable_def digits of_int_of_nat_eq)
qed

lemma printable_cents: "1 \<le> c \<Longrightarrow> c \<le> 99 \<Longrightarrow> printable (fl (of_int c / 100))"
  unfolding printable_def by (rule cents_roundtrip)

end
