(* ===== verification/Settlement.thy ===== *)
theory Settlement
  imports ContractCalls RedisService Engine JsNumeral
begin

text \<open>
  Settling trades on-chain: the producer \<open>src/services/settlement-queue.ts\<close>, the generic consumer
  \<open>consumers/queue-consumer.ts\<close>, the dead-letter log \<open>consumers/dead-letter.ts\<close> and
  \<open>settlement/settlement-worker.ts\<close> (under \<open>apps/workers/src\<close>). Redis, the Stellar SDK, JSON and the
  clock are arguments.
\<close>

subsection \<open>The producer\<close>

definition outcome_text :: "outcome \<Rightarrow> string" where
  "outcome_text oc = (case oc of YES \<Rightarrow> ''YES'' | NO \<Rightarrow> ''NO'')"

definition settlement_stream :: "string option \<Rightarrow> string option \<Rightarrow> string" where
  "settlement_stream queue_name kp =
     (case kp of Some p \<Rightarrow> p | None \<Rightarrow> ''vatix:'') @ (case queue_name of Some q \<Rightarrow> q | None \<Rightarrow> ''settlement-trades'')"

definition settlement_fields :: "trade \<Rightarrow> (string \<times> string) list" where
  "settlement_fields t = [(''tradeId'', tr_id t), (''marketId'', tr_market t), (''outcome'', outcome_text (tr_outcome t)),
     (''buyOrderId'', tr_buy_order t), (''sellOrderId'', tr_sell_order t), (''buyerAddress'', tr_buyer t),
     (''sellerAddress'', tr_seller t), (''price'', number_string (tr_price t)),
     (''quantity'', int_string (tr_quantity t)), (''timestamp'', int_string (tr_timestamp t))]"

definition settlement_enqueue :: "'w redis_client \<Rightarrow> string \<Rightarrow> trade \<Rightarrow> ('w, unit) call" where
  "settlement_enqueue client stream t =
     call_bind (rc_xadd client stream (concat (map (\<lambda>(k, v). [k, v]) (settlement_fields t)))) (\<lambda>_. call_return ())"

subsection \<open>Jobs\<close>

record settlement_payload =
  sp_trade :: string
  sp_market :: string
  sp_outcome :: string
  sp_buy_order :: string
  sp_sell_order :: string
  sp_buyer :: string
  sp_seller :: string
  sp_price :: string
  sp_quantity :: string
  sp_timestamp :: string

text \<open>The job data with the values of the producer's fields.\<close>

definition payload_of_trade :: "trade \<Rightarrow> settlement_payload" where
  "payload_of_trade t = (let f = (\<lambda>k. the (map_of (settlement_fields t) k)) in
     \<lparr>sp_trade = f ''tradeId'', sp_market = f ''marketId'', sp_outcome = f ''outcome'', sp_buy_order = f ''buyOrderId'',
      sp_sell_order = f ''sellOrderId'', sp_buyer = f ''buyerAddress'', sp_seller = f ''sellerAddress'',
      sp_price = f ''price'', sp_quantity = f ''quantity'', sp_timestamp = f ''timestamp''\<rparr>)"

record 'p queue_job =
  jb_id :: string
  jb_payload :: 'p
  jb_attempts :: nat

datatype job_log = JobProcessed | WillRetry string | MaxAttemptsExceeded string

text \<open>\<open>processJob\<close> runs the handler, logs what became of it and rethrows.\<close>

definition process_job :: "nat \<Rightarrow> 'p queue_job \<Rightarrow> ('p queue_job \<Rightarrow> ('w, unit) call) \<Rightarrow> 'w \<Rightarrow>
    (string + unit) \<times> 'w \<times> job_log" where
  "process_job max_attempts job handler w = (case handler job w of
     (Inr _, w') \<Rightarrow> (Inr (), w', JobProcessed)
   | (Inl e, w') \<Rightarrow> (Inl e, w', if jb_attempts job < max_attempts then WillRetry e else MaxAttemptsExceeded e))"

record dead_letter =
  dl_id :: string
  dl_queue :: string
  dl_payload_type :: string
  dl_payload :: string
  dl_reason :: string

definition dead_letter_stream :: "string option \<Rightarrow> string \<Rightarrow> string" where
  "dead_letter_stream kp queue_name = (case kp of Some p \<Rightarrow> p | None \<Rightarrow> ''vatix:'') @ ''dead-letter:'' @ queue_name"

definition dead_letter_fields :: "string \<Rightarrow> dead_letter \<Rightarrow> string list" where
  "dead_letter_fields timestamp m = [''messageId'', dl_id m, ''queue'', dl_queue m, ''reason'', dl_reason m,
     ''payloadType'', dl_payload_type m, ''payload'', dl_payload m, ''timestamp'', timestamp]"

text \<open>A failure to persist the message is logged and swallowed.\<close>

definition log_dead_letter :: "'w redis_client \<Rightarrow> string option \<Rightarrow> string \<Rightarrow> dead_letter \<Rightarrow> ('w, unit) call" where
  "log_dead_letter client kp timestamp m = call_catch
     (call_bind (rc_xadd client (dead_letter_stream kp (dl_queue m)) (dead_letter_fields timestamp m))
       (\<lambda>_. call_return ())) (\<lambda>_. call_return ())"

subsection \<open>The settlement worker\<close>

record 'w settlement_worker =
  sw_redis :: "'w redis_client"
  sw_stellar :: "stellar_config option"
  sw_sdk :: "'w stellar"
  sw_max_attempts :: nat
  sw_ttl :: number
  sw_json :: "settlement_payload \<Rightarrow> string"
  sw_env_prefix :: "string option"
  sw_iso_now :: "'w \<Rightarrow> string"

definition settled_key :: "string \<Rightarrow> string" where
  "settled_key trade_id = ''settlement:processed:'' @ trade_id"

text \<open>\<open>BigInt(Math.round(Number(price) * 1e7))\<close> and \<open>BigInt(quantity)\<close>.\<close>

definition scaled_price :: "string \<Rightarrow> string + int" where
  "scaled_price s = (case number_of_string s of
     None \<Rightarrow> Inl ''The number NaN cannot be converted to a BigInt because it is not an integer''
   | Some x \<Rightarrow> Inr (math_round (js_mul x 10000000)))"

definition big_quantity :: "string \<Rightarrow> string + int" where
  "big_quantity s = (case bigint_of_string s of
     None \<Rightarrow> Inl (''Cannot convert '' @ s @ '' to a BigInt'') | Some n \<Rightarrow> Inr n)"

definition settlement_args :: "settlement_payload \<Rightarrow> string + sc_val list" where
  "settlement_args p = res_bind (scaled_price (sp_price p)) (\<lambda>price. res_bind (big_quantity (sp_quantity p)) (\<lambda>quantity.
     Inr [ScString (sp_trade p), ScString (sp_market p), ScBool (sp_outcome p = ''YES''), ScAddress (sp_buyer p),
       ScAddress (sp_seller p), ScI128 price, ScI128 quantity]))"

definition execute_on_chain :: "'w settlement_worker \<Rightarrow> stellar_config \<Rightarrow> settlement_payload \<Rightarrow> ('w, unit) call" where
  "execute_on_chain sw cfg p =
     call_bind (invoke_contract (sw_sdk sw) cfg ''settle_trade'' (settlement_args p)) (\<lambda>_. call_return ())"

definition handle_job :: "'w settlement_worker \<Rightarrow> settlement_payload queue_job \<Rightarrow> ('w, unit) call" where
  "handle_job sw job = (let p = jb_payload job in
     call_bind (rc_exists (sw_redis sw) (settled_key (sp_trade p))) (\<lambda>already.
       if js_truthy already then call_return ()
       else call_bind (case sw_stellar sw of Some cfg \<Rightarrow> execute_on_chain sw cfg p | None \<Rightarrow> call_return ())
         (\<lambda>_. rc_set (sw_redis sw) (settled_key (sp_trade p)) ''1'' [Num (sw_ttl sw)])))"

definition settlement_process :: "'w settlement_worker \<Rightarrow> settlement_payload queue_job \<Rightarrow> ('w, unit) call" where
  "settlement_process sw job w = (case process_job (sw_max_attempts sw) job (handle_job sw) w of
     (Inr _, w', _) \<Rightarrow> (Inr (), w')
   | (Inl e, w', _) \<Rightarrow> (if sw_max_attempts sw \<le> jb_attempts job
       then call_bind (log_dead_letter (sw_redis sw) (sw_env_prefix sw) (sw_iso_now sw w')
           \<lparr>dl_id = jb_id job, dl_queue = ''settlement'', dl_payload_type = ''object'',
            dl_payload = sw_json sw (jb_payload job), dl_reason = e\<rparr>) (\<lambda>_. call_throw e) w'
       else (Inl e, w')))"

text \<open>A BullMQ job, delivered after \<open>attempts_made\<close> earlier attempts.\<close>

record 'p bull_job =
  bj_id :: "string option"
  bj_name :: string
  bj_data :: 'p
  bj_attempts_made :: nat

definition consume :: "'w settlement_worker \<Rightarrow> settlement_payload bull_job \<Rightarrow> ('w, unit) call" where
  "consume sw j = settlement_process sw
     \<lparr>jb_id = (case bj_id j of Some i \<Rightarrow> i | None \<Rightarrow> bj_name j), jb_payload = bj_data j, jb_attempts = bj_attempts_made j + 1\<rparr>"

fun consume_all :: "'w settlement_worker \<Rightarrow> settlement_payload bull_job list \<Rightarrow> 'w \<Rightarrow> 'w" where
  "consume_all sw [] w = w"
| "consume_all sw (j # js) w = consume_all sw js (snd (consume sw j w))"

subsection \<open>The price on the chain\<close>

lemma bigint_of_int_string: "bigint_of_string (int_string n) = Some n"
proof (cases "n < 0")
  case True
  let ?t = "nat_string (nat (- n))"
  have t: "list_all is_digit ?t" "?t \<noteq> []" by simp_all
  have "is_digit (last ?t)" using t by (simp add: list_all_iff)
  then have "\<not> is_space (last (CHR ''-'' # ?t))" using t(2) digit_not_space by simp
  then have "trim (CHR ''-'' # ?t) = CHR ''-'' # ?t" by (intro trim_id) (simp_all add: is_space_def)
  then show ?thesis using True by (simp add: bigint_of_string_def int_string_def)
next
  case False
  then show ?thesis by (simp add: int_string_def bigint_of_digits)
qed

lemma cents_scaled:
  assumes "1 \<le> c" "c \<le> 99"
  shows "scaled_price (number_string (fl (of_int c / 100))) = Inr (c * 100000)"
proof -
  let ?x = "fl (of_int c / 100)"
  have x: "\<bar>?x * 10000000\<bar> \<le> 10000000" using cents_between [OF assms] by simp
  have "\<bar>js_mul ?x 10000000 - ?x * 10000000\<bar> \<le> 10000000 * eps"
    unfolding js_mul_def by (rule fl_abs_error [OF x])
  then have "\<bar>js_mul ?x 10000000 - ?x * 10000000\<bar> \<le> 1 / 100000000" using eps_bounds(2) by linarith
  moreover have "\<bar>?x * 10000000 - of_int (c * 100000)\<bar> \<le> 1 / 100000000"
  proof -
    have "rat_of_int (c * 100000) = of_int c * 100000" by simp
    then show ?thesis
      using cents_bounds [OF assms, THEN abs_le_D1] cents_bounds [OF assms, THEN abs_le_D2]
      by (intro abs_leI) linarith+
  qed
  ultimately have "\<bar>js_mul ?x 10000000 - of_int (c * 100000)\<bar> < 1 / 2" by linarith
  then show ?thesis by (simp add: scaled_price_def cents_roundtrip [OF assms] math_round_unique del: of_int_mult)
qed

text \<open>C20: what a matched trade was priced and counted at is what the contract settles: for a price of c cents
  the queue's decimal text, read back and scaled by 1e7, is the exact fixed-point price, and
  quantity, parties and outcome arrive as they were.\<close>
theorem settlement_args_exact:
  assumes "1 \<le> c" "c \<le> 99" "tr_price t = fl (of_int c / 100)"
  shows "settlement_args (payload_of_trade t) = Inr [ScString (tr_id t), ScString (tr_market t),
     ScBool (tr_outcome t = YES), ScAddress (tr_buyer t), ScAddress (tr_seller t), ScI128 (c * 100000),
     ScI128 (tr_quantity t)]"
  using cents_scaled [OF assms(1,2)]
  by (simp add: payload_of_trade_def settlement_fields_def settlement_args_def Let_def assms(3) big_quantity_def
      bigint_of_int_string outcome_text_def split: outcome.splits)

definition demo_settled_trade :: trade where
  "demo_settled_trade = \<lparr>tr_id = ''b_s_3'', tr_market = ''m'', tr_outcome = NO, tr_buyer = ''GB'', tr_seller = ''GS'',
     tr_buy_order = ''b'', tr_sell_order = ''s'', tr_price = fl (of_int 29 / 100), tr_quantity = 3, tr_timestamp = 1000\<rparr>"

theorem settlement_args_exact_witness:
  "settlement_args (payload_of_trade demo_settled_trade) = Inr [ScString ''b_s_3'', ScString ''m'', ScBool False,
     ScAddress ''GB'', ScAddress ''GS'', ScI128 2900000, ScI128 3]"
  using settlement_args_exact [of 29 demo_settled_trade] by (simp add: demo_settled_trade_def)

subsection \<open>Settling once\<close>

text \<open>What the worker relies on: \<open>exists\<close> tells whether the key is set, \<open>set\<close> sets it, and nothing takes it
  away (within its time to live).\<close>

locale settled_marks =
  fixes sw :: "'w settlement_worker" and keys :: "'w \<Rightarrow> string set"
  assumes exists_law: "\<exists>v. rc_exists (sw_redis sw) k w = (Inr v, w) \<and> (js_truthy v \<longleftrightarrow> k \<in> keys w)"
    and set_law: "rc_set (sw_redis sw) k v [Num (sw_ttl sw)] w = (r1, w') \<Longrightarrow>
      keys w \<subseteq> keys w' \<and> (r1 = Inr () \<longrightarrow> k \<in> keys w')"
    and xadd_law: "keys w \<subseteq> keys (snd (rc_xadd (sw_redis sw) s fs w))"
    and chain_law: "keys w \<subseteq> keys (snd (invoke_contract (sw_sdk sw) cfg fname args w))"
begin

lemma handle_settled:
  assumes "settled_key (sp_trade (jb_payload j)) \<in> keys w"
  shows "handle_job sw j w = (Inr (), w)"
  using exists_law [of "settled_key (sp_trade (jb_payload j))" w] assms
  by (auto simp: handle_job_def Let_def call_bind_def call_return_def)

lemma handle_keys:
  assumes "handle_job sw j w = (r, w')"
  shows "keys w \<subseteq> keys w' \<and> (r = Inr () \<longrightarrow> settled_key (sp_trade (jb_payload j)) \<in> keys w')"
proof -
  let ?k = "settled_key (sp_trade (jb_payload j))"
  obtain v where v: "rc_exists (sw_redis sw) ?k w = (Inr v, w)" "js_truthy v \<longleftrightarrow> ?k \<in> keys w"
    using exists_law by blast
  show ?thesis
  proof (cases "?k \<in> keys w")
    case True
    with handle_settled [OF this] assms show ?thesis by simp
  next
    case False
    let ?chain = "case sw_stellar sw of Some cfg \<Rightarrow> execute_on_chain sw cfg (jb_payload j) | None \<Rightarrow> call_return ()"
    have chain: "keys w \<subseteq> keys w1" if run: "?chain w = (c, w1)" for c w1
    proof (cases "sw_stellar sw")
      case (Some cfg)
      have "w1 = snd (invoke_contract (sw_sdk sw) cfg ''settle_trade'' (settlement_args (jb_payload j)) w)"
        using run Some by (auto simp: execute_on_chain_def elim!: call_bind_cases)
      then show ?thesis using chain_law by simp
    qed (use run in simp)
    from assms v False have "call_bind ?chain (\<lambda>_. rc_set (sw_redis sw) ?k ''1'' [Num (sw_ttl sw)]) w = (r, w')"
      by (simp add: handle_job_def Let_def call_bind_def)
    then show ?thesis
    proof (cases rule: call_bind_cases)
      case (fail e)
      with chain show ?thesis by simp
    next
      case (ok x w1)
      with chain [OF ok(1)] set_law [OF ok(2)] show ?thesis by auto
    qed
  qed
qed

lemma process_ok:
  assumes "settlement_process sw j w = (Inr (), w')"
  shows "handle_job sw j w = (Inr (), w')"
proof (cases "handle_job sw j w")
  case (Pair r w1)
  show ?thesis
  proof (cases r)
    case (Inl e)
    have no: "call_bind c (\<lambda>_. call_throw e) w2 \<noteq> (Inr (), w')" for c :: "('w, unit) call" and w2
      by (auto elim!: call_bind_cases)
    show ?thesis using assms no by (simp add: settlement_process_def process_job_def Pair Inl split: if_splits)
  qed (use assms Pair in \<open>simp add: settlement_process_def process_job_def\<close>)
qed

lemma dead_letter_keys: "keys w \<subseteq> keys (snd (log_dead_letter (sw_redis sw) kp t m w))"
  using xadd_law [of w "dead_letter_stream kp (dl_queue m)" "dead_letter_fields t m"]
  by (auto simp: log_dead_letter_def call_catch_def call_bind_def call_return_def split: prod.splits sum.splits)

lemma process_keys: "keys w \<subseteq> keys (snd (settlement_process sw j w))"
proof (cases "handle_job sw j w")
  case (Pair r w1)
  note h = handle_keys [OF Pair]
  show ?thesis
  proof (cases r)
    case (Inr u)
    with Pair h show ?thesis by (simp add: settlement_process_def process_job_def)
  next
    case (Inl e)
    have after: "keys w1 \<subseteq> keys (snd (call_bind (log_dead_letter (sw_redis sw) kp t m) (\<lambda>_. call_throw e) w1))"
      for kp t m
      using dead_letter_keys [of w1 kp t m] by (auto simp: call_bind_def call_throw_def split: prod.splits sum.splits)
    show ?thesis using h after by (force simp: settlement_process_def process_job_def Pair Inl)
  qed
qed

lemma settled_once:
  assumes "consume sw j w = (Inr (), w1)" "sp_trade (bj_data j') = sp_trade (bj_data j)"
  shows "consume sw j' (consume_all sw js w1) = (Inr (), consume_all sw js w1)"
proof -
  have "settled_key (sp_trade (bj_data j)) \<in> keys w1"
    using handle_keys [OF process_ok [OF assms(1) [unfolded consume_def]]] by simp
  moreover have "keys w1 \<subseteq> keys (consume_all sw js w1)"
  proof (induction js arbitrary: w1)
    case (Cons a js)
    have "keys w1 \<subseteq> keys (snd (consume sw a w1))" using process_keys by (simp add: consume_def)
    with Cons.IH show ?case by force
  qed simp
  ultimately have "settled_key (sp_trade (bj_data j')) \<in> keys (consume_all sw js w1)" using assms(2) by auto
  then show ?thesis
    by (simp add: consume_def settlement_process_def process_job_def handle_settled)
qed

end

subsection \<open>A Redis server beside a chain\<close>

definition on_redis :: "(memory_redis, 'a) call \<Rightarrow> (memory_redis \<times> 'c, 'a) call" where
  "on_redis f w = (case f (fst w) of (r, m) \<Rightarrow> (r, (m, snd w)))"

definition on_chain :: "('c, 'a) call \<Rightarrow> (memory_redis \<times> 'c, 'a) call" where
  "on_chain f w = (case f (snd w) of (r, c) \<Rightarrow> (r, (fst w, c)))"

definition redis_beside :: "memory_redis redis_client \<Rightarrow> (memory_redis \<times> 'c) redis_client" where
  "redis_beside r = \<lparr>
     rc_xgroup = (\<lambda>k g s m. on_redis (rc_xgroup r k g s m)),
     rc_exists = (\<lambda>k. on_redis (rc_exists r k)),
     rc_set = (\<lambda>k v args. on_redis (rc_set r k v args)),
     rc_del = (\<lambda>k. on_redis (rc_del r k)),
     rc_xadd = (\<lambda>k fs. on_redis (rc_xadd r k fs)),
     rc_xreadgroup = (\<lambda>g c k s n b. on_redis (rc_xreadgroup r g c k s n b)),
     rc_xack = (\<lambda>k g i. on_redis (rc_xack r k g i)),
     rc_xclaim = (\<lambda>k g c n i. on_redis (rc_xclaim r k g c n i))\<rparr>"

definition chain_beside :: "'c stellar \<Rightarrow> (memory_redis \<times> 'c) stellar" where
  "chain_beside sl = \<lparr>
     sl_public_key = sl_public_key sl,
     sl_contract = sl_contract sl,
     sl_account = (\<lambda>u k. on_chain (sl_account sl u k)),
     sl_build = sl_build sl,
     sl_prepare = (\<lambda>u tx. on_chain (sl_prepare sl u tx)),
     sl_sign = sl_sign sl,
     sl_send = (\<lambda>u tx. on_chain (sl_send sl u tx)),
     sl_status = (\<lambda>u h. on_chain (sl_status sl u h)),
     sl_sleep = (\<lambda>n (m, c). (m, sl_sleep sl n c))\<rparr>"

lemma on_chain_preserves [simp]: "preserves fst (on_chain f)"
  by (simp add: preserves_def on_chain_def split: prod.splits)

lemma call_of_preserves [simp]: "preserves view (call_of r)"
  by (simp add: call_of_def split: sum.splits)

lemma chain_parts [simp]:
  "preserves fst (sleep (chain_beside sl) n)" "preserves fst (sl_account (chain_beside sl) u k)"
  "preserves fst (sl_prepare (chain_beside sl) u tx)" "preserves fst (sl_send (chain_beside sl) u tx)"
  "preserves fst (sl_status (chain_beside sl) u h)"
  by (simp_all add: chain_beside_def preserves_def sleep_def on_chain_def split: prod.splits)

lemma await_preserves: "preserves fst (await_confirmation (chain_beside sl) cfg fname hash n)"
  by (induction n) (auto intro!: preserves_bind)

lemma invoke_preserves: "preserves fst (invoke_contract (chain_beside sl) cfg fname args)"
  unfolding invoke_contract_def send_invocation_def
  by (auto intro!: preserves_bind await_preserves split: prod.splits)

text \<open>The worker over the service's Redis client and a chain.\<close>

definition settlement_worker_on :: "'c stellar \<Rightarrow> stellar_config option \<Rightarrow> nat \<Rightarrow> nat \<Rightarrow> (settlement_payload \<Rightarrow> string) \<Rightarrow>
    string option \<Rightarrow> (memory_redis \<times> 'c \<Rightarrow> string) \<Rightarrow> (memory_redis \<times> 'c) settlement_worker" where
  "settlement_worker_on sl cfg max_attempts ttl json kp stamp = \<lparr>sw_redis = redis_beside (service_client memory_server),
     sw_stellar = cfg, sw_sdk = chain_beside sl, sw_max_attempts = max_attempts, sw_ttl = of_nat ttl, sw_json = json,
     sw_env_prefix = kp, sw_iso_now = stamp\<rparr>"

definition redis_keys :: "memory_redis \<times> 'c \<Rightarrow> string set" where
  "redis_keys w = memory_keys (fst w)"

lemma is_integer_of_nat [simp]: "is_integer (of_nat n)"
  using is_integer_of_int [of "int n"] by simp

interpretation marks: settled_marks "settlement_worker_on sl cfg max_attempts ttl json kp stamp" redis_keys
  for sl :: "'c stellar" and cfg max_attempts ttl json kp stamp
proof (unfold_locales, goal_cases)
  case (1 k w)
  show ?case using memory_exists [of k "fst w"]
    by (simp add: settlement_worker_on_def redis_beside_def on_redis_def redis_keys_def js_truthy_def)
next
  case (2 k v w r1 w')
  have "memory_keys m \<subseteq> memory_keys m' \<and> (r = Inr () \<longrightarrow> k \<in> memory_keys m')"
    if run: "redis_set memory_server k v (Num (of_nat ttl)) m = (r, m')" for m m' r
    using run by (cases "ttl = 0") (auto simp: redis_set_def js_truthy_def memory_server_def memory_set_def memory_keys_update)
  with 2 show ?case
    by (fastforce simp: settlement_worker_on_def redis_beside_def on_redis_def service_client_def redis_keys_def
        split: prod.splits)
next
  case (3 w s fs)
  show ?case
    by (auto simp: settlement_worker_on_def redis_beside_def on_redis_def service_client_def redis_xadd_def memory_server_def
        redis_keys_def memory_keys_def)
next
  case (4 w cfg' fname args)
  have "fst (snd (invoke_contract (chain_beside sl) cfg' fname args w)) = fst w"
    using invoke_preserves [of sl cfg' fname args, unfolded preserves_def] by blast
  then show ?case by (simp add: settlement_worker_on_def redis_keys_def)
qed


text \<open>A chain that keeps the transactions it was sent and confirms them at the first query.\<close>

definition demo_ledger :: "string list stellar" where
  "demo_ledger = \<lparr>sl_public_key = (\<lambda>s. Inr (CHR ''G'' # s)), sl_contract = (\<lambda>c. Inr ()), sl_account = (\<lambda>u k c. (Inr k, c)),
     sl_build = (\<lambda>iv. Inr (iv_function iv)), sl_prepare = (\<lambda>u tx c. (Inr tx, c)), sl_sign = (\<lambda>s tx. tx),
     sl_send = (\<lambda>u tx c. (Inr (''PENDING'', ''h''), c @ [tx])), sl_status = (\<lambda>u h c. (Inr ''SUCCESS'', c)),
     sl_sleep = (\<lambda>n c. c)\<rparr>"

definition demo_worker :: "(memory_redis \<times> string list) settlement_worker" where
  "demo_worker = settlement_worker_on demo_ledger (Some \<lparr>sc_rpc_url = ''u'', sc_contract = ''C'', sc_passphrase = ''p'',
     sc_secret = ''S''\<rparr>) 3 86400 sp_trade None (\<lambda>_. ''now'')"

definition demo_job :: "string \<Rightarrow> string \<Rightarrow> settlement_payload bull_job" where
  "demo_job i t = \<lparr>bj_id = Some i, bj_name = ''settle'', bj_data = \<lparr>sp_trade = t, sp_market = ''m'', sp_outcome = ''NO'',
     sp_buy_order = ''b'', sp_sell_order = ''s'', sp_buyer = ''GB'', sp_seller = ''GS'', sp_price = ''1'',
     sp_quantity = ''3'', sp_timestamp = ''1000''\<rparr>, bj_attempts_made = 0\<rparr>"

lemma demo_args:
  "settlement_args (bj_data (demo_job i t)) = Inr [ScString t, ScString ''m'', ScBool False, ScAddress ''GB'',
     ScAddress ''GS'', ScI128 10000000, ScI128 3]"
proof -
  have "number_of_string ''1'' = Some (fl (of_nat (digits_value ''1'')))" by (rule number_of_digits) code_simp
  moreover have "fl (of_int 1) = of_int 1" "fl (of_int 10000000) = of_int 10000000" by (rule fl_of_int; simp)+
  moreover have "digits_value ''1'' = 1" "bigint_of_string ''3'' = Some 3" by code_simp+
  ultimately show ?thesis
    using math_round_unique [of 10000000 10000000]
    by (simp add: demo_job_def settlement_args_def scaled_price_def js_mul_def big_quantity_def)
qed

lemma demo_invoke:
  "execute_on_chain demo_worker cfg (bj_data (demo_job i t)) (m, c) = (Inr (), (m, c @ [''settle_trade'']))"
proof -
  have "await_confirmation (chain_beside demo_ledger) cfg ''settle_trade'' ''h'' MAX_POLL_ATTEMPTS w = (Inr ''h'', w)" for w
    by (cases w) (simp add: MAX_POLL_ATTEMPTS_def numeral_eq_Suc call_bind_def sleep_def chain_beside_def demo_ledger_def
        on_chain_def call_return_def)
  then show ?thesis
    by (simp add: execute_on_chain_def invoke_contract_def send_invocation_def demo_args call_of_def demo_worker_def
        settlement_worker_on_def call_bind_def chain_beside_def demo_ledger_def on_chain_def call_return_def)
qed

lemma demo_consume:
  "consume demo_worker (demo_job i t) (m, c) = (if map_of (mr_strings m) (settled_key t) = None
     then (Inr (), (m\<lparr>mr_strings := AList.update (settled_key t) ''1'' (mr_strings m)\<rparr>, c @ [''settle_trade'']))
     else (Inr (), (m, c)))"
proof -
  have job: "bj_data (demo_job i t) = p \<Longrightarrow> execute_on_chain demo_worker cfg p (m, c) = (Inr (), (m, c @ [''settle_trade'']))"
    for p cfg m c using demo_invoke [of cfg i t m c] by simp
  have trade: "sp_trade (bj_data (demo_job i t)) = t" by (simp add: demo_job_def)
  obtain cfg where cfg: "sw_stellar demo_worker = Some cfg" by (simp add: demo_worker_def settlement_worker_on_def)
  have parts: "sw_redis demo_worker = redis_beside (service_client memory_server)" "sw_ttl demo_worker = 86400"
    by (simp_all add: demo_worker_def settlement_worker_on_def)
  show ?thesis
    by (simp add: consume_def settlement_process_def process_job_def handle_job_def Let_def cfg parts job [OF refl] trade
        call_bind_def call_return_def redis_beside_def on_redis_def memory_exists memory_has js_truthy_def)
      (simp add: service_client_def redis_set_def js_truthy_def memory_server_def memory_set_def is_integer_def)
qed

lemma demo_settles:
  "consume demo_worker (demo_job ''1'' ''t'') (empty_redis, []) =
    (Inr (), (empty_redis\<lparr>mr_strings := [(settled_key ''t'', ''1'')]\<rparr>, [''settle_trade'']))"
  by (simp add: demo_consume empty_redis_def)


end
