(* ===== verification/SubmissionWorker.thy ===== *)
theory SubmissionWorker
  imports RedisQueue ResolutionReport ContractCalls Settlement
begin

text \<open>
  From a resolved market to the chain: \<open>apps/oracle/main.ts\<close> (\<open>poll\<close>: resolve, sign, store a report,
  enqueue), \<open>apps/workers/src/oracle/submission-worker.ts\<close> (verify, submit, persist, acknowledge or
  retry) and \<open>apps/workers/src/oracle/main.ts\<close> with \<open>bullmq-submission-queue.ts\<close> (the same work as a BullMQ
  job handler). Database, chain, key pairs, hashing and clock are arguments.
\<close>

subsection \<open>Rows\<close>

datatype report_status = PENDING | SUBMITTED | CONFIRMED | FAILED

record report_row =
  or_hash :: string
  or_source :: string
  or_confidence :: js
  or_market :: string
  or_candidate :: "bool option"
  or_status :: report_status
  or_attempts :: nat
  or_tx_hash :: "string option"
  or_created_at :: js

record candidate_row =
  cr_market :: string
  cr_outcome :: bool
  cr_source :: string
  cr_operator :: string
  cr_key :: string

record 'w oracle_db =
  od_create_report :: "report_row \<Rightarrow> ('w, unit) call"
  od_upsert_candidate :: "string \<Rightarrow> candidate_row \<Rightarrow> bool \<Rightarrow> ('w, unit) call"
  od_update_reports :: "string \<Rightarrow> (report_row \<Rightarrow> report_row) \<Rightarrow> ('w, unit) call"
  od_reject_candidates :: "string \<Rightarrow> string \<Rightarrow> ('w, unit) call"

subsection \<open>The worker\<close>

record 'w submission_worker =
  wk_queue :: "'w redis_queue"
  wk_db :: "'w oracle_db"
  wk_max_retries :: nat
  wk_consumer :: string
  wk_stellar :: "stellar_config option"
  wk_sdk :: "'w stellar"
  wk_keys :: keypairs
  wk_iso_now :: "'w \<Rightarrow> string"
  wk_hash :: "string \<Rightarrow> string + string"
  wk_env_prefix :: "string option"

definition create_signed_report :: "string \<Rightarrow> submission_item \<Rightarrow> signed_report" where
  "create_signed_report now i = \<lparr>
     sr_payload = \<lparr>rp_market = rq_market (si_request i), rp_outcome = pv_outcome (si_result i), rp_timestamp = Str now\<rparr>,
     sr_signature = or_else (pv_signature (si_result i)) [], sr_public_key = or_else (pv_public_key (si_result i)) []\<rparr>"

definition resolve_args :: "signed_report \<Rightarrow> string + sc_val list" where
  "resolve_args r = Inr [ScString (rp_market (sr_payload r)), ScBool (rp_outcome (sr_payload r)),
     ScBytes (sr_signature r), ScAddress (sr_public_key r)]"

definition submit_on_chain :: "'w submission_worker \<Rightarrow> signed_report \<Rightarrow> string \<Rightarrow> ('w, string option) call" where
  "submit_on_chain wk r oracle =
     (if rp_market (sr_payload r) = [] \<or> sr_signature r = [] \<or> sr_public_key r = []
      then call_throw ''Invalid report: missing required fields''
      else if oracle = [] then call_throw ''Invalid oracle address''
      else (case wk_stellar wk of
        None \<Rightarrow> call_return None
      | Some cfg \<Rightarrow> call_bind (invoke_contract (wk_sdk wk) cfg ''resolve_market'' (resolve_args r))
          (\<lambda>hash. call_return (Some hash))))"

definition candidate_key :: "string \<Rightarrow> string \<Rightarrow> string" where
  "candidate_key market oracle = market @ '':'' @ oracle"

definition candidate_of :: "string \<Rightarrow> bool \<Rightarrow> string \<Rightarrow> candidate_row" where
  "candidate_of market oc oracle = \<lparr>cr_market = market, cr_outcome = oc, cr_source = oracle, cr_operator = oracle,
     cr_key = candidate_key market oracle\<rparr>"

text \<open>Computing the hash may fail: it goes through \<open>require("crypto")\<close>.\<close>

definition update_on_success :: "'w submission_worker \<Rightarrow> queued_submission \<Rightarrow> signed_report \<Rightarrow> string option \<Rightarrow>
    ('w, unit) call" where
  "update_on_success wk s r tx = (let p = sr_payload r; oracle = rq_oracle (si_request s) in
     call_bind (call_of (wk_hash wk (canonicalise p))) (\<lambda>hash.
     call_bind (od_create_report (wk_db wk) \<lparr>or_hash = hash, or_source = oracle, or_confidence = Num 1,
       or_market = rp_market p, or_candidate = Some (rp_outcome p), or_status = CONFIRMED,
       or_attempts = si_attempts s + 1, or_tx_hash = tx, or_created_at = rp_timestamp p\<rparr>) (\<lambda>_.
     od_upsert_candidate (wk_db wk) (candidate_key (rp_market p) oracle)
       (candidate_of (rp_market p) (rp_outcome p) oracle) (rp_outcome p))))"

definition attempt_confidence :: "nat \<Rightarrow> number" where
  "attempt_confidence n = max 0 (js_sub 1 (js_mul (of_nat n) (fl (1 / 5))))"

definition swallow :: "('w, unit) call \<Rightarrow> ('w, unit) call" where
  "swallow c = call_catch c (\<lambda>_. call_return ())"

definition update_attempt :: "'w submission_worker \<Rightarrow> queued_submission \<Rightarrow> ('w, unit) call" where
  "update_attempt wk s = swallow (od_update_reports (wk_db wk) (rq_market (si_request s))
     (\<lambda>row. row\<lparr>or_confidence := Num (attempt_confidence (si_attempts s)), or_status := SUBMITTED,
        or_attempts := si_attempts s\<rparr>))"

definition submission_dead_letter :: "queued_submission \<Rightarrow> string \<Rightarrow> dead_letter" where
  "submission_dead_letter s e = \<lparr>dl_id = si_id s, dl_queue = ''oracle-submission'', dl_payload_type = ''object'',
     dl_payload = ''{'' @ join_with '','' (json_members [(''marketId'', Str (rq_market (si_request s))),
       (''oracleAddress'', Str (rq_oracle (si_request s))), (''attempts'', Num (of_nat (si_attempts s)))]) @ ''}'',
     dl_reason = e\<rparr>"

definition update_on_failure :: "'w submission_worker \<Rightarrow> queued_submission \<Rightarrow> string \<Rightarrow> ('w, unit) call" where
  "update_on_failure wk s e = (\<lambda>w.
     call_bind (log_dead_letter (sq_client (wk_queue wk)) (wk_env_prefix wk) (wk_iso_now wk w)
       (submission_dead_letter s e)) (\<lambda>_.
     swallow (call_bind (od_update_reports (wk_db wk) (rq_market (si_request s))
         (\<lambda>row. row\<lparr>or_candidate := None, or_status := FAILED, or_attempts := si_attempts s\<rparr>)) (\<lambda>_.
       od_reject_candidates (wk_db wk) (rq_market (si_request s)) (rq_oracle (si_request s))))) w)"

text \<open>What the \<open>catch\<close> of \<open>processSubmission\<close> does with error \<open>e\<close>, ending with rethrowing it.\<close>

definition fail_submission :: "'w submission_worker \<Rightarrow> queued_submission \<Rightarrow> string \<Rightarrow> ('w, unit) call" where
  "fail_submission wk s e = (\<lambda>w. let next = si_attempts s + 1 in
     if next < wk_max_retries wk
     then (let updated = s\<lparr>si_attempts := next, si_last_attempt := Some (wk_iso_now wk w), si_last_error := Some e\<rparr> in
       call_bind (update_attempt wk updated) (\<lambda>_.
       call_bind (redis_nack (wk_queue wk) updated (wk_consumer wk)) (\<lambda>_. call_throw e)) w)
     else call_bind (update_on_failure wk (s\<lparr>si_attempts := next\<rparr>) e) (\<lambda>_.
       call_bind (redis_acknowledge (wk_queue wk) s) (\<lambda>_. call_throw e)) w)"

definition process_submission :: "'w submission_worker \<Rightarrow> queued_submission \<Rightarrow> ('w, unit) call" where
  "process_submission wk s = call_catch
     (\<lambda>w. let report = create_signed_report (wk_iso_now wk w) (submission_item.truncate s) in
       if \<not> verify_resolution_report (wk_keys wk) report then (Inl ''Signature verification failed'', w)
       else call_bind (submit_on_chain wk report (rq_oracle (si_request s))) (\<lambda>tx.
         call_bind (update_on_success wk s report tx) (\<lambda>_. redis_acknowledge (wk_queue wk) s)) w)
     (fail_submission wk s)"

subsection \<open>The BullMQ queue and worker\<close>

record 'w bull_queue =
  bq_get_job :: "string \<Rightarrow> ('w, bool) call"
  bq_add :: "string \<Rightarrow> submission_item \<Rightarrow> string \<Rightarrow> ('w, unit) call"

text \<open>\<open>result_hash\<close> is the hexadecimal SHA-256 of the JSON of the result.\<close>

definition submission_job_id :: "(provider_result \<Rightarrow> string) \<Rightarrow> submission_item \<Rightarrow> string" where
  "submission_job_id result_hash i = rq_market (si_request i) @ '':'' @ take 16 (result_hash (si_result i))"

definition bull_enqueue :: "'w bull_queue \<Rightarrow> (provider_result \<Rightarrow> string) \<Rightarrow> submission_item \<Rightarrow> ('w, bool) call" where
  "bull_enqueue bq result_hash i = call_bind (bq_get_job bq (submission_job_id result_hash i)) (\<lambda>existing.
     if existing then call_return False
     else call_bind (bq_add bq (rq_market (si_request i)) i (submission_job_id result_hash i)) (\<lambda>_. call_return True))"

definition main_submit_on_chain :: "'w stellar \<Rightarrow> stellar_config \<Rightarrow> signed_report \<Rightarrow> ('w, string) call" where
  "main_submit_on_chain sdk cfg r = invoke_contract sdk cfg ''resolve_market'' (resolve_args r)"

definition resolve_stellar_config :: "(string \<Rightarrow> string option) \<Rightarrow> string option \<Rightarrow> stellar_config option" where
  "resolve_stellar_config env contract_id =
     (case (non_empty (env ''STELLAR_RPC_URL''), non_empty contract_id, non_empty (env ''SOROBAN_NETWORK_PASSPHRASE''),
        non_empty (env ''ORACLE_SECRET_KEY'')) of
       (Some url, Some c, Some passphrase, Some secret) \<Rightarrow>
         Some \<lparr>sc_rpc_url = url, sc_contract = c, sc_passphrase = passphrase, sc_secret = secret\<rparr>
     | _ \<Rightarrow> None)"

text \<open>The handler calls \<open>submitOnChain\<close> without keeping the hash it returns, so \<open>txHash\<close> stays undefined.\<close>

definition oracle_worker_handler :: "'w submission_worker \<Rightarrow> submission_item \<Rightarrow> nat \<Rightarrow> ('w, unit) call" where
  "oracle_worker_handler wk i attempts_made = (\<lambda>w.
     let market = rq_market (si_request i); oracle = rq_oracle (si_request i); oc = pv_outcome (si_result i);
         report = create_signed_report (wk_iso_now wk w) i; tx_hash = None in
     if \<not> verify_resolution_report (wk_keys wk) report
     then (Inl (''Signature verification failed for market '' @ market), w)
     else call_bind (case wk_stellar wk of
            Some cfg \<Rightarrow> call_bind (main_submit_on_chain (wk_sdk wk) cfg report) (\<lambda>_. call_return ())
          | None \<Rightarrow> call_return ()) (\<lambda>_.
       call_bind (call_of (wk_hash wk (canonicalise (sr_payload report)))) (\<lambda>hash.
       call_bind (od_create_report (wk_db wk) \<lparr>or_hash = hash, or_source = oracle, or_confidence = Num 1,
         or_market = market, or_candidate = Some oc, or_status = (if tx_hash = None then PENDING else CONFIRMED),
         or_attempts = attempts_made + 1, or_tx_hash = tx_hash, or_created_at = rp_timestamp (sr_payload report)\<rparr>) (\<lambda>_.
       od_upsert_candidate (wk_db wk) (candidate_key market oracle) (candidate_of market oc oracle) oc))) w)"

subsection \<open>The polling oracle\<close>

record 'w oracle_poll =
  op_secret :: "string option"
  op_active_markets :: "('w, (string \<times> string) list) call"
  op_resolve :: "resolution_request \<Rightarrow> ('w, provider_result) call"
  op_keys :: keypairs
  op_db :: "'w oracle_db"
  op_queue :: "'w redis_queue"
  op_now :: "'w \<Rightarrow> int"
  op_iso_now :: "'w \<Rightarrow> string"

definition hex_byte :: "char \<Rightarrow> string" where
  "hex_byte c = [hex_digit (of_char c div 16), hex_digit (of_char c mod 16)]"

text \<open>\<open>Buffer.from(JSON.stringify(payload)).toString("hex").slice(0, 64)\<close>.\<close>

definition poll_payload_hash :: "resolution_report \<Rightarrow> string" where
  "poll_payload_hash p = take 64 (concat (map hex_byte (canonicalise p)))"

definition poll_market :: "'w oracle_poll \<Rightarrow> string \<Rightarrow> string \<times> string \<Rightarrow> ('w, unit) call" where
  "poll_market op secret m = (case m of (market, oracle) \<Rightarrow>
     if oracle = [] then call_return ()
     else let rq = \<lparr>rq_market = market, rq_oracle = oracle, rq_timeout = None, rq_retry = None\<rparr> in
       swallow (call_bind (op_resolve op rq) (\<lambda>result.
         let p = \<lparr>rp_market = market, rp_outcome = pv_outcome result, rp_timestamp = pv_timestamp result\<rparr> in
         call_bind (call_of (sign_resolution_report (op_keys op) p secret)) (\<lambda>report.
         call_bind (od_create_report (op_db op) \<lparr>or_hash = poll_payload_hash (sr_payload report), or_source = oracle,
           or_confidence = pv_confidence result, or_market = market, or_candidate = Some (pv_outcome result),
           or_status = PENDING, or_attempts = 0, or_tx_hash = None, or_created_at = pv_timestamp result\<rparr>) (\<lambda>_ w.
         call_bind (redis_enqueue (op_queue op) \<lparr>si_id = market @ ''-'' @ int_string (op_now op w), si_request = rq,
           si_result = result\<lparr>pv_signature := Some (sr_signature report), pv_public_key := Some (sr_public_key report)\<rparr>,
           si_status = ''pending'', si_enqueued_at = op_iso_now op w, si_attempts = 0, si_last_attempt = None,
           si_last_error = None\<rparr>) (\<lambda>_. call_return ()) w)))))"

definition poll :: "'w oracle_poll \<Rightarrow> ('w, unit) call" where
  "poll op = (case non_empty (op_secret op) of
     None \<Rightarrow> call_throw ''ORACLE_SECRET_KEY is required''
   | Some secret \<Rightarrow> call_bind (queue_initialize (op_queue op)) (\<lambda>_.
       call_bind (op_active_markets op) (\<lambda>markets. call_fold (\<lambda>m _. poll_market op secret m) markets ())))"

subsection \<open>The signature and the worker's timestamp\<close>

lemma call_catch_fail: "c w = (Inl e, w') \<Longrightarrow> call_catch c h w = h e w'"
  by (simp add: call_catch_def)

lemma fresh_report_verifies:
  assumes law: "\<And>secret m m' sig pk. kp_sign lib secret m = Inr (sig, pk) \<Longrightarrow> kp_verify lib pk m' sig = Inr (m' = m)"
    and signed: "sign_resolution_report lib \<lparr>rp_market = rq_market (si_request i), rp_outcome = pv_outcome (si_result i),
      rp_timestamp = Str ts\<rparr> secret = Inr r"
    and carried: "pv_signature (si_result i) = Some (sr_signature r)" "pv_public_key (si_result i) = Some (sr_public_key r)"
  shows "verify_resolution_report lib (create_signed_report now i) \<longleftrightarrow> now = ts"
proof -
  let ?p = "\<lparr>rp_market = rq_market (si_request i), rp_outcome = pv_outcome (si_result i), rp_timestamp = Str ts\<rparr>"
  let ?q = "\<lparr>rp_market = rq_market (si_request i), rp_outcome = pv_outcome (si_result i), rp_timestamp = Str now\<rparr>"
  have "kp_sign lib secret (canonicalise ?p) = Inr (sr_signature r, sr_public_key r)"
    using signed by (auto simp: sign_resolution_report_def split: sum.splits prod.splits)
  from law [OF this] have "kp_verify lib (sr_public_key r) (canonicalise ?q) (sr_signature r) =
      Inr (canonicalise ?q = canonicalise ?p)" .
  moreover have "canonicalise ?q = canonicalise ?p \<longleftrightarrow> now = ts"
    using canonicalise_inject [of ?q now ?p ts] by auto
  ultimately show ?thesis
    by (simp add: verify_resolution_report_def create_signed_report_def carried or_else_def)
qed

text \<open>Both submission workers reject every report the oracle signed unless their own clock shows the very
  timestamp that was signed: they verify a payload with a fresh timestamp. The stream worker then
  goes straight to its failure handling and the BullMQ worker rejects the job, in both cases
  before the chain or the database is asked. (A signature is taken to verify for the signed
  message and no other.)\<close>
lemma submission_signature_rejected:
  assumes "\<And>secret m m' sig pk. kp_sign (wk_keys wk) secret m = Inr (sig, pk) \<Longrightarrow>
      kp_verify (wk_keys wk) pk m' sig = Inr (m' = m)"
    and "sign_resolution_report (wk_keys wk) \<lparr>rp_market = rq_market (si_request s), rp_outcome = pv_outcome (si_result s),
      rp_timestamp = Str ts\<rparr> secret = Inr r"
    and "pv_signature (si_result s) = Some (sr_signature r)" "pv_public_key (si_result s) = Some (sr_public_key r)"
    and "wk_iso_now wk w \<noteq> ts"
  shows "process_submission wk s w = fail_submission wk s ''Signature verification failed'' w \<and>
    oracle_worker_handler wk (submission_item.truncate s) n w =
      (Inl (''Signature verification failed for market '' @ rq_market (si_request s)), w)"
proof -
  let ?i = "submission_item.truncate s"
  have same: "si_request ?i = si_request s" "si_result ?i = si_result s"
    by (simp_all add: submission_item.truncate_def)
  have "\<not> verify_resolution_report (wk_keys wk) (create_signed_report (wk_iso_now wk w) ?i)"
    using fresh_report_verifies [OF assms(1), where i = ?i and ts = ts and secret = secret and r = r] assms(2-5)
    by (simp add: same)
  then show ?thesis
    unfolding process_submission_def oracle_worker_handler_def
    by (simp add: call_catch_fail [of _ w "''Signature verification failed''" w] Let_def same)
qed

text \<open>The payload hash that the oracle stores with a report does not depend on what was reported: 64
  hexadecimal digits of the JSON text are its first 32 characters, which end within the market's
  identifier, so every outcome and every timestamp of a market have the same hash.\<close>
lemma payload_hash_ignores_report:
  assumes "19 \<le> length market" "\<And>c. c \<in> set market \<Longrightarrow> json_escape c = [c]"
  shows "poll_payload_hash \<lparr>rp_market = market, rp_outcome = oc, rp_timestamp = ts\<rparr> =
    poll_payload_hash \<lparr>rp_market = take 19 market @ rest, rp_outcome = oc', rp_timestamp = ts'\<rparr>"
proof -
  have plain: "concat (map json_escape u) = u" if "set u \<subseteq> set market" for u
    using that assms(2) by (induction u) auto
  have 32: "take 64 (concat (map hex_byte s)) = concat (map hex_byte (take 32 s))" for s
  proof -
    have "take (2 * n) (concat (map hex_byte t)) = concat (map hex_byte (take n t))" for n t
    proof (induction t arbitrary: n)
      case (Cons c t)
      then show ?case by (cases n) (simp_all add: hex_byte_def)
    qed simp
    from this [of 32 s] show ?thesis by simp
  qed
  have q: "json_quote ''marketId'' = CHR 0x22 # ''marketId'' @ [CHR 0x22]" by code_simp
  have head: "\<exists>u. canonicalise \<lparr>rp_market = m, rp_outcome = b, rp_timestamp = t\<rparr> =
      ''{'' @ json_quote ''marketId'' @ '':'' @ CHR 0x22 # concat (map json_escape m) @ u" for m b t
    by (cases "json_text t") (auto simp: canonicalise_def json_quote_def)
  have take19: "take 32 (canonicalise \<lparr>rp_market = m, rp_outcome = b, rp_timestamp = t\<rparr>) =
      ''{'' @ json_quote ''marketId'' @ '':'' @ CHR 0x22 # take 19 market"
    if m: "concat (map json_escape m) = take 19 market @ v" for m b t v
  proof -
    obtain u where u: "canonicalise \<lparr>rp_market = m, rp_outcome = b, rp_timestamp = t\<rparr> =
        ''{'' @ json_quote ''marketId'' @ '':'' @ CHR 0x22 # concat (map json_escape m) @ u" using head by blast
    show ?thesis unfolding u m q using assms(1) by simp
  qed
  have 1: "concat (map json_escape market) = take 19 market @ drop 19 market" using plain [of market] by simp
  have 2: "concat (map json_escape (take 19 market @ rest)) = take 19 market @ concat (map json_escape rest)"
    using plain [of "take 19 market"] set_take_subset [of 19 market] by simp
  show ?thesis by (simp only: poll_payload_hash_def 32 take19 [OF 1] take19 [OF 2])
qed

subsection \<open>Concrete runs\<close>

text \<open>Key pairs whose signature is the message and whose public key is the secret.\<close>

definition plain_keys :: keypairs where
  "plain_keys = \<lparr>kp_sign = (\<lambda>secret m. Inr (m, secret)), kp_verify = (\<lambda>pk m sig. Inr (m = sig))\<rparr>"

definition quiet_db :: "memory_redis oracle_db" where
  "quiet_db = \<lparr>od_create_report = (\<lambda>_. call_return ()), od_upsert_candidate = (\<lambda>_ _ _. call_return ()),
     od_update_reports = (\<lambda>_ _. call_return ()), od_reject_candidates = (\<lambda>_ _. call_return ())\<rparr>"

definition demo_submission_worker :: "memory_redis submission_worker" where
  "demo_submission_worker = \<lparr>wk_queue = demo_queue, wk_db = quiet_db, wk_max_retries = 3, wk_consumer = ''c'',
     wk_stellar = None, wk_sdk = \<lparr>sl_public_key = (\<lambda>s. Inr s), sl_contract = (\<lambda>_. Inr ()),
       sl_account = (\<lambda>_ _. call_throw ''offline''), sl_build = (\<lambda>_. Inl ''offline''), sl_prepare = (\<lambda>_ _. call_throw ''offline''),
       sl_sign = (\<lambda>_ tx. tx), sl_send = (\<lambda>_ _. call_throw ''offline''), sl_status = (\<lambda>_ _. call_throw ''offline''),
       sl_sleep = (\<lambda>_ w. w)\<rparr>,
     wk_keys = plain_keys, wk_iso_now = (\<lambda>_. ''2026-01-01T00:00:01.000Z''), wk_hash = (\<lambda>t. Inr t), wk_env_prefix = None\<rparr>"

definition demo_report :: resolution_report where
  "demo_report = \<lparr>rp_market = ''m'', rp_outcome = True, rp_timestamp = Str ''2026-01-01T00:00:00.000Z''\<rparr>"

definition demo_signed_submission :: queued_submission where
  "demo_signed_submission = queued_of demo_queue 0 ''1'' (demo_submission ''a'' ''m'' True
     \<lparr>si_result := (si_result (demo_submission ''a'' ''m'' True))
        \<lparr>pv_signature := Some (canonicalise demo_report), pv_public_key := Some ''S''\<rparr>\<rparr>)"

lemma submission_signature_rejected_witness:
  "oracle_worker_handler demo_submission_worker (submission_item.truncate demo_signed_submission) 0 empty_redis =
     (Inl (''Signature verification failed for market '' @ rq_market (si_request demo_signed_submission)), empty_redis)"
proof (rule submission_signature_rejected [of demo_submission_worker demo_signed_submission
      "''2026-01-01T00:00:00.000Z''" "''S''" "\<lparr>sr_payload = demo_report, sr_signature = canonicalise demo_report,
        sr_public_key = ''S''\<rparr>" empty_redis 0, THEN conjunct2])
  show "sign_resolution_report (wk_keys demo_submission_worker)
      \<lparr>rp_market = rq_market (si_request demo_signed_submission), rp_outcome = pv_outcome (si_result demo_signed_submission),
       rp_timestamp = Str ''2026-01-01T00:00:00.000Z''\<rparr> ''S'' =
      Inr \<lparr>sr_payload = demo_report, sr_signature = canonicalise demo_report, sr_public_key = ''S''\<rparr>"
    by (simp add: sign_resolution_report_def demo_submission_worker_def plain_keys_def demo_report_def
        demo_signed_submission_def queued_of_def submission_item.extend_def demo_submission_def)
qed (auto simp: demo_submission_worker_def plain_keys_def demo_signed_submission_def queued_of_def
      submission_item.extend_def)

lemma payload_hash_ignores_report_witness:
  "poll_payload_hash \<lparr>rp_market = ''2f1c9f3e-7a8b-4c5d-9e0f-112233445566'', rp_outcome = True, rp_timestamp = Str ''2026''\<rparr> =
   poll_payload_hash \<lparr>rp_market = ''2f1c9f3e-7a8b-4c5d-9e0f-112233445566'', rp_outcome = False, rp_timestamp = Str ''2027''\<rparr>"
proof -
  have "list_all (\<lambda>c. json_escape c = [c]) ''2f1c9f3e-7a8b-4c5d-9e0f-112233445566''" by code_simp
  then have "json_escape c = [c]" if "c \<in> set ''2f1c9f3e-7a8b-4c5d-9e0f-112233445566''" for c
    using that unfolding list_all_iff by blast
  then show ?thesis
    using payload_hash_ignores_report [of "''2f1c9f3e-7a8b-4c5d-9e0f-112233445566''" True "Str ''2026''"
        "drop 19 ''2f1c9f3e-7a8b-4c5d-9e0f-112233445566''" False "Str ''2027''"] by simp
qed

end
