(* ===== verification/Finalization.thy ===== *)
theory Finalization
  imports Calls JsValue
begin

text \<open>
  \<open>apps/workers/src/finalization/job.ts\<close> and \<open>src/oracle/challengeWindow.ts\<close>: turning resolution
  candidates whose challenge window has closed into resolutions, one transaction per candidate,
  and the poll of \<open>finalization/main.ts\<close>. The store is the tables of \<open>prisma/schema.prisma\<close> that the
  job writes, with their constraints: a market has at most one active resolution, and updating a
  record by an unknown identifier is an error. Times are milliseconds.
\<close>

datatype candidate_status = PROPOSED | CHALLENGED | ACCEPTED | REJECTED
datatype market_status = MarketActive | MarketResolved | MarketCancelled
datatype resolution_status = ResolutionActive | ResolutionCorrected | ResolutionOverridden

record candidate =
  fc_id :: string
  fc_market :: string
  fc_outcome :: bool
  fc_source :: string
  fc_status :: candidate_status
  fc_created :: int

record market_row =
  fm_id :: string
  fm_status :: market_status
  fm_outcome :: "bool option"
  fm_resolved_at :: "int option"

record resolution =
  fr_market :: string
  fr_outcome :: bool
  fr_finalized_at :: int
  fr_provenance :: string
  fr_status :: resolution_status

record position_row =
  fp_market :: string
  fp_user :: string
  fp_settled :: bool

record final_tables =
  ft_markets :: "market_row list"
  ft_candidates :: "candidate list"
  ft_resolutions :: "resolution list"
  ft_positions :: "position_row list"

subsection \<open>Statements\<close>

definition active_resolutions :: "final_tables \<Rightarrow> resolution list" where
  "active_resolutions d = filter (\<lambda>r. fr_status r = ResolutionActive) (ft_resolutions d)"

definition create_resolution :: "resolution \<Rightarrow> final_tables \<Rightarrow> string + final_tables" where
  "create_resolution r d =
     (if fr_market r \<notin> fm_id ` set (ft_markets d) then Inl ''Foreign key constraint violated''
      else if fr_status r = ResolutionActive \<and> fr_market r \<in> fr_market ` set (active_resolutions d)
        then Inl ''Unique constraint failed on the fields: (market_id)''
      else Inr (d\<lparr>ft_resolutions := ft_resolutions d @ [r]\<rparr>))"

definition update_market :: "string \<Rightarrow> bool \<Rightarrow> int \<Rightarrow> final_tables \<Rightarrow> string + final_tables" where
  "update_market m oc now d =
     (if m \<notin> fm_id ` set (ft_markets d) then Inl ''Record to update not found''
      else Inr (d\<lparr>ft_markets := map (\<lambda>x. if fm_id x = m
        then x\<lparr>fm_status := MarketResolved, fm_outcome := Some oc, fm_resolved_at := Some now\<rparr> else x) (ft_markets d)\<rparr>))"

definition accept_candidate :: "string \<Rightarrow> final_tables \<Rightarrow> string + final_tables" where
  "accept_candidate i d =
     (if i \<notin> fc_id ` set (ft_candidates d) then Inl ''Record to update not found''
      else Inr (d\<lparr>ft_candidates := map (\<lambda>c. if fc_id c = i then c\<lparr>fc_status := ACCEPTED\<rparr> else c) (ft_candidates d)\<rparr>))"

definition settle_positions :: "string \<Rightarrow> final_tables \<Rightarrow> string + final_tables" where
  "settle_positions m d = Inr (d\<lparr>ft_positions := map (\<lambda>p. if fp_market p = m then p\<lparr>fp_settled := True\<rparr> else p)
     (ft_positions d)\<rparr>)"

subsection \<open>The job\<close>

text \<open>\<open>new Date(x)\<close> drops the fraction.\<close>

definition to_ms :: "number \<Rightarrow> int" where
  "to_ms x = (if 0 \<le> x then \<lfloor>x\<rfloor> else \<lceil>x\<rceil>)"

definition window_cutoff :: "int \<Rightarrow> number \<Rightarrow> int" where
  "window_cutoff now w = to_ms (js_sub (of_int now) (js_mul w 1000))"

definition eligible :: "int \<Rightarrow> number \<Rightarrow> candidate \<Rightarrow> bool" where
  "eligible now w c \<longleftrightarrow> fc_status c = PROPOSED \<and> fc_created c \<le> window_cutoff now w"

text \<open>The transaction of one candidate: any error leaves the tables as they were.\<close>

definition finalize_candidate :: "int \<Rightarrow> candidate \<Rightarrow> final_tables \<Rightarrow> string + final_tables" where
  "finalize_candidate now c d =
     res_bind (create_resolution \<lparr>fr_market = fc_market c, fr_outcome = fc_outcome c, fr_finalized_at = now,
       fr_provenance = fc_source c, fr_status = ResolutionActive\<rparr> d) (\<lambda>d1.
     res_bind (update_market (fc_market c) (fc_outcome c) now d1) (\<lambda>d2.
     res_bind (accept_candidate (fc_id c) d2) (\<lambda>d3. settle_positions (fc_market c) d3)))"

datatype candidate_result = Finalized | Skipped | Errored string

definition is_errored :: "candidate_result \<Rightarrow> bool" where
  "is_errored r = (case r of Errored _ \<Rightarrow> True | _ \<Rightarrow> False)"

text \<open>\<open>clock k\<close> is the time when the \<open>k\<close>-th candidate is processed.\<close>

fun process_candidates :: "(nat \<Rightarrow> int) \<Rightarrow> nat \<Rightarrow> candidate list \<Rightarrow> final_tables \<Rightarrow>
    (candidate \<times> candidate_result) list \<times> final_tables" where
  "process_candidates clock k [] d = ([], d)"
| "process_candidates clock k (c # cs) d = (case finalize_candidate (clock k) c d of
     Inl e \<Rightarrow> (case process_candidates clock (Suc k) cs d of (rs, d') \<Rightarrow> ((c, Errored e) # rs, d'))
   | Inr d1 \<Rightarrow> (case process_candidates clock (Suc k) cs d1 of (rs, d') \<Rightarrow> ((c, Finalized) # rs, d')))"

record job_result =
  jr_total :: nat
  jr_finalized :: nat
  jr_skipped :: nat
  jr_errored :: nat
  jr_candidates :: "(candidate \<times> candidate_result) list"

definition empty_job_result :: job_result where
  "empty_job_result = \<lparr>jr_total = 0, jr_finalized = 0, jr_skipped = 0, jr_errored = 0, jr_candidates = []\<rparr>"

definition window_seconds :: "js \<Rightarrow> string + number" where
  "window_seconds w = (case w of
     Num x \<Rightarrow> if 0 \<le> x then Inr x
       else Inl (''challengeWindowSeconds must be a non-negative number, got: '' @ number_string x)
   | v \<Rightarrow> Inl (''challengeWindowSeconds must be a non-negative number, got: '' @ js_string v))"

text \<open>\<open>query_fails\<close> is the error of the candidate query, if it fails: then the run reports nothing.\<close>

definition finalization_run :: "js \<Rightarrow> int \<Rightarrow> (nat \<Rightarrow> int) \<Rightarrow> string option \<Rightarrow> final_tables \<Rightarrow>
    string + job_result \<times> final_tables" where
  "finalization_run window now clock query_fails d = res_bind (window_seconds window) (\<lambda>w.
     case query_fails of
       Some _ \<Rightarrow> Inr (empty_job_result, d)
     | None \<Rightarrow> let cs = filter (eligible now w) (ft_candidates d); (rs, d') = process_candidates clock 0 cs d in
         Inr (\<lparr>jr_total = length cs, jr_finalized = length (filter (\<lambda>r. snd r = Finalized) rs),
           jr_skipped = length (filter (\<lambda>r. snd r = Skipped) rs),
           jr_errored = length (filter (\<lambda>r. is_errored (snd r)) rs), jr_candidates = rs\<rparr>, d'))"

subsection \<open>The challenge window\<close>

definition get_challenge_window :: "int \<Rightarrow> number \<Rightarrow> int \<times> int" where
  "get_challenge_window proposed w = (proposed, to_ms (js_add (of_int proposed) (js_mul w 1000)))"

definition is_challenge_window_open :: "int \<Rightarrow> number \<Rightarrow> int \<Rightarrow> bool" where
  "is_challenge_window_open proposed w now =
     (case get_challenge_window proposed w of (opens, closes) \<Rightarrow> opens \<le> now \<and> now < closes)"

subsection \<open>The poll\<close>

text \<open>A poll that finds another one running is skipped; the guard is released on every way out.\<close>

datatype poll_event = PollStarts | PollEnds

fun poll_guard :: "poll_event \<Rightarrow> bool \<times> nat \<Rightarrow> bool \<times> nat" where
  "poll_guard PollStarts (in_progress, running) = (if in_progress then (True, running) else (True, Suc running))"
| "poll_guard PollEnds (in_progress, running) = (False, running - 1)"

subsection \<open>A candidate's transaction\<close>

definition active_outcome :: "string \<Rightarrow> final_tables \<Rightarrow> bool option" where
  "active_outcome m d = map_option fr_outcome (find (\<lambda>r. fr_market r = m) (active_resolutions d))"

definition tables_ok :: "final_tables \<Rightarrow> bool" where
  "tables_ok d \<longleftrightarrow> distinct (map fr_market (active_resolutions d)) \<and>
     (\<forall>r \<in> set (active_resolutions d). \<exists>x \<in> set (ft_markets d). fm_id x = fr_market r) \<and>
     (\<forall>r \<in> set (active_resolutions d). \<forall>x \<in> set (ft_markets d).
        fm_id x = fr_market r \<longrightarrow> fm_status x = MarketResolved \<and> fm_outcome x = Some (fr_outcome r)) \<and>
     (\<forall>r \<in> set (active_resolutions d). \<forall>p \<in> set (ft_positions d). fp_market p = fr_market r \<longrightarrow> fp_settled p) \<and>
     distinct (map fc_id (ft_candidates d)) \<and>
     (\<forall>c \<in> set (ft_candidates d). fc_market c \<in> fm_id ` set (ft_markets d)) \<and>
     (\<forall>c \<in> set (ft_candidates d). fc_status c = ACCEPTED \<longrightarrow>
        (\<exists>r \<in> set (ft_resolutions d). fr_market r = fc_market c \<and> fr_outcome r = fc_outcome c))"

text \<open>The tables after the transaction of a candidate.\<close>

definition finalized :: "int \<Rightarrow> candidate \<Rightarrow> final_tables \<Rightarrow> final_tables" where
  "finalized now c d = d\<lparr>
     ft_markets := map (\<lambda>x. if fm_id x = fc_market c
       then x\<lparr>fm_status := MarketResolved, fm_outcome := Some (fc_outcome c), fm_resolved_at := Some now\<rparr> else x) (ft_markets d),
     ft_candidates := map (\<lambda>x. if fc_id x = fc_id c then x\<lparr>fc_status := ACCEPTED\<rparr> else x) (ft_candidates d),
     ft_resolutions := ft_resolutions d @ [\<lparr>fr_market = fc_market c, fr_outcome = fc_outcome c, fr_finalized_at = now,
       fr_provenance = fc_source c, fr_status = ResolutionActive\<rparr>],
     ft_positions := map (\<lambda>p. if fp_market p = fc_market c then p\<lparr>fp_settled := True\<rparr> else p) (ft_positions d)\<rparr>"

definition known :: "candidate \<Rightarrow> final_tables \<Rightarrow> bool" where
  "known c d \<longleftrightarrow> (\<exists>x \<in> set (ft_candidates d). fc_id x = fc_id c \<and> fc_market x = fc_market c \<and> fc_outcome x = fc_outcome c)"

lemma finalize_eq:
  assumes "tables_ok d" "known c d"
  shows "finalize_candidate now c d =
    (if fc_market c \<in> fr_market ` set (active_resolutions d)
     then Inl ''Unique constraint failed on the fields: (market_id)'' else Inr (finalized now c d))"
proof -
  obtain x where x: "x \<in> set (ft_candidates d)" "fc_id x = fc_id c" "fc_market x = fc_market c"
    using assms(2) by (auto simp: known_def)
  have "fc_market x \<in> fm_id ` set (ft_markets d)" using assms(1) x(1) unfolding tables_ok_def by blast
  then have market: "fc_market c \<in> fm_id ` set (ft_markets d)" by (simp add: x(3))
  have cand: "fc_id c \<in> fc_id ` set (ft_candidates d)" unfolding x(2) [symmetric] using x(1) by (rule imageI)
  show ?thesis
  proof (cases "fc_market c \<in> fr_market ` set (active_resolutions d)")
    case True
    then show ?thesis by (simp add: finalize_candidate_def create_resolution_def market)
  next
    case False
    let ?r = "\<lparr>fr_market = fc_market c, fr_outcome = fc_outcome c, fr_finalized_at = now, fr_provenance = fc_source c,
      fr_status = ResolutionActive\<rparr>"
    have "create_resolution ?r d = Inr (d\<lparr>ft_resolutions := ft_resolutions d @ [?r]\<rparr>)"
      using False market by (simp add: create_resolution_def)
    then show ?thesis using False market cand
      by (simp add: finalize_candidate_def update_market_def accept_candidate_def settle_positions_def finalized_def)
  qed
qed

lemma active_finalized:
  "active_resolutions (finalized now c d) = active_resolutions d @ [\<lparr>fr_market = fc_market c, fr_outcome = fc_outcome c,
     fr_finalized_at = now, fr_provenance = fc_source c, fr_status = ResolutionActive\<rparr>]"
  by (simp add: active_resolutions_def finalized_def)

lemma find_append: "find P (xs @ ys) = (case find P xs of None \<Rightarrow> find P ys | Some x \<Rightarrow> Some x)"
  by (induction xs) auto

lemma active_outcome_finalized:
  assumes "fc_market c \<notin> fr_market ` set (active_resolutions d)"
  shows "active_outcome m (finalized now c d) = (if m = fc_market c then Some (fc_outcome c) else active_outcome m d)"
proof -
  have "find (\<lambda>r. fr_market r = fc_market c) (active_resolutions d) = None"
    using assms by (force simp: find_None_iff)
  then show ?thesis by (auto simp: active_outcome_def active_finalized find_append split: option.splits)
qed

lemma active_outcome_none: "fc_market c \<in> fr_market ` set (active_resolutions d) \<longleftrightarrow> active_outcome (fc_market c) d \<noteq> None"
  by (force simp: active_outcome_def find_None_iff)

lemma known_finalized:
  assumes "known c' d"
  shows "known c' (finalized now c d)"
proof -
  from assms obtain x where x: "x \<in> set (ft_candidates d)" "fc_id x = fc_id c'" "fc_market x = fc_market c'"
    "fc_outcome x = fc_outcome c'" by (auto simp: known_def)
  let ?y = "if fc_id x = fc_id c then x\<lparr>fc_status := ACCEPTED\<rparr> else x"
  have "?y \<in> set (ft_candidates (finalized now c d))" using x(1) by (simp add: finalized_def)
  then show ?thesis unfolding known_def using x(2-4) by (intro bexI [of _ ?y]) auto
qed

lemma finalized_ok:
  assumes ok: "tables_ok d" and known: "known c d" and free: "fc_market c \<notin> fr_market ` set (active_resolutions d)"
  shows "tables_ok (finalized now c d)"
proof -
  let ?d = "finalized now c d"
  have ids: "distinct (map fc_id (ft_candidates d))" and fk: "\<And>x. x \<in> set (ft_candidates d) \<Longrightarrow> fc_market x \<in> fm_id ` set (ft_markets d)"
    using ok by (auto simp: tables_ok_def)
  have id_map: "map fc_id (ft_candidates ?d) = map fc_id (ft_candidates d)"
    by (simp_all add: finalized_def)
  have "map fm_id (ft_markets ?d) = map fm_id (ft_markets d)" by (simp add: finalized_def)
  then have m_map: "fm_id ` set (ft_markets ?d) = fm_id ` set (ft_markets d)" by (metis set_map)
  obtain x where x: "x \<in> set (ft_candidates d)" "fc_id x = fc_id c" "fc_market x = fc_market c" "fc_outcome x = fc_outcome c"
    using known by (auto simp: known_def)
  have same: "y = x" if "y \<in> set (ft_candidates d)" "fc_id y = fc_id c" for y
    using ids that x(1,2) by (simp add: distinct_map inj_on_def)
  show ?thesis
    unfolding tables_ok_def
  proof (intro conjI)
    show "distinct (map fr_market (active_resolutions ?d))"
      using ok free by (auto simp: active_finalized tables_ok_def)
    show "\<forall>r\<in>set (active_resolutions ?d). \<exists>y\<in>set (ft_markets ?d). fm_id y = fr_market r"
    proof
      fix r
      assume "r \<in> set (active_resolutions ?d)"
      then have "fr_market r \<in> fm_id ` set (ft_markets d)"
        using ok fk [OF x(1)] x(3) by (auto simp: active_finalized tables_ok_def) (metis imageI)
      then show "\<exists>y\<in>set (ft_markets ?d). fm_id y = fr_market r" using m_map by (metis imageE)
    qed
    show "\<forall>r\<in>set (active_resolutions ?d). \<forall>y\<in>set (ft_markets ?d). fm_id y = fr_market r \<longrightarrow>
        fm_status y = MarketResolved \<and> fm_outcome y = Some (fr_outcome r)"
      using ok free unfolding active_finalized tables_ok_def by (auto simp: finalized_def)
    show "\<forall>r\<in>set (active_resolutions ?d). \<forall>p\<in>set (ft_positions ?d). fp_market p = fr_market r \<longrightarrow> fp_settled p"
      using ok unfolding active_finalized tables_ok_def by (auto simp: finalized_def)
    show "distinct (map fc_id (ft_candidates ?d))" using ids id_map by simp
    show "\<forall>y\<in>set (ft_candidates ?d). fc_market y \<in> fm_id ` set (ft_markets ?d)"
      unfolding m_map using fk by (auto simp: finalized_def)
    show "\<forall>y\<in>set (ft_candidates ?d). fc_status y = ACCEPTED \<longrightarrow>
        (\<exists>r\<in>set (ft_resolutions ?d). fr_market r = fc_market y \<and> fr_outcome r = fc_outcome y)"
    proof (intro ballI impI)
      fix y
      assume y: "y \<in> set (ft_candidates ?d)" "fc_status y = ACCEPTED"
      then obtain z where z: "z \<in> set (ft_candidates d)" "y = (if fc_id z = fc_id c then z\<lparr>fc_status := ACCEPTED\<rparr> else z)"
        by (auto simp: finalized_def)
      show "\<exists>r\<in>set (ft_resolutions ?d). fr_market r = fc_market y \<and> fr_outcome r = fc_outcome y"
      proof (cases "fc_id z = fc_id c")
        case True
        then show ?thesis using same [OF z(1)] z(2) x(3,4) by (auto simp: finalized_def)
      next
        case False
        then show ?thesis using ok z y(2) by (auto simp: tables_ok_def finalized_def)
      qed
    qed
  qed
qed

subsection \<open>A run\<close>

lemma process_spec:
  assumes "tables_ok d" "\<And>c. c \<in> set cs \<Longrightarrow> known c d" "process_candidates clock k cs d = (rs, d')"
  shows "tables_ok d' \<and> map fst rs = cs \<and> (\<forall>r \<in> set rs. snd r \<noteq> Skipped) \<and>
    (\<forall>m. active_outcome m d' = (case active_outcome m d of Some b \<Rightarrow> Some b
       | None \<Rightarrow> map_option fc_outcome (find (\<lambda>c. fc_market c = m) cs)))"
  using assms
proof (induction cs arbitrary: k d rs)
  case Nil
  then show ?case by (auto split: option.splits)
next
  case (Cons c cs)
  note eq = finalize_eq [OF Cons.prems(1) Cons.prems(2) [OF list.set_intros(1)], of "clock k"]
  show ?case
  proof (cases "fc_market c \<in> fr_market ` set (active_resolutions d)")
    case True
    obtain rs0 where rs0: "process_candidates clock (Suc k) cs d = (rs0, d')"
      "rs = (c, Errored ''Unique constraint failed on the fields: (market_id)'') # rs0"
      using Cons.prems(3) eq True by (auto split: prod.splits)
    from Cons.IH [OF Cons.prems(1) _ rs0(1)] Cons.prems(2) have IH:
      "tables_ok d' \<and> map fst rs0 = cs \<and> (\<forall>r \<in> set rs0. snd r \<noteq> Skipped) \<and>
        (\<forall>m. active_outcome m d' = (case active_outcome m d of Some b \<Rightarrow> Some b
           | None \<Rightarrow> map_option fc_outcome (find (\<lambda>c. fc_market c = m) cs)))" by simp
    have "active_outcome (fc_market c) d \<noteq> None" using True active_outcome_none by blast
    then show ?thesis using IH rs0(2) by (auto split: option.splits)
  next
    case False
    let ?d1 = "finalized (clock k) c d"
    obtain rs0 where rs0: "process_candidates clock (Suc k) cs ?d1 = (rs0, d')" "rs = (c, Finalized) # rs0"
      using Cons.prems(3) eq False by (auto split: prod.splits)
    have "tables_ok ?d1" using finalized_ok [OF Cons.prems(1) Cons.prems(2) False] by simp
    from Cons.IH [OF this _ rs0(1)] Cons.prems(2) known_finalized have IH:
      "tables_ok d' \<and> map fst rs0 = cs \<and> (\<forall>r \<in> set rs0. snd r \<noteq> Skipped) \<and>
        (\<forall>m. active_outcome m d' = (case active_outcome m ?d1 of Some b \<Rightarrow> Some b
           | None \<Rightarrow> map_option fc_outcome (find (\<lambda>c. fc_market c = m) cs)))" by simp
    have "active_outcome (fc_market c) d = None" using False active_outcome_none by blast
    then show ?thesis using IH rs0(2) by (auto simp: active_outcome_finalized [OF False] split: option.splits)
  qed
qed

lemma run_cases:
  assumes "finalization_run window now clock None d = Inr (res, d')"
  obtains w rs where "window_seconds window = Inr w"
    "process_candidates clock 0 (filter (eligible now w) (ft_candidates d)) d = (rs, d')"
    "res = \<lparr>jr_total = length (filter (eligible now w) (ft_candidates d)),
       jr_finalized = length (filter (\<lambda>r. snd r = Finalized) rs), jr_skipped = length (filter (\<lambda>r. snd r = Skipped) rs),
       jr_errored = length (filter (\<lambda>r. is_errored (snd r)) rs), jr_candidates = rs\<rparr>"
  using assms by (auto simp: finalization_run_def res_bind_def Let_def split: sum.splits prod.splits)

lemma known_selected: "c \<in> set (filter P (ft_candidates d)) \<Longrightarrow> known c d"
  by (auto simp: known_def)

lemma results_counted:
  assumes "\<forall>r \<in> set rs. snd r \<noteq> Skipped"
  shows "length (filter (\<lambda>r. snd r = Finalized) rs) + length (filter (\<lambda>r. is_errored (snd r)) rs) = length rs \<and>
    filter (\<lambda>r. snd r = Skipped) rs = []"
  using assms
proof (induction rs)
  case (Cons r rs)
  then show ?case by (cases "snd r") (auto simp: is_errored_def)
qed simp

text \<open>C17: a finalization run keeps the tables consistent: no market gets a second active resolution, a market
  with an active resolution is resolved with its outcome and all its positions are settled, and
  every accepted candidate's outcome was made a resolution. Every selected candidate is counted as
  finalized or errored, none as skipped.\<close>
theorem finalization_keeps_consistent:
  assumes "tables_ok d" "finalization_run window now clock None d = Inr (res, d')"
  shows "tables_ok d' \<and> jr_finalized res + jr_errored res = jr_total res \<and> jr_skipped res = 0"
proof -
  from assms(2) obtain w rs where "window_seconds window = Inr w" and w: "process_candidates clock 0 (filter (eligible now w) (ft_candidates d)) d = (rs, d')"
    "res = \<lparr>jr_total = length (filter (eligible now w) (ft_candidates d)),
       jr_finalized = length (filter (\<lambda>r. snd r = Finalized) rs), jr_skipped = length (filter (\<lambda>r. snd r = Skipped) rs),
       jr_errored = length (filter (\<lambda>r. is_errored (snd r)) rs), jr_candidates = rs\<rparr>"
    by (rule run_cases)
  note spec = process_spec [OF assms(1) known_selected w(1)]
  then have "length rs = length (filter (eligible now w) (ft_candidates d))" using length_map [of fst rs] by simp
  with spec results_counted [of rs] show ?thesis by (simp add: w(2))
qed


text \<open>The job and the challenge-window helper agree: for whole seconds and times in the range of dates, a
  proposed candidate is eligible at a time after its proposal exactly when its challenge window
  is no longer open.\<close>
lemma eligible_iff_window_closed:
  assumes "fc_status c = PROPOSED" "0 \<le> fc_created c" "fc_created c \<le> now" "now < 2 ^ 51" "of_nat n * 1000 < (2 ^ 51 :: int)"
  shows "eligible now (of_nat n) c \<longleftrightarrow> \<not> is_challenge_window_open (fc_created c) (of_nat n) now"
proof -
  have exact: "fl (of_int k) = of_int k" if "\<bar>k\<bar> < 2 ^ 53" for k using fl_of_int that by blast
  have ms: "to_ms (of_int k) = k" for k by (simp add: to_ms_def)
  have mul: "js_mul (of_nat n) 1000 = of_int (int n * 1000)"
    using exact [of "int n * 1000"] assms(5) by (simp add: js_mul_def)
  have sub: "js_sub (of_int now) (of_int (int n * 1000)) = of_int (now - int n * 1000)"
    using exact [of "now - int n * 1000"] assms(2-5) by (simp add: js_sub_def)
  have add: "js_add (of_int (fc_created c)) (of_int (int n * 1000)) = of_int (fc_created c + int n * 1000)"
    using exact [of "fc_created c + int n * 1000"] assms(2-5) by (simp add: js_add_def)
  show ?thesis using assms(1,3)
    by (auto simp: eligible_def window_cutoff_def is_challenge_window_open_def get_challenge_window_def mul sub add ms
        simp del: of_int_mult of_int_diff of_int_add)
qed

subsection \<open>Concrete tables\<close>

definition demo_candidate :: "string \<Rightarrow> string \<Rightarrow> bool \<Rightarrow> int \<Rightarrow> candidate" where
  "demo_candidate i m oc t = \<lparr>fc_id = i, fc_market = m, fc_outcome = oc, fc_source = ''oracle'', fc_status = PROPOSED,
     fc_created = t\<rparr>"

definition demo_final :: final_tables where
  "demo_final = \<lparr>ft_markets = [\<lparr>fm_id = ''m'', fm_status = MarketActive, fm_outcome = None, fm_resolved_at = None\<rparr>,
       \<lparr>fm_id = ''n'', fm_status = MarketActive, fm_outcome = None, fm_resolved_at = None\<rparr>],
     ft_candidates = [demo_candidate ''1'' ''m'' True 1000, demo_candidate ''2'' ''m'' False 1000, demo_candidate ''3'' ''n'' False 99000],
     ft_resolutions = [], ft_positions = [\<lparr>fp_market = ''m'', fp_user = ''u'', fp_settled = False\<rparr>]\<rparr>"

lemma demo_final_ok: "tables_ok demo_final"
  by (simp add: tables_ok_def demo_final_def active_resolutions_def demo_candidate_def)

lemma demo_cutoff: "window_cutoff 100000 60 = 40000"
proof -
  have "fl (of_int 60000) = of_int 60000" "fl (of_int 40000) = of_int 40000" by (rule fl_of_int; simp)+
  then show ?thesis by (simp add: window_cutoff_def js_mul_def js_sub_def to_ms_def)
qed

lemma demo_final_run:
  obtains res d' where "finalization_run (Num 60) 100000 (\<lambda>k. 100000 + int k) None demo_final = Inr (res, d')"
    "jr_total res = 2"
proof -
  have "jr_total (fst (projr (finalization_run (Num 60) 100000 (\<lambda>k. 100000 + int k) None demo_final))) = 2"
    by (simp add: finalization_run_def window_seconds_def Let_def split_beta eligible_def demo_cutoff demo_final_def demo_candidate_def)
  moreover have "\<not> isl (finalization_run (Num 60) 100000 (\<lambda>k. 100000 + int k) None demo_final)"
    by (simp add: finalization_run_def window_seconds_def Let_def split_beta)
  ultimately show ?thesis
    by (cases "finalization_run (Num 60) 100000 (\<lambda>k. 100000 + int k) None demo_final") (auto intro: that)
qed

theorem finalization_keeps_consistent_witness:
  "\<exists>res d'. finalization_run (Num 60) 100000 (\<lambda>k. 100000 + int k) None demo_final = Inr (res, d') \<and> tables_ok d' \<and>
     jr_finalized res + jr_errored res = 2"
proof -
  obtain res d' where run: "finalization_run (Num 60) 100000 (\<lambda>k. 100000 + int k) None demo_final = Inr (res, d')"
    "jr_total res = 2" by (rule demo_final_run)
  from finalization_keeps_consistent [OF demo_final_ok run(1)] run show ?thesis by auto
qed


lemma eligible_iff_window_closed_witness:
  "eligible 100000 (of_nat 60) (demo_candidate ''1'' ''m'' True 1000) \<longleftrightarrow> \<not> is_challenge_window_open 1000 (of_nat 60) 100000"
  using eligible_iff_window_closed [of "demo_candidate ''1'' ''m'' True 1000" 100000 60] by (simp add: demo_candidate_def)

end
