(* ===== verification/Config.thy ===== *)
theory Config
  imports ResolutionReport
begin

text \<open>
  Configuration from the environment: \<open>packages/shared/src/config.ts\<close>, \<open>cors.ts\<close> and
  \<open>requireEnv.ts\<close>, \<open>apps/oracle/oracle-config.ts\<close>, \<open>oracle-scheduler.ts\<close> and
  \<open>price-fetcher.ts\<close>, \<open>apps/indexer/src/config.ts\<close>. An environment maps names to texts; a loader
  throws (\<open>Inl\<close>) at the first variable that does not validate. Parsing a URL into its protocol
  and host name is an argument. \<open>Number(s)\<close> covers decimal notation.
\<close>

type_synonym env = "string \<Rightarrow> string option"
type_synonym url_parser = "string \<Rightarrow> (string \<times> string) option"

subsection \<open>Validation helpers\<close>

definition missing :: "string \<Rightarrow> string" where
  "missing name = ''Missing required environment variable: '' @ name"

definition require_string :: "string \<Rightarrow> env \<Rightarrow> string + string" where
  "require_string name env = (case env name of
     None \<Rightarrow> Inl (missing name)
   | Some raw \<Rightarrow> if trim raw = [] then Inl (missing name) else Inr (trim raw))"

definition optional_string :: "string \<Rightarrow> string \<Rightarrow> env \<Rightarrow> string" where
  "optional_string name fallback env = (case env name of
     None \<Rightarrow> fallback | Some raw \<Rightarrow> if trim raw = [] then fallback else trim raw)"

definition must_be :: "string \<Rightarrow> string \<Rightarrow> string \<Rightarrow> string" where
  "must_be name what raw = name @ '' must be '' @ what @ '', got: '' @ json_quote raw"

text \<open>A variable that is unset or empty.\<close>

definition unset :: "string \<Rightarrow> env \<Rightarrow> bool" where
  "unset name env \<longleftrightarrow> env name = None \<or> env name = Some []"

definition raw_value :: "string \<Rightarrow> env \<Rightarrow> string" where
  "raw_value name env = (case env name of None \<Rightarrow> [] | Some raw \<Rightarrow> raw)"

definition require_positive_int :: "string \<Rightarrow> env \<Rightarrow> number option \<Rightarrow> number option \<Rightarrow> string + number" where
  "require_positive_int name env fallback upper =
     (if unset name env then (case fallback of Some x \<Rightarrow> Inr x | None \<Rightarrow> Inl (missing name))
      else let raw = raw_value name env in (case number_of_string raw of
          None \<Rightarrow> Inl (must_be name ''a positive integer'' raw)
        | Some x \<Rightarrow> if \<not> is_integer x \<or> x < 1 then Inl (must_be name ''a positive integer'' raw)
            else (case upper of
                Some m \<Rightarrow> if m < x then Inl (must_be name (''<= '' @ number_string m) raw) else Inr x
              | None \<Rightarrow> Inr x)))"

definition require_min_number :: "string \<Rightarrow> env \<Rightarrow> number \<Rightarrow> number \<Rightarrow> string + number" where
  "require_min_number name env least fallback =
     (if unset name env then Inr fallback
      else let raw = raw_value name env in (case number_of_string raw of
          None \<Rightarrow> Inl (must_be name (''a number >= '' @ number_string least) raw)
        | Some x \<Rightarrow> if x < least then Inl (must_be name (''a number >= '' @ number_string least) raw) else Inr x))"

definition require_non_negative_number :: "string \<Rightarrow> env \<Rightarrow> number \<Rightarrow> string + number" where
  "require_non_negative_number name env fallback =
     (if unset name env then Inr fallback
      else let raw = raw_value name env in (case number_of_string raw of
          None \<Rightarrow> Inl (must_be name ''a non-negative number'' raw)
        | Some x \<Rightarrow> if x < 0 then Inl (must_be name ''a non-negative number'' raw) else Inr x))"

definition ACCEPTED_NODE_ENVS :: "string list" where
  "ACCEPTED_NODE_ENVS = [''development'', ''test'', ''production'']"

definition ACCEPTED_LOG_LEVELS :: "string list" where
  "ACCEPTED_LOG_LEVELS = [''debug'', ''info'', ''warn'', ''error'']"

definition load_node_env :: "env \<Rightarrow> string + string" where
  "load_node_env env = (let raw = (case env ''NODE_ENV'' of Some r \<Rightarrow> r | None \<Rightarrow> ''development'') in
     if raw \<notin> set ACCEPTED_NODE_ENVS then Inl (must_be ''NODE_ENV'' (''one of '' @ join_with '' | '' ACCEPTED_NODE_ENVS) raw)
     else Inr raw)"

definition load_log_level :: "string \<Rightarrow> env \<Rightarrow> string \<Rightarrow> string + string" where
  "load_log_level name env fallback = (let raw = (case env name of Some r \<Rightarrow> r | None \<Rightarrow> fallback) in
     if raw \<notin> set ACCEPTED_LOG_LEVELS then Inl (must_be name (''one of '' @ join_with ''|'' ACCEPTED_LOG_LEVELS) raw)
     else Inr raw)"

definition load_url :: "url_parser \<Rightarrow> string \<Rightarrow> env \<Rightarrow> string list \<Rightarrow> string + string" where
  "load_url parse name env protocols = res_bind (require_string name env) (\<lambda>raw. case parse raw of
     None \<Rightarrow> Inl (name @ '' is not a valid URL (expected format: '' @ hd protocols @ ''//host/path)'')
   | Some (protocol, hostname) \<Rightarrow>
       if protocol \<notin> set protocols
       then Inl (name @ '' must use one of ['' @ join_with '', '' protocols @ ''], got: '' @ json_quote protocol)
       else if hostname = [] then Inl (name @ '' must include a hostname'') else Inr raw)"

definition resolve_cors_allowed_origins :: "string \<Rightarrow> string option \<Rightarrow> string list" where
  "resolve_cors_allowed_origins node_env raw = (let given = (case raw of Some r \<Rightarrow> r | None \<Rightarrow> []) in
     if trim given \<noteq> [] then filter (\<lambda>s. s \<noteq> []) (map trim (split_on (CHR '','') given))
     else if node_env = ''production'' then [] else [''http://localhost:3000'', ''http://localhost:5173''])"

text \<open>The keys that \<open>requireEnv\<close> reports before it exits; none means it returns.\<close>

definition missing_keys :: "string list \<Rightarrow> env \<Rightarrow> string list" where
  "missing_keys keys env = filter (\<lambda>k. case env k of None \<Rightarrow> True | Some v \<Rightarrow> trim v = []) keys"

subsection \<open>The loaders\<close>

record rate_tier =
  rt_window :: number
  rt_max :: number

record base_config =
  bc_node_env :: string
  bc_port :: number
  bc_body_limit :: number
  bc_database_url :: string
  bc_redis_url :: string
  bc_rpc_url :: string
  bc_network :: string
  bc_horizon_url :: string
  bc_challenge_window :: number
  bc_oracle_secret :: string
  bc_api_key :: string
  bc_admin_token :: string
  bc_origins :: "string list"
  bc_global :: rate_tier
  bc_heavy :: rate_tier
  bc_write :: rate_tier

definition load_tier :: "string \<Rightarrow> string \<Rightarrow> env \<Rightarrow> number \<Rightarrow> string + rate_tier" where
  "load_tier window_name max_name env fallback =
     res_bind (require_min_number window_name env 1 60000) (\<lambda>w.
     res_bind (require_positive_int max_name env (Some fallback) None) (\<lambda>m. Inr \<lparr>rt_window = w, rt_max = m\<rparr>))"

definition load_base_config :: "url_parser \<Rightarrow> env \<Rightarrow> string + base_config" where
  "load_base_config parse env =
     res_bind (load_node_env env) (\<lambda>node_env.
     res_bind (require_positive_int ''PORT'' env (Some 3000) (Some 65535)) (\<lambda>port.
     res_bind (require_positive_int ''BODY_LIMIT_BYTES'' env (Some 65536) None) (\<lambda>body.
     res_bind (load_url parse ''DATABASE_URL'' env [''postgresql:'', ''postgres:'']) (\<lambda>db.
     res_bind (load_url parse ''REDIS_URL'' env [''redis:'', ''rediss:'']) (\<lambda>rd.
     res_bind (load_url parse ''STELLAR_RPC_URL'' env [''https:'', ''http:'']) (\<lambda>rpc.
     res_bind (require_positive_int ''ORACLE_CHALLENGE_WINDOW_SECONDS'' env (Some 86400) None) (\<lambda>window.
     res_bind (require_string ''ORACLE_SECRET_KEY'' env) (\<lambda>secret.
     res_bind (require_string ''API_KEY'' env) (\<lambda>key.
     res_bind (require_string ''ADMIN_TOKEN'' env) (\<lambda>token.
     res_bind (load_tier ''RATE_LIMIT_WINDOW_MS'' ''RATE_LIMIT_MAX'' env 100) (\<lambda>all.
     res_bind (load_tier ''RATE_LIMIT_HEAVY_WINDOW_MS'' ''RATE_LIMIT_HEAVY_MAX'' env 20) (\<lambda>heavy.
     res_bind (load_tier ''RATE_LIMIT_WRITE_WINDOW_MS'' ''RATE_LIMIT_WRITE_MAX'' env 10) (\<lambda>write.
     Inr \<lparr>bc_node_env = node_env, bc_port = port, bc_body_limit = body, bc_database_url = db, bc_redis_url = rd,
       bc_rpc_url = rpc, bc_network = optional_string ''STELLAR_NETWORK'' ''testnet'' env,
       bc_horizon_url = optional_string ''STELLAR_HORIZON_URL'' ''https://horizon-testnet.stellar.org'' env,
       bc_challenge_window = window, bc_oracle_secret = secret, bc_api_key = key, bc_admin_token = token,
       bc_origins = resolve_cors_allowed_origins node_env (env ''CORS_ALLOWED_ORIGINS''),
       bc_global = all, bc_heavy = heavy, bc_write = write\<rparr>)))))))))))))"

record indexer_settings =
  ic_node_env :: string
  ic_rpc_url :: string
  ic_contract :: string
  ic_interval :: number
  ic_window :: number
  ic_network :: string
  ic_cursor_key :: string
  ic_flush_every :: number
  ic_log_level :: string

definition trimmed :: "string option \<Rightarrow> string" where
  "trimmed s = (case s of Some r \<Rightarrow> trim r | None \<Rightarrow> [])"

definition load_indexer_contract_id :: "env \<Rightarrow> string + string" where
  "load_indexer_contract_id env = (let a = trimmed (env ''INDEXER_CONTRACT_ID''); b = trimmed (env ''MARKET_CONTRACT_ID'') in
     if a \<noteq> [] then Inr a else if b \<noteq> [] then Inr b
     else Inl (missing ''INDEXER_CONTRACT_ID (or MARKET_CONTRACT_ID)''))"

definition load_indexer_config :: "url_parser \<Rightarrow> env \<Rightarrow> string + indexer_settings" where
  "load_indexer_config parse env =
     res_bind (load_node_env env) (\<lambda>node_env.
     res_bind (load_url parse ''STELLAR_RPC_URL'' env [''https:'', ''http:'']) (\<lambda>rpc.
     res_bind (load_indexer_contract_id env) (\<lambda>contract.
     res_bind (require_min_number ''INDEXER_INGESTION_INTERVAL_MS'' env 100 5000) (\<lambda>interval.
     res_bind (require_positive_int ''INDEXER_LEDGER_WINDOW_SIZE'' env (Some 100) None) (\<lambda>window.
     res_bind (require_positive_int ''INDEXER_CHECKPOINT_FLUSH_EVERY_BATCHES'' env (Some 10) None) (\<lambda>flush.
     res_bind (load_log_level ''INDEXER_LOG_LEVEL'' env ''info'') (\<lambda>level.
     Inr \<lparr>ic_node_env = node_env, ic_rpc_url = rpc, ic_contract = contract, ic_interval = interval, ic_window = window,
       ic_network = optional_string ''INDEXER_NETWORK_ID'' ''mainnet'' env,
       ic_cursor_key = optional_string ''INDEXER_CURSOR_KEY'' ''ingestion'' env, ic_flush_every = flush,
       ic_log_level = level\<rparr>)))))))"

record finalization_settings =
  fz_interval :: number
  fz_challenge_window :: number
  fz_log_level :: string

definition load_finalization_config :: "env \<Rightarrow> string + finalization_settings" where
  "load_finalization_config env =
     res_bind (require_min_number ''FINALIZATION_INTERVAL_MS'' env 1000 60000) (\<lambda>interval.
     res_bind (require_non_negative_number ''FINALIZATION_CHALLENGE_WINDOW_SECONDS'' env 3600) (\<lambda>window.
     res_bind (load_log_level ''FINALIZATION_LOG_LEVEL'' env ''info'') (\<lambda>level.
     Inr \<lparr>fz_interval = interval, fz_challenge_window = window, fz_log_level = level\<rparr>)))"

record oracle_worker_settings =
  ow_poll_interval :: number
  ow_max_retries :: number
  ow_visibility :: number
  ow_log_level :: string
  ow_redis_url :: string
  ow_database_url :: string

definition load_oracle_worker_config :: "url_parser \<Rightarrow> env \<Rightarrow> string + oracle_worker_settings" where
  "load_oracle_worker_config parse env =
     res_bind (require_min_number ''ORACLE_SUBMISSION_POLL_INTERVAL_MS'' env 1000 5000) (\<lambda>interval.
     res_bind (require_positive_int ''ORACLE_SUBMISSION_MAX_RETRIES'' env (Some 3) None) (\<lambda>retries.
     res_bind (require_positive_int ''ORACLE_SUBMISSION_VISIBILITY_TIMEOUT_MS'' env (Some 300000) None) (\<lambda>visibility.
     res_bind (load_log_level ''ORACLE_SUBMISSION_LOG_LEVEL'' env ''info'') (\<lambda>level.
     res_bind (load_url parse ''REDIS_URL'' env [''redis:'', ''rediss:'']) (\<lambda>rd.
     res_bind (load_url parse ''DATABASE_URL'' env [''postgresql:'', ''postgres:'']) (\<lambda>db.
     Inr \<lparr>ow_poll_interval = interval, ow_max_retries = retries, ow_visibility = visibility, ow_log_level = level,
       ow_redis_url = rd, ow_database_url = db\<rparr>))))))"

subsection \<open>The oracle\<close>

definition MIN_POLL_INTERVAL_MS :: number where "MIN_POLL_INTERVAL_MS = 5000"
definition MAX_POLL_INTERVAL_MS :: number where "MAX_POLL_INTERVAL_MS = 3600000"
definition DEFAULT_POLL_INTERVAL_MS :: number where "DEFAULT_POLL_INTERVAL_MS = 30000"

definition get_oracle_poll_interval :: "env \<Rightarrow> string + number" where
  "get_oracle_poll_interval env = (let name = ''ORACLE_POLL_INTERVAL_MS'' in
     if unset name env then Inr DEFAULT_POLL_INTERVAL_MS
     else let raw = raw_value name env in (case number_of_string raw of
         None \<Rightarrow> Inl (must_be name ''a positive integer'' raw)
       | Some x \<Rightarrow> if \<not> is_integer x \<or> x < 1 then Inl (must_be name ''a positive integer'' raw)
           else if x < MIN_POLL_INTERVAL_MS
           then Inl (name @ '' must be >= '' @ number_string MIN_POLL_INTERVAL_MS @ '' ms (lower safety bound), got: '' @ number_string x)
           else if MAX_POLL_INTERVAL_MS < x
           then Inl (name @ '' must be <= '' @ number_string MAX_POLL_INTERVAL_MS @ '' ms (upper safety bound), got: '' @ number_string x)
           else Inr x))"

record oracle_settings =
  oc_poll_interval :: number
  oc_challenge_window :: number
  oc_log_level :: string
  oc_secret_key :: "string option"

definition parse_log_level :: "string \<Rightarrow> env \<Rightarrow> string + string" where
  "parse_log_level name env =
     (if unset name env then Inr ''info''
      else let raw = raw_value name env in
        if raw \<in> set ACCEPTED_LOG_LEVELS then Inr raw
        else Inl (must_be name (''one of '' @ join_with '' | '' ACCEPTED_LOG_LEVELS) raw))"

definition load_oracle_config :: "env \<Rightarrow> string + oracle_settings" where
  "load_oracle_config env =
     res_bind (get_oracle_poll_interval env) (\<lambda>interval.
     res_bind (require_positive_int ''ORACLE_CHALLENGE_WINDOW_SECONDS'' env (Some 86400) None) (\<lambda>window.
     res_bind (parse_log_level ''ORACLE_LOG_LEVEL'' env) (\<lambda>level.
     Inr \<lparr>oc_poll_interval = interval, oc_challenge_window = window, oc_log_level = level,
       oc_secret_key = env ''ORACLE_SECRET_KEY''\<rparr>)))"

definition price_fetcher :: "js \<Rightarrow> js \<Rightarrow> string + (string \<times> number)" where
  "price_fetcher asset timeout = (case asset of
     Str a \<Rightarrow> if a = [] then Inl ''Invalid assetId: must be a non-empty string''
       else (case timeout of
           Num t \<Rightarrow> if t \<le> 0 then Inl ''Invalid timeoutMs: must be a positive number'' else Inr (a, t)
         | _ \<Rightarrow> Inl ''Invalid timeoutMs: must be a positive number'')
   | _ \<Rightarrow> Inl ''Invalid assetId: must be a non-empty string'')"

subsection \<open>The chain settings of the indexer\<close>

definition MAINNET_PASSPHRASE :: string where
  "MAINNET_PASSPHRASE = ''Public Global Stellar Network ; September 2015''"

record chain_settings =
  cc_passphrase :: string
  cc_horizon_url :: string

definition load_chain_config :: "env \<Rightarrow> string + chain_settings" where
  "load_chain_config env =
     (if trimmed (env ''SOROBAN_NETWORK_PASSPHRASE'') = [] then Inl (missing ''SOROBAN_NETWORK_PASSPHRASE'')
      else let passphrase = raw_value ''SOROBAN_NETWORK_PASSPHRASE'' env in
        Inr \<lparr>cc_passphrase = passphrase, cc_horizon_url = (case env ''STELLAR_HORIZON_URL'' of Some u \<Rightarrow> u
          | None \<Rightarrow> if passphrase = MAINNET_PASSPHRASE then ''https://horizon.stellar.org''
              else ''https://horizon-testnet.stellar.org'')\<rparr>)"

definition load_indexer_app_config :: "url_parser \<Rightarrow> env \<Rightarrow> string + indexer_settings \<times> chain_settings" where
  "load_indexer_app_config parse env =
     res_bind (load_indexer_config parse env) (\<lambda>shared. res_bind (load_chain_config env) (\<lambda>chain. Inr (shared, chain)))"

subsection \<open>What a loader can return\<close>

lemma res_bind_ok: "res_bind r f = Inr y \<longleftrightarrow> (\<exists>x. r = Inr x \<and> f x = Inr y)"
  by (cases r) auto

lemma positive_int_ok:
  assumes "require_positive_int name env fallback upper = Inr x"
  shows "x \<in> set_option fallback \<or> is_integer x \<and> 1 \<le> x \<and> (\<forall>m \<in> set_option upper. x \<le> m)"
  using assms by (auto simp: require_positive_int_def Let_def split: if_splits option.splits)

lemma positive_default:
  assumes "require_positive_int name env (Some (of_nat n)) upper = Inr x" "1 \<le> n" "\<forall>m \<in> set_option upper. of_nat n \<le> m"
  shows "is_integer x \<and> 1 \<le> x \<and> (\<forall>m \<in> set_option upper. x \<le> m)"
  using positive_int_ok [OF assms(1)] assms(2,3) is_integer_of_int [of "int n"] by auto

lemma min_number_ok: "require_min_number name env least fallback = Inr x \<Longrightarrow> least \<le> fallback \<Longrightarrow> least \<le> x"
  by (auto simp: require_min_number_def Let_def split: if_splits option.splits)

lemma non_negative_ok: "require_non_negative_number name env fallback = Inr x \<Longrightarrow> 0 \<le> fallback \<Longrightarrow> 0 \<le> x"
  by (auto simp: require_non_negative_number_def Let_def split: if_splits option.splits)

lemma log_level_ok: "load_log_level name env fallback = Inr l \<Longrightarrow> l \<in> set ACCEPTED_LOG_LEVELS"
  by (auto simp: load_log_level_def Let_def split: if_splits)

lemma node_env_ok: "load_node_env env = Inr e \<Longrightarrow> e \<in> set ACCEPTED_NODE_ENVS"
  by (auto simp: load_node_env_def Let_def split: if_splits)

lemma require_string_ok: "require_string name env = Inr s \<Longrightarrow> s \<noteq> []"
  by (auto simp: require_string_def split: if_splits option.splits)

lemma load_url_ok: "load_url parse name env protocols = Inr u \<Longrightarrow>
  \<exists>protocol hostname. parse u = Some (protocol, hostname) \<and> protocol \<in> set protocols \<and> hostname \<noteq> []"
  by (auto simp: load_url_def res_bind_ok split: option.splits if_splits)

definition tier_ok :: "rate_tier \<Rightarrow> bool" where
  "tier_ok t \<longleftrightarrow> 1 \<le> rt_window t \<and> 1 \<le> rt_max t \<and> is_integer (rt_max t)"

lemma load_tier_ok: "load_tier a b env (of_nat n) = Inr t \<Longrightarrow> 1 \<le> n \<Longrightarrow> tier_ok t"
  using min_number_ok [of a env 1 60000] positive_default [of b env n None]
  by (auto simp: load_tier_def res_bind_ok tier_ok_def)


end
