(* ===== verification/RateLimiter.thy ===== *)
theory RateLimiter
  imports JsValue
begin

text \<open>
  The rate limiter of the HTTP API: \<open>src/api/middleware/rateLimiter.ts\<close>. One fixed window per tier
  and client key, kept in nested maps; the clock and the environment are arguments. The hook either
  calls \<open>done()\<close> or answers 429. Counts stay far below 2^53, so they are integers here.
\<close>

type_synonym environment = "string \<Rightarrow> string option"

record window_entry =
  we_count :: int
  we_reset :: number

type_synonym limit_store = "(string \<times> window_entry) list"
type_synonym limit_stores = "(string \<times> limit_store) list"

record http_request =
  rq_forwarded :: "string option"
  rq_remote :: "string option"

text \<open>What the hook does with the reply: the headers it sets, then \<open>done()\<close> or status 429 with a body.\<close>

record limit_reply =
  lr_headers :: "(string \<times> string) list"
  lr_rejected :: "int option"

definition get_store :: "string \<Rightarrow> limit_stores \<Rightarrow> limit_store \<times> limit_stores" where
  "get_store tier stores = (case map_of stores tier of
     Some store \<Rightarrow> (store, stores)
   | None \<Rightarrow> ([], AList.update tier [] stores))"

definition clear_rate_limit_stores :: "limit_stores \<Rightarrow> limit_stores" where
  "clear_rate_limit_stores stores = []"

text \<open>\<open>a || b\<close> on texts that may be absent: the empty text is falsy.\<close>

definition or_text :: "string option \<Rightarrow> string option \<Rightarrow> string option" where
  "or_text a b = (case a of Some (c # s) \<Rightarrow> a | _ \<Rightarrow> b)"

definition extract_ip :: "http_request \<Rightarrow> string" where
  "extract_ip request =
     the (or_text (map_option (\<lambda>h. trim (hd (split_on (CHR '','') h))) (rq_forwarded request))
       (or_text (rq_remote request) (Some ''unknown'')))"

definition set_quota_headers :: "number \<Rightarrow> number \<Rightarrow> number \<Rightarrow> (string \<times> string) list" where
  "set_quota_headers limit remaining reset =
     [(''RateLimit-Limit'', number_string limit),
      (''RateLimit-Remaining'', number_string (max 0 remaining)),
      (''RateLimit-Reset'', int_string \<lceil>js_div reset 1000\<rceil>)]"

text \<open>\<open>Number(process.env[name]) || fallback\<close>: a missing, unreadable or zero value is the fallback.\<close>

definition env_number :: "environment \<Rightarrow> string \<Rightarrow> number \<Rightarrow> number" where
  "env_number env name fallback = (case Option.bind (env name) number_of_string of
     None \<Rightarrow> fallback | Some x \<Rightarrow> if x = 0 then fallback else x)"

definition apply_limit ::
    "environment \<Rightarrow> int \<Rightarrow> http_request \<Rightarrow> string \<Rightarrow> string \<Rightarrow> string \<Rightarrow> number \<Rightarrow> number \<Rightarrow> limit_stores
      \<Rightarrow> limit_reply \<times> limit_stores" where
  "apply_limit env now request tier window_env max_env default_window default_max stores0 =
     (let window = env_number env window_env default_window;
          limit = env_number env max_env default_max;
          key = extract_ip request;
          (store, stores) = get_store tier stores0;
          opened = \<lparr>we_count = 1, we_reset = js_add (of_int now) window\<rparr>;
          open_reply = \<lparr>lr_headers = set_quota_headers limit (js_sub limit 1) (we_reset opened), lr_rejected = None\<rparr>;
          save = (\<lambda>entry. AList.update tier (AList.update key entry store) stores)
      in case map_of store key of
          None \<Rightarrow> (open_reply, save opened)
        | Some entry \<Rightarrow>
            if we_reset entry \<le> of_int now then (open_reply, save opened)
            else let entry' = entry\<lparr>we_count := we_count entry + 1\<rparr>;
                     remaining = js_sub limit (of_int (we_count entry'))
                 in if limit < of_int (we_count entry')
                    then let retry = \<lceil>js_div (js_sub (we_reset entry') (of_int now)) 1000\<rceil>
                         in (\<lparr>lr_headers = set_quota_headers limit 0 (we_reset entry')
                                @ [(''Retry-After'', int_string retry)], lr_rejected = Some retry\<rparr>, save entry')
                    else (\<lparr>lr_headers = set_quota_headers limit remaining (we_reset entry'), lr_rejected = None\<rparr>,
                          save entry'))"

text \<open>The exported hooks.\<close>

datatype limiter = Global | HeavyRead | Write | Admin

fun run_limiter :: "limiter \<Rightarrow> environment \<Rightarrow> int \<Rightarrow> http_request \<Rightarrow> limit_stores \<Rightarrow> limit_reply \<times> limit_stores" where
  "run_limiter Global env now request = apply_limit env now request ''global''
     ''RATE_LIMIT_WINDOW_MS'' ''RATE_LIMIT_MAX'' 60000 100"
| "run_limiter HeavyRead env now request = apply_limit env now request ''heavy-read''
     ''RATE_LIMIT_HEAVY_WINDOW_MS'' ''RATE_LIMIT_HEAVY_MAX'' 60000 20"
| "run_limiter Write env now request = apply_limit env now request ''write''
     ''RATE_LIMIT_WRITE_WINDOW_MS'' ''RATE_LIMIT_WRITE_MAX'' 60000 10"
| "run_limiter Admin env now request = apply_limit env now request ''admin''
     ''RATE_LIMIT_ADMIN_WINDOW_MS'' ''RATE_LIMIT_ADMIN_MAX'' 60000 30"

fun limiter_tier :: "limiter \<Rightarrow> string" where
  "limiter_tier Global = ''global''"
| "limiter_tier HeavyRead = ''heavy-read''"
| "limiter_tier Write = ''write''"
| "limiter_tier Admin = ''admin''"

fun limiter_window :: "environment \<Rightarrow> limiter \<Rightarrow> number" where
  "limiter_window env Global = env_number env ''RATE_LIMIT_WINDOW_MS'' 60000"
| "limiter_window env HeavyRead = env_number env ''RATE_LIMIT_HEAVY_WINDOW_MS'' 60000"
| "limiter_window env Write = env_number env ''RATE_LIMIT_WRITE_WINDOW_MS'' 60000"
| "limiter_window env Admin = env_number env ''RATE_LIMIT_ADMIN_WINDOW_MS'' 60000"

fun limiter_max :: "environment \<Rightarrow> limiter \<Rightarrow> number" where
  "limiter_max env Global = env_number env ''RATE_LIMIT_MAX'' 100"
| "limiter_max env HeavyRead = env_number env ''RATE_LIMIT_HEAVY_MAX'' 20"
| "limiter_max env Write = env_number env ''RATE_LIMIT_WRITE_MAX'' 10"
| "limiter_max env Admin = env_number env ''RATE_LIMIT_ADMIN_MAX'' 30"

subsection \<open>Traffic\<close>

text \<open>A sequence of hook calls: which hook, when, for which request; the answer of each call.\<close>

type_synonym traffic = "(limiter \<times> int \<times> http_request) list"

fun serve :: "environment \<Rightarrow> traffic \<Rightarrow> limit_stores \<Rightarrow> limit_reply list" where
  "serve env [] stores = []"
| "serve env ((l, now, request) # rest) stores =
     (let (reply, stores') = run_limiter l env now request stores in reply # serve env rest stores')"

text \<open>The abstract limiter of one client in one tier: the entry and the times of its calls.\<close>

fun admit :: "number \<Rightarrow> number \<Rightarrow> int list \<Rightarrow> window_entry option \<Rightarrow> bool list" where
  "admit W M [] e = []"
| "admit W M (t # ts) None = True # admit W M ts (Some \<lparr>we_count = 1, we_reset = js_add (of_int t) W\<rparr>)"
| "admit W M (t # ts) (Some e) =
     (if we_reset e \<le> of_int t then True # admit W M ts (Some \<lparr>we_count = 1, we_reset = js_add (of_int t) W\<rparr>)
      else (of_int (we_count e + 1) \<le> M) # admit W M ts (Some (e\<lparr>we_count := we_count e + 1\<rparr>)))"

definition entry_of :: "limit_stores \<Rightarrow> limiter \<Rightarrow> string \<Rightarrow> window_entry option" where
  "entry_of stores l key = Option.bind (map_of stores (limiter_tier l)) (\<lambda>store. map_of store key)"

definition concerns :: "limiter \<Rightarrow> string \<Rightarrow> limiter \<times> int \<times> http_request \<Rightarrow> bool" where
  "concerns l key c \<longleftrightarrow> fst c = l \<and> extract_ip (snd (snd c)) = key"

text \<open>The verdicts on the calls of one client in one tier, picked out of the whole traffic.\<close>

definition verdicts :: "environment \<Rightarrow> limiter \<Rightarrow> string \<Rightarrow> traffic \<Rightarrow> limit_stores \<Rightarrow> bool list" where
  "verdicts env l key calls stores =
     map (\<lambda>(c, r). lr_rejected r = None) (filter (\<lambda>(c, r). concerns l key c) (zip calls (serve env calls stores)))"

definition times_of :: "limiter \<Rightarrow> string \<Rightarrow> traffic \<Rightarrow> int list" where
  "times_of l key calls = map (\<lambda>c. fst (snd c)) (filter (concerns l key) calls)"

lemma limiter_tier_inject [simp]: "limiter_tier l = limiter_tier l' \<longleftrightarrow> l = l'"
  by (cases l; cases l') simp_all

lemma run_limiter_apply:
  "\<exists>we me dw dm. (\<forall>stores. run_limiter l env now request stores
      = apply_limit env now request (limiter_tier l) we me dw dm stores)
     \<and> env_number env we dw = limiter_window env l \<and> env_number env me dm = limiter_max env l"
  by (cases l) auto

lemma get_store_lookup:
  "get_store tier stores = (store, stores') \<Longrightarrow>
     (\<forall>key. Option.bind (map_of stores tier) (\<lambda>s. map_of s key) = map_of store key)
     \<and> (\<forall>tier'. tier' \<noteq> tier \<longrightarrow> map_of stores' tier' = map_of stores tier')"
  by (auto simp: get_store_def split: option.splits)

text \<open>One call moves the entry of its own client and tier as the abstract limiter does, and no other.\<close>

lemma run_limiter_step:
  assumes "run_limiter l env now request stores = (reply, stores')"
    and W: "W = limiter_window env l" and M: "M = limiter_max env l" and key: "key = extract_ip request"
  shows "admit W M (now # ts) (entry_of stores l key)
      = (lr_rejected reply = None) # admit W M ts (entry_of stores' l key)"
    and "\<not> (l' = l \<and> key' = key) \<Longrightarrow> entry_of stores' l' key' = entry_of stores l' key'"
proof -
  obtain we me dw dm where run: "apply_limit env now request (limiter_tier l) we me dw dm stores = (reply, stores')"
    and ew: "env_number env we dw = W" and em: "env_number env me dm = M"
    using run_limiter_apply [of l env now request] assms(1) W M by auto
  obtain store stores1 where gs: "get_store (limiter_tier l) stores = (store, stores1)" by fastforce
  have own: "Option.bind (map_of stores (limiter_tier l)) (\<lambda>s. map_of s key') = map_of store key'" for key'
    using get_store_lookup [OF gs] by simp
  have other: "l' \<noteq> l \<Longrightarrow> map_of stores1 (limiter_tier l') = map_of stores (limiter_tier l')"
    using get_store_lookup [OF gs] by simp
  note defs = apply_limit_def gs ew em key [symmetric] Let_def
  show "admit W M (now # ts) (entry_of stores l key)
      = (lr_rejected reply = None) # admit W M ts (entry_of stores' l key)"
    using run by (auto simp: own defs entry_of_def split: option.splits if_splits)
  show "\<not> (l' = l \<and> key' = key) \<Longrightarrow> entry_of stores' l' key' = entry_of stores l' key'"
    using run by (cases "l' = l") (auto simp: own other defs entry_of_def split: option.splits if_splits)
qed

lemma verdicts_Cons:
  assumes "run_limiter l' env now request stores = (reply, stores')"
  shows "verdicts env l key ((l', now, request) # calls) stores
     = (if l' = l \<and> extract_ip request = key then [lr_rejected reply = None] else [])
       @ verdicts env l key calls stores'"
  using assms by (simp add: verdicts_def concerns_def)

lemma times_of_Cons:
  "times_of l key ((l', now, request) # calls)
     = (if l' = l \<and> extract_ip request = key then [now] else []) @ times_of l key calls"
  by (simp add: times_of_def concerns_def)

lemma verdicts_admit:
  "verdicts env l key calls stores
     = admit (limiter_window env l) (limiter_max env l) (times_of l key calls) (entry_of stores l key)"
proof (induction calls arbitrary: stores)
  case Nil
  show ?case by (simp add: verdicts_def times_of_def)
next
  case (Cons c calls)
  obtain l' now request where c: "c = (l', now, request)" by (cases c)
  obtain reply stores' where run: "run_limiter l' env now request stores = (reply, stores')" by fastforce
  note step = run_limiter_step [OF run refl refl refl] and IH = Cons.IH [of stores']
  show ?case
  proof (cases "l' = l \<and> extract_ip request = key")
    case True
    then show ?thesis
      using IH step(1) unfolding c verdicts_Cons [OF run] times_of_Cons by auto
  next
    case False
    then have "entry_of stores' l key = entry_of stores l key" by (intro step(2)) blast
    then show ?thesis
      using IH False unfolding c verdicts_Cons [OF run] times_of_Cons by auto
  qed
qed

subsection \<open>How many calls are admitted\<close>

definition admitted_in :: "int \<Rightarrow> int \<Rightarrow> int list \<Rightarrow> bool list \<Rightarrow> nat" where
  "admitted_in a b ts vs = length (filter (\<lambda>(t, v). v \<and> a \<le> t \<and> t < b) (zip ts vs))"

lemma admitted_in_simps [simp]:
  "admitted_in a b [] vs = 0"
  "admitted_in a b (t # ts) (v # vs) = (if v \<and> a \<le> t \<and> t < b then 1 else 0) + admitted_in a b ts vs"
  by (simp_all add: admitted_in_def)

lemma admitted_in_late: "\<forall>t \<in> set ts. b \<le> t \<Longrightarrow> admitted_in a b ts vs = 0"
  by (auto simp: admitted_in_def filter_empty_conv dest!: set_zip_leftD)

definition clock_ok :: "int \<Rightarrow> int list \<Rightarrow> bool" where
  "clock_ok w ts \<longleftrightarrow> sorted ts \<and> (\<forall>t \<in> set ts. 0 \<le> t \<and> t + w < 2 ^ 53)"

lemma clock_ok_Cons: "clock_ok w (t # ts) \<longleftrightarrow> 0 \<le> t \<and> t + w < 2 ^ 53 \<and> (\<forall>u \<in> set ts. t \<le> u) \<and> clock_ok w ts"
  by (auto simp: clock_ok_def)

lemma reset_exact: "0 < w \<Longrightarrow> 0 \<le> t \<Longrightarrow> t + w < 2 ^ 53 \<Longrightarrow> js_add (of_int t) (of_int w) = of_int (t + w)"
  unfolding js_add_def of_int_add [symmetric] by (rule fl_of_int) simp

lemma within_quota: "of_int (c + 1) \<le> (M::rat) \<longleftrightarrow> c + 1 \<le> \<lfloor>M\<rfloor>"
  by (simp add: le_floor_iff)

text \<open>A window that outlasts the interval admits what is left of the quota.\<close>

lemma admit_open_window:
  "clock_ok w ts \<Longrightarrow> 0 < w \<Longrightarrow> of_int b \<le> we_reset e \<Longrightarrow> 0 \<le> we_count e \<Longrightarrow>
     admitted_in a b ts (admit (of_int w) M ts (Some e)) \<le> nat (\<lfloor>M\<rfloor> - we_count e)"
proof (induction ts arbitrary: e)
  case (Cons t ts)
  show ?case
  proof (cases "b \<le> t")
    case True
    then have "\<forall>u \<in> set (t # ts). b \<le> u" using Cons.prems(1) by (auto simp: clock_ok_Cons)
    then show ?thesis by (simp only: admitted_in_late)
  next
    case False
    then have open_window: "\<not> we_reset e \<le> of_int t" using Cons.prems(3) by (simp add: not_le order_less_le_trans)
    let ?e = "e\<lparr>we_count := we_count e + 1\<rparr>"
    have "admitted_in a b ts (admit (of_int w) M ts (Some ?e)) \<le> nat (\<lfloor>M\<rfloor> - we_count ?e)"
      using Cons.prems by (intro Cons.IH) (auto simp: clock_ok_Cons)
    then show ?thesis using open_window by (simp add: within_quota del: of_int_add) linarith
  qed
qed simp

lemma admit_fresh_window:
  assumes "clock_ok w (t # ts)" "0 < w" "1 \<le> \<lfloor>M\<rfloor>" "b \<le> a + w" "a \<le> t"
  shows "admitted_in a b (t # ts) (True # admit (of_int w) M ts (Some \<lparr>we_count = 1, we_reset = js_add (of_int t) (of_int w)\<rparr>))
     \<le> nat \<lfloor>M\<rfloor>"
proof -
  have reset: "js_add (of_int t) (of_int w) = of_int (t + w)"
    using assms by (intro reset_exact) (auto simp: clock_ok_Cons)
  have "admitted_in a b ts (admit (of_int w) M ts (Some \<lparr>we_count = 1, we_reset = of_int (t + w)\<rparr>)) \<le> nat (\<lfloor>M\<rfloor> - 1)"
    using admit_open_window [of w ts b "\<lparr>we_count = 1, we_reset = of_int (t + w)\<rparr>" a M] assms
    by (simp add: clock_ok_Cons del: of_int_add)
  then show ?thesis using assms(3) unfolding reset by simp linarith
qed

text \<open>From the start of the interval on: the rest of the running window, then one new window.\<close>

lemma admit_two_windows:
  "clock_ok w ts \<Longrightarrow> 0 < w \<Longrightarrow> 1 \<le> \<lfloor>M\<rfloor> \<Longrightarrow> b \<le> a + w \<Longrightarrow> 0 \<le> we_count e \<Longrightarrow> \<forall>t \<in> set ts. a \<le> t \<Longrightarrow>
     admitted_in a b ts (admit (of_int w) M ts (Some e)) \<le> nat (\<lfloor>M\<rfloor> - we_count e) + nat \<lfloor>M\<rfloor>"
proof (induction ts arbitrary: e)
  case (Cons t ts)
  show ?case
  proof (cases "we_reset e \<le> of_int t")
    case True
    then show ?thesis using admit_fresh_window [of w t ts M b a] Cons.prems by simp
  next
    case False
    let ?e = "e\<lparr>we_count := we_count e + 1\<rparr>"
    have "admitted_in a b ts (admit (of_int w) M ts (Some ?e)) \<le> nat (\<lfloor>M\<rfloor> - we_count ?e) + nat \<lfloor>M\<rfloor>"
      using Cons.prems by (intro Cons.IH) (auto simp: clock_ok_Cons)
    then show ?thesis using False by (simp add: within_quota del: of_int_add) linarith
  qed
qed simp

lemma admit_bounded:
  "clock_ok w ts \<Longrightarrow> 0 < w \<Longrightarrow> 1 \<le> \<lfloor>M\<rfloor> \<Longrightarrow> b \<le> a + w \<Longrightarrow> (\<forall>x. e = Some x \<longrightarrow> 0 \<le> we_count x) \<Longrightarrow>
     admitted_in a b ts (admit (of_int w) M ts e) \<le> 2 * nat \<lfloor>M\<rfloor>"
proof (induction ts arbitrary: e)
  case (Cons t ts)
  show ?case
  proof (cases "a \<le> t")
    case True
    then have from_a: "\<forall>u \<in> set (t # ts). a \<le> u" using Cons.prems(1) by (auto simp: clock_ok_Cons)
    show ?thesis
    proof (cases e)
      case None
      then show ?thesis using admit_fresh_window [of w t ts M b a] Cons.prems True by simp
    next
      case (Some x)
      then show ?thesis
        using admit_two_windows [of w "t # ts" M b a x] Cons.prems from_a by (simp del: admit.simps)
    qed
  next
    case False
    have step: "admitted_in a b ts (admit (of_int w) M ts (Some x)) \<le> 2 * nat \<lfloor>M\<rfloor>" if "0 \<le> we_count x" for x
      using Cons.prems that by (intro Cons.IH) (auto simp: clock_ok_Cons)
    show ?thesis
    proof (cases e)
      case None
      then show ?thesis using False by (simp add: step)
    next
      case (Some x)
      then show ?thesis using False Cons.prems by (simp add: step)
    qed
  qed
qed simp

lemma upt_length_Cons: "[0..<length (x # xs)] = 0 # map Suc [0..<length xs]"
  by (simp add: map_Suc_upt upt_conv_Cons del: upt_Suc)

text \<open>A client whose window has run out gets the whole quota, and nothing more before the reset.\<close>

lemma admit_quota:
  "0 \<le> we_count e \<Longrightarrow> \<forall>t \<in> set ts. of_int t < we_reset e \<Longrightarrow>
     admit W M ts (Some e) = map (\<lambda>i. we_count e + int i < \<lfloor>M\<rfloor>) [0..<length ts]"
proof (induction ts arbitrary: e)
  case (Cons t ts)
  let ?e = "e\<lparr>we_count := we_count e + 1\<rparr>"
  have IH: "admit W M ts (Some ?e) = map (\<lambda>i. we_count ?e + int i < \<lfloor>M\<rfloor>) [0..<length ts]"
    using Cons.prems by (intro Cons.IH) auto
  have "\<not> we_reset e \<le> of_int t" using Cons.prems by auto
  then show ?case
    by (simp only: admit.simps if_False IH upt_length_Cons list.map map_map) (auto simp: within_quota add.assoc simp del: of_int_add)
qed simp

lemma admit_fresh_quota:
  assumes "clock_ok w (t # ts)" "0 < w" "1 \<le> \<lfloor>M\<rfloor>" "\<forall>u \<in> set ts. u < t + w"
  shows "True # admit (of_int w) M ts (Some \<lparr>we_count = 1, we_reset = js_add (of_int t) (of_int w)\<rparr>)
     = map (\<lambda>i. int i < \<lfloor>M\<rfloor>) [0..<length (t # ts)]"
proof -
  have reset: "js_add (of_int t) (of_int w) = of_int (t + w)"
    using assms by (intro reset_exact) (auto simp: clock_ok_Cons)
  have later: "\<forall>u \<in> set ts. (of_int u :: rat) < of_int (t + w)" using assms(4) by (simp only: of_int_less_iff)
  have "admit (of_int w) M ts (Some \<lparr>we_count = 1, we_reset = of_int (t + w)\<rparr>)
      = map (\<lambda>i. 1 + int i < \<lfloor>M\<rfloor>) [0..<length ts]"
    using admit_quota [of "\<lparr>we_count = 1, we_reset = of_int (t + w)\<rparr>" ts "of_int w" M] later by simp
  then show ?thesis using assms(3) unfolding reset upt_length_Cons by (simp add: o_def)
qed


definition demo_request :: http_request where
  "demo_request = \<lparr>rq_forwarded = Some ''10.0.0.1, 10.9.9.9'', rq_remote = Some ''10.9.9.9''\<rparr>"

definition demo_traffic :: traffic where
  "demo_traffic = map (\<lambda>t. (Write, t, demo_request)) [1000..1011]"

lemma demo_times: "times_of Write ''10.0.0.1'' demo_traffic = [1000..1011]"
  by code_simp


text \<open>The client key is the first element of a header the client writes: with a fresh value in every
  call no call is ever refused.\<close>

lemma rotating_forwarded_unlimited:
  assumes "distinct (map (\<lambda>c. extract_ip (snd (snd c))) calls)" "c \<in> set calls"
  shows "verdicts env (fst c) (extract_ip (snd (snd c))) calls [] = [True]"
proof -
  let ?l = "fst c" and ?key = "extract_ip (snd (snd c))"
  have "filter (concerns ?l ?key) calls = [c]"
    using assms
  proof (induction calls)
    case (Cons d calls)
    then show ?case by (force simp: concerns_def filter_empty_conv image_iff)
  qed simp
  then have "times_of ?l ?key calls = [fst (snd c)]" by (simp add: times_of_def)
  then show ?thesis by (simp add: verdicts_admit entry_of_def)
qed

text \<open>A configured maximum of 0 does not close the API: it is replaced by the tier's default.\<close>

lemma zero_max_is_default: "env ''RATE_LIMIT_MAX'' = Some ''0'' \<Longrightarrow> limiter_max env Global = 100"
proof -
  assume "env ''RATE_LIMIT_MAX'' = Some ''0''"
  moreover have "number_of_string ''0'' = Some 0" by code_simp
  ultimately show ?thesis by (simp add: env_number_def)
qed

end
