(* ===== verification/ApiErrors.thy ===== *)
theory ApiErrors
  imports JsValue
begin

text \<open>
  The errors and replies of the HTTP API: \<open>src/api/middleware/errors.ts\<close>, \<open>errorHandler.ts\<close> and
  \<open>responses.ts\<close>. \<open>Thrown\<close> is any other error.
\<close>

datatype api_error =
  ValidationError string "(string \<times> string) list option"
| NotFoundError string
| MarketNotFoundError string
| UnauthorizedError string
| ForbiddenError string
| Thrown string

fun error_message :: "api_error \<Rightarrow> string" where
  "error_message (ValidationError m fields) = m"
| "error_message (NotFoundError m) = m"
| "error_message (MarketNotFoundError i) = ''Market with ID '' @ i @ '' not found''"
| "error_message (UnauthorizedError m) = m"
| "error_message (ForbiddenError m) = m"
| "error_message (Thrown m) = m"

text \<open>The property \<open>statusCode\<close>; a plain error has none and counts as 500.\<close>

fun status_code :: "api_error \<Rightarrow> int" where
  "status_code (ValidationError m fields) = 400"
| "status_code (NotFoundError m) = 404"
| "status_code (MarketNotFoundError i) = 404"
| "status_code (UnauthorizedError m) = 401"
| "status_code (ForbiddenError m) = 403"
| "status_code (Thrown m) = 500"

fun app_error_code :: "api_error \<Rightarrow> string option" where
  "app_error_code (ValidationError m fields) = Some ''validation_error''"
| "app_error_code (NotFoundError m) = Some ''not_found''"
| "app_error_code (MarketNotFoundError i) = Some ''market_not_found''"
| "app_error_code (UnauthorizedError m) = Some ''unauthorized''"
| "app_error_code (ForbiddenError m) = Some ''forbidden''"
| "app_error_code (Thrown m) = None"

definition resolve_code :: "api_error \<Rightarrow> int \<Rightarrow> string" where
  "resolve_code e status = (case e of
     ValidationError _ _ \<Rightarrow> ''VALIDATION_ERROR''
   | NotFoundError _ \<Rightarrow> ''NOT_FOUND''
   | UnauthorizedError _ \<Rightarrow> ''UNAUTHORIZED''
   | ForbiddenError _ \<Rightarrow> ''FORBIDDEN''
   | _ \<Rightarrow> if 500 \<le> status then ''INTERNAL_ERROR'' else ''BAD_REQUEST'')"

text \<open>\<open>MarketNotFoundError\<close> extends \<open>AppError\<close>, not \<open>NotFoundError\<close>, so its 404 is labelled BAD_REQUEST.\<close>

lemma market_not_found_code: "resolve_code (MarketNotFoundError i) (status_code (MarketNotFoundError i)) = ''BAD_REQUEST''"
  by (simp add: resolve_code_def)

text \<open>Replies: status and body. The identifier and the time of a success are arguments.\<close>

type_synonym http_reply = "int \<times> js"

definition success_reply :: "string \<Rightarrow> string \<Rightarrow> js \<Rightarrow> int \<Rightarrow> http_reply" where
  "success_reply uuid iso_now data status = (status, Obj [(''success'', Bool True), (''data'', data),
     (''requestId'', Str uuid), (''timestamp'', Str iso_now)])"

definition auth_error_body :: "string \<Rightarrow> string \<Rightarrow> int \<Rightarrow> js" where
  "auth_error_body message code status = Obj [(''error'', Str message), (''code'', Str code), (''statusCode'', Num (of_int status))]"

definition unauthorized :: "string \<Rightarrow> http_reply" where
  "unauthorized message = (401, auth_error_body message ''UNAUTHORIZED'' 401)"

definition forbidden :: "string \<Rightarrow> http_reply" where
  "forbidden message = (403, auth_error_body message ''FORBIDDEN'' 403)"

subsection \<open>The error handler\<close>

text \<open>An error as it reaches the handler: the property \<open>statusCode\<close> if there is one that is a number, which
  Fastify's own errors have too, and the stack.\<close>

record handled_error =
  he_error :: api_error
  he_status :: "int option"
  he_stack :: string

definition raised :: "api_error \<Rightarrow> string \<Rightarrow> handled_error" where
  "raised e stack = \<lparr>he_error = e, he_status = (case e of Thrown _ \<Rightarrow> None | _ \<Rightarrow> Some (status_code e)), he_stack = stack\<rparr>"

text \<open>The handler uses three names that its module neither defines nor imports. What the scope holds for
  them is an argument: the answer of \<open>isProduction\<close>, whether \<open>AppError\<close> is the class, the value of \<open>requestId\<close>.
  Reading a name that the scope does not have throws.\<close>

record handler_scope =
  hs_production :: "bool option"
  hs_app_error :: bool
  hs_request_id :: "string option"

definition module_scope :: handler_scope where
  "module_scope = \<lparr>hs_production = None, hs_app_error = False, hs_request_id = None\<rparr>"

definition handled_status :: "handled_error \<Rightarrow> int" where
  "handled_status e = (case he_status e of Some n \<Rightarrow> n | None \<Rightarrow> 500)"

text \<open>The line it logs: level, context and message.\<close>

definition error_log :: "handled_error \<Rightarrow> string \<Rightarrow> string \<Rightarrow> (string \<times> js \<times> string) list" where
  "error_log e http_method url = (let status = handled_status e;
       context = Obj ([(''method'', Str http_method), (''path'', Str url), (''statusCode'', Num (of_int status)),
         (''message'', Str (error_message (he_error e)))] @ (if 500 \<le> status then [(''stack'', Str (he_stack e))] else []))
     in if 400 \<le> status \<and> status < 500 then [(''warn'', context, ''Client request error'')]
        else if 500 \<le> status then [(''error'', context, ''Unhandled request error'')] else [])"

text \<open>The reply. The literal has \<open>code\<close> and \<open>requestId\<close> twice: a member keeps its first place and takes its last value.\<close>

definition error_envelope :: "bool \<Rightarrow> handled_error \<Rightarrow> string \<Rightarrow> http_reply" where
  "error_envelope production e request_id = (let status = handled_status e;
       message = (if production \<and> 500 \<le> status then ''Internal server error'' else error_message (he_error e))
     in (status, Obj ([(''code'', Str (resolve_code (he_error e) status)), (''message'', Str message), (''error'', Str message),
          (''requestId'', Str request_id), (''statusCode'', Num (of_int status))]
        @ (if \<not> production \<and> 500 \<le> status then [(''stack'', Str (he_stack e))] else [])
        @ (case he_error e of ValidationError m (Some by_field) \<Rightarrow>
             [(''metadata'', Obj [(''fields'', Obj (map (\<lambda>(k, v). (k, Str v)) by_field))])] | _ \<Rightarrow> []))))"

definition error_handler ::
    "handler_scope \<Rightarrow> handled_error \<Rightarrow> string \<Rightarrow> string \<Rightarrow> string \<Rightarrow> (string \<times> js \<times> string) list \<times> (string + http_reply)" where
  "error_handler scope e http_method url request_id = (error_log e http_method url,
     case hs_production scope of
       None \<Rightarrow> Inl ''isProduction is not defined''
     | Some production \<Rightarrow>
         if \<not> hs_app_error scope then Inl ''AppError is not defined''
         else if hs_request_id scope = None then Inl ''requestId is not defined''
         else Inr (error_envelope production e request_id))"

text \<open>As the module stands, every error is logged and then becomes a \<open>ReferenceError\<close>.\<close>

lemma handler_always_throws:
  "snd (error_handler module_scope e http_method url request_id) = Inl ''isProduction is not defined''"
  by (simp add: error_handler_def module_scope_def)

text \<open>With the names bound: in production the reply to a server error depends on its status and class alone,
  while the log has its message and its stack; a client error is told its message.\<close>

lemma production_hides_internals:
  assumes "500 \<le> handled_status e" "he_error e = Thrown m"
  shows "snd (error_handler \<lparr>hs_production = Some True, hs_app_error = True, hs_request_id = Some s\<rparr> e http_method url request_id)
      = Inr (handled_status e, Obj [(''code'', Str ''INTERNAL_ERROR''), (''message'', Str ''Internal server error''),
          (''error'', Str ''Internal server error''), (''requestId'', Str request_id), (''statusCode'', Num (of_int (handled_status e)))])"
    and "\<exists>context. error_log e http_method url = [(''error'', Obj context, ''Unhandled request error'')]
      \<and> (''message'', Str m) \<in> set context \<and> (''stack'', Str (he_stack e)) \<in> set context"
  using assms by (simp_all add: error_handler_def error_envelope_def error_log_def resolve_code_def Let_def)

lemma client_errors_told:
  assumes "handled_status e < 500"
  shows "\<exists>body. error_envelope production e request_id = (handled_status e, Obj body)
    \<and> map_of body ''message'' = Some (Str (error_message (he_error e)))
    \<and> map_of body ''code'' = Some (Str (resolve_code (he_error e) (handled_status e)))
    \<and> map_of body ''stack'' = None"
  using assms by (simp add: error_envelope_def Let_def split: api_error.split option.split)

text \<open>A validation error names its fields.\<close>

lemma fields_reported:
  "\<exists>body. error_envelope production (raised (ValidationError m (Some by_field)) stack) request_id = (400, Obj body)
    \<and> map_of body ''metadata'' = Some (Obj [(''fields'', Obj (map (\<lambda>(k, v). (k, Str v)) by_field))])"
  by (simp add: error_envelope_def raised_def handled_status_def Let_def)

end
