(* ===== verification/Auth.thy ===== *)
theory Auth
  imports ResolutionReport ApiErrors JsNumeral
begin

text \<open>
  Authentication of HTTP requests and order receipts: \<open>src/api/middleware/stellarAuth.ts\<close>,
  \<open>adminGuard.ts\<close>, \<open>apiKeyAuth.ts\<close> and \<open>src/services/signing.ts\<close>. Key pairs are the argument
  \<open>keypairs\<close>; messages are the JSON texts that are signed. A hook either calls \<open>done()\<close> (\<open>Inr ()\<close>) or
  replies (\<open>Inl\<close>).
\<close>

subsection \<open>Signed orders\<close>

record order_fields =
  sf_market :: string
  sf_outcome :: string
  sf_price :: number
  sf_quantity :: number
  sf_side :: string
  sf_timestamp :: number
  sf_user :: string

definition TIMESTAMP_TOLERANCE_MS :: number where "TIMESTAMP_TOLERANCE_MS = 300000"

definition json_object :: "(string \<times> js) list \<Rightarrow> string" where
  "json_object ps = ''{'' @ join_with '','' (json_members ps) @ ''}''"

definition build_signable_message :: "order_fields \<Rightarrow> string" where
  "build_signable_message f = json_object [(''marketId'', Str (sf_market f)), (''outcome'', Str (sf_outcome f)),
     (''price'', Num (sf_price f)), (''quantity'', Num (sf_quantity f)), (''side'', Str (sf_side f)),
     (''timestamp'', Num (sf_timestamp f)), (''userAddress'', Str (sf_user f))]"

text \<open>The parsed body; the schema of the route has checked the types of what is present.\<close>

record order_body =
  bo_market :: "string option"
  bo_user :: "string option"
  bo_side :: "string option"
  bo_outcome :: "string option"
  bo_price :: "number option"
  bo_quantity :: "number option"

record signed_request =
  hr_signature :: "string option"
  hr_timestamp :: "string option"
  hr_body :: "order_body option"

definition present :: "string option \<Rightarrow> string option" where
  "present s = (case s of Some [] \<Rightarrow> None | _ \<Rightarrow> s)"

definition body_fields :: "order_body \<Rightarrow> number \<Rightarrow> string \<Rightarrow> order_fields" where
  "body_fields b ts user = (let text = (\<lambda>s. case s of None \<Rightarrow> [] | Some t \<Rightarrow> t); num = (\<lambda>x. case x of None \<Rightarrow> 0 | Some y \<Rightarrow> y)
     in \<lparr>sf_market = text (bo_market b), sf_outcome = text (bo_outcome b), sf_price = num (bo_price b),
         sf_quantity = num (bo_quantity b), sf_side = text (bo_side b), sf_timestamp = ts, sf_user = user\<rparr>)"

definition verify_stellar_signature :: "keypairs \<Rightarrow> int \<Rightarrow> signed_request \<Rightarrow> http_reply + unit" where
  "verify_stellar_signature lib now request = (case present (hr_signature request) of
     None \<Rightarrow> Inl (unauthorized ''Missing x-signature header'')
   | Some raw_sig \<Rightarrow> (case present (hr_timestamp request) of
       None \<Rightarrow> Inl (unauthorized ''Missing x-timestamp header'')
     | Some raw_ts \<Rightarrow> (case number_of_string raw_ts of
         None \<Rightarrow> Inl (unauthorized ''Invalid x-timestamp header'')
       | Some ts \<Rightarrow>
           if ts \<le> 0 then Inl (unauthorized ''Invalid x-timestamp header'')
           else if TIMESTAMP_TOLERANCE_MS < \<bar>js_sub (of_int now) ts\<bar> then Inl (unauthorized ''Request timestamp is expired'')
           else (case Option.bind (hr_body request) (\<lambda>b. map_option (Pair b) (present (bo_user b))) of
               None \<Rightarrow> Inl (unauthorized ''Missing userAddress in request body'')
             | Some (b, user) \<Rightarrow> (case kp_verify lib user (build_signable_message (body_fields b ts user)) raw_sig of
                   Inl e \<Rightarrow> Inl (unauthorized ''Invalid signature or userAddress'')
                 | Inr valid \<Rightarrow> if \<not> valid then Inl (unauthorized ''Signature verification failed'') else Inr ())))))"

text \<open>The two token checks. An absent configuration rejects everything.\<close>

definition require_admin :: "string option \<Rightarrow> string option \<Rightarrow> http_reply + unit" where
  "require_admin admin_token authorization = (case present authorization of
     None \<Rightarrow> Inl (unauthorized ''Unauthorized'')
   | Some header \<Rightarrow>
       if \<not> starts_with ''Bearer '' header then Inl (unauthorized ''Unauthorized'')
       else if present admin_token = None \<or> admin_token \<noteq> Some (drop 7 header)
         then Inl (forbidden ''Role 'admin' required'') else Inr ())"

definition require_api_key :: "string option \<Rightarrow> string option \<Rightarrow> http_reply + unit" where
  "require_api_key configured provided = (case present provided of
     None \<Rightarrow> Inl (unauthorized ''Missing API key'')
   | Some key \<Rightarrow> if present configured = None \<or> configured \<noteq> Some key then Inl (unauthorized ''Invalid API key'') else Inr ())"

subsection \<open>Order receipts\<close>

record order_data =
  od_order :: string
  od_user :: string
  od_side :: string
  od_outcome :: string
  od_price :: number
  od_quantity :: number
  od_timestamp :: number

record order_receipt =
  rcpt_data :: order_data
  rcpt_signature :: string
  rcpt_public_key :: string

text \<open>The service keeps the secret of the key pair once initialised; \<open>public_of\<close> is
  \<open>Keypair.fromSecret(secret).publicKey()\<close>.\<close>

type_synonym signing_service = "string option"

definition signing_initialize :: "(string \<Rightarrow> string + string) \<Rightarrow> (string \<Rightarrow> string option) \<Rightarrow> string + signing_service" where
  "signing_initialize public_of env = (case present (env ''ORACLE_SECRET_KEY'') of
     None \<Rightarrow> Inl (''ORACLE_SECRET_KEY not found in environment variables. Please set it in your .env file.'')
   | Some secret \<Rightarrow> (case public_of secret of
       Inl e \<Rightarrow> Inl (''Invalid ORACLE_SECRET_KEY format. Must be a valid Stellar secret key. Error: '' @ e)
     | Inr pk \<Rightarrow> Inr (Some secret)))"

definition ensure_initialized :: "signing_service \<Rightarrow> string + string" where
  "ensure_initialized sv = of_option ''Signing service not initialized. Call initialize() first.'' sv"

definition create_order_message :: "order_data \<Rightarrow> string" where
  "create_order_message d = json_object [(''orderId'', Str (od_order d)), (''userAddress'', Str (od_user d)),
     (''side'', Str (od_side d)), (''outcome'', Str (od_outcome d)), (''price'', Num (od_price d)),
     (''quantity'', Num (od_quantity d)), (''timestamp'', Num (od_timestamp d))]"

definition sign_order_receipt :: "keypairs \<Rightarrow> signing_service \<Rightarrow> order_data \<Rightarrow> string + order_receipt" where
  "sign_order_receipt lib sv d = res_bind (ensure_initialized sv) (\<lambda>secret.
     res_bind (kp_sign lib secret (create_order_message d)) (\<lambda>(signature, pk).
     Inr \<lparr>rcpt_data = d, rcpt_signature = signature, rcpt_public_key = pk\<rparr>))"

text \<open>Validity and error.\<close>

definition verify_order_receipt :: "keypairs \<Rightarrow> order_receipt \<Rightarrow> bool \<times> string option" where
  "verify_order_receipt lib r = (case kp_verify lib (rcpt_public_key r) (create_order_message (rcpt_data r)) (rcpt_signature r) of
     Inl e \<Rightarrow> (False, Some e)
   | Inr valid \<Rightarrow> (valid, if valid then None else Some ''Signature verification failed''))"

definition get_public_key :: "(string \<Rightarrow> string + string) \<Rightarrow> signing_service \<Rightarrow> string + string" where
  "get_public_key public_of sv = res_bind (ensure_initialized sv) public_of"

definition signing_reset :: "signing_service \<Rightarrow> signing_service" where
  "signing_reset sv = None"

subsection \<open>Messages determine what is signed\<close>

text \<open>A number whose text reads back.\<close>

lemma number_string_chars: "c \<in> set (number_string x) \<Longrightarrow> is_digit c \<or> c = CHR ''-'' \<or> c = CHR ''.''"
  by (auto simp: number_string_def Let_def dest: int_string_chars decimal_string_chars split: if_splits)

lemma number_text_ends: "sep \<in> {CHR '','', CHR ''}''} \<Longrightarrow> sep \<notin> set (number_string x)"
  using number_string_chars [of sep x] by (auto simp: is_digit_def)

lemma split_at_separator: "c \<notin> set a \<Longrightarrow> c \<notin> set b \<Longrightarrow> a @ c # u = b @ c # v \<longleftrightarrow> a = b \<and> u = v"
proof (induction a arbitrary: b)
  case Nil
  then show ?case by (cases b) auto
next
  case (Cons x a)
  then show ?case by (cases b) auto
qed

definition same_kind :: "js \<Rightarrow> js \<Rightarrow> bool" where
  "same_kind v w \<longleftrightarrow> (case (v, w) of (Str a, Str b) \<Rightarrow> True | (Num x, Num y) \<Rightarrow> printable x \<and> printable y | _ \<Rightarrow> False)"

lemma same_kind_cases:
  assumes "same_kind v w"
  obtains (texts) a b where "v = Str a" "w = Str b"
    | (numbers) x y where "v = Num x" "w = Num y" "printable x" "printable y"
  using assms by (cases v; cases w) (auto simp: same_kind_def)

text \<open>One member of an object, up to the separator that follows it.\<close>

lemma member_inject:
  assumes "same_kind v w" "sep \<in> {CHR '','', CHR ''}''}"
    and "the (json_text v) @ sep # u = the (json_text w) @ sep # u'"
  shows "v = w \<and> u = u'"
  using assms(1)
proof (cases rule: same_kind_cases)
  case (texts a b)
  then show ?thesis using assms(3) quote_inject by auto
next
  case (numbers x y)
  then show ?thesis
    using assms(3) split_at_separator [OF number_text_ends [OF assms(2)] number_text_ends [OF assms(2)]] printable_inject by auto
qed

lemma members_inject:
  assumes "list_all2 (\<lambda>p q. fst p = fst q \<and> same_kind (snd p) (snd q)) ps qs"
    and "join_with '','' (json_members ps) @ ''}'' = join_with '','' (json_members qs) @ ''}''"
  shows "ps = qs"
  using assms
proof (induction rule: list_all2_induct)
  case (Cons p ps q qs)
  obtain k v w where p: "p = (k, v)" and q: "q = (k, w)" and kind: "same_kind v w" using Cons.hyps(1) by (cases p; cases q) auto
  have members: "json_members (p # ps) = (json_quote k @ '':'' @ the (json_text v)) # json_members ps"
    "json_members (q # qs) = (json_quote k @ '':'' @ the (json_text w)) # json_members qs"
    using kind by (auto simp: p q elim!: same_kind_cases)
  have ne: "json_members rs = [] \<longleftrightarrow> rs = []" if "list_all2 (\<lambda>p q. fst p = fst q \<and> same_kind (snd p) (snd q)) rs ss
      \<or> list_all2 (\<lambda>p q. fst p = fst q \<and> same_kind (snd p) (snd q)) ss rs" for rs ss
    using that by (cases rs; cases ss) (auto elim!: same_kind_cases)
  show ?case
  proof (cases "ps = []")
    case True
    then have "qs = []" using Cons.hyps(2) by simp
    then show ?thesis
      using Cons.prems True member_inject [OF kind, of "CHR ''}''" "[]" "[]"] unfolding members by (auto simp: p q)
  next
    case False
    then have "qs \<noteq> []" "json_members ps \<noteq> []" "json_members qs \<noteq> []"
      using Cons.hyps(2) ne by auto
    then have "the (json_text v) @ CHR '','' # (join_with '','' (json_members ps) @ ''}'')
        = the (json_text w) @ CHR '','' # (join_with '','' (json_members qs) @ ''}'')"
      using Cons.prems unfolding members by (cases "json_members ps"; cases "json_members qs") auto
    from member_inject [OF kind _ this] Cons.IH show ?thesis by (simp add: p q)
  qed
qed simp

lemma json_object_inject:
  "list_all2 (\<lambda>p q. fst p = fst q \<and> same_kind (snd p) (snd q)) ps qs \<Longrightarrow> json_object ps = json_object qs \<Longrightarrow> ps = qs"
  by (rule members_inject) (simp_all add: json_object_def)

definition printable_fields :: "order_fields \<Rightarrow> bool" where
  "printable_fields f \<longleftrightarrow> printable (sf_price f) \<and> printable (sf_quantity f) \<and> printable (sf_timestamp f)"

definition printable_order :: "order_data \<Rightarrow> bool" where
  "printable_order d \<longleftrightarrow> printable (od_price d) \<and> printable (od_quantity d) \<and> printable (od_timestamp d)"

lemma signable_message_inject:
  assumes "printable_fields f" "printable_fields g" "build_signable_message f = build_signable_message g"
  shows "f = g"
proof -
  from assms(1,2) have "[(''marketId'', Str (sf_market f)), (''outcome'', Str (sf_outcome f)), (''price'', Num (sf_price f)),
      (''quantity'', Num (sf_quantity f)), (''side'', Str (sf_side f)), (''timestamp'', Num (sf_timestamp f)),
      (''userAddress'', Str (sf_user f))]
    = [(''marketId'', Str (sf_market g)), (''outcome'', Str (sf_outcome g)), (''price'', Num (sf_price g)),
      (''quantity'', Num (sf_quantity g)), (''side'', Str (sf_side g)), (''timestamp'', Num (sf_timestamp g)),
      (''userAddress'', Str (sf_user g))]"
    by (intro json_object_inject assms(3) [unfolded build_signable_message_def]) (simp add: same_kind_def printable_fields_def)
  then show ?thesis by (simp add: order_fields.equality)
qed

lemma order_message_inject:
  assumes "printable_order d" "printable_order e" "create_order_message d = create_order_message e"
  shows "d = e"
proof -
  from assms(1,2) have "[(''orderId'', Str (od_order d)), (''userAddress'', Str (od_user d)), (''side'', Str (od_side d)),
      (''outcome'', Str (od_outcome d)), (''price'', Num (od_price d)), (''quantity'', Num (od_quantity d)),
      (''timestamp'', Num (od_timestamp d))]
    = [(''orderId'', Str (od_order e)), (''userAddress'', Str (od_user e)), (''side'', Str (od_side e)),
      (''outcome'', Str (od_outcome e)), (''price'', Num (od_price e)), (''quantity'', Num (od_quantity e)),
      (''timestamp'', Num (od_timestamp e))]"
    by (intro json_object_inject assms(3) [unfolded create_order_message_def]) (simp add: same_kind_def printable_order_def)
  then show ?thesis by (simp add: order_data.equality)
qed

subsection \<open>What an accepted request proves\<close>

lemma stellar_accept_iff:
  "verify_stellar_signature lib now r = Inr () \<longleftrightarrow>
     (\<exists>raw_sig raw_ts ts b user. present (hr_signature r) = Some raw_sig \<and> present (hr_timestamp r) = Some raw_ts
        \<and> number_of_string raw_ts = Some ts \<and> 0 < ts \<and> \<bar>js_sub (of_int now) ts\<bar> \<le> TIMESTAMP_TOLERANCE_MS
        \<and> hr_body r = Some b \<and> present (bo_user b) = Some user
        \<and> kp_verify lib user (build_signable_message (body_fields b ts user)) raw_sig = Inr True)"
  by (auto simp: verify_stellar_signature_def not_less not_le bind_eq_Some_conv split: option.splits sum.splits if_splits)

text \<open>C25: when the hook lets an order through and signatures cannot be forged, the wallet named in the body has
  signed exactly this order: the same market, outcome, side, price and quantity, with a timestamp
  within five minutes of the clock.\<close>

theorem order_signature_binding:
  assumes "\<forall>m s. kp_verify lib user m s = Inr True \<longrightarrow> m \<in> build_signable_message ` signed"
    and "\<forall>f \<in> signed. printable_fields f"
    and "hr_body r = Some b" "present (bo_user b) = Some user"
    and "\<forall>s ts. hr_timestamp r = Some s \<longrightarrow> number_of_string s = Some ts \<longrightarrow> printable_fields (body_fields b ts user)"
    and "verify_stellar_signature lib now r = Inr ()"
  shows "\<exists>ts. body_fields b ts user \<in> signed \<and> 0 < ts \<and> \<bar>js_sub (of_int now) ts\<bar> \<le> TIMESTAMP_TOLERANCE_MS"
proof -
  from assms(6) obtain raw_sig raw_ts ts where ts: "present (hr_timestamp r) = Some raw_ts" "number_of_string raw_ts = Some ts"
      "0 < ts" "\<bar>js_sub (of_int now) ts\<bar> \<le> TIMESTAMP_TOLERANCE_MS"
    and valid: "kp_verify lib user (build_signable_message (body_fields b ts user)) raw_sig = Inr True"
    unfolding stellar_accept_iff using assms(3,4) by auto
  from valid assms(1) obtain f where f: "f \<in> signed" "build_signable_message (body_fields b ts user) = build_signable_message f"
    by blast
  have "hr_timestamp r = Some raw_ts" using ts(1) by (auto simp: present_def split: option.splits list.splits)
  then have "body_fields b ts user = f" using f assms(2,5) ts(2) signable_message_inject by blast
  then show ?thesis using f(1) ts by blast
qed

definition demo_body :: order_body where
  "demo_body = \<lparr>bo_market = Some ''m'', bo_user = Some ''G'', bo_side = Some ''BUY'', bo_outcome = Some ''YES'',
     bo_price = Some (fl (of_int 50 / 100)), bo_quantity = Some 3\<rparr>"

definition demo_order_request :: signed_request where
  "demo_order_request = \<lparr>hr_signature = Some ''s'', hr_timestamp = Some ''1000'', hr_body = Some demo_body\<rparr>"

definition demo_keys :: keypairs where
  "demo_keys = \<lparr>kp_sign = (\<lambda>secret m. Inr (m, secret)),
     kp_verify = (\<lambda>pk m s. Inr (m = build_signable_message (body_fields demo_body 1000 ''G'')))\<rparr>"

theorem order_signature_binding_witness:
  "\<exists>ts. body_fields demo_body ts ''G'' \<in> {body_fields demo_body 1000 ''G''} \<and> 0 < ts
     \<and> \<bar>js_sub (of_int 2000) ts\<bar> \<le> TIMESTAMP_TOLERANCE_MS"
proof (rule order_signature_binding [of demo_keys "''G''" _ demo_order_request])
  have number: "number_of_string ''1000'' = Some 1000"
    using number_of_digits [of "''1000''"] fl_of_int [of 1000] by (simp add: all_digits_def is_digit_def digits_value_def digit_val_def)
  have print: "printable_fields (body_fields demo_body 1000 ''G'')"
    using printable_nat [of 3] printable_nat [of 1000] printable_cents [of 50]
    by (simp add: printable_fields_def body_fields_def demo_body_def)
  have diff: "js_sub 2000 1000 = 1000" using fl_of_int [of 1000] by (simp add: js_sub_def)
  show "\<forall>f \<in> {body_fields demo_body 1000 ''G''}. printable_fields f" using print by simp
  show "\<forall>s ts. hr_timestamp demo_order_request = Some s \<longrightarrow> number_of_string s = Some ts
      \<longrightarrow> printable_fields (body_fields demo_body ts ''G'')"
    using print number by (simp add: demo_order_request_def)
  show "verify_stellar_signature demo_keys 2000 demo_order_request = Inr ()"
    unfolding stellar_accept_iff using number diff
    by (simp add: demo_order_request_def present_def demo_keys_def TIMESTAMP_TOLERANCE_MS_def demo_body_def)
qed (simp_all add: demo_keys_def demo_order_request_def demo_body_def present_def)

text \<open>There is no nonce: within the tolerance the same request is accepted any number of times.\<close>

lemma accepted_request_replays:
  assumes "verify_stellar_signature lib now r = Inr ()" "hr_timestamp r = Some s" "number_of_string s = Some ts"
    "\<bar>js_sub (of_int later) ts\<bar> \<le> TIMESTAMP_TOLERANCE_MS"
  shows "verify_stellar_signature lib later r = Inr ()"
  using assms unfolding stellar_accept_iff by (auto simp: present_def split: option.splits list.splits)

text \<open>C29: a receipt made by the initialised service verifies, and with any other order data in it
  verification fails, when a signature verifies for the signed text only.\<close>

theorem order_receipt_tamper_evident:
  assumes "\<forall>m s pk. kp_sign lib secret m = Inr (s, pk) \<longrightarrow> (\<forall>n. kp_verify lib pk n s = Inr (n = m))"
    and "sign_order_receipt lib (Some secret) d = Inr r" "printable_order d" "printable_order e"
  shows "verify_order_receipt lib (r\<lparr>rcpt_data := e\<rparr>)
     = (e = d, if e = d then None else Some ''Signature verification failed'')"
proof -
  from assms(2) obtain s pk where sign: "kp_sign lib secret (create_order_message d) = Inr (s, pk)"
    and r: "r = \<lparr>rcpt_data = d, rcpt_signature = s, rcpt_public_key = pk\<rparr>"
    by (auto simp: sign_order_receipt_def ensure_initialized_def res_bind_Inr)
  have "create_order_message e = create_order_message d \<longleftrightarrow> e = d" using order_message_inject assms(3,4) by blast
  then show ?thesis using assms(1) sign by (simp add: r verify_order_receipt_def)
qed

definition demo_receipt_order :: order_data where
  "demo_receipt_order = \<lparr>od_order = ''o'', od_user = ''G'', od_side = ''BUY'', od_outcome = ''YES'',
     od_price = fl (of_int 50 / 100), od_quantity = 3, od_timestamp = 1000\<rparr>"

theorem order_receipt_tamper_evident_witness:
  "verify_order_receipt (demo_keys\<lparr>kp_verify := \<lambda>pk m s. Inr (m = s)\<rparr>)
     \<lparr>rcpt_data = demo_receipt_order\<lparr>od_quantity := 4\<rparr>, rcpt_signature = create_order_message demo_receipt_order,
      rcpt_public_key = ''S''\<rparr> = (False, Some ''Signature verification failed'')"
proof -
  let ?d = demo_receipt_order
  let ?r = "\<lparr>rcpt_data = ?d, rcpt_signature = create_order_message ?d, rcpt_public_key = ''S''\<rparr>"
  have print: "printable_order ?d" "printable_order (?d\<lparr>od_quantity := 4\<rparr>)"
    using printable_nat [of 3] printable_nat [of 4] printable_nat [of 1000] printable_cents [of 50]
    by (simp_all add: printable_order_def demo_receipt_order_def)
  have ne: "?d\<lparr>od_quantity := 4\<rparr> \<noteq> ?d" by (simp add: demo_receipt_order_def)
  have "verify_order_receipt (demo_keys\<lparr>kp_verify := \<lambda>pk m s. Inr (m = s)\<rparr>) (?r\<lparr>rcpt_data := ?d\<lparr>od_quantity := 4\<rparr>\<rparr>)
      = (?d\<lparr>od_quantity := 4\<rparr> = ?d, if ?d\<lparr>od_quantity := 4\<rparr> = ?d then None else Some ''Signature verification failed'')"
    by (rule order_receipt_tamper_evident [where secret = "''S''" and d = ?d])
      (use print in \<open>auto simp: demo_keys_def sign_order_receipt_def ensure_initialized_def\<close>)
  then show ?thesis using ne by simp
qed

end
