(* ===== verification/Positions.thy ===== *)
theory Positions
  imports ApiErrors JsNumeral MatchingService IndexerEvents Validation
begin

text \<open>
  The wallet positions routes: \<open>src/api/routes/positions.ts\<close>. Amounts of collateral are texts with
  eight decimals; \<open>stroops\<close> are their integer multiples of 1e-8. The database is the argument:
  the rows of the four tables the routes read, with the joined columns of the market in each
  position. \<open>Number(priceRaw)\<close> reads the integer texts the indexer writes; a computed collateral is
  assumed below 1e21, where \<open>toFixed\<close> prints digits.
\<close>

definition PRECISION :: int where "PRECISION = 10 ^ 8"

definition to_bigint :: "string \<Rightarrow> string + int" where
  "to_bigint s = of_option (''Cannot convert '' @ s @ '' to a BigInt'') (bigint_of_string s)"

text \<open>\<open>const [whole, frac = ""] = s.split(".")\<close>, then \<open>whole * 1e8 + frac\<close> padded or cut to eight digits.\<close>

definition split_stroops :: "string \<Rightarrow> string + int" where
  "split_stroops s = (let parts = split_on (CHR ''.'') s;
       frac = (case tl parts of [] \<Rightarrow> [] | f # fs \<Rightarrow> f);
       padded = take 8 (pad_end 8 (CHR ''0'') frac)
     in res_bind (to_bigint (hd parts)) (\<lambda>w. res_bind (to_bigint padded) (\<lambda>f. Inr (w * PRECISION + f))))"

text \<open>The sign, the whole part and eight fractional digits, as the three functions print a result.\<close>

definition format_stroops :: "int \<Rightarrow> string" where
  "format_stroops n = (if n < 0 then ''-'' else []) @ decimal_string 8 (nat \<bar>n\<bar>)"

definition compute_realized_pnl :: "int \<Rightarrow> int \<Rightarrow> string \<Rightarrow> bool \<Rightarrow> string + string" where
  "compute_realized_pnl yes no locked outcome =
     (let winning = (if outcome then yes else no)
      in res_bind (split_stroops locked) (\<lambda>cost. Inr (format_stroops (winning * PRECISION - cost))))"

definition compute_unrealized_pnl :: "int \<Rightarrow> int \<Rightarrow> string \<Rightarrow> number option \<Rightarrow> string + string option" where
  "compute_unrealized_pnl yes no locked mid = (case mid of
     None \<Rightarrow> Inr None
   | Some p \<Rightarrow>
       let no_mid = js_sub 1 p;
           yes_stroops = math_round (js_mul p 100000000);
           no_stroops = math_round (js_mul no_mid 100000000);
           mark = yes * yes_stroops + no * no_stroops
       in res_bind (split_stroops locked) (\<lambda>cost. Inr (Some (format_stroops (mark - cost)))))"

definition parse_fixed :: "string \<Rightarrow> string + int" where
  "parse_fixed s = (let neg = starts_with ''-'' s
     in res_bind (split_stroops (if neg then tl s else s)) (\<lambda>n. Inr (if neg then - n else n)))"

definition add_fixed_point :: "string \<Rightarrow> string \<Rightarrow> string + string" where
  "add_fixed_point a b = res_bind (parse_fixed a) (\<lambda>x. res_bind (parse_fixed b) (\<lambda>y. Inr (format_stroops (x + y))))"

text \<open>\<open>Number.prototype.toFixed(8)\<close>: the sign of the number, then the nearest multiple of 1e-8.\<close>

definition to_fixed8 :: "number \<Rightarrow> string" where
  "to_fixed8 x = (if x < 0 then ''-'' else []) @ decimal_string 8 (nat (math_round (\<bar>x\<bar> * 10 ^ 8)))"

subsection \<open>Collateral from the trades\<close>

type_synonym collateral = "(string \<times> number) list"

definition add_collateral :: "string \<Rightarrow> number \<Rightarrow> collateral \<Rightarrow> collateral" where
  "add_collateral m cost c =
     AList.update m (js_add (case map_of c m of None \<Rightarrow> 0 | Some x \<Rightarrow> x) cost) c"

definition trade_key :: "string \<Rightarrow> string \<Rightarrow> string" where
  "trade_key buy sell = buy @ '':'' @ sell"

text \<open>\<open>current - cost\<close> is the sum with the negated cost: rounding is symmetric in the two operations.\<close>

definition clob_step :: "string \<Rightarrow> trade \<Rightarrow> collateral \<times> string list \<Rightarrow> collateral \<times> string list" where
  "clob_step wallet t acc = (case acc of (c, done) \<Rightarrow>
     let done' = set_add (trade_key (tr_buy_order t) (tr_sell_order t)) done;
         cost = js_mul (tr_price t) (of_int (tr_quantity t))
     in (if tr_buyer t = wallet then add_collateral (tr_market t) cost c
         else if tr_seller t = wallet then add_collateral (tr_market t) (- cost) c
         else c, done'))"

definition is_buyer :: "string \<Rightarrow> normalized_trade \<Rightarrow> bool" where
  "is_buyer wallet t \<longleftrightarrow> nt_direction t = Buy \<and> nt_trader t = wallet
     \<or> nt_direction t = Sell \<and> nt_counterparty t = wallet"

definition is_seller :: "string \<Rightarrow> normalized_trade \<Rightarrow> bool" where
  "is_seller wallet t \<longleftrightarrow> nt_direction t = Sell \<and> nt_trader t = wallet
     \<or> nt_direction t = Buy \<and> nt_counterparty t = wallet"

definition indexed_step :: "string \<Rightarrow> normalized_trade \<Rightarrow> collateral \<times> string list \<Rightarrow> collateral \<times> string list" where
  "indexed_step wallet t acc = (case acc of (c, done) \<Rightarrow>
     let key = trade_key (nt_buy_order t) (nt_sell_order t)
     in if key \<in> set done then (c, done)
        else let price = js_div (fl (of_int (nt_price t))) 10000000;
                 cost = js_mul price (fl (of_int (nt_quantity t)))
             in (if is_buyer wallet t then add_collateral (nt_market t) cost c
                 else if is_seller wallet t then add_collateral (nt_market t) (- cost) c
                 else c, set_add key done))"

definition get_calculated_collateral_map ::
    "trade list \<Rightarrow> normalized_trade list \<Rightarrow> string \<Rightarrow> string list \<Rightarrow> collateral" where
  "get_calculated_collateral_map trades indexed wallet markets =
     (if markets = [] then []
      else let clob = filter (\<lambda>t. tr_market t \<in> set markets \<and> (tr_buyer t = wallet \<or> tr_seller t = wallet)) trades;
               chain = filter (\<lambda>t. nt_market t \<in> set markets \<and> (nt_trader t = wallet \<or> nt_counterparty t = wallet)) indexed
           in fst (fold (indexed_step wallet) chain (fold (clob_step wallet) clob ([], []))))"

subsection \<open>The routes\<close>

record user_position =
  up_market :: string
  up_question :: string
  up_outcome :: "bool option"
  up_user :: string
  up_yes :: int
  up_no :: int
  up_locked :: string
  up_settled :: bool
  up_updated :: int

record positions_db =
  pb_positions :: "user_position list"
  pb_orders :: "db_order list"
  pb_trades :: "trade list"
  pb_indexed :: "normalized_trade list"

record order_group =
  og_market :: string
  og_side :: order_side
  og_min :: number
  og_max :: number

text \<open>The two profit columns are present only when the request asks for them.\<close>

record exposure =
  ex_market :: string
  ex_question :: string
  ex_yes :: int
  ex_no :: int
  ex_net :: int
  ex_locked :: string
  ex_settled :: bool
  ex_updated :: int
  ex_pnl :: "(string option \<times> string option) option"

record positions_response =
  rs_wallet :: string
  rs_exposures :: "exposure list"
  rs_count :: nat
  rs_pnl :: "(string \<times> string \<times> string) option"

text \<open>\<open>order.groupBy\<close> over the live YES orders of the markets.\<close>

definition group_orders :: "db_order list \<Rightarrow> string list \<Rightarrow> order_group list" where
  "group_orders orders markets =
     (let live = filter (\<lambda>d. do_market d \<in> set markets \<and> do_status d \<in> {OPEN, PARTIALLY_FILLED} \<and> do_outcome d = YES) orders
      in map (\<lambda>(m, s). let prices = map do_price (filter (\<lambda>d. do_market d = m \<and> do_side d = s) live)
               in \<lparr>og_market = m, og_side = s, og_min = Min (set prices), og_max = Max (set prices)\<rparr>)
           (remdups (map (\<lambda>d. (do_market d, do_side d)) live)))"

definition mid_price :: "order_group list \<Rightarrow> string \<Rightarrow> number option" where
  "mid_price groups m =
     (let ask = map_option og_min (find (\<lambda>g. og_market g = m \<and> og_side g = SELL) groups);
          bid = map_option og_max (find (\<lambda>g. og_market g = m \<and> og_side g = BUY) groups)
      in case (ask, bid) of
          (Some a, Some b) \<Rightarrow> Some (js_div (js_add a b) 2)
        | (Some a, None) \<Rightarrow> Some a
        | (None, Some b) \<Rightarrow> Some b
        | (None, None) \<Rightarrow> None)"

definition locked_text :: "collateral \<Rightarrow> user_position \<Rightarrow> string" where
  "locked_text c p = (case map_of c (up_market p) of Some x \<Rightarrow> to_fixed8 x | None \<Rightarrow> up_locked p)"

definition base_exposure :: "collateral \<Rightarrow> user_position \<Rightarrow> exposure" where
  "base_exposure c p = \<lparr>ex_market = up_market p, ex_question = up_question p, ex_yes = up_yes p, ex_no = up_no p,
     ex_net = up_yes p - up_no p, ex_locked = locked_text c p, ex_settled = up_settled p,
     ex_updated = up_updated p, ex_pnl = None\<rparr>"

definition exposure_pnl :: "collateral \<Rightarrow> order_group list \<Rightarrow> user_position \<Rightarrow> string + string option \<times> string option" where
  "exposure_pnl c groups p =
     (case (up_settled p, up_outcome p) of
        (True, Some outcome) \<Rightarrow>
          res_bind (compute_realized_pnl (up_yes p) (up_no p) (locked_text c p) outcome) (\<lambda>r. Inr (Some r, None))
      | (True, None) \<Rightarrow> Inr (None, None)
      | (False, _) \<Rightarrow>
          res_bind (compute_unrealized_pnl (up_yes p) (up_no p) (locked_text c p) (mid_price groups (up_market p)))
            (\<lambda>u. Inr (None, u)))"

definition exposure_of :: "bool \<Rightarrow> collateral \<Rightarrow> order_group list \<Rightarrow> user_position \<Rightarrow> string + exposure" where
  "exposure_of include_pnl c groups p =
     (if \<not> include_pnl then Inr (base_exposure c p)
      else res_bind (exposure_pnl c groups p) (\<lambda>pnl. Inr ((base_exposure c p)\<lparr>ex_pnl := Some pnl\<rparr>)))"

fun map_res :: "('a \<Rightarrow> 'e + 'b) \<Rightarrow> 'a list \<Rightarrow> 'e + 'b list" where
  "map_res f [] = Inr []"
| "map_res f (x # xs) = res_bind (f x) (\<lambda>y. res_bind (map_res f xs) (\<lambda>ys. Inr (y # ys)))"

definition sum_fixed :: "string list \<Rightarrow> string + string" where
  "sum_fixed texts = fold_res (\<lambda>t acc. add_fixed_point acc t) texts ''0.00000000''"

definition realized_texts :: "exposure list \<Rightarrow> string list" where
  "realized_texts es = List.map_filter (\<lambda>e. Option.bind (ex_pnl e) fst) es"

definition unrealized_texts :: "exposure list \<Rightarrow> string list" where
  "unrealized_texts es = List.map_filter (\<lambda>e. Option.bind (ex_pnl e) snd) es"

definition summary :: "exposure list \<Rightarrow> string + string \<times> string \<times> string" where
  "summary es =
     res_bind (sum_fixed (realized_texts es)) (\<lambda>r.
     res_bind (sum_fixed (unrealized_texts es)) (\<lambda>u.
     res_bind (add_fixed_point r u) (\<lambda>t. Inr (r, u, t))))"

definition crash :: "string + 'a \<Rightarrow> api_error + 'a" where
  "crash r = (case r of Inl e \<Rightarrow> Inl (Thrown e) | Inr x \<Rightarrow> Inr x)"

definition get_wallet_positions :: "positions_db \<Rightarrow> string \<Rightarrow> bool \<Rightarrow> api_error + positions_response" where
  "get_wallet_positions db wallet include_pnl = (case validate_user_address (Str wallet) of
     Some e \<Rightarrow> Inl (ValidationError e None)
   | None \<Rightarrow>
       let positions = sort_key (\<lambda>p. - up_updated p) (filter (\<lambda>p. up_user p = wallet) (pb_positions db));
           markets = remdups (map up_market positions);
           groups = (if include_pnl \<and> markets \<noteq> [] then group_orders (pb_orders db) markets else []);
           c = get_calculated_collateral_map (pb_trades db) (pb_indexed db) wallet markets
       in res_bind (crash (map_res (exposure_of include_pnl c groups) positions)) (\<lambda>es.
          let response = \<lparr>rs_wallet = wallet, rs_exposures = es, rs_count = length es, rs_pnl = None\<rparr>
          in if include_pnl then res_bind (crash (summary es)) (\<lambda>pnl. Inr (response\<lparr>rs_pnl := Some pnl\<rparr>))
             else Inr response))"

definition get_wallet_market_position :: "positions_db \<Rightarrow> string \<Rightarrow> string \<Rightarrow> api_error + exposure" where
  "get_wallet_market_position db wallet market = (case validate_user_address (Str wallet) of
     Some e \<Rightarrow> Inl (ValidationError e None)
   | None \<Rightarrow> (case find (\<lambda>p. up_user p = wallet \<and> up_market p = market) (pb_positions db) of
         None \<Rightarrow> Inl (NotFoundError (''No position found for wallet in market '' @ market))
       | Some p \<Rightarrow> Inr (base_exposure (get_calculated_collateral_map (pb_trades db) (pb_indexed db) wallet [market]) p)))"

subsection \<open>Exact arithmetic on texts\<close>

lemma decimal8_parts:
  obtains a b where "decimal_string 8 m = a @ CHR ''.'' # b" "a = nat_string (m div 10 ^ 8)"
    "length b = 8" "digits_value b = m mod 10 ^ 8" "list_all is_digit b"
proof -
  have "m mod 10 ^ 8 < 10 ^ 8" by simp
  from pad_digits [OF this] show thesis by (intro that) (auto simp: decimal_string_def)
qed

lemma digits_no_dot: "list_all is_digit s \<Longrightarrow> CHR ''.'' \<notin> set s"
  by (induction s) (auto simp: is_digit_def)

lemma split_on_signed:
  assumes "list_all is_digit (a @ b)"
  shows "split_on (CHR ''.'') (a @ CHR ''.'' # b) = [a, b]"
    and "split_on (CHR ''.'') (CHR ''-'' # a @ CHR ''.'' # b) = [CHR ''-'' # a, b]"
proof -
  have nodot: "CHR ''.'' \<notin> set a" "CHR ''.'' \<notin> set (CHR ''-'' # a)" "CHR ''.'' \<notin> set b"
    using assms digits_no_dot by auto
  show "split_on (CHR ''.'') (a @ CHR ''.'' # b) = [a, b]"
    using split_on_append [OF nodot(1)] split_on_none [OF nodot(3)] by simp
  show "split_on (CHR ''.'') (CHR ''-'' # a @ CHR ''.'' # b) = [CHR ''-'' # a, b]"
    using split_on_append [OF nodot(2)] split_on_none [OF nodot(3)] by simp
qed

lemma bigint_negative:
  assumes "all_digits s"
  shows "bigint_of_string (CHR ''-'' # s) = Some (- int (digits_value s))"
proof -
  have s: "s \<noteq> []" "list_all is_digit s" using assms by (auto simp: all_digits_def)
  then have "is_digit (last s)" by (simp add: list_all_iff)
  then have "trim (CHR ''-'' # s) = CHR ''-'' # s"
    using s digit_not_space by (intro trim_id) (auto simp: is_space_def)
  then show ?thesis using assms by (simp add: bigint_of_string_def)
qed

lemma split_stroops_decimal:
  "split_stroops (decimal_string 8 m) = Inr (int m)"
  "split_stroops (CHR ''-'' # decimal_string 8 m) = Inr (int (m mod 10 ^ 8) - int (m div 10 ^ 8) * 10 ^ 8)"
proof -
  obtain a b where d: "decimal_string 8 m = a @ CHR ''.'' # b" and a: "a = nat_string (m div 10 ^ 8)"
    and b: "length b = 8" "digits_value b = m mod 10 ^ 8" "list_all is_digit b"
    by (rule decimal8_parts)
  have ab: "list_all is_digit (a @ b)" using b(3) unfolding a by simp
  have all: "all_digits a" "all_digits b" using b unfolding a by (auto simp: all_digits_def)
  have value_a: "digits_value a = m div 10 ^ 8" by (simp add: a)
  have pad: "take 8 (pad_end 8 (CHR ''0'') b) = b" using b(1) by (simp add: pad_end_def)
  have whole: "int (m div 10 ^ 8) * 10 ^ 8 + int (m mod 10 ^ 8) = int m"
    by (simp only: of_nat_mod of_nat_div of_nat_power of_nat_numeral div_mult_mod_eq)
  show "split_stroops (decimal_string 8 m) = Inr (int m)"
    using whole unfolding d split_stroops_def split_on_signed(1) [OF ab] Let_def
    by (simp add: pad to_bigint_def bigint_of_digits all value_a b(2) PRECISION_def)
  show "split_stroops (CHR ''-'' # decimal_string 8 m) = Inr (int (m mod 10 ^ 8) - int (m div 10 ^ 8) * 10 ^ 8)"
    unfolding d split_stroops_def split_on_signed(2) [OF ab] Let_def
    by (simp add: pad to_bigint_def bigint_of_digits bigint_negative all value_a b(2) PRECISION_def)
qed

lemma decimal_string_head: "decimal_string 8 m \<noteq> [] \<and> hd (decimal_string 8 m) \<noteq> CHR ''-''"
proof -
  have "\<forall>c \<in> set (nat_string (m div 10 ^ 8)). c \<noteq> CHR ''-''"
    using nat_string_digits minus_not_digit(1) by blast
  then show ?thesis by (auto simp: decimal_string_def hd_append)
qed

lemma parse_format: "parse_fixed (format_stroops n) = Inr n"
proof (cases "n < 0")
  case True
  then show ?thesis by (simp add: parse_fixed_def format_stroops_def split_stroops_decimal)
next
  case False
  have "\<not> starts_with ''-'' (decimal_string 8 (nat n))"
    using decimal_string_head [of "nat n"] by (cases "decimal_string 8 (nat n)") auto
  then show ?thesis using False by (simp add: parse_fixed_def format_stroops_def split_stroops_decimal)
qed

lemma add_format: "add_fixed_point (format_stroops a) (format_stroops b) = Inr (format_stroops (a + b))"
  by (simp add: add_fixed_point_def parse_format)

text \<open>Numbers kept as texts: an addition on texts that is exact makes every sum exact.\<close>

locale text_numbers =
  fixes show_text :: "int \<Rightarrow> string" and read_text :: "string \<Rightarrow> string + int"
    and add_text :: "string \<Rightarrow> string \<Rightarrow> string + string"
  assumes read_show: "read_text (show_text n) = Inr n"
    and add_show: "add_text (show_text a) (show_text b) = Inr (show_text (a + b))"
begin

lemma sum_show: "fold_res (\<lambda>t acc. add_text acc t) (map show_text ns) (show_text n) = Inr (show_text (n + sum_list ns))"
  by (induction ns arbitrary: n) (simp_all add: add_show add.assoc)

lemma show_inject: "show_text a = show_text b \<longleftrightarrow> a = b"
  using read_show by (metis sum.inject(2))

end

interpretation stroops: text_numbers format_stroops parse_fixed add_fixed_point
  by unfold_locales (simp_all add: parse_format add_format)

lemma decimal_zero: "decimal_string 8 0 = ''0.00000000''"
proof -
  have digit_zero: "digit_char 0 = CHR ''0''" by code_simp
  have "nat_string 0 = ''0''" using digit_zero by (simp add: nat_string.simps [of 0])
  moreover have "replicate 7 (CHR ''0'') = ''0000000''" by code_simp
  ultimately show ?thesis by (simp add: decimal_string_def pad_start_def)
qed

lemma format_zero: "''0.00000000'' = format_stroops 0"
  by (simp add: format_stroops_def decimal_zero)

lemma sum_fixed_format: "sum_fixed (map format_stroops ns) = Inr (format_stroops (sum_list ns))"
  unfolding sum_fixed_def format_zero stroops.sum_show by simp

text \<open>The amount \<open>split_stroops\<close> reads from a printed amount: a negative one has its fraction
  added to the negated whole part.\<close>

definition misread :: "int \<Rightarrow> int" where
  "misread n = (if n < 0 then n + 2 * (\<bar>n\<bar> mod PRECISION) else n)"

lemma split_format: "split_stroops (format_stroops n) = Inr (misread n)"
proof (cases "n < 0")
  case True
  have "int (nat (- n) mod 10 ^ 8) - int (nat (- n) div 10 ^ 8) * 10 ^ 8 = n + 2 * (- n mod 10 ^ 8)"
  proof -
    have "int (nat (- n) mod 10 ^ 8) = - n mod 10 ^ 8" "int (nat (- n) div 10 ^ 8) = - n div 10 ^ 8"
      using True by (simp_all add: zmod_int zdiv_int)
    moreover have "(- n div 10 ^ 8) * 10 ^ 8 = - n - (- n mod 10 ^ 8)"
      by (metis minus_mod_eq_div_mult)
    ultimately show ?thesis by simp
  qed
  then show ?thesis using True by (simp add: format_stroops_def split_stroops_decimal misread_def PRECISION_def)
next
  case False
  then show ?thesis by (simp add: format_stroops_def split_stroops_decimal misread_def)
qed

text \<open>A computed collateral prints as the nearest amount, except that a tiny negative one keeps its sign.\<close>

lemma to_fixed8_format:
  "to_fixed8 x = (if x < 0 then (let n = - math_round (- x * 10 ^ 8) in if n = 0 then ''-0.00000000'' else format_stroops n)
     else format_stroops (math_round (x * 10 ^ 8)))"
proof (cases "x < 0")
  case True
  then have "0 \<le> math_round (- x * 10 ^ 8)" by (simp add: math_round_def)
  then show ?thesis using True by (auto simp: to_fixed8_def format_stroops_def Let_def decimal_zero)
next
  case False
  then have "0 \<le> math_round (x * 10 ^ 8)" by (simp add: math_round_def)
  then show ?thesis using False by (auto simp: to_fixed8_def format_stroops_def)
qed

lemma split_to_fixed8: "\<exists>n. split_stroops (to_fixed8 x) = Inr n"
  by (cases "x < 0") (auto simp: to_fixed8_def split_stroops_decimal)

subsection \<open>Valuation\<close>

text \<open>The realized profit of a position is the winning shares less the locked collateral, except that
  a negative collateral (a wallet that has sold more than it bought) is misread: its fraction counts
  as a cost instead of a credit, so the profit is short by twice the fraction.\<close>

lemma negative_collateral_misread:
  "compute_realized_pnl yes no (format_stroops c) outcome =
     Inr (format_stroops ((if outcome then yes else no) * PRECISION - c - (if c < 0 then 2 * (\<bar>c\<bar> mod PRECISION) else 0)))"
  unfolding compute_realized_pnl_def Let_def split_format by (simp add: misread_def diff_diff_eq)

lemma mid_error:
  assumes i: "1 \<le> i" "i \<le> 99" and j: "1 \<le> j" "j \<le> 99"
  shows "\<bar>js_div (js_add (fl (of_int i / 100)) (fl (of_int j / 100))) 2 - of_int (i + j) / 200\<bar> \<le> 1 / 100000000000000"
proof -
  let ?a = "fl (of_int i / 100)" and ?b = "fl (of_int j / 100)"
  have a: "\<bar>?a - of_int i / 100\<bar> \<le> 1 / 1000000000000000" and b: "\<bar>?b - of_int j / 100\<bar> \<le> 1 / 1000000000000000"
    using cents_bounds [OF i] cents_bounds [OF j] by simp_all
  have ab: "\<bar>?a + ?b\<bar> \<le> 2" using cents_between [OF i] cents_between [OF j] by linarith
  have eps: "eps \<le> 1 / 1000000000000000" using eps_bounds(2) by simp
  have s: "\<bar>fl (?a + ?b) - (?a + ?b)\<bar> \<le> 2 * eps" by (rule fl_abs_error [OF ab])
  have "\<bar>fl (?a + ?b) / 2\<bar> \<le> 2" using s ab eps by linarith
  then have d: "\<bar>fl (fl (?a + ?b) / 2) - fl (?a + ?b) / 2\<bar> \<le> 2 * eps" by (rule fl_abs_error)
  have half: "of_int (i + j) / 200 = (of_int i / 100 + of_int j / 100) / (2 :: rat)" by (simp add: add_divide_distrib)
  have total: "\<bar>w - (x + y) / 2\<bar> \<le> 4 * e"
    if "\<bar>u - x\<bar> \<le> e" "\<bar>v - y\<bar> \<le> e" "\<bar>z - (u + v)\<bar> \<le> 2 * e" "\<bar>w - z / 2\<bar> \<le> 2 * e" for u v w x y z e :: rat
    using that unfolding abs_le_iff by (simp add: field_simps)
  have "2 * eps \<le> 2 * (1 / 1000000000000000)" using eps by simp
  with total [OF a b order_trans [OF s] order_trans [OF d]]
  show ?thesis unfolding js_div_def js_add_def half by simp
qed

lemma stroops_of_price:
  assumes "\<bar>p - of_int k / 200\<bar> \<le> 1 / 10000000000000" "0 \<le> k" "k \<le> 200"
  shows "math_round (js_mul p 100000000) = k * 500000"
proof -
  have k: "(0::rat) \<le> of_int k" "of_int k \<le> (200::rat)" using assms(2,3) by simp_all
  then have "\<bar>p\<bar> \<le> 2" using assms(1) by linarith
  then have "\<bar>p * 100000000\<bar> \<le> 200000000" by (simp add: abs_mult)
  then have "\<bar>fl (p * 100000000) - p * 100000000\<bar> \<le> 200000000 * eps" by (rule fl_abs_error)
  then have "\<bar>fl (p * 100000000) - p * 100000000\<bar> \<le> 1 / 100" using eps_bounds(2) by simp
  moreover have "p * 100000000 - of_int (k * 500000) = (p - of_int k / 200) * 100000000" by (simp add: algebra_simps)
  then have "\<bar>p * 100000000 - of_int (k * 500000)\<bar> = \<bar>p - of_int k / 200\<bar> * 100000000"
    by (simp only: abs_mult abs_numeral)
  then have "\<bar>p * 100000000 - of_int (k * 500000)\<bar> \<le> 1 / 100" using assms(1) by linarith
  ultimately have "\<bar>fl (p * 100000000) - of_int (k * 500000)\<bar> < 1 / 2" by linarith
  then show ?thesis unfolding js_mul_def by (rule math_round_unique)
qed

text \<open>With best prices in whole cents the mark value is exact; a pair of YES and NO is worth 1.\<close>

lemma unrealized_pnl_exact:
  assumes i: "1 \<le> i" "i \<le> 99" and j: "1 \<le> j" "j \<le> 99" and "0 \<le> c"
    and p: "p = js_div (js_add (fl (of_int i / 100)) (fl (of_int j / 100))) 2"
  shows "compute_unrealized_pnl yes no (format_stroops c) (Some p) =
     Inr (Some (format_stroops (yes * ((i + j) * 500000) + no * ((200 - (i + j)) * 500000) - c)))"
proof -
  have err: "\<bar>p - of_int (i + j) / 200\<bar> \<le> 1 / 100000000000000" unfolding p by (rule mid_error [OF i j])
  have bounds: "0 \<le> i + j" "i + j \<le> 200" using i j by simp_all
  have sum: "(0::rat) \<le> of_int (i + j)" "of_int (i + j) \<le> (200::rat)"
    using bounds by (simp_all only: of_int_0_le_iff of_int_le_numeral_iff)
  have yes: "math_round (js_mul p 100000000) = (i + j) * 500000"
    by (rule stroops_of_price) (use err bounds in auto)
  have "\<bar>1 - p\<bar> \<le> 2" if "\<bar>p - q\<bar> \<le> 1 / 100000000000000" "0 \<le> q" "q \<le> 1" for q
    using that by linarith
  from this [OF err] have "\<bar>1 - p\<bar> \<le> 2" using sum by simp
  then have "\<bar>fl (1 - p) - (1 - p)\<bar> \<le> 2 * eps" by (rule fl_abs_error)
  moreover have "of_int (200 - (i + j)) / 200 = 1 - of_int (i + j) / (200::rat)" by (simp add: diff_divide_distrib)
  ultimately have "\<bar>js_sub 1 p - of_int (200 - (i + j)) / 200\<bar> \<le> 1 / 10000000000000"
    using err eps_bounds(2) unfolding js_sub_def by linarith
  then have no: "math_round (js_mul (js_sub 1 p) 100000000) = (200 - (i + j)) * 500000"
    by (rule stroops_of_price) (use bounds in auto)
  show ?thesis using assms(5) by (simp add: compute_unrealized_pnl_def yes no split_format misread_def)
qed

subsection \<open>The wallet's summary\<close>

lemma map_res_total:
  "\<forall>x \<in> set xs. \<exists>y. f x = Inr y \<and> P y \<Longrightarrow> \<exists>ys. map_res f xs = Inr ys \<and> length ys = length xs \<and> (\<forall>y \<in> set ys. P y)"
proof (induction xs)
  case (Cons x xs)
  then obtain y ys where "f x = Inr y" "P y" "map_res f xs = Inr ys" "length ys = length xs" "\<forall>y \<in> set ys. P y"
    by auto
  then show ?case by simp
qed simp

text \<open>A column that holds printed amounts only.\<close>

definition printed :: "string option \<Rightarrow> bool" where
  "printed t \<longleftrightarrow> t \<in> insert None (range (Some \<circ> format_stroops))"

lemma printed_simps [simp]: "printed None" "printed (Some (format_stroops n))"
  by (auto simp: printed_def)

lemma printed_column: "\<forall>x \<in> set xs. printed (f x) \<Longrightarrow> \<exists>ns. List.map_filter f xs = map format_stroops ns"
proof (induction xs)
  case Nil
  show ?case by (simp add: List.map_filter_def)
next
  case (Cons x xs)
  then obtain ns where ns: "List.map_filter f xs = map format_stroops ns" by auto
  show ?case
  proof (cases "f x")
    case None
    then show ?thesis using ns by (auto simp: List.map_filter_simps)
  next
    case (Some t)
    then obtain n where "t = format_stroops n" using Cons.prems by (auto simp: printed_def)
    then have "List.map_filter f (x # xs) = map format_stroops (n # ns)" using ns Some by (simp add: List.map_filter_simps)
    then show ?thesis by blast
  qed
qed

lemma exposure_total:
  assumes "split_stroops (up_locked p) = Inr n"
  shows "\<exists>e. exposure_of True c groups p = Inr e \<and> printed (Option.bind (ex_pnl e) fst) \<and> printed (Option.bind (ex_pnl e) snd)"
proof -
  obtain k where k: "split_stroops (locked_text c p) = Inr k"
    using assms split_to_fixed8 by (cases "map_of c (up_market p)") (auto simp: locked_text_def)
  show ?thesis
    by (auto simp: exposure_of_def exposure_pnl_def compute_realized_pnl_def compute_unrealized_pnl_def k Let_def
        split: option.splits bool.splits prod.splits)
qed

text \<open>C27: when the stored collateral texts are numerals the route answers a valid wallet with one exposure
  for each of its positions, every profit it prints is a whole number of 1e-8 units, and the three
  totals are the exact sums of the printed profits, whatever their number and sign.\<close>

theorem wallet_positions_exact:
  assumes "validate_user_address (Str wallet) = None"
    and "\<forall>p \<in> set (pb_positions db). \<exists>n. split_stroops (up_locked p) = Inr n"
  shows "\<exists>resp rs us. get_wallet_positions db wallet True = Inr resp
     \<and> rs_count resp = length (filter (\<lambda>p. up_user p = wallet) (pb_positions db))
     \<and> realized_texts (rs_exposures resp) = map format_stroops rs
     \<and> unrealized_texts (rs_exposures resp) = map format_stroops us
     \<and> rs_pnl resp = Some (format_stroops (sum_list rs), format_stroops (sum_list us), format_stroops (sum_list rs + sum_list us))"
proof -
  define ps where "ps = sort_key (\<lambda>p. - up_updated p) (filter (\<lambda>p. up_user p = wallet) (pb_positions db))"
  define ms where "ms = remdups (map up_market ps)"
  define groups where "groups = (if True \<and> ms \<noteq> [] then group_orders (pb_orders db) ms else [])"
  define c where "c = get_calculated_collateral_map (pb_trades db) (pb_indexed db) wallet ms"
  have each: "\<forall>p \<in> set ps. \<exists>e. exposure_of True c groups p = Inr e
      \<and> (printed (Option.bind (ex_pnl e) fst) \<and> printed (Option.bind (ex_pnl e) snd))"
    using assms(2) exposure_total unfolding ps_def by fastforce
  obtain es where es: "map_res (exposure_of True c groups) ps = Inr es" "length es = length ps"
    and col: "\<forall>e \<in> set es. printed (Option.bind (ex_pnl e) fst)" "\<forall>e \<in> set es. printed (Option.bind (ex_pnl e) snd)"
    using map_res_total [OF each] by auto
  obtain rs us where cols: "realized_texts es = map format_stroops rs" "unrealized_texts es = map format_stroops us"
    using printed_column [OF col(1)] printed_column [OF col(2)] unfolding realized_texts_def unrealized_texts_def by auto
  have "summary es = Inr (format_stroops (sum_list rs), format_stroops (sum_list us), format_stroops (sum_list rs + sum_list us))"
    by (simp add: summary_def cols sum_fixed_format stroops.add_show)
  then have "get_wallet_positions db wallet True = Inr \<lparr>rs_wallet = wallet, rs_exposures = es, rs_count = length es,
      rs_pnl = Some (format_stroops (sum_list rs), format_stroops (sum_list us), format_stroops (sum_list rs + sum_list us))\<rparr>"
    unfolding get_wallet_positions_def Let_def ps_def [symmetric] ms_def [symmetric] groups_def [symmetric]
      c_def [symmetric] assms(1) by (simp add: es(1) crash_def)
  moreover have "length es = length (filter (\<lambda>p. up_user p = wallet) (pb_positions db))" by (simp add: es(2) ps_def)
  ultimately show ?thesis using cols by auto
qed

definition demo_wallet :: string where "demo_wallet = CHR ''G'' # replicate 55 (CHR ''A'')"

definition demo_positions :: positions_db where
  "demo_positions = \<lparr>pb_positions = [\<lparr>up_market = ''m'', up_question = ''q'', up_outcome = Some True, up_user = demo_wallet,
       up_yes = 3, up_no = 0, up_locked = ''0.00000000'', up_settled = True, up_updated = 7\<rparr>],
     pb_orders = [], pb_trades = [], pb_indexed = []\<rparr>"

theorem wallet_positions_exact_witness:
  "\<exists>resp. get_wallet_positions demo_positions demo_wallet True = Inr resp \<and> rs_count resp = 1"
proof -
  have valid: "validate_user_address (Str demo_wallet) = None" by code_simp
  have locked: "split_stroops ''0.00000000'' = Inr 0" unfolding format_zero split_format by (simp add: misread_def)
  show ?thesis
    using wallet_positions_exact [OF valid, of demo_positions] by (auto simp: demo_positions_def locked)
qed

text \<open>A trade the order book recorded counts once: its copy from the chain changes nothing.\<close>

lemma clob_fold_done:
  "snd (fold (clob_step wallet) ts acc) = fold (\<lambda>t. set_add (trade_key (tr_buy_order t) (tr_sell_order t))) ts (snd acc)"
  by (induction ts arbitrary: acc) (auto simp: clob_step_def Let_def split: prod.split)

lemma set_fold_set_add: "set (fold (\<lambda>t. set_add (f t)) ts ks) = f ` set ts \<union> set ks"
  by (induction ts arbitrary: ks) auto

lemma indexed_fold_skip:
  "K \<subseteq> set (snd acc) \<Longrightarrow> fold (indexed_step wallet) ts acc
     = fold (indexed_step wallet) (filter (\<lambda>t. trade_key (nt_buy_order t) (nt_sell_order t) \<notin> K) ts) acc"
proof (induction ts arbitrary: acc)
  case (Cons t ts)
  have "K \<subseteq> set (snd (indexed_step wallet t acc))"
    using Cons.prems by (auto simp: indexed_step_def Let_def split: prod.splits)
  moreover have "trade_key (nt_buy_order t) (nt_sell_order t) \<in> K \<Longrightarrow> indexed_step wallet t acc = acc"
    using Cons.prems by (auto simp: indexed_step_def Let_def split: prod.splits)
  ultimately show ?case using Cons.IH [of acc] Cons.IH [of "indexed_step wallet t acc"] Cons.prems by auto
qed simp

lemma mirrored_trade_counted_once:
  "get_calculated_collateral_map trades indexed wallet ms =
     get_calculated_collateral_map trades
       (filter (\<lambda>t. \<forall>u \<in> set trades. tr_market u \<in> set ms \<longrightarrow> tr_buyer u = wallet \<or> tr_seller u = wallet \<longrightarrow>
          trade_key (nt_buy_order t) (nt_sell_order t) \<noteq> trade_key (tr_buy_order u) (tr_sell_order u)) indexed) wallet ms"
proof -
  define clob where "clob = filter (\<lambda>t. tr_market t \<in> set ms \<and> (tr_buyer t = wallet \<or> tr_seller t = wallet)) trades"
  define K where "K = (\<lambda>u. trade_key (tr_buy_order u) (tr_sell_order u)) ` set clob"
  let ?acc = "fold (clob_step wallet) clob ([], [])"
  have "K \<subseteq> set (snd ?acc)" by (auto simp: K_def clob_fold_done set_fold_set_add)
  note skip = indexed_fold_skip [OF this, of wallet]
  have pred: "(\<forall>u \<in> set trades. tr_market u \<in> set ms \<longrightarrow> tr_buyer u = wallet \<or> tr_seller u = wallet \<longrightarrow>
      trade_key (nt_buy_order t) (nt_sell_order t) \<noteq> trade_key (tr_buy_order u) (tr_sell_order u))
    \<longleftrightarrow> trade_key (nt_buy_order t) (nt_sell_order t) \<notin> K" for t
    by (auto simp: K_def clob_def)
  show ?thesis
    unfolding get_calculated_collateral_map_def pred Let_def clob_def [symmetric]
    by (subst skip) (simp add: conj_commute filter_filter)
qed

end
