(* ===== verification/OrderRoutes.thy ===== *)
theory OrderRoutes
  imports Positions "HOL-Library.Char_ord" "HOL-Library.List_Lexorder" "HOL-Library.Product_Lexorder"
begin

text \<open>
  Order and trade lists of a wallet: \<open>src/api/routes/orders.ts\<close> and \<open>getWalletTradeHistory\<close> of
  \<open>src/services/audit.ts\<close>. Orders are listed by a cursor on \<open>(createdAt, id)\<close>, trades by page
  number. Rows are given as lists; text identifiers (uuids) are ordered by their characters. The two
  directions of the cursor text (base64url of JSON) and of ISO dates are the arguments \<open>codec\<close>. The
  file has a stray parenthesis in line 398; the model reads the handlers as if it were absent.
\<close>

record cursor_codec =
  cc_encode :: "string \<times> string \<Rightarrow> string"
  cc_decode :: "string \<Rightarrow> js option"
  cc_iso :: "int \<Rightarrow> string"
  cc_date :: "string \<Rightarrow> int option"

text \<open>\<open>decodeCursor\<close>: \<open>cc_decode\<close> answers \<open>None\<close> where decoding or \<open>JSON.parse\<close> throws.\<close>

definition decode_cursor :: "cursor_codec \<Rightarrow> string \<Rightarrow> api_error + string \<times> string" where
  "decode_cursor codec cursor = (case cc_decode codec cursor of
     Some (Obj ps) \<Rightarrow> (case (get_prop ''createdAt'' ps, get_prop ''id'' ps) of
         (Str t, Str i) \<Rightarrow> Inr (t, i)
       | _ \<Rightarrow> Inl (ValidationError ''cursor is invalid or corrupted'' None))
   | _ \<Rightarrow> Inl (ValidationError ''cursor is invalid or corrupted'' None))"

definition encode_cursor :: "cursor_codec \<Rightarrow> db_order \<Rightarrow> string" where
  "encode_cursor codec d = cc_encode codec (cc_iso codec (do_created d), do_id d)"

text \<open>The condition on a row after the cursor; a date that does not parse makes the query fail.\<close>

definition after_cursor :: "int \<Rightarrow> string \<Rightarrow> db_order \<Rightarrow> bool" where
  "after_cursor t i d \<longleftrightarrow> do_created d < t \<or> do_created d = t \<and> do_id d < i"

definition newest_first :: "db_order list \<Rightarrow> db_order list" where
  "newest_first ds = rev (sort_key (\<lambda>d. (do_created d, do_id d)) ds)"

record orders_page =
  op_orders :: "db_order list"
  op_next :: "string option"
  op_has_next :: bool
  op_limit :: nat

definition build_page :: "cursor_codec \<Rightarrow> nat \<Rightarrow> db_order list \<Rightarrow> orders_page" where
  "build_page codec limit rows =
     (let has_next = limit < length rows; page = take limit rows
      in \<lparr>op_orders = page, op_next = (if has_next then Some (encode_cursor codec (last page)) else None),
          op_has_next = has_next, op_limit = limit\<rparr>)"

definition base_where :: "string \<Rightarrow> order_status option \<Rightarrow> db_order \<Rightarrow> bool" where
  "base_where address status d \<longleftrightarrow> do_user d = address \<and> (case status of None \<Rightarrow> True | Some s \<Rightarrow> do_status d = s)"

definition get_user_orders ::
    "cursor_codec \<Rightarrow> db_order list \<Rightarrow> string \<Rightarrow> order_status option \<Rightarrow> string option \<Rightarrow> nat \<Rightarrow> api_error + orders_page" where
  "get_user_orders codec orders address status cursor limit =
     (case validate_user_address (Str address) of
        Some e \<Rightarrow> Inl (ValidationError e None)
      | None \<Rightarrow>
          let query = (\<lambda>cond. Inr (build_page codec limit (take (limit + 1)
                 (newest_first (filter (\<lambda>d. base_where address status d \<and> cond d) orders)))))
          in case cursor of
              None \<Rightarrow> query (\<lambda>d. True)
            | Some [] \<Rightarrow> query (\<lambda>d. True)
            | Some c \<Rightarrow> res_bind (decode_cursor codec c) (\<lambda>(t, i). case cc_date codec t of
                  None \<Rightarrow> Inl (Thrown ''Provided Date object is invalid. Expected Date.'')
                | Some ms \<Rightarrow> query (after_cursor ms i)))"

text \<open>A client that follows \<open>nextCursor\<close>; \<open>None\<close> when it runs out of fuel or gets an error.\<close>

fun follow_cursor :: "nat \<Rightarrow> cursor_codec \<Rightarrow> db_order list \<Rightarrow> string \<Rightarrow> order_status option \<Rightarrow> string option \<Rightarrow> nat
    \<Rightarrow> db_order list list option" where
  "follow_cursor 0 codec orders address status cursor limit = None"
| "follow_cursor (Suc n) codec orders address status cursor limit =
     (case get_user_orders codec orders address status cursor limit of
        Inl e \<Rightarrow> None
      | Inr page \<Rightarrow> (case op_next page of
            None \<Rightarrow> Some [op_orders page]
          | Some c \<Rightarrow> map_option (Cons (op_orders page)) (follow_cursor n codec orders address status (Some c) limit)))"

subsection \<open>Trade history\<close>

record history_page =
  hp_trades :: "trade list"
  hp_total :: nat
  hp_has_next :: bool
  hp_page :: nat
  hp_limit :: nat

text \<open>\<open>orderBy: tradedAt desc\<close> leaves the order of rows of the same millisecond open; \<open>ties\<close> is the
  arrangement of the table the server happens to read.\<close>

definition history_where :: "string \<Rightarrow> int option \<Rightarrow> int option \<Rightarrow> string option \<Rightarrow> trade \<Rightarrow> bool" where
  "history_where wallet from_ms to_ms market t \<longleftrightarrow> (tr_buyer t = wallet \<or> tr_seller t = wallet)
     \<and> (case market of None \<Rightarrow> True | Some m \<Rightarrow> m = [] \<or> tr_market t = m)
     \<and> (case from_ms of None \<Rightarrow> True | Some a \<Rightarrow> a \<le> tr_timestamp t)
     \<and> (case to_ms of None \<Rightarrow> True | Some b \<Rightarrow> tr_timestamp t \<le> b)"

definition get_wallet_trade_history ::
    "(trade list \<Rightarrow> trade list) \<Rightarrow> trade list \<Rightarrow> string \<Rightarrow> nat \<Rightarrow> nat \<Rightarrow> int option \<Rightarrow> int option \<Rightarrow> string option \<Rightarrow> history_page" where
  "get_wallet_trade_history ties trades wallet page limit from_ms to_ms market =
     (let matching = filter (history_where wallet from_ms to_ms market) trades;
          skip = (page - 1) * limit;
          rows = take limit (drop skip (sort_key (\<lambda>t. - tr_timestamp t) (ties matching)));
          total = length matching
      in \<lparr>hp_trades = rows, hp_total = total, hp_has_next = (skip + length rows < total), hp_page = page, hp_limit = limit\<rparr>)"

text \<open>The dates of the query are texts; \<open>date\<close> is \<open>Date.parse\<close>. The handler reads \<open>marketId\<close> and does not
  pass it on.\<close>

definition parse_bound :: "(string \<Rightarrow> int option) \<Rightarrow> string \<Rightarrow> string option \<Rightarrow> api_error + int option" where
  "parse_bound date name raw = (case raw of
     None \<Rightarrow> Inr None
   | Some s \<Rightarrow> (case date s of
         None \<Rightarrow> Inl (ValidationError (name @ '' must be a valid UTC ISO-8601 timestamp'') None)
       | Some ms \<Rightarrow> Inr (Some ms)))"

definition get_user_trades ::
    "(trade list \<Rightarrow> trade list) \<Rightarrow> (string \<Rightarrow> int option) \<Rightarrow> trade list \<Rightarrow> string \<Rightarrow> nat \<Rightarrow> nat \<Rightarrow> string option \<Rightarrow> string option
      \<Rightarrow> string option \<Rightarrow> api_error + history_page" where
  "get_user_trades ties date trades address page limit from_text to_text market =
     (case validate_user_address (Str address) of
        Some e \<Rightarrow> Inl (ValidationError e None)
      | None \<Rightarrow> res_bind (parse_bound date ''from'' from_text) (\<lambda>from_ms.
          res_bind (parse_bound date ''to'' to_text) (\<lambda>to_ms.
          if (case (from_ms, to_ms) of (Some a, Some b) \<Rightarrow> b < a | _ \<Rightarrow> False)
          then Inl (ValidationError ''Invalid date range: from must be earlier than or equal to to'' None)
          else Inr (get_wallet_trade_history ties trades address page limit from_ms to_ms None))))"

subsection \<open>Every order on exactly one page\<close>

text \<open>What the handlers rely on: a date text reads back, and so does a cursor with such a date.\<close>

definition codec_ok :: "cursor_codec \<Rightarrow> bool" where
  "codec_ok codec \<longleftrightarrow> (\<forall>t i. cc_date codec (cc_iso codec t) = Some t \<and> cc_encode codec (cc_iso codec t, i) \<noteq> []
     \<and> cc_decode codec (cc_encode codec (cc_iso codec t, i))
         = Some (Obj [(''createdAt'', Str (cc_iso codec t)), (''id'', Str i)]))"

abbreviation order_key :: "db_order \<Rightarrow> int \<times> string" where
  "order_key d \<equiv> (do_created d, do_id d)"

lemma after_cursor_less: "after_cursor (do_created x) (do_id x) d \<longleftrightarrow> order_key d < order_key x"
  by (auto simp: after_cursor_def less_prod_def)

lemma newest_first_filter: "newest_first (filter P ds) = filter P (newest_first ds)"
  unfolding newest_first_def by (simp only: filter_sort [symmetric] rev_filter)

lemma newest_first_descending:
  assumes "distinct (map do_id ds)"
  shows "sorted_wrt (\<lambda>a b. order_key b < order_key a) (newest_first ds)"
proof -
  have "distinct (map order_key ds)" using assms by (auto simp: distinct_map inj_on_def)
  then have "distinct (map order_key (sort_key order_key ds))" by (simp add: distinct_map)
  then have "sorted_wrt (<) (map order_key (sort_key order_key ds))"
    unfolding strict_sorted_iff using sorted_sort_key by blast
  then show ?thesis unfolding newest_first_def sorted_wrt_rev by (simp only: sorted_wrt_map)
qed

lemma filter_below:
  assumes "sorted_wrt (\<lambda>a b. order_key b < order_key a) (A @ x # B)"
  shows "filter (\<lambda>d. order_key d < order_key x) (A @ x # B) = B"
proof -
  have "\<forall>a \<in> set A. \<not> order_key a < order_key x" "\<forall>b \<in> set B. order_key b < order_key x"
    using assms by (auto simp: sorted_wrt_append dest: less_asym)
  then show ?thesis by (simp add: filter_empty_conv)
qed

lemma query_suffix:
  assumes "codec_ok codec" "validate_user_address (Str address) = None" "distinct (map do_id orders)"
    and S: "newest_first (filter (base_where address status) orders) = A @ R"
  shows "get_user_orders codec orders address status
      (if A = [] then None else Some (encode_cursor codec (last A))) limit = Inr (build_page codec limit (take (limit + 1) R))"
proof (cases "A = []")
  case True
  then show ?thesis using S assms(2) by (simp add: get_user_orders_def)
next
  case False
  let ?x = "last A"
  obtain c cs where c: "encode_cursor codec ?x = c # cs"
    using assms(1) by (cases "encode_cursor codec ?x") (auto simp: codec_ok_def encode_cursor_def)
  have decode: "decode_cursor codec (c # cs) = Inr (cc_iso codec (do_created ?x), do_id ?x)"
    using assms(1) unfolding c [symmetric] by (simp add: codec_ok_def encode_cursor_def decode_cursor_def get_prop_def)
  have "distinct (map do_id (filter (base_where address status) orders))"
    using assms(3) by (auto simp: distinct_map inj_on_def)
  note descending = newest_first_descending [OF this]
  have AR: "A @ R = butlast A @ ?x # R" using False by simp
  have rest: "filter (after_cursor (do_created ?x) (do_id ?x)) (A @ R) = R"
    using filter_below descending unfolding S AR after_cursor_less by blast
  have "newest_first (filter (\<lambda>d. base_where address status d \<and> after_cursor (do_created ?x) (do_id ?x) d) orders) = R"
    using rest unfolding S [symmetric] newest_first_filter by (simp add: conj_commute)
  then show ?thesis using False assms(1,2) by (simp add: get_user_orders_def c decode codec_ok_def)
qed

lemma follow_suffix:
  assumes ok: "codec_ok codec" "validate_user_address (Str address) = None" "distinct (map do_id orders)" and "0 < limit"
  shows "newest_first (filter (base_where address status) orders) = A @ R \<Longrightarrow> length R < n \<Longrightarrow>
     \<exists>pages. follow_cursor n codec orders address status (if A = [] then None else Some (encode_cursor codec (last A))) limit = Some pages
        \<and> concat pages = R \<and> (\<forall>p \<in> set (butlast pages). length p = limit)"
proof (induction n arbitrary: A R)
  case (Suc n)
  note query = query_suffix [OF ok Suc.prems(1), of limit]
  show ?case
  proof (cases "length R \<le> limit")
    case True
    then show ?thesis by (auto simp: query build_page_def)
  next
    case False
    then have more: "op_next (build_page codec limit (take (Suc limit) R)) = Some (encode_cursor codec (last (A @ take limit R)))"
      and page: "op_orders (build_page codec limit (take (Suc limit) R)) = take limit R"
      using assms(4) by (auto simp: build_page_def Let_def last_append min_def take_eq_Nil)
    have split: "newest_first (filter (base_where address status) orders) = (A @ take limit R) @ drop limit R"
      using Suc.prems(1) by simp
    have ne: "A @ take limit R \<noteq> []" using False assms(4) by auto
    have "length (drop limit R) < n" using Suc.prems(2) False assms(4) by simp
    from Suc.IH [OF split this] ne obtain pages where
      pages: "follow_cursor n codec orders address status (Some (encode_cursor codec (last (A @ take limit R)))) limit = Some pages"
      "concat pages = drop limit R" "\<forall>p \<in> set (butlast pages). length p = limit" by auto
    have len: "length (take limit R) = limit" using False by simp
    show ?thesis using pages len by (auto simp: query more page)
  qed
qed simp

text \<open>C26: a client that follows \<open>nextCursor\<close> from the first page gets to the end after at most one page
  for each order, and the pages put together are exactly the matching orders of the wallet, newest
  first, each once; every page but the last is full.\<close>

theorem order_pages_complete:
  assumes "codec_ok codec" "validate_user_address (Str address) = None" "distinct (map do_id orders)" "0 < limit"
  shows "\<exists>pages. follow_cursor (Suc (length orders)) codec orders address status None limit = Some pages
     \<and> concat pages = newest_first (filter (base_where address status) orders)
     \<and> (\<forall>p \<in> set (butlast pages). length p = limit)"
proof -
  let ?S = "newest_first (filter (base_where address status) orders)"
  have "length ?S < Suc (length orders)" by (simp add: newest_first_def less_Suc_eq_le)
  from follow_suffix [OF assms, of status "[]" ?S, OF _ this] show ?thesis by simp
qed

definition demo_codec :: cursor_codec where
  "demo_codec = \<lparr>cc_encode = (\<lambda>(t, i). t @ CHR '' '' # i),
     cc_decode = (\<lambda>s. Some (Obj [(''createdAt'', Str (takeWhile (\<lambda>c. c \<noteq> CHR '' '') s)),
                                 (''id'', Str (tl (dropWhile (\<lambda>c. c \<noteq> CHR '' '') s)))])),
     cc_iso = int_string, cc_date = bigint_of_string\<rparr>"

lemma bigint_int_string: "bigint_of_string (int_string n) = Some n"
  by (auto simp: int_string_def bigint_negative bigint_of_digits)

lemma demo_codec_ok: "codec_ok demo_codec"
proof -
  have "CHR '' '' \<notin> set (int_string t)" for t
    using int_string_chars [of "CHR '' ''" t] by (auto simp: is_digit_def)
  then have "\<forall>c \<in> set (int_string t). c \<noteq> CHR '' ''" for t by metis
  then show ?thesis by (simp add: codec_ok_def demo_codec_def bigint_int_string)
qed

definition demo_orders :: "db_order list" where
  "demo_orders = map (\<lambda>(i, t). \<lparr>do_id = i, do_market = ''m'', do_user = demo_wallet, do_side = BUY, do_outcome = YES,
     do_price = 1 / 2, do_quantity = 1, do_filled = 0, do_status = OPEN, do_created = t\<rparr>) [(''a'', 1), (''b'', 2), (''c'', 2)]"

theorem order_pages_complete_witness:
  "\<exists>pages. follow_cursor 4 demo_codec demo_orders demo_wallet None None 2 = Some pages
     \<and> map do_id (concat pages) = [''c'', ''b'', ''a'']"
proof -
  have valid: "validate_user_address (Str demo_wallet) = None" by code_simp
  have ids: "map do_id demo_orders = [''a'', ''b'', ''c'']" "length demo_orders = 3" by (simp_all add: demo_orders_def)
  have "distinct (map do_id demo_orders)" unfolding ids by simp
  moreover have "map do_id (newest_first (filter (base_where demo_wallet None) demo_orders)) = [''c'', ''b'', ''a'']"
    by (simp add: newest_first_def demo_orders_def base_where_def less_eq_prod_def less_prod_def)
  ultimately show ?thesis
    using order_pages_complete [OF demo_codec_ok valid, of demo_orders 2 None] by (auto simp: ids)
qed

subsection \<open>Pages of the trade history\<close>

lemma concat_pages: "concat (map (\<lambda>p. take n (drop ((p - 1) * n) xs)) [1..<Suc k]) = take (k * n) xs"
proof (induction k)
  case (Suc k)
  have "take (k * n) xs @ take n (drop (k * n) xs) = take (k * n + n) xs" by (rule take_add [symmetric])
  with Suc show ?case by (simp add: add.commute)
qed simp

text \<open>As long as the server reads the table in one arrangement, the pages up to the first without a
  successor are the matching trades, each once; the flag says exactly whether rows are left.\<close>

lemma history_pages_complete:
  assumes perm: "\<And>xs. mset (ties xs) = mset xs"
    and k: "0 < k" "\<not> hp_has_next (get_wallet_trade_history ties trades wallet k limit a b m)"
  shows "mset (concat (map (\<lambda>p. hp_trades (get_wallet_trade_history ties trades wallet p limit a b m)) [1..<Suc k]))
     = mset (filter (history_where wallet a b m) trades)"
proof -
  let ?ms = "filter (history_where wallet a b m) trades"
  let ?xs = "sort_key (\<lambda>t. - tr_timestamp t) (ties ?ms)"
  have len: "length ?xs = length ?ms" using perm [of ?ms] by (simp add: mset_eq_length)
  have "length ?ms \<le> (k - 1) * limit + length (take limit (drop ((k - 1) * limit) ?xs))"
    using k(2) by (simp add: get_wallet_trade_history_def Let_def not_less del: length_drop length_take)
  then have "length ?ms \<le> k * limit" using k(1) len by (cases k) (auto simp: add.commute split: if_splits)
  then have "take (k * limit) ?xs = ?xs" using len by simp
  then show ?thesis
    using concat_pages [of limit ?xs k] perm [of ?ms] by (simp add: get_wallet_trade_history_def Let_def del: upt_Suc)
qed

text \<open>But the order is by time alone, and the trades of one match carry the same time: when the second
  read arranges them otherwise, one trade is listed on both pages and the other on none.\<close>

definition tied_trade :: "string \<Rightarrow> trade" where
  "tied_trade i = \<lparr>tr_id = i, tr_market = ''m'', tr_outcome = YES, tr_buyer = ''u'', tr_seller = ''v'', tr_buy_order = ''b'',
     tr_sell_order = i, tr_price = 1 / 2, tr_quantity = 1, tr_timestamp = 5\<rparr>"

lemma tied_trade_listed_twice:
  "hp_trades (get_wallet_trade_history id [tied_trade ''x'', tied_trade ''y''] ''u'' 1 1 None None None) = [tied_trade ''x'']
   \<and> hp_trades (get_wallet_trade_history rev [tied_trade ''x'', tied_trade ''y''] ''u'' 2 1 None None None) = [tied_trade ''x'']"
  by (simp add: get_wallet_trade_history_def history_where_def tied_trade_def Let_def)

end
