(* ===== verification/MarketRoutes.thy ===== *)
theory MarketRoutes
  imports ServiceProps JsNumeral ApiErrors
begin

text \<open>
  The market routes: \<open>src/api/routes/markets.ts\<close> and \<open>market.dto.ts\<close>, over the rows of the markets and
  orders tables; \<open>iso_date\<close> is \<open>Date.toISOString\<close>. The last part proves that the order book the API
  publishes is the book of the matching engine.
\<close>

datatype market_status = ACTIVE | RESOLVED | CANCELLED_MARKET

record market_row =
  mr_id :: string
  mr_question :: string
  mr_end :: int
  mr_resolution :: "int option"
  mr_oracle :: string
  mr_status :: market_status
  mr_outcome :: "bool option"
  mr_created :: int
  mr_updated :: int

definition market_status_string :: "market_status \<Rightarrow> string" where
  "market_status_string s = (case s of ACTIVE \<Rightarrow> ''ACTIVE'' | RESOLVED \<Rightarrow> ''RESOLVED'' | CANCELLED_MARKET \<Rightarrow> ''CANCELLED'')"

definition to_market_dto :: "(int \<Rightarrow> string) \<Rightarrow> market_row \<Rightarrow> js" where
  "to_market_dto iso_date m = Obj [(''id'', Str (mr_id m)), (''question'', Str (mr_question m)), (''endTime'', Str (iso_date (mr_end m))),
     (''resolutionTime'', case mr_resolution m of None \<Rightarrow> Null | Some t \<Rightarrow> Str (iso_date t)),
     (''oracleAddress'', Str (mr_oracle m)), (''status'', Str (market_status_string (mr_status m))),
     (''outcome'', case mr_outcome m of None \<Rightarrow> Null | Some b \<Rightarrow> Bool b),
     (''createdAt'', Str (iso_date (mr_created m))), (''updatedAt'', Str (iso_date (mr_updated m)))]"

datatype market_sort = CreatedAt | EndTime

text \<open>\<open>GET /markets\<close>: the query options are absent or valid, by the schema of the route.\<close>

definition get_markets ::
    "(int \<Rightarrow> string) \<Rightarrow> market_row list \<Rightarrow> market_status option \<Rightarrow> market_sort option \<Rightarrow> bool option \<Rightarrow> nat option \<Rightarrow> js" where
  "get_markets iso_date rows status sort_by ascending limit =
     (let hits = filter (\<lambda>m. case status of None \<Rightarrow> True | Some s \<Rightarrow> mr_status m = s) rows;
          key = (\<lambda>m. case sort_by of Some EndTime \<Rightarrow> mr_end m | _ \<Rightarrow> mr_created m);
          sorted_rows = (if ascending = Some True then sort_key key hits else sort_key (\<lambda>m. - key m) hits);
          page = take (case limit of None \<Rightarrow> 50 | Some n \<Rightarrow> n) sorted_rows
      in Obj [(''markets'', Arr (map (to_market_dto iso_date) page)), (''count'', Num (of_int (int (length page))))])"

definition find_market_row :: "market_row list \<Rightarrow> string \<Rightarrow> api_error + market_row" where
  "find_market_row rows i = of_option (MarketNotFoundError i) (find (\<lambda>m. mr_id m = i) rows)"

definition get_market :: "(int \<Rightarrow> string) \<Rightarrow> market_row list \<Rightarrow> string \<Rightarrow> api_error + js" where
  "get_market iso_date rows i = res_bind (find_market_row rows i) (\<lambda>m. Inr (Obj [(''market'', to_market_dto iso_date m)]))"

subsection \<open>The order book\<close>

record depth_entry =
  de_side :: order_side
  de_price :: number
  de_outcome :: outcome
  de_total :: int
  de_count :: nat

record book_level =
  bl_price :: number
  bl_outcome :: outcome
  bl_total :: int
  bl_count :: nat

definition remaining_quantity :: "db_order \<Rightarrow> int" where
  "remaining_quantity d = do_quantity d - do_filled d"

definition side_text :: "order_side \<Rightarrow> string" where
  "side_text s = (if s = BUY then ''BUY'' else ''SELL'')"

definition outcome_text :: "outcome \<Rightarrow> string" where
  "outcome_text oc = (case oc of YES \<Rightarrow> ''YES'' | NO \<Rightarrow> ''NO'')"

definition level_key :: "db_order \<Rightarrow> string" where
  "level_key d = side_text (do_side d) @ '':'' @ outcome_text (do_outcome d) @ '':'' @ number_string (do_price d)"

definition aggregate_order :: "db_order \<Rightarrow> (string \<times> depth_entry) list \<Rightarrow> (string \<times> depth_entry) list" where
  "aggregate_order d levels =
     (if remaining_quantity d \<le> 0 then levels
      else case map_of levels (level_key d) of
          Some e \<Rightarrow> AList.update (level_key d)
            (e\<lparr>de_total := de_total e + remaining_quantity d, de_count := de_count e + 1\<rparr>) levels
        | None \<Rightarrow> AList.update (level_key d) \<lparr>de_side = do_side d, de_price = do_price d, de_outcome = do_outcome d,
            de_total = remaining_quantity d, de_count = 1\<rparr> levels)"

definition create_depth_level :: "depth_entry \<Rightarrow> book_level" where
  "create_depth_level e = \<lparr>bl_price = de_price e, bl_outcome = de_outcome e, bl_total = de_total e, bl_count = de_count e\<rparr>"

definition book_bids :: "depth_entry list \<Rightarrow> book_level list" where
  "book_bids entries = map create_depth_level (sort_key (\<lambda>e. - de_price e) (filter (\<lambda>e. de_side e = BUY) entries))"

definition book_asks :: "depth_entry list \<Rightarrow> book_level list" where
  "book_asks entries = map create_depth_level (sort_key de_price (filter (\<lambda>e. de_side e = SELL) entries))"

record orderbook_dto =
  bk_market :: string
  bk_snapshot :: string
  bk_bids :: "book_level list"
  bk_asks :: "book_level list"

definition open_orders :: "string \<Rightarrow> db_order list \<Rightarrow> db_order list" where
  "open_orders m orders = filter (\<lambda>d. do_market d = m \<and> do_status d \<in> {OPEN, PARTIALLY_FILLED}) orders"

definition get_market_orderbook :: "string \<Rightarrow> market_row list \<Rightarrow> db_order list \<Rightarrow> string \<Rightarrow> api_error + orderbook_dto" where
  "get_market_orderbook iso_now rows orders i = res_bind (find_market_row rows i) (\<lambda>m.
     let entries = map snd (fold aggregate_order (open_orders i orders) [])
     in Inr \<lparr>bk_market = i, bk_snapshot = iso_now, bk_bids = book_bids entries, bk_asks = book_asks entries\<rparr>)"

subsection \<open>What a level shows\<close>

definition level_group :: "string \<Rightarrow> db_order list \<Rightarrow> db_order list" where
  "level_group k ds = filter (\<lambda>d. 0 < remaining_quantity d \<and> level_key d = k) ds"

definition group_entry :: "db_order list \<Rightarrow> depth_entry option" where
  "group_entry ds = (case ds of [] \<Rightarrow> None | d # _ \<Rightarrow> Some \<lparr>de_side = do_side d, de_price = do_price d, de_outcome = do_outcome d,
     de_total = sum_list (map remaining_quantity ds), de_count = length ds\<rparr>)"

lemma group_entry_snoc: "group_entry (ds @ [d]) = Some (case group_entry ds of
     None \<Rightarrow> \<lparr>de_side = do_side d, de_price = do_price d, de_outcome = do_outcome d, de_total = remaining_quantity d, de_count = 1\<rparr>
   | Some e \<Rightarrow> e\<lparr>de_total := de_total e + remaining_quantity d, de_count := de_count e + 1\<rparr>)"
  by (cases ds) (simp_all add: group_entry_def)

lemma aggregate_step:
  "map_of (aggregate_order d levels) k =
     (if 0 < remaining_quantity d \<and> level_key d = k then Some (case map_of levels k of
        None \<Rightarrow> \<lparr>de_side = do_side d, de_price = do_price d, de_outcome = do_outcome d, de_total = remaining_quantity d, de_count = 1\<rparr>
      | Some e \<Rightarrow> e\<lparr>de_total := de_total e + remaining_quantity d, de_count := de_count e + 1\<rparr>)
      else map_of levels k)"
  "distinct (map fst levels) \<Longrightarrow> distinct (map fst (aggregate_order d levels))"
  by (auto simp: aggregate_order_def split: option.split)

lemma aggregate_group: "map_of (fold aggregate_order ds []) k = group_entry (level_group k ds)"
proof (induction ds rule: rev_induct)
  case Nil
  show ?case by (simp add: level_group_def group_entry_def)
next
  case (snoc d ds)
  show ?case
  proof (cases "0 < remaining_quantity d \<and> level_key d = k")
    case True
    then have "level_group k (ds @ [d]) = level_group k ds @ [d]" by (simp add: level_group_def)
    then show ?thesis using True snoc by (simp add: aggregate_step group_entry_snoc)
  next
    case False
    then have "level_group k (ds @ [d]) = level_group k ds" by (simp add: level_group_def)
    then show ?thesis using False snoc by (auto simp: aggregate_step)
  qed
qed

lemma aggregate_distinct: "distinct (map fst (fold aggregate_order ds []))"
  by (induction ds rule: rev_induct) (simp_all add: aggregate_step(2))

subsection \<open>The published book is the engine's book\<close>

lemma level_key_inject:
  assumes "printable (do_price d)" "printable (do_price e)"
  shows "level_key d = level_key e \<longleftrightarrow> do_side d = do_side e \<and> do_outcome d = do_outcome e \<and> do_price d = do_price e"
proof -
  have "number_string (do_price d) = number_string (do_price e) \<longleftrightarrow> do_price d = do_price e"
    using assms by (metis printable_inject)
  then show ?thesis
    by (cases "do_side d"; cases "do_side e"; cases "do_outcome d"; cases "do_outcome e")
      (simp_all add: level_key_def side_text_def outcome_text_def)
qed

text \<open>The entries of one outcome and side.\<close>

definition entries_of :: "outcome \<Rightarrow> order_side \<Rightarrow> db_order list \<Rightarrow> depth_entry list" where
  "entries_of oc s ds = filter (\<lambda>e. de_outcome e = oc) (filter (\<lambda>e. de_side e = s) (map snd (fold aggregate_order ds [])))"

definition rows_at :: "outcome \<Rightarrow> order_side \<Rightarrow> number \<Rightarrow> db_order list \<Rightarrow> db_order list" where
  "rows_at oc s p ds = filter (\<lambda>d. 0 < remaining_quantity d \<and> do_outcome d = oc \<and> do_side d = s \<and> do_price d = p) ds"

lemma entry_row:
  assumes "\<forall>d \<in> set ds. printable (do_price d)" "(k, e) \<in> set (fold aggregate_order ds [])"
  shows "k = side_text (de_side e) @ '':'' @ outcome_text (de_outcome e) @ '':'' @ number_string (de_price e)"
    "rows_at (de_outcome e) (de_side e) (de_price e) ds \<noteq> []"
    "de_total e = sum_list (map remaining_quantity (rows_at (de_outcome e) (de_side e) (de_price e) ds))"
    "de_count e = length (rows_at (de_outcome e) (de_side e) (de_price e) ds)"
proof -
  have "group_entry (level_group k ds) = Some e"
    using assms(2) aggregate_distinct [of ds] by (simp add: aggregate_group [symmetric])
  then obtain d rest where g: "level_group k ds = d # rest" and e: "e = \<lparr>de_side = do_side d, de_price = do_price d,
      de_outcome = do_outcome d, de_total = sum_list (map remaining_quantity (level_group k ds)), de_count = length (level_group k ds)\<rparr>"
    by (cases "level_group k ds") (auto simp: group_entry_def)
  have "d \<in> set (level_group k ds)" using g by simp
  then have d: "d \<in> set ds" "level_key d = k" by (auto simp: level_group_def)
  have "0 < remaining_quantity x \<and> level_key x = k \<longleftrightarrow>
      0 < remaining_quantity x \<and> do_outcome x = do_outcome d \<and> do_side x = do_side d \<and> do_price x = do_price d"
    if "x \<in> set ds" for x
    using level_key_inject [of x d] assms(1) that d by auto
  then have eq: "level_group k ds = rows_at (do_outcome d) (do_side d) (do_price d) ds"
    unfolding level_group_def rows_at_def by (intro filter_cong) auto
  have ne: "rows_at (do_outcome d) (do_side d) (do_price d) ds \<noteq> []" by (metis eq g list.distinct(1))
  show "k = side_text (de_side e) @ '':'' @ outcome_text (de_outcome e) @ '':'' @ number_string (de_price e)"
    "rows_at (de_outcome e) (de_side e) (de_price e) ds \<noteq> []"
    "de_total e = sum_list (map remaining_quantity (rows_at (de_outcome e) (de_side e) (de_price e) ds))"
    "de_count e = length (rows_at (de_outcome e) (de_side e) (de_price e) ds)"
    using d(2) ne by (simp_all add: e eq level_key_def)
qed

lemma entries_of_spec:
  assumes "\<forall>d \<in> set ds. printable (do_price d)"
  shows "distinct (map de_price (entries_of oc s ds))"
    and "set (map de_price (entries_of oc s ds)) = {p. rows_at oc s p ds \<noteq> []}"
    and "e \<in> set (entries_of oc s ds) \<Longrightarrow> de_total e = sum_list (map remaining_quantity (rows_at oc s (de_price e) ds))
      \<and> de_count e = length (rows_at oc s (de_price e) ds)"
proof -
  let ?es = "fold aggregate_order ds []"
  note row = entry_row [OF assms]
  have mem: "e \<in> set (entries_of oc s ds) \<longleftrightarrow> (\<exists>k. (k, e) \<in> set ?es) \<and> de_outcome e = oc \<and> de_side e = s" for e
    by (force simp: entries_of_def)
  show "e \<in> set (entries_of oc s ds) \<Longrightarrow> de_total e = sum_list (map remaining_quantity (rows_at oc s (de_price e) ds))
      \<and> de_count e = length (rows_at oc s (de_price e) ds)"
    using row(3,4) unfolding mem by blast
  have "distinct (map (\<lambda>(k, e). de_price e) (filter (\<lambda>(k, e). de_outcome e = oc) (filter (\<lambda>(k, e). de_side e = s) ?es)))"
  proof -
    have "inj_on (\<lambda>(k, e). de_price e) (set (filter (\<lambda>(k, e). de_outcome e = oc) (filter (\<lambda>(k, e). de_side e = s) ?es)))"
    proof (rule inj_onI)
      fix x y
      assume x: "x \<in> set (filter (\<lambda>(k, e). de_outcome e = oc) (filter (\<lambda>(k, e). de_side e = s) ?es))"
        and y: "y \<in> set (filter (\<lambda>(k, e). de_outcome e = oc) (filter (\<lambda>(k, e). de_side e = s) ?es))"
        and same: "(case x of (k, e) \<Rightarrow> de_price e) = (case y of (k, e) \<Rightarrow> de_price e)"
      obtain k e k' e' where xy: "x = (k, e)" "y = (k', e')" by (cases x; cases y)
      have "k = k'" using x y same row(1) [of k e] row(1) [of k' e'] by (simp add: xy)
      then show "x = y" using aggregate_distinct [of ds] x y by (auto simp: xy dest: eq_key_imp_eq_value)
    qed
    then show ?thesis using aggregate_distinct [of ds] by (simp add: distinct_map)
  qed
  moreover have "map de_price (entries_of oc s ds)
      = map (\<lambda>(k, e). de_price e) (filter (\<lambda>(k, e). de_outcome e = oc) (filter (\<lambda>(k, e). de_side e = s) ?es))"
    by (simp add: entries_of_def filter_map comp_def case_prod_unfold)
  ultimately show "distinct (map de_price (entries_of oc s ds))" by simp
  show "set (map de_price (entries_of oc s ds)) = {p. rows_at oc s p ds \<noteq> []}"
  proof (intro equalityI subsetI)
    fix p assume "p \<in> set (map de_price (entries_of oc s ds))"
    then show "p \<in> {p. rows_at oc s p ds \<noteq> []}" using row(2) by (auto simp: mem)
  next
    fix p assume "p \<in> {p. rows_at oc s p ds \<noteq> []}"
    then obtain d where d: "d \<in> set ds" "0 < remaining_quantity d" "do_outcome d = oc" "do_side d = s" "do_price d = p"
      by (auto simp: rows_at_def filter_empty_conv)
    then have ne: "level_group (level_key d) ds \<noteq> []" by (auto simp: level_group_def filter_empty_conv)
    then obtain x xs where x: "level_group (level_key d) ds = x # xs" by (cases "level_group (level_key d) ds") auto
    then have "x \<in> set (level_group (level_key d) ds)" by simp
    then have "x \<in> set ds" "level_key x = level_key d" by (auto simp: level_group_def)
    then have same: "do_side x = s" "do_outcome x = oc" "do_price x = p" using level_key_inject [of x d] assms d by auto
    obtain e where "map_of ?es (level_key d) = Some e" "de_side e = s" "de_outcome e = oc" "de_price e = p"
      unfolding aggregate_group x by (simp add: group_entry_def same)
    then show "p \<in> set (map de_price (entries_of oc s ds))" using mem [of e] by (auto dest: map_of_SomeD)
  qed
qed

text \<open>The live rows and the resting orders are the same multiset of views.\<close>

lemma live_rows_views:
  assumes coh: "coherent m oc b (map_of (map (\<lambda>d. (do_id d, d)) orders))" and ids: "distinct (map do_id orders)"
  shows "mset (map book_view (resting b)) = mset (map row_view (filter (live m oc) orders))"
proof -
  have ok: "book_ok b" and view: "map_option book_view (map_of (order_map b) i)
      = live_view m oc (map_of (map (\<lambda>d. (do_id d, d)) orders) i)" for i
    using coh by (auto simp: coherent_def)
  have row: "map_of (map (\<lambda>d. (do_id d, d)) orders) i = Some d \<longleftrightarrow> d \<in> set orders \<and> do_id d = i" for i d
    using ids by (subst map_of_eq_Some_iff) (auto simp: comp_def)
  have "v \<in> book_view ` set (resting b) \<longleftrightarrow> v \<in> row_view ` set (filter (live m oc) orders)" for v
  proof -
    have "v \<in> book_view ` set (resting b) \<longleftrightarrow> map_option book_view (map_of (order_map b) (fst v)) = Some v"
      using order_map_resting [OF ok] by (auto simp: book_view_def)
    also have "\<dots> \<longleftrightarrow> live_view m oc (map_of (map (\<lambda>d. (do_id d, d)) orders) (fst v)) = Some v" by (simp add: view)
    also have "\<dots> \<longleftrightarrow> (\<exists>d. d \<in> set orders \<and> live m oc d \<and> v = row_view d)"
    proof -
      have "live_view m oc r = Some v \<longleftrightarrow> (\<exists>d. r = Some d \<and> live m oc d \<and> v = row_view d)" for r
        by (auto simp: live_view_def split: option.splits)
      moreover have "d \<in> set orders \<and> do_id d = fst v \<and> live m oc d \<and> v = row_view d
          \<longleftrightarrow> d \<in> set orders \<and> live m oc d \<and> v = row_view d" for d
        by (auto simp: row_view_def)
      ultimately show ?thesis by (simp only: row conj_assoc)
    qed
    finally show ?thesis by auto
  qed
  then have "book_view ` set (resting b) = row_view ` set (filter (live m oc) orders)" by (intro set_eqI)
  then have "set (map book_view (resting b)) = set (map row_view (filter (live m oc) orders))" by simp
  moreover have "distinct (map fst (map book_view (resting b)))"
    using book_okD(4) [OF ok] by (simp add: book_view_def comp_def)
  moreover have "distinct (map fst (map row_view (filter (live m oc) orders)))"
    using ids by (simp add: row_view_def comp_def distinct_map_filter)
  ultimately show ?thesis by (metis distinct_map set_eq_iff_mset_eq_distinct)
qed

lemma side_rows:
  assumes "coherent m oc b (map_of (map (\<lambda>d. (do_id d, d)) orders))" and "distinct (map do_id orders)"
  shows "mset (map o_quantity (filter (\<lambda>x. o_price x = p) (iterate_orders (book_side_of s) b)))
    = mset (map remaining_quantity (rows_at oc s p (open_orders m orders)))"
proof -
  let ?on = "\<lambda>v. fst (snd (snd v)) = book_side_of s \<and> fst (snd (snd (snd v))) = p"
  let ?left = "\<lambda>v. snd (snd (snd (snd v)))"
  have ok: "book_ok b" using assms(1) by (simp add: coherent_def)
  have "iterate_orders (book_side_of s) b = filter (\<lambda>x. o_side x = book_side_of s) (resting b)"
  proof -
    have "filter (\<lambda>x. o_side x = t) (iterate_orders t' b) = (if t' = t then iterate_orders t' b else [])" for t t'
      using book_okD(2) [OF ok] by (auto simp: filter_empty_conv filter_id_conv)
    then show ?thesis by (cases "book_side_of s") (simp_all add: resting_def)
  qed
  then have "mset (map o_quantity (filter (\<lambda>x. o_price x = p) (iterate_orders (book_side_of s) b)))
      = image_mset ?left (filter_mset ?on (mset (map book_view (resting b))))"
    by (simp add: book_view_def filter_mset_image_mset image_mset.compositionality comp_def filter_filter_mset conj_commute
      mset_filter [symmetric] del: mset_filter)
  also have "\<dots> = image_mset ?left (filter_mset ?on (mset (map row_view (filter (live m oc) orders))))"
    by (simp only: live_rows_views [OF assms])
  also have "\<dots> = mset (map remaining_quantity (rows_at oc s p (open_orders m orders)))"
  proof -
    have "filter (\<lambda>d. book_side_of (do_side d) = book_side_of s \<and> do_price d = p) (filter (live m oc) orders)
        = rows_at oc s p (open_orders m orders)"
    proof -
      have "book_side_of (do_side d) = book_side_of s \<longleftrightarrow> do_side d = s" for d
        by (cases s; cases "do_side d") (simp_all add: book_side_of_def)
      then show ?thesis
        by (auto simp: rows_at_def open_orders_def live_def remaining_quantity_def intro!: filter_cong)
    qed
    then show ?thesis
      by (simp add: row_view_def remaining_quantity_def [abs_def] filter_mset_image_mset image_mset.compositionality comp_def
        mset_filter [symmetric] del: mset_filter)
  qed
  finally show ?thesis .
qed

subsection \<open>The levels in the book's order\<close>

definition as_depth :: "book_level \<Rightarrow> depth_level" where
  "as_depth l = \<lparr>dl_price = bl_price l, dl_quantity = bl_total l, dl_count = bl_count l\<rparr>"

lemma sorted_entries:
  fixes k :: "number \<Rightarrow> number"
  assumes "inj k" "distinct (map de_price es)" "set (map de_price es) = set ps" "sorted_wrt (<) (map k ps)"
  shows "map de_price (sort_key (\<lambda>e. k (de_price e)) es) = ps"
proof -
  let ?xs = "map de_price (sort_key (\<lambda>e. k (de_price e)) es)"
  have "sorted (map k ?xs)" by (simp add: comp_def)
  moreover have "distinct (map k ?xs)"
  proof -
    have "mset ?xs = mset (map de_price es)" by simp
    then have "distinct ?xs" using assms(2) by (metis mset_eq_imp_distinct_iff)
    then show ?thesis using assms(1) by (simp only: distinct_map) (meson inj_on_subset subset_UNIV)
  qed
  ultimately have "sorted_wrt (<) (map k ?xs)" by (simp only: strict_sorted_iff simp_thms)
  moreover have "set (map k ?xs) = set (map k ps)"
  proof -
    have "set ?xs = set ps" using assms(3) by simp
    then show ?thesis by (metis list.set_map)
  qed
  ultimately have "map k ?xs = map k ps" by (metis assms(4) strict_sorted_equal)
  then show ?thesis using assms(1) by (metis map_injective)
qed

lemma side_published:
  fixes k :: "number \<Rightarrow> number"
  assumes coh: "coherent m oc b (map_of (map (\<lambda>d. (do_id d, d)) orders))" and ids: "distinct (map do_id orders)"
    and read: "\<forall>d \<in> set orders. printable (do_price d)"
    and k: "inj k" "\<And>p q. better (book_side_of s) p q \<Longrightarrow> k p < k q"
  shows "map as_depth (take n (map create_depth_level (sort_key (\<lambda>e. k (de_price e)) (entries_of oc s (open_orders m orders)))))
    = depth_spec n (iterate_orders (book_side_of s) b)"
proof -
  let ?open = "open_orders m orders" and ?q = "iterate_orders (book_side_of s) b"
  let ?es = "entries_of oc s ?open" and ?ps = "remdups_adj (map o_price ?q)"
  let ?F = "\<lambda>p. \<lparr>dl_price = p, dl_quantity = sum_list (map remaining_quantity (rows_at oc s p ?open)),
    dl_count = length (rows_at oc s p ?open)\<rparr>"
  have ok: "book_ok b" using coh by (simp add: coherent_def)
  have readable: "\<forall>d \<in> set ?open. printable (do_price d)" using read by (simp add: open_orders_def)
  note es = entries_of_spec [OF readable, where oc = oc and s = s]
  have side: "mset (map o_quantity (filter (\<lambda>x. o_price x = p) ?q)) = mset (map remaining_quantity (rows_at oc s p ?open))" for p
    by (rule side_rows [OF coh ids])
  have sums: "sum_list (map o_quantity (filter (\<lambda>x. o_price x = p) ?q)) = sum_list (map remaining_quantity (rows_at oc s p ?open))" for p
    using side [of p] by (metis sum_mset_sum_list)
  have counts: "length (filter (\<lambda>x. o_price x = p) ?q) = length (rows_at oc s p ?open)" for p
    using side [of p] by (metis length_map size_mset)
  have "p \<in> set ?ps \<longleftrightarrow> rows_at oc s p ?open \<noteq> []" for p
  proof -
    have "rows_at oc s p ?open = [] \<longleftrightarrow> filter (\<lambda>x. o_price x = p) ?q = []" by (metis counts length_0_conv)
    then show ?thesis by (auto simp: filter_empty_conv)
  qed
  then have prices: "set (map de_price ?es) = set ?ps" unfolding es(2) by blast
  obtain lv ps where lad: "side_ladder (book_side_of s) b = (lv, ps)" by fastforce
  have lok: "ladder_ok (better (book_side_of s)) (lv, ps)" using book_okD(1) [OF ok, of "book_side_of s"] lad by simp
  have "?ps = ps"
    using queue_price_runs [OF lok ladder_okD(1) [OF lok]] by (simp add: iterate_orders_def lad)
  then have "sorted_wrt (better (book_side_of s)) ?ps" using ladder_okD(1) [OF lok] by simp
  then have "sorted_wrt (<) (map k ?ps)"
    unfolding sorted_wrt_map by (rule sorted_wrt_mono_rel [rotated]) (rule k(2))
  from sorted_entries [OF k(1) es(1) prices this]
  have order: "map de_price (sort_key (\<lambda>e. k (de_price e)) ?es) = ?ps" .
  have "map as_depth (map create_depth_level (sort_key (\<lambda>e. k (de_price e)) ?es))
      = map ?F (map de_price (sort_key (\<lambda>e. k (de_price e)) ?es))"
    using es(3) by (auto simp: as_depth_def create_depth_level_def)
  then have "map as_depth (map create_depth_level (sort_key (\<lambda>e. k (de_price e)) ?es)) = map ?F ?ps"
    by (simp only: order)
  then show ?thesis by (simp add: take_map [symmetric] depth_spec_def Let_def sums counts)
qed

lemma filter_create: "filter (\<lambda>l. bl_outcome l = oc) (map create_depth_level es) = map create_depth_level (filter (\<lambda>e. de_outcome e = oc) es)"
  by (simp add: filter_map comp_def create_depth_level_def)

text \<open>
  C30: the order book the API publishes for a market is, per outcome, the depth of the matching engine's
  book: when the engine's book agrees with the order rows (\<open>coherent\<close>, the invariant every placed order
  keeps) and every stored price is printed back exactly, the levels of \<open>GET /markets/:id/orderbook\<close> with
  that outcome are, in the same order, the prices, quantities and order counts of \<open>get_depth\<close>.
\<close>

theorem published_book_is_engine_book:
  assumes coh: "coherent m oc b (map_of (map (\<lambda>d. (do_id d, d)) orders))" and ids: "distinct (map do_id orders)"
    and read: "\<forall>d \<in> set orders. printable (do_price d)"
    and reply: "get_market_orderbook iso_now markets orders m = Inr v"
  shows "(map as_depth (take n (filter (\<lambda>l. bl_outcome l = oc) (bk_bids v))),
      map as_depth (take n (filter (\<lambda>l. bl_outcome l = oc) (bk_asks v)))) = get_depth n b"
proof -
  have v: "bk_bids v = book_bids (map snd (fold aggregate_order (open_orders m orders) []))"
    "bk_asks v = book_asks (map snd (fold aggregate_order (open_orders m orders) []))"
    using reply by (auto simp: get_market_orderbook_def res_bind_Inr Let_def)
  have "map as_depth (take n (filter (\<lambda>l. bl_outcome l = oc) (bk_bids v))) = depth_spec n (iterate_orders Bid b)"
    using side_published [OF coh ids read, of uminus BUY n]
    by (simp add: v book_bids_def filter_create filter_sort entries_of_def book_side_of_def comparison_def inj_def)
  moreover have "map as_depth (take n (filter (\<lambda>l. bl_outcome l = oc) (bk_asks v))) = depth_spec n (iterate_orders Ask b)"
    using side_published [OF coh ids read, of "\<lambda>p. p" SELL n]
    by (simp add: v book_asks_def filter_create filter_sort entries_of_def book_side_of_def comparison_def inj_def)
  moreover have "book_ok b" using coh by (simp add: coherent_def)
  ultimately show ?thesis by (simp add: get_depth_spec)
qed

definition demo_book_row :: db_order where
  "demo_book_row = \<lparr>do_id = ''o'', do_market = ''m'', do_user = ''u'', do_side = BUY, do_outcome = YES, do_price = fl (of_int 50 / 100),
     do_quantity = 10, do_filled = 4, do_status = PARTIALLY_FILLED, do_created = 0\<rparr>"

definition demo_market_row :: market_row where
  "demo_market_row = \<lparr>mr_id = ''m'', mr_question = ''q'', mr_end = 9, mr_resolution = None, mr_oracle = ''G'',
     mr_status = ACTIVE, mr_outcome = None, mr_created = 1, mr_updated = 2\<rparr>"

theorem published_book_is_engine_book_witness:
  "\<exists>b v. get_market_orderbook ''now'' [demo_market_row] [demo_book_row] ''m'' = Inr v \<and>
     map as_depth (filter (\<lambda>l. bl_outcome l = YES) (bk_bids v)) = [\<lparr>dl_price = fl (of_int 50 / 100), dl_quantity = 6, dl_count = 1\<rparr>] \<and>
     fst (get_depth 20 b) = [\<lparr>dl_price = fl (of_int 50 / 100), dl_quantity = 6, dl_count = 1\<rparr>]"
proof -
  let ?rows = "map_of (map (\<lambda>d. (do_id d, d)) [demo_book_row])"
  have row: "do_id demo_book_row = ''o''" "do_market demo_book_row = ''m''" "do_outcome demo_book_row = YES"
    "do_status demo_book_row = PARTIALLY_FILLED"
    by (simp_all add: demo_book_row_def)
  have "\<exists>b. fold_res (hydrate_step ''m'' YES) [demo_book_row] (new_book ''m'' (outcome_to_number YES)) = Inr b \<and> coherent ''m'' YES b ?rows"
    by (rule hydrate_coherent) (auto simp: row split: if_splits)
  then obtain b where b: "coherent ''m'' YES b ?rows" by blast
  let ?level = "\<lparr>bl_price = fl (of_int 50 / 100), bl_outcome = YES, bl_total = 6, bl_count = 1\<rparr>"
  define v where "v = \<lparr>bk_market = ''m'', bk_snapshot = ''now'', bk_bids = [?level], bk_asks = []\<rparr>"
  have op: "open_orders ''m'' [demo_book_row] = [demo_book_row]" by (simp add: open_orders_def demo_book_row_def)
  have found: "find_market_row [demo_market_row] ''m'' = Inr demo_market_row" by (simp add: find_market_row_def demo_market_row_def)
  have entry: "map snd (aggregate_order demo_book_row []) = [\<lparr>de_side = BUY, de_price = fl (of_int 50 / 100), de_outcome = YES, de_total = 6, de_count = 1\<rparr>]"
    by (simp add: aggregate_order_def remaining_quantity_def demo_book_row_def)
  have v: "get_market_orderbook ''now'' [demo_market_row] [demo_book_row] ''m'' = Inr v"
    by (simp add: get_market_orderbook_def found op entry v_def book_bids_def book_asks_def create_depth_level_def)
  have bids: "filter (\<lambda>l. bl_outcome l = YES) (bk_bids v) = [?level]" by (simp add: v_def)
  have "(map as_depth (take 20 (filter (\<lambda>l. bl_outcome l = YES) (bk_bids v))),
      map as_depth (take 20 (filter (\<lambda>l. bl_outcome l = YES) (bk_asks v)))) = get_depth 20 b"
    by (rule published_book_is_engine_book [OF b _ _ v])
      (use printable_cents [of 50] in \<open>simp_all add: demo_book_row_def\<close>)
  then have "fst (get_depth 20 b) = map as_depth (take 20 [?level])" by (metis bids fst_conv)
  then show ?thesis using v bids by (intro exI [of _ b] exI [of _ v]) (simp add: as_depth_def)
qed

end
