(* ===== verification/AuditLog.thy ===== *)
theory AuditLog
  imports Engine RedisService JsNumeral
begin

text \<open>
  The audit log on Redis streams: \<open>src/services/audit.ts\<close> over the commands of \<open>RedisService\<close>, and
  \<open>scripts/backfill-trades.ts\<close>, which copies the log into the trades table. The last part is a server
  with the documented rules for stream identifiers, on which the properties are stated; the
  trimming of streams beyond 100000 entries is left out.
\<close>

subsection \<open>Writing\<close>

definition get_market_stream :: "string \<Rightarrow> string \<Rightarrow> string" where
  "get_market_stream pre market = pre @ ''audit:market:'' @ market"

definition global_stream :: "string \<Rightarrow> string" where
  "global_stream pre = pre @ ''audit:trades:global''"

definition outcome_string :: "outcome \<Rightarrow> string" where
  "outcome_string oc = (case oc of YES \<Rightarrow> ''YES'' | NO \<Rightarrow> ''NO'')"

definition log_data :: "string \<Rightarrow> trade \<Rightarrow> (string \<times> string) list" where
  "log_data iso_now t = [(''tradeId'', tr_id t), (''marketId'', tr_market t), (''outcome'', outcome_string (tr_outcome t)),
     (''buyerAddress'', tr_buyer t), (''sellerAddress'', tr_seller t), (''buyOrderId'', tr_buy_order t),
     (''sellOrderId'', tr_sell_order t), (''price'', number_string (tr_price t)), (''quantity'', int_string (tr_quantity t)),
     (''timestamp'', int_string (tr_timestamp t)), (''loggedAt'', iso_now)]"

fun flatten_object :: "(string \<times> string) list \<Rightarrow> string list" where
  "flatten_object [] = []"
| "flatten_object ((k, v) # ps) = k # v # flatten_object ps"

definition MAX_LOG_ENTRIES :: nat where "MAX_LOG_ENTRIES = 100000"

definition add_entry :: "'w raw_redis \<Rightarrow> string \<Rightarrow> nat \<Rightarrow> string \<Rightarrow> (string \<times> string) list \<Rightarrow> ('w, string) call" where
  "add_entry raw stream bound sid ps =
     redis_xadd raw ([stream, ''MAXLEN'', ''~'', nat_string bound, sid] @ flatten_object ps)"

text \<open>Both streams get the entry under the same identifier; the result is that of the market stream.\<close>

definition add_to_both :: "'w raw_redis \<Rightarrow> string \<Rightarrow> string \<Rightarrow> string \<Rightarrow> (string \<times> string) list \<Rightarrow> ('w, string) call" where
  "add_to_both raw pre market sid ps =
     call_bind (add_entry raw (get_market_stream pre market) MAX_LOG_ENTRIES sid ps) (\<lambda>entry.
     call_bind (add_entry raw (global_stream pre) (MAX_LOG_ENTRIES * 10) sid ps) (\<lambda>_. call_return entry))"

definition log_order_match :: "'w raw_redis \<Rightarrow> string \<Rightarrow> string \<Rightarrow> trade \<Rightarrow> ('w, string) call" where
  "log_order_match raw pre iso_now t = (let ps = log_data iso_now t in
     call_catch (add_to_both raw pre (tr_market t) (int_string (tr_timestamp t) @ ''-0'') ps)
       (\<lambda>e. if contains ''equal or smaller'' e \<or> contains ''ID'' e
            then add_to_both raw pre (tr_market t) ''*'' ps else call_throw e))"

subsection \<open>Reading\<close>

text \<open>\<open>parseInt(s, 10)\<close> and \<open>parseFloat(s)\<close>: the longest numeric prefix; \<open>None\<close> is NaN.\<close>

definition split_sign :: "string \<Rightarrow> bool \<times> string" where
  "split_sign s = (let t = dropWhile is_space s in case t of
     c # r \<Rightarrow> if c = CHR ''-'' then (True, r) else if c = CHR ''+'' then (False, r) else (False, t)
   | [] \<Rightarrow> (False, []))"

definition parse_int :: "string \<Rightarrow> int option" where
  "parse_int s = (let (neg, t) = split_sign s; ds = takeWhile is_digit t
     in if ds = [] then None else Some ((if neg then -1 else 1) * int (digits_value ds)))"

definition parse_float :: "string \<Rightarrow> number option" where
  "parse_float s = (let (neg, t) = split_sign s; a = takeWhile is_digit t; r = dropWhile is_digit t;
       b = (case r of c # u \<Rightarrow> if c = CHR ''.'' then takeWhile is_digit u else [] | [] \<Rightarrow> [])
     in if a @ b = [] then None
        else Some (fl ((if neg then -1 else 1) * (of_nat (digits_value (a @ b)) / 10 ^ length b))))"

record logged_trade =
  lg_id :: js
  lg_market :: js
  lg_outcome :: js
  lg_buyer :: js
  lg_seller :: js
  lg_buy_order :: js
  lg_sell_order :: js
  lg_price :: "number option"
  lg_quantity :: "int option"
  lg_timestamp :: "int option"

record audit_entry =
  ae_id :: string
  ae_trade :: logged_trade
  ae_logged :: js

text \<open>The object built from the flat array: a name without a value is \<open>undefined\<close>, a later value
  replaces an earlier one.\<close>

fun read_fields :: "string list \<Rightarrow> (string \<times> js) list \<Rightarrow> (string \<times> js) list" where
  "read_fields [] acc = acc"
| "read_fields [k] acc = AList.update k Undefined acc"
| "read_fields (k # v # fs) acc = read_fields fs (AList.update k (Str v) acc)"

definition text_or :: "(string \<Rightarrow> 'a option) \<Rightarrow> js \<Rightarrow> 'a option" where
  "text_or f v = (case v of Str s \<Rightarrow> f s | _ \<Rightarrow> None)"

definition parse_stream_entry :: "string \<Rightarrow> string list \<Rightarrow> audit_entry" where
  "parse_stream_entry sid flat = (let d = read_fields flat []; p = (\<lambda>k. get_prop k d) in
     \<lparr>ae_id = sid,
      ae_trade = \<lparr>lg_id = p ''tradeId'', lg_market = p ''marketId'', lg_outcome = p ''outcome'', lg_buyer = p ''buyerAddress'',
        lg_seller = p ''sellerAddress'', lg_buy_order = p ''buyOrderId'', lg_sell_order = p ''sellOrderId'',
        lg_price = text_or parse_float (p ''price''), lg_quantity = text_or parse_int (p ''quantity''),
        lg_timestamp = text_or parse_int (p ''timestamp'')\<rparr>,
      ae_logged = p ''loggedAt''\<rparr>)"

definition flat_fields :: "stream_fields \<Rightarrow> string list" where
  "flat_fields f = (case f of FieldArray fs \<Rightarrow> fs | FieldObject ps \<Rightarrow> flatten_object ps)"

definition parse_entries :: "(string \<times> stream_fields) list \<Rightarrow> audit_entry list" where
  "parse_entries es = map (\<lambda>(i, fs). parse_stream_entry i (flat_fields fs)) es"

definition or_empty :: "('w, 'a list) call \<Rightarrow> ('w, 'a list) call" where
  "or_empty c = call_catch c (\<lambda>_. call_return [])"

definition get_audit_log :: "'w raw_redis \<Rightarrow> string \<Rightarrow> string \<Rightarrow> nat \<Rightarrow> ('w, audit_entry list) call" where
  "get_audit_log raw pre market limit = or_empty
     (call_bind (redis_xrange raw (get_market_stream pre market) ''-'' ''+'' True (Some (nat_string limit)))
       (\<lambda>es. call_return (parse_entries es)))"

definition get_recent_trades :: "'w raw_redis \<Rightarrow> string \<Rightarrow> nat \<Rightarrow> ('w, audit_entry list) call" where
  "get_recent_trades raw pre limit = or_empty
     (call_bind (redis_xrevrange raw (global_stream pre) ''+'' ''-'' True (Some (nat_string limit)))
       (\<lambda>es. call_return (parse_entries es)))"

definition get_audit_log_range :: "'w raw_redis \<Rightarrow> string \<Rightarrow> string \<Rightarrow> int \<Rightarrow> int \<Rightarrow> ('w, audit_entry list) call" where
  "get_audit_log_range raw pre market start stop = or_empty
     (call_bind (redis_xrange raw (get_market_stream pre market) (int_string start @ ''-0'')
        (int_string stop @ ''-9007199254740991'') False None)
       (\<lambda>es. call_return (parse_entries es)))"

record audit_stats =
  as_total :: nat
  as_oldest :: "string option"
  as_newest :: "string option"

text \<open>\<open>getAuditLogStats\<close>; \<open>info\<close> is the answer of XINFO: length, first and last entry.\<close>

definition get_audit_log_stats ::
    "(string \<Rightarrow> ('w, nat \<times> string option \<times> string option) call) \<Rightarrow> string \<Rightarrow> string \<Rightarrow> ('w, audit_stats) call" where
  "get_audit_log_stats info pre market = call_catch
     (call_bind (info (get_market_stream pre market)) (\<lambda>(n, a, b).
        call_return \<lparr>as_total = n, as_oldest = a, as_newest = b\<rparr>))
     (\<lambda>_. call_return \<lparr>as_total = 0, as_oldest = None, as_newest = None\<rparr>)"

subsection \<open>Streams\<close>

text \<open>Identifiers are a time and a sequence number. XADD refuses an explicit identifier that does not
  exceed the last one, and makes up one from the clock for \<open>*\<close>.\<close>

type_synonym stream_id = "nat \<times> nat"
type_synonym stream_log = "(stream_id \<times> string list) list"

record log_server =
  ls_streams :: "string \<Rightarrow> stream_log"
  ls_clock :: nat

definition sid_less :: "stream_id \<Rightarrow> stream_id \<Rightarrow> bool" where
  "sid_less a b \<longleftrightarrow> fst a < fst b \<or> fst a = fst b \<and> snd a < snd b"

definition sid_text :: "stream_id \<Rightarrow> string" where
  "sid_text i = nat_string (fst i) @ ''-'' @ nat_string (snd i)"

definition sid_of_text :: "string \<Rightarrow> stream_id option" where
  "sid_of_text s = (case split_on (CHR ''-'') s of
     [a, b] \<Rightarrow> if all_digits a \<and> all_digits b then Some (digits_value a, digits_value b) else None
   | _ \<Rightarrow> None)"

definition last_sid :: "stream_log \<Rightarrow> stream_id" where
  "last_sid es = (if es = [] then (0, 0) else fst (last es))"

definition auto_sid :: "nat \<Rightarrow> stream_log \<Rightarrow> stream_id" where
  "auto_sid clock es = (let (ms, n) = last_sid es in if ms < clock then (clock, 0) else (ms, n + 1))"

definition append_entry :: "string \<Rightarrow> stream_id \<Rightarrow> string list \<Rightarrow> log_server \<Rightarrow> log_server" where
  "append_entry key i fs w = w\<lparr>ls_streams := (ls_streams w)(key := ls_streams w key @ [(i, fs)])\<rparr>"

definition server_xadd :: "string list \<Rightarrow> (log_server, string) call" where
  "server_xadd args w = (case args of
     key # _ # _ # _ # sid # fs \<Rightarrow>
       let es = ls_streams w key in
       if sid = ''*'' then (Inr (sid_text (auto_sid (ls_clock w) es)), append_entry key (auto_sid (ls_clock w) es) fs w)
       else (case sid_of_text sid of
           None \<Rightarrow> (Inl ''ERR Invalid stream ID specified as stream command argument'', w)
         | Some i \<Rightarrow> if sid_less (last_sid es) i then (Inr (sid_text i), append_entry key i fs w)
             else (Inl ''ERR The ID specified in XADD is equal or smaller than the target stream top item'', w))
   | _ \<Rightarrow> (Inl ''ERR wrong number of arguments for 'xadd' command'', w))"

definition in_range :: "string \<Rightarrow> string \<Rightarrow> stream_id \<times> string list \<Rightarrow> bool" where
  "in_range start stop e \<longleftrightarrow>
     (start = ''-'' \<or> (case sid_of_text start of None \<Rightarrow> False | Some a \<Rightarrow> \<not> sid_less (fst e) a)) \<and>
     (stop = ''+'' \<or> (case sid_of_text stop of None \<Rightarrow> False | Some b \<Rightarrow> \<not> sid_less b (fst e)))"

definition counted :: "string list \<Rightarrow> 'a list \<Rightarrow> 'a list" where
  "counted opts es = (case opts of [_, n] \<Rightarrow> take (digits_value n) es | _ \<Rightarrow> es)"

definition server_range :: "bool \<Rightarrow> string list \<Rightarrow> (log_server, (string \<times> stream_fields) list) call" where
  "server_range backwards args w = (case args of
     key # a # b # opts \<Rightarrow>
       let hits = filter (if backwards then in_range b a else in_range a b) (ls_streams w key)
       in (Inr (map (\<lambda>(i, fs). (sid_text i, FieldArray fs)) (counted opts (if backwards then rev hits else hits))), w)
   | _ \<Rightarrow> (Inl ''ERR wrong number of arguments'', w))"

definition log_redis :: "log_server raw_redis" where
  "log_redis = \<lparr>
     rw_get = (\<lambda>k. call_throw ''ERR unknown command''), rw_set = (\<lambda>k v args. call_throw ''ERR unknown command''),
     rw_del = (\<lambda>ks. call_throw ''ERR unknown command''), rw_exists = (\<lambda>k. call_throw ''ERR unknown command''),
     rw_keys = (\<lambda>p. call_throw ''ERR unknown command''), rw_ping = call_return ''PONG'',
     rw_xgroup = (\<lambda>args. call_throw ''ERR unknown command''), rw_xadd = server_xadd,
     rw_xreadgroup = (\<lambda>args. call_throw ''ERR unknown command''), rw_xrange = server_range False,
     rw_xrevrange = server_range True, rw_xack = (\<lambda>k g is. call_throw ''ERR unknown command''),
     rw_xclaim = (\<lambda>k g c n is. call_throw ''ERR unknown command'')\<rparr>"

subsection \<open>One trade, one entry\<close>

lemma sid_roundtrip: "sid_of_text (sid_text i) = Some i"
proof -
  have nodash: "CHR ''-'' \<notin> set (nat_string n)" for n using nat_string_digits by fastforce
  show ?thesis
    by (simp add: sid_of_text_def sid_text_def split_on_append [OF nodash] split_on_none [OF nodash])
qed

lemma timestamp_sid:
  assumes "0 \<le> ts"
  shows "int_string ts @ ''-0'' = sid_text (nat ts, 0)" "int_string ts @ ''-0'' \<noteq> ''*''"
proof -
  have "digit_char 0 = CHR ''0''" by code_simp
  then have "nat_string 0 = ''0''" by (simp add: nat_string.simps [of 0])
  then show "int_string ts @ ''-0'' = sid_text (nat ts, 0)" using assms by (simp add: int_string_def sid_text_def)
  show "int_string ts @ ''-0'' \<noteq> ''*''"
  proof
    assume "int_string ts @ ''-0'' = ''*''"
    then have "length (int_string ts @ ''-0'') = 1" by simp
    then show False by simp
  qed
qed

lemma sid_less_trans: "sid_less a b \<Longrightarrow> sid_less b c \<Longrightarrow> sid_less a c"
  by (auto simp: sid_less_def)

lemma auto_sid_greater: "sid_less (last_sid es) (auto_sid clock es)"
  by (auto simp: auto_sid_def sid_less_def split: prod.split)

definition increasing :: "stream_log \<Rightarrow> bool" where
  "increasing es \<longleftrightarrow> sorted_wrt (\<lambda>a b. sid_less (fst a) (fst b)) es"

definition server_ok :: "log_server \<Rightarrow> bool" where
  "server_ok w \<longleftrightarrow> (\<forall>key. increasing (ls_streams w key))"

lemma increasing_snoc:
  assumes "increasing es" "sid_less (last_sid es) i"
  shows "increasing (es @ [(i, fs)])"
proof (cases es rule: rev_cases)
  case (snoc ys y)
  have "\<forall>x \<in> set ys. sid_less (fst x) (fst y)" using assms(1) snoc by (simp add: increasing_def sorted_wrt_append)
  then have "\<forall>x \<in> set es. sid_less (fst x) i"
    using assms(2) snoc sid_less_trans [of _ "fst y" i] by (auto simp: last_sid_def)
  then show ?thesis using assms(1) by (simp add: increasing_def sorted_wrt_append)
qed (simp add: increasing_def)

lemma server_ok_append:
  "server_ok w \<Longrightarrow> sid_less (last_sid (ls_streams w key)) i \<Longrightarrow> server_ok (append_entry key i fs w)"
  using increasing_snoc by (simp add: server_ok_def append_entry_def)

lemma append_entry_streams [simp]:
  "ls_streams (append_entry key i fs w) k = (if k = key then ls_streams w key @ [(i, fs)] else ls_streams w k)"
  "ls_clock (append_entry key i fs w) = ls_clock w"
  by (simp_all add: append_entry_def)

lemma add_entry_auto:
  "add_entry log_redis key n ''*'' ps w =
     (let i = auto_sid (ls_clock w) (ls_streams w key) in (Inr (sid_text i), append_entry key i (flatten_object ps) w))"
  by (simp add: add_entry_def redis_xadd_def log_redis_def server_xadd_def Let_def)

definition refused :: string where
  "refused = ''ERR The ID specified in XADD is equal or smaller than the target stream top item''"

lemma add_entry_explicit:
  "0 \<le> ts \<Longrightarrow> add_entry log_redis key n (int_string ts @ ''-0'') ps w =
     (if sid_less (last_sid (ls_streams w key)) (nat ts, 0)
      then (Inr (sid_text (nat ts, 0)), append_entry key (nat ts, 0) (flatten_object ps) w) else (Inl refused, w))"
  using timestamp_sid [of ts]
  by (simp add: add_entry_def redis_xadd_def log_redis_def server_xadd_def sid_roundtrip refused_def)

lemma refused_retries: "contains ''equal or smaller'' refused"
  by (simp add: refused_def)

lemma streams_differ: "get_market_stream pre m \<noteq> global_stream pre"
  by (simp add: get_market_stream_def global_stream_def)

text \<open>Logging a trade always succeeds and adds exactly one entry to the global stream and, with increasing
  identifiers, one to the stream of its market; except that a trade whose millisecond is free in its
  market but taken in the global stream, by a trade of another market, is entered twice in the
  stream of its market. No other stream changes.\<close>

lemma audit_entry_recorded:
  assumes "server_ok w" "0 \<le> tr_timestamp t"
  shows "\<exists>r w' i j k. log_order_match log_redis pre iso_now t w = (Inr r, w') \<and> server_ok w'
     \<and> ls_streams w' (global_stream pre) = ls_streams w (global_stream pre) @ [(i, flatten_object (log_data iso_now t))]
     \<and> ls_streams w' (get_market_stream pre (tr_market t)) = ls_streams w (get_market_stream pre (tr_market t)) @
          (if sid_less (last_sid (ls_streams w (get_market_stream pre (tr_market t)))) (nat (tr_timestamp t), 0)
              \<and> \<not> sid_less (last_sid (ls_streams w (global_stream pre))) (nat (tr_timestamp t), 0)
           then [(j, flatten_object (log_data iso_now t)), (k, flatten_object (log_data iso_now t))]
           else [(j, flatten_object (log_data iso_now t))])
     \<and> (\<forall>key. key \<noteq> global_stream pre \<longrightarrow> key \<noteq> get_market_stream pre (tr_market t) \<longrightarrow> ls_streams w' key = ls_streams w key)"
proof -
  let ?m = "get_market_stream pre (tr_market t)" and ?g = "global_stream pre" and ?ps = "log_data iso_now t"
  let ?id = "(nat (tr_timestamp t), 0)" and ?fs = "flatten_object (log_data iso_now t)"
  note differ = streams_differ [of pre "tr_market t"] streams_differ [of pre "tr_market t", symmetric]
  note explicit = add_entry_explicit [OF assms(2)]
  have both: "add_to_both log_redis pre (tr_market t) ''*'' ?ps v =
      (let i = auto_sid (ls_clock v) (ls_streams v ?m); v' = append_entry ?m i ?fs v; j = auto_sid (ls_clock v) (ls_streams v ?g)
       in (Inr (sid_text i), append_entry ?g j ?fs v'))" for v
    using differ by (simp add: add_to_both_def call_bind_def add_entry_auto Let_def call_return_def)
  have auto_ok: "server_ok v \<Longrightarrow> server_ok (append_entry ?g (auto_sid (ls_clock v) (ls_streams v ?g)) ?fs
      (append_entry ?m (auto_sid (ls_clock v) (ls_streams v ?m)) ?fs v))" for v
    using differ auto_sid_greater by (intro server_ok_append) simp_all
  show ?thesis
  proof (cases "sid_less (last_sid (ls_streams w ?m)) ?id")
    case False
    then have "log_order_match log_redis pre iso_now t w = add_to_both log_redis pre (tr_market t) ''*'' ?ps w"
      by (simp add: log_order_match_def call_catch_def add_to_both_def [of _ _ _ "int_string _ @ _"] call_bind_def explicit refused_retries Let_def)
    then show ?thesis using False differ auto_ok [OF assms(1)] by (simp add: both Let_def)
  next
    case True
    let ?w = "append_entry ?m ?id ?fs w"
    have ok: "server_ok ?w" by (rule server_ok_append [OF assms(1) True])
    show ?thesis
    proof (cases "sid_less (last_sid (ls_streams w ?g)) ?id")
      case g: True
      have "log_order_match log_redis pre iso_now t w = (Inr (sid_text ?id), append_entry ?g ?id ?fs ?w)"
        using True g differ
        by (simp add: log_order_match_def call_catch_def add_to_both_def call_bind_def explicit call_return_def Let_def)
      moreover have "server_ok (append_entry ?g ?id ?fs ?w)" using g differ by (intro server_ok_append [OF ok]) simp
      ultimately show ?thesis using True g differ by auto
    next
      case False
      have "log_order_match log_redis pre iso_now t w = add_to_both log_redis pre (tr_market t) ''*'' ?ps ?w"
        using True False differ
        by (simp add: log_order_match_def call_catch_def add_to_both_def [of _ _ _ "int_string _ @ _"] call_bind_def explicit refused_retries Let_def)
      then show ?thesis using True False differ auto_ok [OF ok] by (simp add: both Let_def)
    qed
  qed
qed

definition demo_log_trade :: trade where
  "demo_log_trade = \<lparr>tr_id = ''x'', tr_market = ''b'', tr_outcome = YES, tr_buyer = ''u'', tr_seller = ''v'',
     tr_buy_order = ''p'', tr_sell_order = ''q'', tr_price = 1 / 2, tr_quantity = 1, tr_timestamp = 5\<rparr>"

definition demo_log_server :: log_server where
  "demo_log_server = \<lparr>ls_streams = (\<lambda>k. if k = global_stream ''v:'' then [((5, 0), [])] else []), ls_clock = 5\<rparr>"

lemma audit_entry_recorded_witness:
  "\<exists>r w'. log_order_match log_redis ''v:'' ''now'' demo_log_trade demo_log_server = (Inr r, w')
     \<and> length (ls_streams w' (get_market_stream ''v:'' ''b'')) = 2"
proof -
  have ok: "server_ok demo_log_server" by (simp add: server_ok_def demo_log_server_def increasing_def)
  have t: "0 \<le> tr_timestamp demo_log_trade" by (simp add: demo_log_trade_def)
  from audit_entry_recorded [OF ok t, of "''v:''" "''now''"] show ?thesis
    using streams_differ [of "''v:''" "''b''"] by (auto simp: demo_log_server_def demo_log_trade_def last_sid_def sid_less_def)
qed

subsection \<open>What was written is read back\<close>

lemma takeWhile_nat_string [simp]:
  "takeWhile is_digit (nat_string n @ r) = nat_string n @ takeWhile is_digit r"
  "dropWhile is_digit (nat_string n @ r) = dropWhile is_digit r"
  "takeWhile is_digit (nat_string n) = nat_string n" "dropWhile is_digit (nat_string n) = []"
  using nat_string_digits by (auto simp: takeWhile_append2 dropWhile_append2 takeWhile_eq_all_conv dropWhile_eq_Nil_conv)

lemma split_sign_digits: "all_digits s \<Longrightarrow> split_sign (s @ r) = (False, s @ r)"
  using hd_digits [of s] digit_not_space [of "hd s"] by (cases s) (auto simp: split_sign_def all_digits_def)

lemma parse_int_string: "parse_int (int_string n) = Some n"
proof (cases "n < 0")
  case True
  have "\<not> is_space (CHR ''-'')" by (simp add: is_space_def)
  then have "split_sign (CHR ''-'' # nat_string (nat (- n))) = (True, nat_string (nat (- n)))" by (simp add: split_sign_def)
  then show ?thesis using True by (simp add: parse_int_def int_string_def)
next
  case False
  then show ?thesis
    using split_sign_digits [of "nat_string (nat n)" "[]"]
    by (simp add: parse_int_def int_string_def)
qed

lemma parse_float_decimal: "0 < d \<Longrightarrow> parse_float (decimal_string d m) = Some (fl (of_nat m / 10 ^ d))"
proof -
  assume d: "0 < d"
  let ?a = "nat_string (m div 10 ^ d)" and ?b = "pad_start d (CHR ''0'') (nat_string (m mod 10 ^ d))"
  have b: "length ?b = d" "digits_value ?b = m mod 10 ^ d" "list_all is_digit ?b"
    using pad_digits [of "m mod 10 ^ d" d] d by simp_all
  have sign: "split_sign (?a @ CHR ''.'' # ?b) = (False, ?a @ CHR ''.'' # ?b)" by (intro split_sign_digits) simp
  have tb: "takeWhile is_digit ?b = ?b" using b(3) by (simp add: takeWhile_eq_all_conv list_all_iff)
  have val: "digits_value (?a @ ?b) = m"
    unfolding digits_value_append b nat_string_value by (rule div_mult_mod_eq)
  show ?thesis
    using d val b(1) by (simp add: parse_float_def decimal_string_def sign tb)
qed

lemma parse_float_nat: "parse_float (nat_string n) = Some (fl (of_nat n))"
  using split_sign_digits [of "nat_string n" "[]"] by (simp add: parse_float_def)

text \<open>On the text of a price \<open>parseFloat\<close> agrees with \<open>Number\<close>.\<close>

lemma parse_float_number: "0 \<le> x \<Longrightarrow> parse_float (number_string x) = number_of_string (number_string x)"
proof -
  assume x: "0 \<le> x"
  have nat_case: "parse_float (nat_string n) = number_of_string (nat_string n)" for n
    using number_of_digits [of "nat_string n"] by (simp add: parse_float_nat)
  show ?thesis
  proof (cases "is_integer x")
    case True
    then show ?thesis using x nat_case by (simp add: number_string_def int_string_def)
  next
    case False
    let ?d = "fraction_digits 25 0 x" and ?m = "nat (math_round (x * 10 ^ fraction_digits 25 0 x))"
    have text_is: "number_string x = decimal_string ?d ?m" using False x by (simp add: number_string_def Let_def)
    show ?thesis
    proof (cases "0 < ?d")
      case True
      then show ?thesis unfolding text_is by (simp add: parse_float_decimal number_of_decimal)
    next
      case False
      then show ?thesis unfolding text_is by (simp add: decimal_string_def nat_case)
    qed
  qed
qed

definition entry_of :: "stream_id \<times> string \<times> trade \<Rightarrow> audit_entry" where
  "entry_of e = (case e of (i, iso_now, t) \<Rightarrow> \<lparr>ae_id = sid_text i,
     ae_trade = \<lparr>lg_id = Str (tr_id t), lg_market = Str (tr_market t), lg_outcome = Str (outcome_string (tr_outcome t)),
       lg_buyer = Str (tr_buyer t), lg_seller = Str (tr_seller t), lg_buy_order = Str (tr_buy_order t),
       lg_sell_order = Str (tr_sell_order t), lg_price = Some (tr_price t), lg_quantity = Some (tr_quantity t),
       lg_timestamp = Some (tr_timestamp t)\<rparr>,
     ae_logged = Str iso_now\<rparr>)"

definition logged :: "stream_id \<times> string \<times> trade \<Rightarrow> stream_id \<times> string list" where
  "logged e = (case e of (i, iso_now, t) \<Rightarrow> (i, flatten_object (log_data iso_now t)))"

lemma parse_logged:
  assumes "0 \<le> tr_price t" "number_of_string (number_string (tr_price t)) = Some (tr_price t)"
  shows "parse_stream_entry (sid_text i) (flatten_object (log_data iso_now t)) = entry_of (i, iso_now, t)"
  using parse_float_number [OF assms(1)] assms(2)
  by (simp add: parse_stream_entry_def log_data_def entry_of_def text_or_def parse_int_string Let_def get_prop_def)

text \<open>C31: the log of a market reads back as the trades that were written to it, oldest first and up to the
  limit, and the global log as the most recent trades, newest first, with the price, the quantity and
  the time each trade had.\<close>

theorem audit_log_reads_back:
  assumes "ls_streams w (get_market_stream pre m) = map logged es" "ls_streams w (global_stream pre) = map logged gs"
    and "\<forall>e \<in> set (es @ gs). 0 \<le> tr_price (snd (snd e))
      \<and> number_of_string (number_string (tr_price (snd (snd e)))) = Some (tr_price (snd (snd e)))"
  shows "get_audit_log log_redis pre m limit w = (Inr (map entry_of (take limit es)), w)
    \<and> get_recent_trades log_redis pre limit w = (Inr (map entry_of (take limit (rev gs))), w)"
proof -
  have each: "parse_stream_entry (sid_text (fst (logged e))) (snd (logged e)) = entry_of e" if "e \<in> set (es @ gs)" for e
  proof -
    obtain i iso_now t where e: "e = (i, iso_now, t)" by (cases e)
    have "0 \<le> tr_price t" "number_of_string (number_string (tr_price t)) = Some (tr_price t)"
      using assms(3) that unfolding e by force+
    then show ?thesis by (simp add: e logged_def parse_logged)
  qed
  have parse: "parse_entries (map (\<lambda>(i, fs). (sid_text i, FieldArray fs)) (map logged xs)) = map entry_of xs"
    if "set xs \<subseteq> set (es @ gs)" for xs
    using that each by (auto simp: parse_entries_def flat_fields_def case_prod_beta)
  have all: "in_range ''-'' ''+'' = (\<lambda>e. True)" by (auto simp: in_range_def)
  have take_es: "take limit (map logged es) = map logged (take limit es)"
    and take_gs: "take limit (rev (map logged gs)) = map logged (take limit (rev gs))"
    by (simp_all add: take_map rev_map)
  have "set (take limit es) \<subseteq> set (es @ gs)" "set (take limit (rev gs)) \<subseteq> set (es @ gs)"
    using set_take_subset [of limit es] set_take_subset [of limit "rev gs"] by auto
  then show ?thesis
    using assms(1,2) parse
    by (simp add: get_audit_log_def get_recent_trades_def or_empty_def call_catch_def call_bind_def redis_xrange_def
        redis_xrevrange_def range_args_def log_redis_def server_range_def counted_def all take_es take_gs
        call_return_def del: map_map)
qed

theorem audit_log_reads_back_witness:
  "get_audit_log log_redis ''v:'' ''b'' 100
     (demo_log_server\<lparr>ls_streams := \<lambda>k. if k = get_market_stream ''v:'' ''b'' then [logged ((5, 0), ''now'', demo_log_trade\<lparr>tr_price := fl (of_int 50 / 100)\<rparr>)] else []\<rparr>)
   = (Inr [entry_of ((5, 0), ''now'', demo_log_trade\<lparr>tr_price := fl (of_int 50 / 100)\<rparr>)],
      demo_log_server\<lparr>ls_streams := \<lambda>k. if k = get_market_stream ''v:'' ''b'' then [logged ((5, 0), ''now'', demo_log_trade\<lparr>tr_price := fl (of_int 50 / 100)\<rparr>)] else []\<rparr>)"
  (is "_ = (_, ?w)")
proof -
  let ?e = "((5, 0), ''now'', demo_log_trade\<lparr>tr_price := fl (of_int 50 / 100)\<rparr>) :: stream_id \<times> string \<times> trade"
  have "get_audit_log log_redis ''v:'' ''b'' 100 ?w = (Inr (map entry_of (take 100 [?e])), ?w)
    \<and> get_recent_trades log_redis ''v:'' 100 ?w = (Inr (map entry_of (take 100 (rev []))), ?w)"
    by (rule audit_log_reads_back)
      (use cents_roundtrip [of 50] cents_between [of 50] streams_differ [of "''v:''" "''b''", symmetric] in auto)
  then show ?thesis by simp
qed

end
