(* ===== verification/Backfill.thy ===== *)
theory Backfill
  imports AuditLog
begin

text \<open>
  \<open>scripts/backfill-trades.ts\<close>: copies the global audit stream into the trades table, in batches of 500
  from a cursor that moves past the last identifier seen. The table keeps the first row of a trade.
\<close>

definition GLOBAL_STREAM :: string where "GLOBAL_STREAM = ''audit:trades:global''"
definition BATCH :: nat where "BATCH = 500"

text \<open>The row of an entry; Prisma rejects one without an identifier or with a number that is NaN.\<close>

record backfill_row =
  br_trade :: string
  br_columns :: "js list"
  br_quantity :: int
  br_traded_at :: int

definition row_of_fields :: "string list \<Rightarrow> string + backfill_row" where
  "row_of_fields fs = (let d = read_fields fs []; p = (\<lambda>k. get_prop k d) in
     case (p ''tradeId'', text_or parse_int (p ''quantity''), text_or parse_int (p ''timestamp'')) of
       (Str i, Some q, Some ms) \<Rightarrow> Inr \<lparr>br_trade = i, br_columns = map p [''marketId'', ''outcome'', ''buyerAddress'',
          ''sellerAddress'', ''buyOrderId'', ''sellOrderId'', ''price''], br_quantity = q, br_traded_at = ms\<rparr>
     | _ \<Rightarrow> Inl ''Invalid prisma.trade.upsert() invocation'')"

type_synonym trades_table = "(string \<times> backfill_row) list"

definition upsert_trade :: "backfill_row \<Rightarrow> trades_table \<Rightarrow> trades_table" where
  "upsert_trade r table = (if map_of table (br_trade r) = None then table @ [(br_trade r, r)] else table)"

definition backfill_entry :: "string list \<Rightarrow> trades_table \<times> nat \<Rightarrow> string + trades_table \<times> nat" where
  "backfill_entry fs acc = res_bind (row_of_fields fs) (\<lambda>r. Inr (upsert_trade r (fst acc), snd acc + 1))"

definition next_cursor :: "string \<Rightarrow> string" where
  "next_cursor last_id = (case split_on (CHR ''-'') last_id of
     ms # n # _ \<Rightarrow> ms @ ''-'' @ nat_string (digits_value n + 1) | _ \<Rightarrow> last_id)"

text \<open>The loop; \<open>None\<close> when the fuel runs out.\<close>

fun backfill_loop :: "nat \<Rightarrow> 'w raw_redis \<Rightarrow> string \<Rightarrow> trades_table \<times> nat \<Rightarrow> 'w \<Rightarrow>
    (string + trades_table \<times> nat) option \<times> 'w" where
  "backfill_loop 0 raw cursor acc w = (None, w)"
| "backfill_loop (Suc n) raw cursor acc w =
     (case redis_xrange raw GLOBAL_STREAM cursor ''+'' True (Some (nat_string BATCH)) w of
        (Inl e, w') \<Rightarrow> (Some (Inl e), w')
      | (Inr entries, w') \<Rightarrow>
          if entries = [] then (Some (Inr acc), w')
          else (case fold_res (\<lambda>(i, fs) acc. backfill_entry (flat_fields fs) acc) entries acc of
              Inl e \<Rightarrow> (Some (Inl e), w')
            | Inr acc' \<Rightarrow> if length entries < BATCH then (Some (Inr acc'), w')
                else backfill_loop n raw (next_cursor (fst (last entries))) acc' w'))"

definition backfill :: "nat \<Rightarrow> 'w raw_redis \<Rightarrow> trades_table \<Rightarrow> 'w \<Rightarrow> (string + trades_table \<times> nat) option \<times> 'w" where
  "backfill n raw table w = backfill_loop n raw ''-'' (table, 0) w"

subsection \<open>All entries, once\<close>

lemma next_cursor_sid: "next_cursor (sid_text i) = sid_text (fst i, snd i + 1)"
proof -
  have nodash: "CHR ''-'' \<notin> set (nat_string n)" for n using nat_string_digits by fastforce
  show ?thesis
    by (simp add: next_cursor_def sid_text_def split_on_append [OF nodash] split_on_none [OF nodash])
qed

lemma sid_text_bounds: "sid_text i \<noteq> ''-''" "sid_text i \<noteq> ''+''"
proof -
  obtain c s where "nat_string (fst i) = c # s" by (cases "nat_string (fst i)") simp_all
  then show "sid_text i \<noteq> ''-''" "sid_text i \<noteq> ''+''" by (simp_all add: sid_text_def)
qed

lemma range_after:
  assumes "increasing (B @ x # R)"
  shows "filter (in_range (next_cursor (sid_text (fst x))) ''+'') (B @ x # R) = R"
proof -
  have past: "in_range (next_cursor (sid_text (fst x))) ''+'' e \<longleftrightarrow> sid_less (fst x) (fst e)" for e
    by (auto simp: in_range_def next_cursor_sid sid_roundtrip sid_text_bounds sid_less_def)
  have before: "\<forall>b \<in> set B. sid_less (fst b) (fst x)" and later: "\<forall>r \<in> set R. sid_less (fst x) (fst r)"
    using assms by (auto simp: increasing_def sorted_wrt_append)
  have "\<not> sid_less (fst x) (fst b)" if "b \<in> set B" for b
    using before that by (auto simp: sid_less_def)
  moreover have "\<not> sid_less (fst x) (fst x)" by (simp add: sid_less_def)
  ultimately show ?thesis unfolding past using later by (simp add: filter_empty_conv)
qed

text \<open>The entries of a stream folded into the table, as one batch.\<close>

definition copy_entries :: "stream_log \<Rightarrow> trades_table \<times> nat \<Rightarrow> string + trades_table \<times> nat" where
  "copy_entries es acc = fold_res (\<lambda>(i, fs). backfill_entry fs) es acc"

lemma copy_append: "copy_entries (es @ fs) acc = res_bind (copy_entries es acc) (copy_entries fs)"
  by (simp add: copy_entries_def fold_res_append res_bind_def split: sum.split)

lemma copy_answers:
  "fold_res (\<lambda>(i, fs) acc. backfill_entry (flat_fields fs) acc) (map (\<lambda>(i, fs). (sid_text i, FieldArray fs)) es) acc
     = copy_entries es acc"
  by (induction es arbitrary: acc) (auto simp: copy_entries_def flat_fields_def split: sum.splits)

lemma batch_text: "digits_value (nat_string BATCH) = BATCH"
  by simp

lemma backfill_suffix:
  assumes "increasing (ls_streams w GLOBAL_STREAM)"
  shows "ls_streams w GLOBAL_STREAM = A @ R \<Longrightarrow> copy_entries R acc = Inr acc' \<Longrightarrow> length R < n \<Longrightarrow>
    backfill_loop n log_redis (if A = [] then ''-'' else next_cursor (sid_text (fst (last A)))) acc w = (Some (Inr acc'), w)"
proof (induction n arbitrary: A R acc)
  case (Suc n)
  let ?cursor = "if A = [] then ''-'' else next_cursor (sid_text (fst (last A)))"
  let ?batch = "take BATCH R"
  let ?answer = "map (\<lambda>(i, fs). (sid_text i, FieldArray fs)) ?batch"
  have hits: "filter (in_range ?cursor ''+'') (A @ R) = R"
  proof (cases A rule: rev_cases)
    case Nil
    then show ?thesis by (simp add: in_range_def)
  next
    case (snoc B x)
    then show ?thesis using range_after [of B x R] assms Suc.prems(1) by simp
  qed
  have answer: "redis_xrange log_redis GLOBAL_STREAM ?cursor ''+'' True (Some (nat_string BATCH)) w = (Inr ?answer, w)"
    using hits unfolding Suc.prems(1) [symmetric]
    by (simp add: redis_xrange_def range_args_def log_redis_def server_range_def counted_def)
  have pos: "0 < BATCH" by (simp add: BATCH_def)
  obtain mid where mid: "copy_entries ?batch acc = Inr mid" "copy_entries (drop BATCH R) mid = Inr acc'"
  proof -
    have "res_bind (copy_entries ?batch acc) (copy_entries (drop BATCH R)) = Inr acc'"
      using Suc.prems(2) copy_append [of ?batch "drop BATCH R" acc] by simp
    then show thesis unfolding res_bind_Inr using that by blast
  qed
  show ?case
  proof (cases "length ?batch < BATCH")
    case True
    then have all: "?batch = R" "drop BATCH R = []" by simp_all
    then have "mid = acc'" using mid(2) by (simp add: copy_entries_def)
    moreover have "R = [] \<Longrightarrow> acc = acc'" using Suc.prems(2) by (simp add: copy_entries_def)
    ultimately show ?thesis
      using True mid(1) by (auto simp: answer copy_answers [unfolded case_prod_unfold] case_prod_unfold)
  next
    case False
    then have len: "length ?batch = BATCH" by simp
    then have ne: "?batch \<noteq> []" using pos by auto
    then have last_id: "fst (last ?answer) = sid_text (fst (last (A @ ?batch)))" by (simp add: last_map case_prod_unfold)
    have split: "ls_streams w GLOBAL_STREAM = (A @ ?batch) @ drop BATCH R" using Suc.prems(1) by simp
    have shorter: "length (drop BATCH R) < n" using Suc.prems(3) pos ne by (cases R) auto
    have "backfill_loop n log_redis (next_cursor (fst (last ?answer))) mid w = (Some (Inr acc'), w)"
      using Suc.IH [OF split mid(2) shorter] ne unfolding last_id by simp
    then show ?thesis
      using len ne mid(1) by (simp add: answer copy_answers [unfolded case_prod_unfold] case_prod_unfold)
  qed
qed simp

lemma upsert_map: "map_of (upsert_trade r table) = [br_trade r \<mapsto> r] ++ map_of table"
  by (auto simp: upsert_trade_def map_add_def split: option.splits)

definition row_of_trade :: "trade \<Rightarrow> backfill_row" where
  "row_of_trade t = \<lparr>br_trade = tr_id t, br_columns = [Str (tr_market t), Str (outcome_string (tr_outcome t)), Str (tr_buyer t),
     Str (tr_seller t), Str (tr_buy_order t), Str (tr_sell_order t), Str (number_string (tr_price t))],
     br_quantity = tr_quantity t, br_traded_at = tr_timestamp t\<rparr>"

lemma row_of_logged: "row_of_fields (flatten_object (log_data iso_now t)) = Inr (row_of_trade t)"
  by (simp add: row_of_fields_def row_of_trade_def log_data_def text_or_def parse_int_string Let_def get_prop_def)

text \<open>The rows of a logged stream by trade; the first entry of a trade counts.\<close>

definition stream_rows :: "(stream_id \<times> string \<times> trade) list \<Rightarrow> (string \<times> backfill_row) list" where
  "stream_rows es = map (\<lambda>(i, iso_now, t). (tr_id t, row_of_trade t)) es"

lemma copy_logged:
  "\<exists>table'. copy_entries (map logged es) (table, k) = Inr (table', k + length es)
     \<and> map_of table' = map_of (stream_rows es) ++ map_of table"
proof (induction es arbitrary: table k)
  case (Cons e es)
  obtain i iso_now t where e: "e = (i, iso_now, t)" by (cases e)
  obtain table' where IH: "copy_entries (map logged es) (upsert_trade (row_of_trade t) table, k + 1) = Inr (table', k + 1 + length es)"
    "map_of table' = map_of (stream_rows es) ++ map_of (upsert_trade (row_of_trade t) table)" using Cons.IH by blast
  have step: "copy_entries (map logged (e # es)) (table, k) = copy_entries (map logged es) (upsert_trade (row_of_trade t) table, k + 1)"
    by (simp add: copy_entries_def e logged_def backfill_entry_def row_of_logged)
  have "map_of (stream_rows (e # es)) = map_of (stream_rows es) ++ [tr_id t \<mapsto> row_of_trade t]" by (simp add: stream_rows_def e)
  then have "map_of table' = map_of (stream_rows (e # es)) ++ map_of table"
    unfolding IH(2) upsert_map by (simp add: row_of_trade_def)
  then show ?case unfolding step IH(1) by simp
qed (auto simp: copy_entries_def stream_rows_def)

text \<open>C32: the backfill ends, within one round more than the stream has entries, and leaves a table with every
  trade of the stream it reads: rows that were there stay as they are, a missing trade gets the row
  of its first entry; running it again changes nothing.\<close>

theorem backfill_complete:
  assumes "increasing (ls_streams w GLOBAL_STREAM)" "ls_streams w GLOBAL_STREAM = map logged es" "length es < n"
  shows "\<exists>table'. backfill n log_redis table w = (Some (Inr (table', length es)), w)
    \<and> map_of table' = map_of (stream_rows es) ++ map_of table
    \<and> (\<exists>table''. backfill n log_redis table' w = (Some (Inr (table'', length es)), w) \<and> map_of table'' = map_of table')"
proof -
  have run: "\<exists>b. backfill n log_redis a w = (Some (Inr (b, length es)), w) \<and> map_of b = map_of (stream_rows es) ++ map_of a" for a
  proof -
    obtain b where "copy_entries (map logged es) (a, 0) = Inr (b, length es)" "map_of b = map_of (stream_rows es) ++ map_of a"
      using copy_logged [of es a 0] by auto
    then show ?thesis
      using backfill_suffix [OF assms(1), of "[]" "map logged es" "(a, 0)" "(b, length es)" n] assms(2,3) by (simp add: backfill_def)
  qed
  obtain b where b: "backfill n log_redis table w = (Some (Inr (b, length es)), w)" "map_of b = map_of (stream_rows es) ++ map_of table"
    using run by blast
  obtain c where "backfill n log_redis b w = (Some (Inr (c, length es)), w)" "map_of c = map_of (stream_rows es) ++ map_of b"
    using run by blast
  moreover have "map_of (stream_rows es) ++ map_of b = map_of b"
    unfolding b(2) by (auto simp: map_add_def fun_eq_iff split: option.splits)
  ultimately show ?thesis using b by auto
qed

theorem backfill_complete_witness:
  "\<exists>table. backfill 2 log_redis [] (demo_log_server\<lparr>ls_streams := \<lambda>k. [logged ((5, 0), ''now'', demo_log_trade)]\<rparr>)
      = (Some (Inr (table, 1)), demo_log_server\<lparr>ls_streams := \<lambda>k. [logged ((5, 0), ''now'', demo_log_trade)]\<rparr>)"
  using backfill_complete [of "demo_log_server\<lparr>ls_streams := \<lambda>k. [logged ((5, 0), ''now'', demo_log_trade)]\<rparr>"
      "[((5, 0), ''now'', demo_log_trade)]" 2 "[]"] by (auto simp: increasing_def)

text \<open>But the service writes its global stream under a key prefix, by default \<open>vatix:\<close>, which the script does
  not use: it then reads a stream nobody writes.\<close>

lemma backfill_reads_other_stream: "pre \<noteq> [] \<Longrightarrow> global_stream pre \<noteq> GLOBAL_STREAM"
proof
  assume "pre \<noteq> []" "global_stream pre = GLOBAL_STREAM"
  then have "length (global_stream pre) = length GLOBAL_STREAM" by simp
  then show False using \<open>pre \<noteq> []\<close> by (simp add: global_stream_def GLOBAL_STREAM_def)
qed

end
