(* ===== verification/ApiServer.thy ===== *)
theory ApiServer
  imports MarketRoutes RateLimiter Auth Calls
begin

text \<open>
  The request pipeline of the API server: the global hooks, the guards and the replies of
  \<open>src/index.ts\<close>, the administration routes of \<open>src/api/routes/admin.ts\<close> with the three hooks in
  front of them, and the shutdown handler. A hook is a call on the rate-limit stores that answers
  (\<open>Inl\<close>) or lets the request pass. Which handler a URL belongs to is Fastify's.
\<close>

record api_request =
  aq_method :: string
  aq_url :: string
  aq_client :: http_request
  aq_authorization :: "string option"
  aq_api_key :: "string option"

text \<open>A rejection of the limiter as a reply.\<close>

definition limit_hook :: "limiter \<Rightarrow> environment \<Rightarrow> int \<Rightarrow> api_request \<Rightarrow> (limit_stores, http_reply, unit) ecall" where
  "limit_hook l env now r stores = (case run_limiter l env now (aq_client r) stores of (answer, stores') \<Rightarrow>
     (case lr_rejected answer of
        None \<Rightarrow> Inr ()
      | Some retry \<Rightarrow> Inl (429, Obj [(''error'', Str ''Too Many Requests''), (''code'', Str ''RATE_LIMITED''),
          (''statusCode'', Num 429), (''retryAfter'', Num (of_int retry))]), stores'))"

definition is_health_probe :: "string \<Rightarrow> bool" where
  "is_health_probe url \<longleftrightarrow> url = ''/v1/ready'' \<or> url = ''/v1/health''"

definition global_hook :: "environment \<Rightarrow> int \<Rightarrow> api_request \<Rightarrow> (limit_stores, http_reply, unit) ecall" where
  "global_hook env now r = (if is_health_probe (aq_url r) then call_return () else limit_hook Global env now r)"

text \<open>The guard on the routes of the plugins, and the reply to an unknown route.\<close>

definition on_route :: "string \<Rightarrow> string + unit" where
  "on_route url = (if starts_with ''/v1'' url
     then Inl (''Plugin registered route \"'' @ url @ ''\" with a /v1 prefix inside the /v1-scoped block '' @
       ''- remove the prefix from the plugin.'')
     else Inr ())"

definition not_found_reply :: "string \<Rightarrow> string \<Rightarrow> string \<Rightarrow> http_reply" where
  "not_found_reply request_id http_method url = (404, Obj [(''error'', Str (''Route '' @ http_method @ '' '' @ url @ '' not found'')),
     (''requestId'', Str request_id), (''statusCode'', Num 404)])"

definition enable_test_routes :: "bool option \<Rightarrow> string option \<Rightarrow> bool" where
  "enable_test_routes register node_env \<longleftrightarrow> register \<noteq> Some False \<and> or_text node_env (Some ''development'') \<noteq> Some ''production''"

subsection \<open>Administration\<close>

definition admin_hooks :: "environment \<Rightarrow> int \<Rightarrow> api_request \<Rightarrow> (limit_stores, http_reply, unit) ecall" where
  "admin_hooks env now r =
     call_bind (limit_hook Admin env now r) (\<lambda>_.
     call_bind (Pair (require_api_key (env ''API_KEY'') (aq_api_key r))) (\<lambda>_.
     Pair (require_admin (env ''ADMIN_TOKEN'') (aq_authorization r))))"

datatype admin_call = ListMarkets | PatchStatus string market_status

definition update_status :: "int \<Rightarrow> string \<Rightarrow> market_status \<Rightarrow> market_row list \<Rightarrow> market_row list" where
  "update_status now i s rows = map (\<lambda>m. if mr_id m = i then m\<lparr>mr_status := s, mr_updated := now\<rparr> else m) rows"

text \<open>The reply prints the rows as the market routes do: \<open>JSON.stringify\<close> turns a date into \<open>toISOString\<close>.\<close>

definition admin_list_markets :: "(int \<Rightarrow> string) \<Rightarrow> string \<Rightarrow> string \<Rightarrow> market_row list \<Rightarrow> http_reply" where
  "admin_list_markets iso_date uuid iso_now rows = (let found = sort_key (\<lambda>m. - mr_created m) rows
     in success_reply uuid iso_now (Obj [(''markets'', Arr (map (to_market_dto iso_date) found)),
          (''count'', Num (of_int (int (length found))))]) 200)"

definition admin_patch_status ::
    "(int \<Rightarrow> string) \<Rightarrow> string \<Rightarrow> int \<Rightarrow> string \<Rightarrow> market_status \<Rightarrow> (market_row list, api_error, http_reply) ecall" where
  "admin_patch_status iso_date uuid now i s rows = (case find_market_row rows i of
     Inl e \<Rightarrow> (Inl e, rows)
   | Inr m \<Rightarrow> (let rows' = update_status now i s rows; m' = m\<lparr>mr_status := s, mr_updated := now\<rparr>
       in (Inr (success_reply uuid (iso_date now) (Obj [(''market'', to_market_dto iso_date m')]) 200), rows')))"

record api_state =
  as_limits :: limit_stores
  as_markets :: "market_row list"

text \<open>A request to an administration route: the global hook, the hooks of the plugin, the handler.\<close>

definition handle_admin ::
    "(int \<Rightarrow> string) \<Rightarrow> string \<Rightarrow> environment \<Rightarrow> int \<Rightarrow> api_request \<Rightarrow> admin_call \<Rightarrow> (api_state, api_error, http_reply) ecall" where
  "handle_admin iso_date uuid env now r c st =
     (case call_bind (global_hook env now r) (\<lambda>_. admin_hooks env now r) (as_limits st) of
        (Inl answer, limits) \<Rightarrow> (Inr answer, st\<lparr>as_limits := limits\<rparr>)
      | (Inr _, limits) \<Rightarrow> (case c of
            ListMarkets \<Rightarrow> (Inr (admin_list_markets iso_date uuid (iso_date now) (as_markets st)), st\<lparr>as_limits := limits\<rparr>)
          | PatchStatus i s \<Rightarrow> (case admin_patch_status iso_date uuid now i s (as_markets st) of
                (answer, rows) \<Rightarrow> (answer, st\<lparr>as_limits := limits, as_markets := rows\<rparr>))))"

text \<open>A sequence of requests, each at its time, to any of the two routes.\<close>

fun serve_admin :: "(int \<Rightarrow> string) \<Rightarrow> string \<Rightarrow> environment \<Rightarrow> (int \<times> api_request \<times> admin_call) list \<Rightarrow> api_state \<Rightarrow> api_state" where
  "serve_admin iso_date uuid env [] st = st"
| "serve_admin iso_date uuid env ((now, r, c) # rest) st =
     serve_admin iso_date uuid env rest (snd (handle_admin iso_date uuid env now r c st))"

subsection \<open>Only both credentials change a market\<close>

definition authorized :: "environment \<Rightarrow> api_request \<Rightarrow> bool" where
  "authorized env r \<longleftrightarrow> (\<exists>key token. key \<noteq> [] \<and> token \<noteq> [] \<and> env ''API_KEY'' = Some key \<and> aq_api_key r = Some key
     \<and> env ''ADMIN_TOKEN'' = Some token \<and> aq_authorization r = Some (''Bearer '' @ token))"

lemma present_some: "present s = Some t \<longleftrightarrow> s = Some t \<and> t \<noteq> []"
  by (auto simp: present_def split: option.splits list.splits)

lemma api_key_passes: "require_api_key configured provided = Inr () \<longleftrightarrow> (\<exists>key. key \<noteq> [] \<and> configured = Some key \<and> provided = Some key)"
  by (cases "present configured"; cases "present provided") (auto simp: require_api_key_def present_some present_def split: option.splits list.splits)

lemma admin_passes: "require_admin admin_token authorization = Inr () \<longleftrightarrow>
    (\<exists>token. token \<noteq> [] \<and> admin_token = Some token \<and> authorization = Some (''Bearer '' @ token))"
proof (cases "present authorization")
  case None
  then show ?thesis by (auto simp: require_admin_def present_def split: option.splits list.splits)
next
  case (Some header)
  then have auth: "authorization = Some header" by (simp add: present_some)
  show ?thesis
  proof (cases "starts_with ''Bearer '' header")
    case True
    then obtain token where "header = ''Bearer '' @ token" unfolding starts_with_prefix by (rule prefixE)
    then show ?thesis
      by (cases admin_token) (auto simp: require_admin_def Some auth True present_def split: list.splits)
  next
    case False
    then have "header \<noteq> ''Bearer '' @ token" for token by (auto simp: starts_with_prefix)
    moreover have "require_admin admin_token authorization \<noteq> Inr ()" by (simp add: require_admin_def Some False)
    ultimately show ?thesis by (simp add: auth)
  qed
qed

lemma admin_hooks_pass: "fst (admin_hooks env now r stores) = Inr () \<longleftrightarrow>
    fst (limit_hook Admin env now r stores) = Inr () \<and> authorized env r"
proof -
  have "fst (call_bind (Pair x) (\<lambda>_. Pair y) w) = Inr () \<longleftrightarrow> x = Inr () \<and> y = Inr ()" for x y :: "http_reply + unit" and w :: limit_stores
    by (cases x) (auto simp: call_bind_def)
  then show ?thesis
    by (cases "limit_hook Admin env now r stores"; cases "fst (limit_hook Admin env now r stores)")
      (auto simp: admin_hooks_def call_bind_def [of "limit_hook Admin env now r"] api_key_passes admin_passes authorized_def)
qed

text \<open>Neither limiter rejects the request.\<close>

definition admitted :: "environment \<Rightarrow> int \<Rightarrow> api_request \<Rightarrow> limit_stores \<Rightarrow> bool" where
  "admitted env now r stores \<longleftrightarrow> fst (call_bind (global_hook env now r) (\<lambda>_. limit_hook Admin env now r) stores) = Inr ()"

lemma hooks_pass: "fst (call_bind (global_hook env now r) (\<lambda>_. admin_hooks env now r) stores) = Inr ()
    \<longleftrightarrow> admitted env now r stores \<and> authorized env r"
  by (auto simp: admitted_def call_bind_def admin_hooks_pass split: prod.splits sum.splits)

lemma handle_admin_markets:
  "as_markets (snd (handle_admin iso_date uuid env now r c st)) =
     (case c of ListMarkets \<Rightarrow> as_markets st
      | PatchStatus i s \<Rightarrow> if admitted env now r (as_limits st) \<and> authorized env r
          then update_status now i s (as_markets st) else as_markets st)"
proof -
  obtain answer limits where h: "call_bind (global_hook env now r) (\<lambda>_. admin_hooks env now r) (as_limits st) = (answer, limits)"
    by fastforce
  have pass: "answer = Inr () \<longleftrightarrow> admitted env now r (as_limits st) \<and> authorized env r"
    using hooks_pass [of env now r "as_limits st"] h by simp
  have same: "update_status now i s rows = rows" if "find (\<lambda>m. mr_id m = i) rows = None" for i s rows
    using that by (induction rows) (auto simp: update_status_def split: if_splits)
  show ?thesis
  proof (cases answer)
    case (Inl e)
    then show ?thesis using pass by (auto simp: handle_admin_def h split: admin_call.split)
  next
    case (Inr u)
    then show ?thesis using pass same
      by (auto simp: handle_admin_def h admin_patch_status_def find_market_row_def of_option_def Let_def
          split: admin_call.split option.split)
  qed
qed

text \<open>
  C33: whatever requests reach the administration routes, and in whatever order, a market row changes only
  in its status and update time, and only to what a request carrying both the configured API key and the
  configured admin token asked for that market; without both being configured nothing changes. Conversely
  a request with both credentials that the limiters admit sets the status it names.
\<close>

theorem admin_changes_authorized:
  "list_all2 (\<lambda>m m'. m' = m \<or> (\<exists>(now, r, c) \<in> set calls. authorized env r \<and>
      (\<exists>s. c = PatchStatus (mr_id m) s \<and> m' = m\<lparr>mr_status := s, mr_updated := now\<rparr>)))
    (as_markets st) (as_markets (serve_admin iso_date uuid env calls st)) \<and>
  (authorized env r \<and> admitted env now r (as_limits st) \<and> i \<in> mr_id ` set (as_markets st) \<longrightarrow>
    (\<exists>body. fst (handle_admin iso_date uuid env now r (PatchStatus i s) st) = Inr (200, body)) \<and>
    as_markets (snd (handle_admin iso_date uuid env now r (PatchStatus i s) st)) = update_status now i s (as_markets st))"
proof (intro conjI impI)
  let ?P = "\<lambda>calls m m'. m' = m \<or> (\<exists>(now, r, c) \<in> set calls. authorized env r \<and>
      (\<exists>s. c = PatchStatus (mr_id m) s \<and> m' = m\<lparr>mr_status := s, mr_updated := now\<rparr>))"
  show "list_all2 (?P calls) (as_markets st) (as_markets (serve_admin iso_date uuid env calls st))"
  proof (induction calls arbitrary: st)
    case (Cons call rest)
    obtain now r c where call: "call = (now, r, c)" by (cases call)
    let ?st = "snd (handle_admin iso_date uuid env now r c st)"
    have first: "list_all2 (?P [call]) (as_markets st) (as_markets ?st)"
      unfolding handle_admin_markets
      by (auto simp: call update_status_def list_all2_conv_all_nth split: admin_call.split)
    show ?case
      using list_all2_trans [OF _ first Cons.IH [of ?st], of "?P (call # rest)"]
      by (fastforce simp: call)
  qed (simp add: list.rel_refl)
next
  assume A: "authorized env r \<and> admitted env now r (as_limits st) \<and> i \<in> mr_id ` set (as_markets st)"
  then show "as_markets (snd (handle_admin iso_date uuid env now r (PatchStatus i s) st)) = update_status now i s (as_markets st)"
    by (simp add: handle_admin_markets)
  obtain m where m: "find_market_row (as_markets st) i = Inr m"
    using A by (cases "find (\<lambda>m. mr_id m = i) (as_markets st)") (auto simp: find_market_row_def find_None_iff)
  have "fst (call_bind (global_hook env now r) (\<lambda>_. admin_hooks env now r) (as_limits st)) = Inr ()"
    using A by (simp only: hooks_pass simp_thms)
  then show "\<exists>body. fst (handle_admin iso_date uuid env now r (PatchStatus i s) st) = Inr (200, body)"
    by (cases "call_bind (global_hook env now r) (\<lambda>_. admin_hooks env now r) (as_limits st)")
      (simp add: handle_admin_def admin_patch_status_def m Let_def success_reply_def)
qed

definition demo_admin_env :: environment where
  "demo_admin_env = [''API_KEY'' \<mapsto> ''k'', ''ADMIN_TOKEN'' \<mapsto> ''t'']"

definition demo_admin_request :: api_request where
  "demo_admin_request = \<lparr>aq_method = ''PATCH'', aq_url = ''/v1/admin/markets/m/status'',
     aq_client = \<lparr>rq_forwarded = None, rq_remote = Some ''10.0.0.1''\<rparr>, aq_authorization = Some ''Bearer t'', aq_api_key = Some ''k''\<rparr>"

theorem admin_changes_authorized_witness:
  "as_markets (snd (handle_admin (\<lambda>_. ''now'') ''id'' demo_admin_env 1000 demo_admin_request (PatchStatus ''m'' CANCELLED_MARKET)
     \<lparr>as_limits = [], as_markets = [demo_market_row]\<rparr>)) = [demo_market_row\<lparr>mr_status := CANCELLED_MARKET, mr_updated := 1000\<rparr>]"
proof -
  let ?st = "\<lparr>as_limits = [], as_markets = [demo_market_row]\<rparr>"
  have "authorized demo_admin_env demo_admin_request"
    unfolding authorized_def by (intro exI [of _ "''k''"] exI [of _ "''t''"]) (simp add: demo_admin_env_def demo_admin_request_def)
  moreover have "admitted demo_admin_env 1000 demo_admin_request (as_limits ?st)"
    by (simp add: admitted_def global_hook_def is_health_probe_def demo_admin_request_def limit_hook_def apply_limit_def
      call_bind_def get_store_def Let_def)
  moreover have "''m'' \<in> mr_id ` set (as_markets ?st)" by (simp add: demo_market_row_def)
  ultimately have "as_markets (snd (handle_admin (\<lambda>_. ''now'') ''id'' demo_admin_env 1000 demo_admin_request (PatchStatus ''m'' CANCELLED_MARKET) ?st))
      = update_status 1000 ''m'' CANCELLED_MARKET (as_markets ?st)"
    using admin_changes_authorized [of "[]" demo_admin_env ?st "\<lambda>_. ''now''" "''id''" demo_admin_request 1000 "''m''" CANCELLED_MARKET]
    by blast
  then show ?thesis by (simp add: update_status_def demo_market_row_def)
qed

subsection \<open>Start and shutdown\<close>

text \<open>\<open>start\<close>: the environment is parsed first, outside the \<open>try\<close>; then the key is loaded, the books are
  hydrated and the port is bound, and a failure of any of these exits with code 1.\<close>

datatype start_outcome = Listening | ExitOne string

definition start_server ::
    "('w, unit) call \<Rightarrow> ('w, unit) call \<Rightarrow> ('w, unit) call \<Rightarrow> ('w, unit) call \<Rightarrow> ('w, start_outcome) call" where
  "start_server parse_env init_signing hydrate listen =
     call_bind parse_env (\<lambda>_. call_catch
       (call_bind init_signing (\<lambda>_. call_bind hydrate (\<lambda>_. call_bind listen (\<lambda>_. call_return Listening))))
       (\<lambda>e. call_return (ExitOne e)))"

datatype shutdown_action = WarnInvalid | LogInitiated | ArmTimer nat | CloseServer | Disconnect | DisarmTimer
  | LogComplete | LogFailed | LogTimeout | ProcessExit int

text \<open>How \<open>server.close()\<close> ends; the timer fires when it never does.\<close>

datatype close_outcome = Closed | CloseFailed | CloseHangs

definition VALID_SHUTDOWN_SIGNALS :: "string list" where
  "VALID_SHUTDOWN_SIGNALS = [''SIGINT'', ''SIGTERM'', ''SIGHUP'']"

definition shutdown :: "close_outcome \<Rightarrow> string \<Rightarrow> bool \<Rightarrow> shutdown_action list \<times> bool" where
  "shutdown closing signal shutting_down =
     (if trim signal = [] \<or> signal \<notin> set VALID_SHUTDOWN_SIGNALS then ([WarnInvalid], shutting_down)
      else if shutting_down then ([], shutting_down)
      else ([LogInitiated, ArmTimer 30000, CloseServer] @ (case closing of
          Closed \<Rightarrow> [Disconnect, DisarmTimer, LogComplete, ProcessExit 0]
        | CloseFailed \<Rightarrow> [DisarmTimer, LogFailed, ProcessExit 1]
        | CloseHangs \<Rightarrow> [LogTimeout, ProcessExit 1]), True))"

fun shutdown_all :: "close_outcome \<Rightarrow> string list \<Rightarrow> bool \<Rightarrow> shutdown_action list" where
  "shutdown_all closing [] b = []"
| "shutdown_all closing (s # rest) b = (case shutdown closing s b of (acts, b') \<Rightarrow> acts @ shutdown_all closing rest b')"

lemma shutdown_all_after: "filter (\<lambda>a. a \<noteq> WarnInvalid) (shutdown_all closing signals True) = []"
  by (induction signals) (auto simp: shutdown_def)

lemma valid_signal: "s \<in> set VALID_SHUTDOWN_SIGNALS \<Longrightarrow> shutdown closing s False = shutdown closing ''SIGTERM'' False"
  by (auto simp: shutdown_def VALID_SHUTDOWN_SIGNALS_def trim_def is_space_def)

text \<open>However many signals arrive, the server is closed and the process exits once, with code 0 exactly
  when the server closed.\<close>

lemma shutdown_once:
  assumes "\<exists>s \<in> set signals. s \<in> set VALID_SHUTDOWN_SIGNALS"
  shows "filter (\<lambda>a. a \<noteq> WarnInvalid) (shutdown_all closing signals False) = fst (shutdown closing ''SIGTERM'' False)"
  using assms
proof (induction signals)
  case (Cons s rest)
  show ?case
  proof (cases "s \<in> set VALID_SHUTDOWN_SIGNALS")
    case True
    then have "shutdown closing s False = shutdown closing ''SIGTERM'' False" by (rule valid_signal)
    moreover obtain acts where "shutdown closing ''SIGTERM'' False = (acts, True)" "WarnInvalid \<notin> set acts"
      by (cases closing) (simp_all add: shutdown_def VALID_SHUTDOWN_SIGNALS_def trim_def is_space_def)
    moreover from this(2) have "filter (\<lambda>a. a \<noteq> WarnInvalid) acts = acts" by (auto simp: filter_id_conv)
    ultimately show ?thesis by (simp add: shutdown_all_after)
  next
    case False
    then show ?thesis using Cons by (auto simp: shutdown_def [of _ s])
  qed
qed simp

end
