(* ===== verification/HealthRoutes.thy ===== *)
theory HealthRoutes
  imports AuditLog ApiErrors
begin

text \<open>
  The probes of the API: \<open>src/api/routes/health.ts\<close>, \<open>ready.ts\<close> and the checkers of
  \<open>src/api/deps/ready-deps.ts\<close>, and those of the oracle and the workers. Each checker is one call that may reject; a checker object may lack
  the method \<open>checkRedis\<close>, and then calling it throws. Last indexed times are milliseconds.
\<close>

datatype dependency_status = StatusOk | StatusError | StatusStale

record dependency_result =
  dr_status :: dependency_status
  dr_error :: "string option"

record 'w ready_deps =
  rd_database :: "('w, unit) call"
  rd_redis :: "('w, unit) call option"
  rd_last_indexed :: "('w, int option) call"

definition healthy :: dependency_result where "healthy = \<lparr>dr_status = StatusOk, dr_error = None\<rparr>"

text \<open>The threshold is read once; \<open>None\<close> is NaN, which no age exceeds.\<close>

definition INDEX_STALENESS_THRESHOLD_MS :: "string option \<Rightarrow> int option" where
  "INDEX_STALENESS_THRESHOLD_MS env = (case env of Some (c # s) \<Rightarrow> parse_int (c # s) | _ \<Rightarrow> Some 300000)"

definition check_db :: "'w ready_deps \<Rightarrow> ('w, dependency_result) call" where
  "check_db deps = call_catch (call_bind (rd_database deps) (\<lambda>_. call_return healthy))
     (\<lambda>e. call_return \<lparr>dr_status = StatusError, dr_error = Some e\<rparr>)"

definition check_redis :: "'w ready_deps \<Rightarrow> ('w, dependency_result) call" where
  "check_redis deps = call_catch
     (call_bind (case rd_redis deps of None \<Rightarrow> call_throw ''deps.checkRedis is not a function'' | Some c \<Rightarrow> c) (\<lambda>_. call_return healthy))
     (\<lambda>e. call_return \<lparr>dr_status = StatusError, dr_error = Some e\<rparr>)"

definition stale_text :: "int \<Rightarrow> int \<Rightarrow> string" where
  "stale_text age threshold = ''Index is '' @ int_string (age div 1000) @ ''s old (threshold: ''
     @ number_string (js_div (of_int threshold) 1000) @ ''s)''"

definition freshness :: "int option \<Rightarrow> int \<Rightarrow> int option \<Rightarrow> dependency_result" where
  "freshness threshold now last_indexed = (case last_indexed of
     None \<Rightarrow> \<lparr>dr_status = StatusStale, dr_error = Some ''No indexed events found''\<rparr>
   | Some t \<Rightarrow> (case threshold of
       Some limit \<Rightarrow> if limit < now - t then \<lparr>dr_status = StatusStale, dr_error = Some (stale_text (now - t) limit)\<rparr> else healthy
     | None \<Rightarrow> healthy))"

definition check_index_freshness :: "int option \<Rightarrow> 'w ready_deps \<Rightarrow> int \<Rightarrow> ('w, dependency_result) call" where
  "check_index_freshness threshold deps now = call_catch
     (call_bind (rd_last_indexed deps) (\<lambda>t. call_return (freshness threshold now t)))
     (\<lambda>e. call_return \<lparr>dr_status = StatusError, dr_error = Some e\<rparr>)"

record ready_response =
  rr_ready :: bool
  rr_database :: dependency_result
  rr_redis :: dependency_result
  rr_index :: dependency_result

text \<open>\<open>GET /ready\<close>: status and body. The three checks start together; each is one call.\<close>

definition ready_route :: "int option \<Rightarrow> 'w ready_deps \<Rightarrow> int \<Rightarrow> ('w, int \<times> ready_response) call" where
  "ready_route threshold deps now =
     call_bind (check_db deps) (\<lambda>db.
     call_bind (check_redis deps) (\<lambda>rd.
     call_bind (check_index_freshness threshold deps now) (\<lambda>ix.
     let ready = (dr_status db = StatusOk \<and> dr_status rd = StatusOk \<and> dr_status ix = StatusOk)
     in call_return (if ready then 200 else 503, \<lparr>rr_ready = ready, rr_database = db, rr_redis = rd, rr_index = ix\<rparr>))))"

text \<open>A row of the cursors table: its update time and its cursor.\<close>

type_synonym cursor_row = "int \<times> string option"

text \<open>The checkers the server uses by default, and those it defines but does not use. \<open>first_cursor\<close> is
  \<open>findFirst\<close> over the rows, newest first.\<close>

definition first_cursor :: "('w, cursor_row list) call \<Rightarrow> ('w, cursor_row option) call" where
  "first_cursor read_rows = call_bind read_rows (\<lambda>rows.
     call_return (case sort_key (\<lambda>r. - fst r) rows of [] \<Rightarrow> None | r # _ \<Rightarrow> Some r))"

definition create_ready_deps :: "('w, unit) call \<Rightarrow> ('w, cursor_row list) call \<Rightarrow> 'w ready_deps" where
  "create_ready_deps select_one read_rows = \<lparr>rd_database = select_one, rd_redis = None,
     rd_last_indexed = call_bind (first_cursor read_rows) (\<lambda>r. call_return (case r of
        Some (t, Some (c # s)) \<Rightarrow> Some t | _ \<Rightarrow> None))\<rparr>"

definition create_default_ready_deps ::
    "('w, unit) call \<Rightarrow> ('w, bool) call \<Rightarrow> ('w, cursor_row list) call \<Rightarrow> 'w ready_deps" where
  "create_default_ready_deps select_one redis_health read_rows = \<lparr>rd_database = select_one,
     rd_redis = Some (call_bind redis_health (\<lambda>ok. if \<not> ok then call_throw ''Redis PING did not return PONG'' else call_return ())),
     rd_last_indexed = call_bind (first_cursor read_rows) (\<lambda>r. call_return (map_option fst r))\<rparr>"

text \<open>\<open>GET /health\<close>; the uptime is in seconds.\<close>

definition health_route ::
    "('w, unit) call \<Rightarrow> (string \<Rightarrow> string option) \<Rightarrow> int \<Rightarrow> string \<Rightarrow> ('w, http_reply) call" where
  "health_route select_one env uptime iso_now =
     call_bind (call_catch (call_bind select_one (\<lambda>_. call_return True)) (\<lambda>e. call_return False)) (\<lambda>ok.
     call_return (200, Obj [(''status'', Str (if ok then ''ok'' else ''degraded'')),
       (''service'', Str (case env ''SERVICE_NAME'' of None \<Rightarrow> ''vatix-backend'' | Some s \<Rightarrow> s)),
       (''version'', Str (case env ''npm_package_version'' of None \<Rightarrow> ''unknown'' | Some s \<Rightarrow> s)),
       (''uptime'', Num (of_int uptime)), (''timestamp'', Str iso_now),
       (''dependencies'', Obj [(''database'', Str (if ok then ''ok'' else ''error''))])]))"

text \<open>The probes of the other processes, \<open>apps/oracle/routes/health.ts\<close> and \<open>apps/workers/src/routes/ready.ts\<close>:
  the first always answers 200, the second tells the error unless its message is empty.\<close>

definition oracle_health_route :: "('w, unit) call \<Rightarrow> int \<Rightarrow> string \<Rightarrow> ('w, http_reply) call" where
  "oracle_health_route select_one uptime iso_now =
     call_bind (call_catch (call_bind select_one (\<lambda>_. call_return True)) (\<lambda>e. call_return False)) (\<lambda>ok.
     call_return (200, Obj [(''status'', Str (if ok then ''ok'' else ''degraded'')), (''service'', Str ''vatix-oracle''),
       (''uptime'', Num (of_int uptime)), (''timestamp'', Str iso_now),
       (''dependencies'', Obj [(''database'', Str (if ok then ''ok'' else ''error''))])]))"

definition workers_ready_route :: "('w, unit) call \<Rightarrow> string \<Rightarrow> ('w, http_reply) call" where
  "workers_ready_route select_one iso_now =
     call_bind (call_catch (call_bind select_one (\<lambda>_. call_return None)) (\<lambda>e. call_return (Some e))) (\<lambda>failed.
     call_return (if failed = None then 200 else 503, Obj [(''ready'', Bool (failed = None)), (''service'', Str ''vatix-workers''),
       (''timestamp'', Str iso_now),
       (''dependencies'', Obj [(''database'', Obj ((''status'', Str (if failed = None then ''ok'' else ''error'')) #
          (case failed of Some (c # s) \<Rightarrow> [(''error'', Str (c # s))] | _ \<Rightarrow> [])))])]))"

subsection \<open>When the service is ready\<close>

text \<open>What a checker answers, on a world no check changes.\<close>

definition answers :: "('w, 'a) call \<Rightarrow> 'w \<Rightarrow> bool" where
  "answers c w \<longleftrightarrow> (\<exists>x. fst (c w) = Inr x)"

definition reads_only :: "('w, 'a) call \<Rightarrow> bool" where
  "reads_only c \<longleftrightarrow> (\<forall>w. snd (c w) = w)"

text \<open>All three checks have this shape.\<close>

lemma check_shape:
  assumes "reads_only c"
  shows "call_catch (call_bind c (\<lambda>x. call_return (f x))) (\<lambda>e. call_return (g e)) w =
    (Inr (case fst (c w) of Inl e \<Rightarrow> g e | Inr x \<Rightarrow> f x), w)"
proof -
  obtain r where "c w = (r, w)" using assms by (metis prod.collapse reads_only_def)
  then show ?thesis by (cases r) (simp_all add: call_catch_def call_bind_def call_return_def)
qed

lemma reads_only_throw: "reads_only (call_throw e)"
  by (simp add: reads_only_def call_throw_def)

lemma ready_route_spec:
  assumes "reads_only (rd_database deps)" "\<And>c. rd_redis deps = Some c \<Longrightarrow> reads_only c" "reads_only (rd_last_indexed deps)"
  shows "\<exists>body. ready_route (Some limit) deps now w = (Inr (if rr_ready body then 200 else 503, body), w)
    \<and> (dr_status (rr_database body) = StatusOk \<longleftrightarrow> answers (rd_database deps) w)
    \<and> (dr_status (rr_redis body) = StatusOk \<longleftrightarrow> (\<exists>c. rd_redis deps = Some c \<and> answers c w))
    \<and> (dr_status (rr_index body) = StatusOk \<longleftrightarrow> (\<exists>t. fst (rd_last_indexed deps w) = Inr (Some t) \<and> now - t \<le> limit))
    \<and> (rr_ready body \<longleftrightarrow> dr_status (rr_database body) = StatusOk \<and> dr_status (rr_redis body) = StatusOk
        \<and> dr_status (rr_index body) = StatusOk)"
proof -
  let ?redis = "case rd_redis deps of None \<Rightarrow> call_throw ''deps.checkRedis is not a function'' | Some c \<Rightarrow> c"
  let ?error = "\<lambda>e. \<lparr>dr_status = StatusError, dr_error = Some e\<rparr>"
  have redis: "reads_only ?redis" using assms(2) by (simp add: reads_only_throw split: option.split)
  define db where "db = (case fst (rd_database deps w) of Inl e \<Rightarrow> ?error e | Inr u \<Rightarrow> healthy)"
  define rd where "rd = (case fst (?redis w) of Inl e \<Rightarrow> ?error e | Inr u \<Rightarrow> healthy)"
  define ix where "ix = (case fst (rd_last_indexed deps w) of Inl e \<Rightarrow> ?error e | Inr t \<Rightarrow> freshness (Some limit) now t)"
  have "check_db deps w = (Inr db, w)" "check_redis deps w = (Inr rd, w)" "check_index_freshness (Some limit) deps now w = (Inr ix, w)"
    unfolding check_db_def check_redis_def check_index_freshness_def db_def rd_def ix_def
    using check_shape [OF assms(1)] check_shape [OF redis] check_shape [OF assms(3)] by simp_all
  moreover have "dr_status db = StatusOk \<longleftrightarrow> answers (rd_database deps) w"
    by (auto simp: db_def answers_def healthy_def split: sum.split)
  moreover have "dr_status rd = StatusOk \<longleftrightarrow> (\<exists>c. rd_redis deps = Some c \<and> answers c w)"
    by (auto simp: rd_def answers_def healthy_def call_throw_def split: sum.split option.splits)
  moreover have "dr_status ix = StatusOk \<longleftrightarrow> (\<exists>t. fst (rd_last_indexed deps w) = Inr (Some t) \<and> now - t \<le> limit)"
    by (auto simp: ix_def freshness_def healthy_def split: sum.split option.split)
  ultimately show ?thesis
    by (simp add: ready_route_def call_bind_def call_return_def Let_def)
qed

text \<open>The probe of the workers is exact about the database; that of the oracle stays at 200 and says so in its body.\<close>

lemma workers_ready_exact:
  assumes "reads_only select_one"
  shows "\<exists>body. workers_ready_route select_one iso_now w = (Inr (if answers select_one w then 200 else 503, Obj body), w)
    \<and> map_of body ''ready'' = Some (Bool (answers select_one w))"
  using check_shape [OF assms, of "\<lambda>_. None" Some w]
  by (auto simp: workers_ready_route_def call_bind_def [of "call_catch _ _"] answers_def split: sum.split)

lemma oracle_health_exact:
  assumes "reads_only select_one"
  shows "\<exists>body. oracle_health_route select_one uptime iso_now w = (Inr (200, Obj body), w)
    \<and> map_of body ''status'' = Some (Str (if answers select_one w then ''ok'' else ''degraded''))"
  using check_shape [OF assms, of "\<lambda>_. True" "\<lambda>e. False" w]
  by (auto simp: oracle_health_route_def call_bind_def [of "call_catch _ _"] answers_def split: sum.split)

text \<open>
  C35: the readiness probe answers 200 exactly when every dependency is healthy, else 503, and its body says
  of each dependency whether it is: the database when its query answers, Redis when its check exists and
  answers, the index when an event has been indexed no longer ago than the threshold. Its checks change
  nothing.
\<close>

theorem readiness_exact:
  assumes "reads_only (rd_database deps)" "\<And>c. rd_redis deps = Some c \<Longrightarrow> reads_only c" "reads_only (rd_last_indexed deps)"
  shows "\<exists>body. ready_route (Some limit) deps now w = (Inr (if rr_ready body then 200 else 503, body), w)
    \<and> (rr_ready body \<longleftrightarrow> answers (rd_database deps) w \<and> (\<exists>c. rd_redis deps = Some c \<and> answers c w)
        \<and> (\<exists>t. fst (rd_last_indexed deps w) = Inr (Some t) \<and> now - t \<le> limit))
    \<and> (dr_status (rr_database body) = StatusOk \<longleftrightarrow> answers (rd_database deps) w)
    \<and> (dr_status (rr_redis body) = StatusOk \<longleftrightarrow> (\<exists>c. rd_redis deps = Some c \<and> answers c w))
    \<and> (dr_status (rr_index body) = StatusOk \<longleftrightarrow> (\<exists>t. fst (rd_last_indexed deps w) = Inr (Some t) \<and> now - t \<le> limit))"
  using ready_route_spec [OF assms, of limit now w] by metis

theorem readiness_exact_witness:
  "\<exists>body. ready_route (Some 300000) (create_default_ready_deps (call_return ()) (call_return True) (call_return [(1000, Some ''7'')])) 301000 ()
     = (Inr (200, body), ()) \<and> rr_ready body"
proof -
  let ?deps = "create_default_ready_deps (call_return ()) (call_return True) (call_return [(1000, Some ''7'')]) :: unit ready_deps"
  have deps: "?deps = \<lparr>rd_database = call_return (), rd_redis = Some (call_return ()), rd_last_indexed = call_return (Some 1000)\<rparr>"
    by (simp add: create_default_ready_deps_def first_cursor_def)
  have "reads_only (call_return x)" for x :: 'a by (simp add: reads_only_def call_return_def)
  then show ?thesis
    using readiness_exact [of ?deps 300000 301000 "()"] unfolding deps by (auto simp: answers_def call_return_def reads_only_def)
qed

text \<open>The server registers the route with checkers that have no \<open>checkRedis\<close>: it never reports ready.\<close>

lemma served_probe_never_ready:
  assumes "reads_only select_one" "reads_only read_rows"
  shows "\<exists>body. ready_route (Some limit) (create_ready_deps select_one read_rows) now w = (Inr (503, body), w)
    \<and> dr_status (rr_redis body) \<noteq> StatusOk"
proof -
  have "reads_only (rd_last_indexed (create_ready_deps select_one read_rows))"
    unfolding create_ready_deps_def first_cursor_def reads_only_def
  proof
    fix v
    obtain r where "read_rows v = (r, v)" using assms(2) by (metis prod.collapse reads_only_def)
    then show "snd (rd_last_indexed \<lparr>rd_database = select_one, rd_redis = None, rd_last_indexed =
        call_bind (call_bind read_rows (\<lambda>rows. call_return (case sort_key (\<lambda>r. - fst r) rows of [] \<Rightarrow> None | r # _ \<Rightarrow> Some r)))
          (\<lambda>r. call_return (case r of Some (t, Some (c # s)) \<Rightarrow> Some t | _ \<Rightarrow> None))\<rparr> v) = v"
      by (cases r) (simp_all add: call_bind_def call_return_def)
  qed
  then obtain body where "ready_route (Some limit) (create_ready_deps select_one read_rows) now w
      = (Inr (if rr_ready body then 200 else 503, body), w)" "\<not> rr_ready body" "dr_status (rr_redis body) \<noteq> StatusOk"
    using ready_route_spec [of "create_ready_deps select_one read_rows" limit now w] assms(1)
    by (auto simp: create_ready_deps_def)
  then show ?thesis by auto
qed

end
