(* ===== verification/LegacyRoutes.thy ===== *)
theory LegacyRoutes
  imports ApiErrors
begin

text \<open>
  The deprecated aliases of the API and the registry of its routes: \<open>src/api/routes/legacy.ts\<close> and
  \<open>registry.ts\<close>. An alias redirects to the canonical path until the sunset and is gone afterwards. The
  parameters of a request are those of the alias, with the values Fastify decoded from the URL.
\<close>

datatype http_verb = GET | POST | PATCH

definition verb_text :: "http_verb \<Rightarrow> string" where
  "verb_text m = (case m of GET \<Rightarrow> ''GET'' | POST \<Rightarrow> ''POST'' | PATCH \<Rightarrow> ''PATCH'')"

record legacy_route =
  al_method :: http_verb
  al_url :: string
  al_canonical :: string
  al_param_map :: "(string \<times> string) list"

definition DEPRECATION_DATE :: string where "DEPRECATION_DATE = ''2026-09-27T00:00:00Z''"
definition DEPRECATION_SUNSET_MS :: int where "DEPRECATION_SUNSET_MS = 1790467200000"

abbreviation same_path :: "http_verb \<Rightarrow> string \<Rightarrow> legacy_route" where
  "same_path m url \<equiv> \<lparr>al_method = m, al_url = url, al_canonical = ''/v1'' @ url, al_param_map = []\<rparr>"

definition legacy_routes :: "legacy_route list" where
  "legacy_routes = [
     same_path GET ''/health'',
     same_path GET ''/ready'',
     \<lparr>al_method = GET, al_url = ''/readiness'', al_canonical = ''/v1/ready'', al_param_map = []\<rparr>,
     same_path GET ''/markets'',
     same_path GET ''/markets/:id'',
     same_path GET ''/markets/:id/orderbook'',
     same_path POST ''/orders'',
     same_path GET ''/orders/user/:address'',
     same_path GET ''/trades/user/:address'',
     \<lparr>al_method = GET, al_url = ''/positions/user/:address'', al_canonical = ''/v1/wallets/:wallet/positions'',
       al_param_map = [(''wallet'', ''address'')]\<rparr>,
     same_path GET ''/admin/markets'',
     same_path PATCH ''/admin/markets/:id/status'']"

subsection \<open>\<open>String.replace\<close> with a text pattern\<close>

text \<open>The first occurrence of the pattern, as what is before and after it; \<open>$$\<close>, \<open>$&\<close>, \<open>$`\<close> and \<open>$'\<close> in the
  replacement stand for a dollar, the pattern, and what is before and after.\<close>

fun split_first :: "string \<Rightarrow> string \<Rightarrow> (string \<times> string) option" where
  "split_first pat [] = (if pat = [] then Some ([], []) else None)"
| "split_first pat (c # s) = (if starts_with pat (c # s) then Some ([], drop (length pat) (c # s))
     else map_option (\<lambda>(a, b). (c # a, b)) (split_first pat s))"

fun expand_template :: "string \<Rightarrow> string \<Rightarrow> string \<Rightarrow> string \<Rightarrow> string" where
  "expand_template a pat b (c # d # r) =
     (if c \<noteq> CHR ''$'' then c # expand_template a pat b (d # r)
      else if d = CHR ''$'' then CHR ''$'' # expand_template a pat b r
      else if d = CHR ''&'' then pat @ expand_template a pat b r
      else if d = CHR 0x60 then a @ expand_template a pat b r
      else if d = CHR 0x27 then b @ expand_template a pat b r
      else CHR ''$'' # expand_template a pat b (d # r))"
| "expand_template a pat b s = s"

definition js_replace :: "string \<Rightarrow> string \<Rightarrow> string \<Rightarrow> string" where
  "js_replace pat v s = (case split_first pat s of None \<Rightarrow> s | Some (a, b) \<Rightarrow> a @ expand_template a pat b v @ b)"

subsection \<open>Redirects\<close>

definition build_canonical_path :: "string \<Rightarrow> (string \<times> string) list \<Rightarrow> string \<Rightarrow> (string \<times> string) list \<Rightarrow> string" where
  "build_canonical_path template params query param_map =
     (let renamed = fold (\<lambda>(key, source) path. case map_of params source of
            None \<Rightarrow> path | Some v \<Rightarrow> js_replace ('':'' @ key) v path) param_map template
      in fold (\<lambda>(key, v) path. js_replace ('':'' @ key) v path) params renamed @ query)"

definition url_query :: "string \<Rightarrow> string" where
  "url_query url = dropWhile (\<lambda>c. c \<noteq> CHR ''?'') url"

text \<open>The reply of an alias: a status with headers, or the 404 body after the sunset.\<close>

datatype alias_reply = Redirect int "(string \<times> string) list" | Gone http_reply

definition legacy_handler ::
    "legacy_route \<Rightarrow> int \<Rightarrow> string \<Rightarrow> string \<Rightarrow> (string \<times> string) list \<Rightarrow> alias_reply" where
  "legacy_handler route now request_id url params =
     (if DEPRECATION_SUNSET_MS \<le> now
      then Gone (404, Obj [(''error'', Str (''Route '' @ verb_text (al_method route) @ '' '' @ url @ '' not found'')),
        (''requestId'', Str request_id), (''statusCode'', Num 404)])
      else let canonical = build_canonical_path (al_canonical route) params (url_query url) (al_param_map route)
        in Redirect (if al_url route = ''/readiness'' then 301 else 308)
          [(''Location'', canonical), (''Link'', ''<'' @ canonical @ ''>; rel=\"alternate\"''),
           (''Deprecation'', ''true''), (''Sunset'', DEPRECATION_DATE)])"

subsection \<open>The registry\<close>

record canonical_route =
  cr_method :: http_verb
  cr_path :: string
  cr_alias :: "string option"
  cr_notes :: "string option"

abbreviation listed :: "http_verb \<Rightarrow> string \<Rightarrow> string option \<Rightarrow> string option \<Rightarrow> canonical_route" where
  "listed m p a n \<equiv> \<lparr>cr_method = m, cr_path = p, cr_alias = a, cr_notes = n\<rparr>"

definition CANONICAL_V1_ROUTES :: "canonical_route list" where
  "CANONICAL_V1_ROUTES = [
     listed GET ''/v1/health'' (Some ''/health'') None,
     listed GET ''/v1/ready'' (Some ''/ready, /readiness'') None,
     listed GET ''/v1/markets'' (Some ''/markets'') None,
     listed GET ''/v1/markets/:id'' (Some ''/markets/:id'') None,
     listed GET ''/v1/markets/:id/orderbook'' (Some ''/markets/:id/orderbook'') None,
     listed POST ''/v1/orders'' (Some ''/orders'') None,
     listed GET ''/v1/orders/user/:address'' (Some ''/orders/user/:address'') None,
     listed GET ''/v1/trades/user/:address'' (Some ''/trades/user/:address'') None,
     listed GET ''/v1/wallets/:wallet/positions'' (Some ''/positions/user/:address'') (Some ''Canonical wallet positions path''),
     listed GET ''/v1/wallets/:wallet/positions/:marketId'' None (Some ''Single-market position read''),
     listed GET ''/v1/admin/markets'' (Some ''/admin/markets'') (Some ''Requires API key and admin auth''),
     listed PATCH ''/v1/admin/markets/:id/status'' (Some ''/admin/markets/:id/status'') (Some ''Requires API key and admin auth''),
     listed GET ''/v1/openapi.json'' None (Some ''OpenAPI specification'')]"

subsection \<open>Where an alias leads\<close>

text \<open>The parameters of a path, and the path with its parameters filled in, segment by segment.\<close>

definition param_names :: "string \<Rightarrow> string list" where
  "param_names path = map tl (filter (\<lambda>seg. seg \<noteq> [] \<and> hd seg = CHR '':'') (split_on (CHR ''/'') path))"

definition fill_path :: "(string \<Rightarrow> string) \<Rightarrow> string \<Rightarrow> string" where
  "fill_path value_of path = join_with ''/''
     (map (\<lambda>seg. if seg \<noteq> [] \<and> hd seg = CHR '':'' then value_of (tl seg) else seg) (split_on (CHR ''/'') path))"

lemma expand_plain: "CHR ''$'' \<notin> set v \<Longrightarrow> expand_template a pat b v = v"
  by (induction a pat b v rule: expand_template.induct) auto

lemma split_first_none: "CHR '':'' \<notin> set s \<Longrightarrow> split_first (CHR '':'' # k) s = None"
  by (induction s) (auto simp: starts_with_prefix)

lemma split_first_here:
  "CHR '':'' \<notin> set a \<Longrightarrow> split_first (CHR '':'' # k) (a @ CHR '':'' # k @ b) = Some (a, b)"
  by (induction a) (auto simp: starts_with_prefix)

lemma replace_none: "CHR '':'' \<notin> set s \<Longrightarrow> js_replace (CHR '':'' # k) v s = s"
  by (simp add: js_replace_def split_first_none)

lemma replace_here:
  "CHR '':'' \<notin> set a \<Longrightarrow> CHR ''$'' \<notin> set v \<Longrightarrow> js_replace (CHR '':'' # k) v (a @ CHR '':'' # k @ b) = a @ v @ b"
  by (simp add: js_replace_def split_first_here expand_plain)

lemma canonical_parts:
  assumes "CHR ''$'' \<notin> set v"
  shows "js_replace '':id'' v ''/v1/markets/:id'' = ''/v1/markets/'' @ v"
    "js_replace '':id'' v ''/v1/markets/:id/orderbook'' = ''/v1/markets/'' @ v @ ''/orderbook''"
    "js_replace '':id'' v ''/v1/admin/markets/:id/status'' = ''/v1/admin/markets/'' @ v @ ''/status''"
    "js_replace '':address'' v ''/v1/orders/user/:address'' = ''/v1/orders/user/'' @ v"
    "js_replace '':address'' v ''/v1/trades/user/:address'' = ''/v1/trades/user/'' @ v"
    "js_replace '':wallet'' v ''/v1/wallets/:wallet/positions'' = ''/v1/wallets/'' @ v @ ''/positions''"
  using replace_here [OF _ assms, of "''/v1/markets/''" "''id''" "[]"]
    replace_here [OF _ assms, of "''/v1/markets/''" "''id''" "''/orderbook''"]
    replace_here [OF _ assms, of "''/v1/admin/markets/''" "''id''" "''/status''"]
    replace_here [OF _ assms, of "''/v1/orders/user/''" "''address''" "[]"]
    replace_here [OF _ assms, of "''/v1/trades/user/''" "''address''" "[]"]
    replace_here [OF _ assms, of "''/v1/wallets/''" "''wallet''" "''/positions''"]
  by simp_all

lemma positions_alias:
  assumes "CHR ''$'' \<notin> set v" "CHR '':'' \<notin> set v"
  shows "js_replace '':address'' v (''/v1/wallets/'' @ v @ ''/positions'') = ''/v1/wallets/'' @ v @ ''/positions''"
  using replace_none [of "''/v1/wallets/'' @ v @ ''/positions''" "''address''" v] assms by simp

lemma canonical_filled:
  assumes "route \<in> set legacy_routes" "CHR ''$'' \<notin> set v" "CHR '':'' \<notin> set v"
  shows "build_canonical_path (al_canonical route) (map (\<lambda>k. (k, v)) (param_names (al_url route))) query (al_param_map route)
    = fill_path (\<lambda>k. v) (al_canonical route) @ query"
proof -
  have "\<forall>route \<in> set legacy_routes. build_canonical_path (al_canonical route) (map (\<lambda>k. (k, v)) (param_names (al_url route))) query (al_param_map route)
    = fill_path (\<lambda>k. v) (al_canonical route) @ query"
    using positions_alias [OF assms(2,3)]
    by (simp add: legacy_routes_def build_canonical_path_def param_names_def fill_path_def canonical_parts [OF assms(2)])
  then show ?thesis using assms(1) by blast
qed

text \<open>
  C36: before the sunset every alias redirects, with its method, to a route of the registry that names the
  alias, and the location is the path of that route with the parameters of the request filled in and the
  query kept (308, and 301 for \<open>/readiness\<close>); from the sunset on every alias is gone with 404. A parameter
  may be any text without \<open>$\<close> and \<open>:\<close>, as identifiers and addresses are.
\<close>

theorem legacy_redirects_canonical:
  assumes "route \<in> set legacy_routes" "CHR ''$'' \<notin> set v" "CHR '':'' \<notin> set v"
  shows "\<exists>target \<in> set CANONICAL_V1_ROUTES. cr_method target = al_method route \<and> cr_path target = al_canonical route \<and>
    (\<exists>names. cr_alias target = Some names \<and> al_url route \<in> set (map trim (split_on (CHR '','') names))) \<and>
    (case legacy_handler route now request_id url (map (\<lambda>k. (k, v)) (param_names (al_url route))) of
       Redirect status headers \<Rightarrow> now < DEPRECATION_SUNSET_MS \<and> status = (if al_url route = ''/readiness'' then 301 else 308)
         \<and> map_of headers ''Location'' = Some (fill_path (\<lambda>k. v) (cr_path target) @ url_query url)
     | Gone reply \<Rightarrow> DEPRECATION_SUNSET_MS \<le> now \<and> fst reply = 404)"
proof -
  have "\<forall>route \<in> set legacy_routes. \<exists>target \<in> set CANONICAL_V1_ROUTES. cr_method target = al_method route \<and> cr_path target = al_canonical route \<and>
      (\<exists>names. cr_alias target = Some names \<and> al_url route \<in> set (map trim (split_on (CHR '','') names)))"
    by (simp add: legacy_routes_def CANONICAL_V1_ROUTES_def trim_def is_space_def)
  then obtain target where t: "target \<in> set CANONICAL_V1_ROUTES" "cr_method target = al_method route" "cr_path target = al_canonical route"
    "\<exists>names. cr_alias target = Some names \<and> al_url route \<in> set (map trim (split_on (CHR '','') names))"
    using assms(1) by blast
  show ?thesis
    using t by (intro bexI [of _ target])
      (auto simp: legacy_handler_def Let_def canonical_filled [OF assms])
qed

theorem legacy_redirects_canonical_witness:
  "\<exists>headers. legacy_handler (same_path GET ''/markets/:id/orderbook'') 5 ''r'' ''/markets/m1/orderbook?x=1'' [(''id'', ''m1'')] = Redirect 308 headers
     \<and> map_of headers ''Location'' = Some ''/v1/markets/m1/orderbook?x=1''"
proof -
  let ?r = "same_path GET ''/markets/:id/orderbook''"
  let ?reply = "legacy_handler ?r 5 ''r'' ''/markets/m1/orderbook?x=1'' [(''id'', ''m1'')]"
  have mem: "?r \<in> set legacy_routes" by (simp add: legacy_routes_def)
  have names: "map (\<lambda>k. (k, ''m1'')) (param_names (al_url ?r)) = [(''id'', ''m1'')]" by (simp add: param_names_def)
  have plain: "CHR ''$'' \<notin> set ''m1''" "CHR '':'' \<notin> set ''m1''" by simp_all
  note redirect = legacy_redirects_canonical [OF mem plain, where now = 5 and request_id = "''r''"
    and url = "''/markets/m1/orderbook?x=1''", unfolded names]
  obtain target :: canonical_route where t: "cr_path target = al_canonical ?r"
    "case ?reply of
       Redirect status headers \<Rightarrow> 5 < DEPRECATION_SUNSET_MS \<and> status = (if al_url ?r = ''/readiness'' then 301 else 308)
         \<and> map_of headers ''Location'' = Some (fill_path (\<lambda>k. ''m1'') (cr_path target) @ url_query ''/markets/m1/orderbook?x=1'')
     | Gone reply \<Rightarrow> DEPRECATION_SUNSET_MS \<le> 5 \<and> fst reply = 404"
    by (rule bexE [OF redirect]) blast
  then show ?thesis
    by (cases ?reply) (auto simp: fill_path_def url_query_def DEPRECATION_SUNSET_MS_def)
qed

text \<open>A dollar in a parameter is taken for a template of \<open>String.replace\<close>.\<close>

lemma dollar_parameter_lost:
  "build_canonical_path ''/v1/markets/:id'' [(''id'', ''$&'')] [] [] = ''/v1/markets/:id''"
  by (simp add: build_canonical_path_def js_replace_def)

end
