(* ===== verification/EventProcessing.thy ===== *)
theory EventProcessing
  imports BoundedRetry JsValue Engine
begin

text \<open>
  \<open>src/services/event-processor.ts\<close>, the processor of event batches that skips the events it has
  handled, and \<open>src/services/providerRetry.ts\<close>, retries of a provider operation with exponential backoff
  and jitter. The handler and the operation are calls; random numbers are a function of the attempt.
\<close>

subsection \<open>The event processor\<close>

record processor_event =
  ev_id :: string
  ev_ledger :: int
  ev_trade :: trade

record process_result =
  ps_processed :: nat
  ps_duplicates :: nat
  ps_failed :: nat

record event_processor =
  ep_seen :: "string list"
  ep_duplicates :: nat

definition new_processor :: event_processor where
  "new_processor = \<lparr>ep_seen = [], ep_duplicates = 0\<rparr>"

definition process_event ::
    "(processor_event \<Rightarrow> ('w, unit) call) \<Rightarrow> processor_event \<Rightarrow> process_result \<times> event_processor \<Rightarrow> 'w \<Rightarrow> (process_result \<times> event_processor) \<times> 'w" where
  "process_event handler e s w = (case s of (r, p) \<Rightarrow>
     if ev_id e \<in> set (ep_seen p)
     then ((r\<lparr>ps_duplicates := ps_duplicates r + 1\<rparr>, p\<lparr>ep_duplicates := ep_duplicates p + 1\<rparr>), w)
     else (case handler e w of
         (Inr _, w') \<Rightarrow> ((r\<lparr>ps_processed := ps_processed r + 1\<rparr>, p\<lparr>ep_seen := set_add (ev_id e) (ep_seen p)\<rparr>), w')
       | (Inl _, w') \<Rightarrow> ((r\<lparr>ps_failed := ps_failed r + 1\<rparr>, p), w')))"

fun process_events ::
    "(processor_event \<Rightarrow> ('w, unit) call) \<Rightarrow> processor_event list \<Rightarrow> process_result \<times> event_processor \<Rightarrow> 'w \<Rightarrow> (process_result \<times> event_processor) \<times> 'w" where
  "process_events handler [] s w = (s, w)"
| "process_events handler (e # es) s w = (case process_event handler e s w of (s', w') \<Rightarrow> process_events handler es s' w')"

definition process_batch ::
    "(processor_event \<Rightarrow> ('w, unit) call) \<Rightarrow> processor_event list \<Rightarrow> event_processor \<Rightarrow> 'w \<Rightarrow> (process_result \<times> event_processor) \<times> 'w" where
  "process_batch handler es p w = process_events handler es (\<lparr>ps_processed = 0, ps_duplicates = 0, ps_failed = 0\<rparr>, p) w"

definition get_total_duplicates :: "event_processor \<Rightarrow> nat" where "get_total_duplicates p = ep_duplicates p"
definition get_seen_count :: "event_processor \<Rightarrow> nat" where "get_seen_count p = length (ep_seen p)"
definition reset_processor :: "event_processor \<Rightarrow> event_processor" where
  "reset_processor p = p\<lparr>ep_seen := [], ep_duplicates := 0\<rparr>"

text \<open>A sequence of batches, with the result of each.\<close>

fun process_batches ::
    "(processor_event \<Rightarrow> ('w, unit) call) \<Rightarrow> processor_event list list \<Rightarrow> event_processor \<Rightarrow> 'w \<Rightarrow> process_result list \<times> event_processor \<times> 'w" where
  "process_batches handler [] p w = ([], p, w)"
| "process_batches handler (es # rest) p w = (case process_batch handler es p w of
     ((r, p'), w') \<Rightarrow> (case process_batches handler rest p' w' of (rs, q) \<Rightarrow> (r # rs, q)))"

text \<open>A handler that also logs the events it handled with success.\<close>

definition recording :: "(processor_event \<Rightarrow> ('w, unit) call) \<Rightarrow> processor_event \<Rightarrow> ('w \<times> string list, unit) call" where
  "recording h e s = (case s of (w, done_ids) \<Rightarrow> (case h e w of
     (Inl x, w') \<Rightarrow> (Inl x, (w', done_ids)) | (Inr u, w') \<Rightarrow> (Inr u, (w', done_ids @ [ev_id e]))))"

text \<open>What holds of a processor, its log and its counts after the events \<open>es\<close>.\<close>

definition processed_ok :: "processor_event list \<Rightarrow> process_result \<Rightarrow> event_processor \<Rightarrow> string list \<Rightarrow> bool" where
  "processed_ok es r p ids \<longleftrightarrow> distinct ids \<and> set ids = set (ep_seen p) \<and> distinct (ep_seen p)
     \<and> length ids = ps_processed r \<and> ep_duplicates p = ps_duplicates r
     \<and> ps_processed r + ps_duplicates r + ps_failed r = length es
     \<and> set ids \<subseteq> ev_id ` set es \<and> (ps_failed r = 0 \<longrightarrow> set ids = ev_id ` set es)"

definition add_result :: "process_result \<Rightarrow> process_result \<Rightarrow> process_result" where
  "add_result r s = \<lparr>ps_processed = ps_processed r + ps_processed s, ps_duplicates = ps_duplicates r + ps_duplicates s,
     ps_failed = ps_failed r + ps_failed s\<rparr>"

lemma process_event_ok:
  assumes "processed_ok es (add_result t r) p ids" "process_event (recording h) e (r, p) (w, ids) = ((r', p'), (w', ids'))"
  shows "processed_ok (es @ [e]) (add_result t r') p' ids'"
proof (cases "ev_id e \<in> set (ep_seen p)")
  case True
  then show ?thesis using assms by (auto simp: process_event_def processed_ok_def add_result_def)
next
  case False
  then show ?thesis using assms
    by (cases "h e w"; cases "fst (h e w)") (auto simp: process_event_def processed_ok_def add_result_def recording_def)
qed

lemma process_events_ok:
  assumes "processed_ok es (add_result t r) p ids" "process_events (recording h) new (r, p) (w, ids) = ((r', p'), (w', ids'))"
  shows "processed_ok (es @ new) (add_result t r') p' ids'"
  using assms
proof (induction new arbitrary: es r p w ids)
  case (Cons e new)
  obtain r1 p1 w1 ids1 where step: "process_event (recording h) e (r, p) (w, ids) = ((r1, p1), (w1, ids1))"
    by (metis prod.collapse)
  have rest: "process_events (recording h) new (r1, p1) (w1, ids1) = ((r', p'), (w', ids'))"
    using Cons.prems(2) step by simp
  show ?case using Cons.IH [OF process_event_ok [OF Cons.prems(1) step] rest] by simp
qed simp

definition total_result :: "process_result list \<Rightarrow> process_result" where
  "total_result rs = \<lparr>ps_processed = sum_list (map ps_processed rs), ps_duplicates = sum_list (map ps_duplicates rs),
     ps_failed = sum_list (map ps_failed rs)\<rparr>"

lemma process_batches_ok:
  assumes "processed_ok es t p ids" "process_batches (recording h) batches p (w, ids) = (rs, p', (w', ids'))"
  shows "processed_ok (es @ concat batches) (add_result t (total_result rs)) p' ids'"
  using assms
proof (induction batches arbitrary: es t p w ids rs)
  case Nil
  then show ?case by (cases t) (simp add: total_result_def add_result_def)
next
  case (Cons b batches)
  obtain r p1 w1 ids1 where step: "process_batch (recording h) b p (w, ids) = ((r, p1), (w1, ids1))"
    by (metis prod.collapse)
  obtain rs1 where rest: "process_batches (recording h) batches p1 (w1, ids1) = (rs1, p', (w', ids'))" and rs: "rs = r # rs1"
    using Cons.prems(2) step by (auto split: prod.splits)
  have "t = add_result t \<lparr>ps_processed = 0, ps_duplicates = 0, ps_failed = 0\<rparr>" by (simp add: add_result_def)
  then have "processed_ok (es @ b) (add_result t r) p1 ids1"
    using process_events_ok [of es t _ p ids h b w r p1 w1 ids1] Cons.prems(1) step by (metis process_batch_def)
  from Cons.IH [OF this rest] show ?case by (simp add: rs total_result_def add_result_def add.assoc)
qed

text \<open>
  Over any sequence of batches, with any handler, the processor handles an event at most once with
  success, however often it arrives; its counts add up to the number of events; the events it counts as
  processed are exactly those it remembers; and when no handler failed, every event has been handled
  exactly once.
\<close>

lemma events_handled_once:
  assumes "process_batches (recording h) batches new_processor (w, []) = (rs, p, (w', ids))"
  shows "distinct ids \<and> set ids = set (ep_seen p) \<and> get_seen_count p = length ids
    \<and> sum_list (map ps_processed rs) = length ids \<and> get_total_duplicates p = sum_list (map ps_duplicates rs)
    \<and> sum_list (map ps_processed rs) + sum_list (map ps_duplicates rs) + sum_list (map ps_failed rs) = length (concat batches)
    \<and> set ids \<subseteq> ev_id ` set (concat batches)
    \<and> (sum_list (map ps_failed rs) = 0 \<longrightarrow> set ids = ev_id ` set (concat batches))"
proof -
  have "processed_ok [] \<lparr>ps_processed = 0, ps_duplicates = 0, ps_failed = 0\<rparr> new_processor []"
    by (simp add: processed_ok_def new_processor_def)
  from process_batches_ok [OF this assms]
  have ok: "processed_ok (concat batches) (total_result rs) p ids" by (simp add: total_result_def add_result_def)
  then have "length (ep_seen p) = length ids" by (metis distinct_card processed_ok_def)
  moreover from ok have "length ids = sum_list (map ps_processed rs)" by (simp add: processed_ok_def total_result_def)
  ultimately show ?thesis
    using ok unfolding processed_ok_def total_result_def process_result.simps get_seen_count_def get_total_duplicates_def by metis
qed

definition demo_event :: "string \<Rightarrow> processor_event" where
  "demo_event i = \<lparr>ev_id = i, ev_ledger = 7, ev_trade = \<lparr>tr_id = i, tr_market = ''m'', tr_outcome = YES, tr_buyer = ''a'', tr_seller = ''b'',
     tr_buy_order = ''o1'', tr_sell_order = ''o2'', tr_price = 1 / 2, tr_quantity = 3, tr_timestamp = 5\<rparr>\<rparr>"

text \<open>A handler that fails on its first call only.\<close>

definition flaky :: "processor_event \<Rightarrow> (nat, unit) call" where
  "flaky e n = (if n = 0 then Inl ''down'' else Inr (), n + 1)"

lemma events_handled_once_witness:
  "\<exists>rs p. process_batches (recording flaky) [[demo_event ''a'', demo_event ''b''], [demo_event ''a'', demo_event ''b'']] new_processor (0, [])
     = (rs, p, (3, [''b'', ''a''])) \<and> get_seen_count p = 2 \<and> get_total_duplicates p = 1"
proof -
  let ?bs = "[[demo_event ''a'', demo_event ''b''], [demo_event ''a'', demo_event ''b'']]"
  let ?r = "\<lambda>a b c. \<lparr>ps_processed = a, ps_duplicates = b, ps_failed = c\<rparr>"
  let ?p = "\<lparr>ep_seen = [''b'', ''a''], ep_duplicates = 1\<rparr>"
  have run: "process_batches (recording flaky) ?bs new_processor (0, []) = ([?r 1 0 1, ?r 1 1 0], ?p, (3, [''b'', ''a'']))"
    by (simp add: process_batch_def process_event_def recording_def flaky_def demo_event_def new_processor_def set_add_def)
  from events_handled_once [OF run] run show ?thesis by (auto simp: get_total_duplicates_def)
qed

subsection \<open>Provider retries\<close>

text \<open>What an operation throws: an \<open>Error\<close> with a name, or any other value; \<open>pt_retryable\<close> is its property
  \<open>retryable\<close>, which a \<open>RetryableError\<close> sets to \<open>true\<close>.\<close>

record provider_thrown =
  pt_name :: "string option"
  pt_message :: string
  pt_retryable :: js

record provider_retry_options =
  po_max_attempts :: nat
  po_initial_delay :: number
  po_max_delay :: number
  po_factor :: number
  po_jitter :: bool

definition DEFAULT_RETRY_OPTIONS :: provider_retry_options where
  "DEFAULT_RETRY_OPTIONS = \<lparr>po_max_attempts = 3, po_initial_delay = 200, po_max_delay = 2000, po_factor = 2, po_jitter = True\<rparr>"

definition retryable_error :: "string \<Rightarrow> provider_thrown" where
  "retryable_error message = \<lparr>pt_name = Some ''RetryableError'', pt_message = message, pt_retryable = Bool True\<rparr>"

definition wrap_retryable :: "provider_thrown \<Rightarrow> string option \<Rightarrow> provider_thrown" where
  "wrap_retryable e message = retryable_error (case message of None \<Rightarrow> pt_message e | Some m \<Rightarrow> m)"

definition is_retryable_provider_error :: "provider_thrown \<Rightarrow> bool" where
  "is_retryable_provider_error e \<longleftrightarrow> pt_retryable e = Bool True"

definition get_error_description :: "provider_thrown \<Rightarrow> string" where
  "get_error_description e = (case pt_name e of Some n \<Rightarrow> n @ '': '' @ pt_message e | None \<Rightarrow> pt_message e)"

definition calculate_delay :: "(nat \<Rightarrow> number) \<Rightarrow> nat \<Rightarrow> provider_retry_options \<Rightarrow> number" where
  "calculate_delay random attempt opts =
     (let backoff = min (js_mul (po_initial_delay opts) (fl (po_factor opts ^ (attempt - 1)))) (po_max_delay opts)
      in of_int (max 1 (math_round (if \<not> po_jitter opts then backoff else js_mul (random attempt) backoff))))"

record provider_retry_error =
  pre_message :: string
  pre_attempts :: nat
  pre_original :: provider_thrown

definition undefined_thrown :: provider_thrown where
  "undefined_thrown = \<lparr>pt_name = None, pt_message = ''undefined'', pt_retryable = Undefined\<rparr>"

definition retry_with_backoff ::
    "(nat \<Rightarrow> number) \<Rightarrow> (number \<Rightarrow> 'w \<Rightarrow> 'w) \<Rightarrow> ('w, provider_thrown, 'a) ecall \<Rightarrow> provider_retry_options \<Rightarrow> 'w
      \<Rightarrow> (provider_retry_error + 'a) \<times> 'w \<times> number list" where
  "retry_with_backoff random sleep operation opts w =
     (case bounded_retry is_retryable_provider_error (\<lambda>i. calculate_delay random i opts) sleep undefined_thrown operation
         (po_max_attempts opts) 1 w of
        (Inr x, w', ds) \<Rightarrow> (Inr x, w', ds)
      | (Inl e, w', ds) \<Rightarrow> (Inl \<lparr>pre_message = ''Provider operation failed after '' @ nat_string (po_max_attempts opts)
            @ '' attempts: '' @ get_error_description e, pre_attempts = po_max_attempts opts, pre_original = e\<rparr>, w', ds))"

text \<open>With at least one attempt allowed, the operation runs \<open>k + 1\<close> times, at most the maximum; the first
  \<open>k\<close> runs failed with retryable errors, and a failure is reported only when the last error is not
  retryable or the attempts are used up. No delay exceeds the maximum backoff (or one millisecond).\<close>

lemma calculate_delay_bounds:
  assumes "po_max_delay opts = of_nat m" "\<not> po_jitter opts"
  shows "1 \<le> calculate_delay random attempt opts \<and> calculate_delay random attempt opts \<le> of_nat (max 1 m)"
proof -
  let ?b = "min (js_mul (po_initial_delay opts) (fl (po_factor opts ^ (attempt - 1)))) (of_nat m :: number)"
  have "math_round ?b \<le> int m" unfolding math_round_def by (simp add: floor_le_iff min_def)
  then have "max 1 (math_round ?b) \<le> int (max 1 m)" by simp
  then have "of_int (max 1 (math_round ?b)) \<le> (of_int (int (max 1 m)) :: number)" by (simp only: of_int_le_iff)
  moreover have "(of_int 1 :: number) \<le> of_int (max 1 (math_round ?b))" by (simp only: of_int_le_iff max.cobounded1)
  moreover have "calculate_delay random attempt opts = of_int (max 1 (math_round ?b))"
    using assms by (simp add: calculate_delay_def Let_def)
  ultimately show ?thesis by (simp only: of_int_1 of_int_of_nat_eq simp_thms)
qed

lemma retry_with_backoff_bounded:
  assumes "1 \<le> po_max_attempts opts" "retry_with_backoff random sleep operation opts w = (r, w', ds)"
  shows "\<exists>k. 1 + k \<le> po_max_attempts opts \<and> length ds = k
    \<and> failing_run is_retryable_provider_error (\<lambda>i. calculate_delay random i opts) sleep operation 1 k w
    \<and> (case r of Inr x \<Rightarrow> fst (operation (retry_world (\<lambda>i. calculate_delay random i opts) sleep operation 1 k w)) = Inr x
       | Inl e \<Rightarrow> fst (operation (retry_world (\<lambda>i. calculate_delay random i opts) sleep operation 1 k w)) = Inl (pre_original e)
           \<and> (1 + k = po_max_attempts opts \<or> \<not> is_retryable_provider_error (pre_original e)))"
proof -
  obtain r0 w0 ds0 where run: "bounded_retry is_retryable_provider_error (\<lambda>i. calculate_delay random i opts) sleep undefined_thrown operation
      (po_max_attempts opts) 1 w = (r0, w0, ds0)" using prod_cases3 by blast
  from bounded_retry_spec [OF assms(1) run] obtain k where k: "1 + k \<le> po_max_attempts opts"
    "failing_run is_retryable_provider_error (\<lambda>i. calculate_delay random i opts) sleep operation 1 k w"
    "operation (retry_world (\<lambda>i. calculate_delay random i opts) sleep operation 1 k w) = (r0, w0)"
    "ds0 = map (\<lambda>i. calculate_delay random i opts) [1..<1 + k]" "\<forall>e. r0 = Inl e \<longrightarrow> 1 + k = po_max_attempts opts \<or> \<not> is_retryable_provider_error e"
    by blast
  have "(case r0 of Inr x \<Rightarrow> r = Inr x | Inl e \<Rightarrow> (\<exists>f. r = Inl f \<and> pre_original f = e)) \<and> ds = ds0"
    using assms(2) unfolding retry_with_backoff_def run by (cases r0) auto
  then show ?thesis using k by (intro exI [of _ k]) (cases r0; auto)
qed

text \<open>The error names the configured attempts even when the operation ran once.\<close>

lemma reported_attempts_wrong:
  "retry_with_backoff random sleep (\<lambda>w. (Inl undefined_thrown, w)) DEFAULT_RETRY_OPTIONS w
     = (Inl \<lparr>pre_message = ''Provider operation failed after '' @ nat_string 3 @ '' attempts: undefined'', pre_attempts = 3,
          pre_original = undefined_thrown\<rparr>, w, [])"
proof -
  have run: "bounded_retry is_retryable_provider_error d sleep undefined_thrown (\<lambda>w. (Inl undefined_thrown, w)) 3 1 w = (Inl undefined_thrown, w, [])" for d
    by (subst bounded_retry.simps) (simp add: is_retryable_provider_error_def undefined_thrown_def)
  have "get_error_description undefined_thrown = ''undefined''" by (simp add: get_error_description_def undefined_thrown_def)
  then show ?thesis
    unfolding retry_with_backoff_def by (simp add: run [unfolded One_nat_def] DEFAULT_RETRY_OPTIONS_def)
qed

end
