(* ===== verification/Logging.thy ===== *)
theory Logging
  imports Config Validation RateLimiter
begin

text \<open>
  Logging and the request middleware: the redaction of log data (\<open>packages/shared/src/logRedactor.ts\<close>),
  the indexer's logger (\<open>apps/indexer/src/logger.ts\<close>), the shared one (\<open>packages/shared/src/logger.ts\<close>),
  the request log, the request identifier and the CORS check of the API (\<open>src/api/middleware/logger.ts\<close>,
  \<open>requestId.ts\<close>, \<open>cors.ts\<close>). What is written is a value of the model; writing it is the console's.
\<close>

subsection \<open>Redaction\<close>

definition REDACTED :: string where "REDACTED = ''[REDACTED]''"

definition SENSITIVE_KEYS :: "string list" where
  "SENSITIVE_KEYS = [''password'', ''passwd'', ''secret'', ''token'', ''accesstoken'', ''access_token'', ''refreshtoken'',
     ''refresh_token'', ''idtoken'', ''id_token'', ''apikey'', ''api_key'', ''x-api-key'', ''authorization'', ''auth'',
     ''cookie'', ''set-cookie'', ''session'', ''sessionid'', ''session_id'',
     ''privatekey'', ''private_key'', ''secretkey'', ''secret_key'', ''signingkey'', ''signing_key'', ''mnemonic'', ''seed'', ''keypair'',
     ''x-auth-token'', ''x-user-token'', ''connectionstring'', ''connection_string'', ''databaseurl'', ''database_url'', ''db_url'',
     ''redis_url'', ''redisurl'', ''ssn'', ''creditcard'', ''credit_card'', ''cvv'', ''pin'']"

definition is_sensitive_key :: "string \<Rightarrow> bool" where
  "is_sensitive_key key \<longleftrightarrow> to_lower key \<in> set SENSITIVE_KEYS"

text \<open>\<open>Object.entries\<close> of a byte array.\<close>

definition byte_entries :: "nat list \<Rightarrow> (string \<times> js) list" where
  "byte_entries bs = map (\<lambda>(i, b). (nat_string i, Num (of_nat b))) (enumerate 0 bs)"

fun redact_object :: "nat \<Rightarrow> js \<Rightarrow> js"
  and redact_elements :: "nat \<Rightarrow> js list \<Rightarrow> js list"
  and redact_members :: "nat \<Rightarrow> (string \<times> js) list \<Rightarrow> (string \<times> js) list" where
  "redact_object depth (Arr vs) = (if 10 < depth then Arr vs else Arr (redact_elements (depth + 1) vs))"
| "redact_object depth (Obj ps) = (if 10 < depth then Obj ps else Obj (redact_members (depth + 1) ps))"
| "redact_object depth (Bytes bs) = (if 10 < depth then Bytes bs else Obj (byte_entries bs))"
| "redact_object depth v = v"
| "redact_elements depth [] = []"
| "redact_elements depth (v # vs) = redact_object depth v # redact_elements depth vs"
| "redact_members depth [] = []"
| "redact_members depth ((k, v) # ps) =
     (k, if is_sensitive_key k then Str REDACTED else redact_object depth v) # redact_members depth ps"

definition redact_meta :: "(string \<times> js) list option \<Rightarrow> (string \<times> js) list option" where
  "redact_meta meta = map_option (\<lambda>ps. case redact_object 0 (Obj ps) of Obj qs \<Rightarrow> qs | _ \<Rightarrow> []) meta"

text \<open>The sensitive properties of a value that show something, its nesting depth, and the value without
  its sensitive properties.\<close>

fun exposed :: "js \<Rightarrow> (string \<times> js) list"
  and exposed_elements :: "js list \<Rightarrow> (string \<times> js) list"
  and exposed_members :: "(string \<times> js) list \<Rightarrow> (string \<times> js) list" where
  "exposed (Arr vs) = exposed_elements vs"
| "exposed (Obj ps) = exposed_members ps"
| "exposed v = []"
| "exposed_elements [] = []"
| "exposed_elements (v # vs) = exposed v @ exposed_elements vs"
| "exposed_members [] = []"
| "exposed_members ((k, v) # ps) =
     (if is_sensitive_key k then (if v = Str REDACTED then [] else [(k, v)]) else exposed v) @ exposed_members ps"

fun js_depth :: "js \<Rightarrow> nat"
  and elements_depth :: "js list \<Rightarrow> nat"
  and members_depth :: "(string \<times> js) list \<Rightarrow> nat" where
  "js_depth (Arr vs) = Suc (elements_depth vs)"
| "js_depth (Obj ps) = Suc (members_depth ps)"
| "js_depth (Bytes bs) = 1"
| "js_depth v = 0"
| "elements_depth [] = 0"
| "elements_depth (v # vs) = max (js_depth v) (elements_depth vs)"
| "members_depth [] = 0"
| "members_depth ((k, v) # ps) = max (js_depth v) (members_depth ps)"

fun public_part :: "js \<Rightarrow> js"
  and public_elements :: "js list \<Rightarrow> js list"
  and public_members :: "(string \<times> js) list \<Rightarrow> (string \<times> js) list" where
  "public_part (Arr vs) = Arr (public_elements vs)"
| "public_part (Obj ps) = Obj (public_members ps)"
| "public_part (Bytes bs) = Obj (byte_entries bs)"
| "public_part v = v"
| "public_elements [] = []"
| "public_elements (v # vs) = public_part v # public_elements vs"
| "public_members [] = []"
| "public_members ((k, v) # ps) = (if is_sensitive_key k then public_members ps else (k, public_part v) # public_members ps)"

lemma nat_string_not_sensitive: "\<not> is_sensitive_key (nat_string n)"
proof
  assume "is_sensitive_key (nat_string n)"
  then obtain k where k: "k \<in> set SENSITIVE_KEYS" "to_lower (nat_string n) = k" by (auto simp: is_sensitive_key_def)
  have "is_digit (lower_char c)" if "c \<in> set (nat_string n)" for c
    using nat_string_digits [OF that] by (simp add: lower_char_def is_digit_def Let_def)
  then have "\<forall>c \<in> set (to_lower (nat_string n)). is_digit c" by (simp add: to_lower_def)
  then have "list_all is_digit k" using k(2) by (auto simp: list_all_iff)
  moreover have "\<forall>k \<in> set SENSITIVE_KEYS. \<not> list_all is_digit k" by (simp add: SENSITIVE_KEYS_def is_digit_def)
  ultimately show False using k(1) by blast
qed

lemma byte_entries_plain:
  "exposed_members (byte_entries bs) = []" "public_members (byte_entries bs) = byte_entries bs"
proof -
  have "exposed_members (map (\<lambda>(i, b). (nat_string i, Num (of_nat b))) xs) = []
      \<and> public_members (map (\<lambda>(i, b). (nat_string i, Num (of_nat b))) xs) = map (\<lambda>(i, b). (nat_string i, Num (of_nat b))) xs"
    for xs :: "(nat \<times> nat) list"
    by (induction xs) (auto simp: nat_string_not_sensitive)
  then show "exposed_members (byte_entries bs) = []" "public_members (byte_entries bs) = byte_entries bs"
    by (simp_all add: byte_entries_def)
qed

lemma redact_not_exposed:
  "js_depth v + d \<le> 11 \<Longrightarrow> exposed (redact_object d v) = []"
  "elements_depth vs + d \<le> 11 \<Longrightarrow> exposed_elements (redact_elements d vs) = []"
  "members_depth ps + d \<le> 11 \<Longrightarrow> exposed_members (redact_members d ps) = []"
  by (induction d v and d vs and d ps rule: redact_object_redact_elements_redact_members.induct)
    (auto simp: byte_entries_plain)

lemma redact_public:
  "public_part (redact_object d v) = public_part v"
  "public_elements (redact_elements d vs) = public_elements vs"
  "public_members (redact_members d ps) = public_members ps"
  by (induction d v and d vs and d ps rule: redact_object_redact_elements_redact_members.induct)
    (auto simp: byte_entries_plain)

subsection \<open>The logger of the indexer\<close>

datatype log_level = Debug | Info | Warn | Error

definition level_text :: "log_level \<Rightarrow> string" where
  "level_text l = (case l of Debug \<Rightarrow> ''debug'' | Info \<Rightarrow> ''info'' | Warn \<Rightarrow> ''warn'' | Error \<Rightarrow> ''error'')"

definition LOG_LEVEL_WEIGHT :: "log_level \<Rightarrow> nat" where
  "LOG_LEVEL_WEIGHT l = (case l of Debug \<Rightarrow> 10 | Info \<Rightarrow> 20 | Warn \<Rightarrow> 30 | Error \<Rightarrow> 40)"

text \<open>\<open>stringifyLogPayload\<close>: the replacer turns a BigInt into its text.\<close>

fun bigints_as_text :: "js \<Rightarrow> js"
  and bigints_in_elements :: "js list \<Rightarrow> js list"
  and bigints_in_members :: "(string \<times> js) list \<Rightarrow> (string \<times> js) list" where
  "bigints_as_text (BigInt n) = Str (int_string n)"
| "bigints_as_text (Arr vs) = Arr (bigints_in_elements vs)"
| "bigints_as_text (Obj ps) = Obj (bigints_in_members ps)"
| "bigints_as_text v = v"
| "bigints_in_elements [] = []"
| "bigints_in_elements (v # vs) = bigints_as_text v # bigints_in_elements vs"
| "bigints_in_members [] = []"
| "bigints_in_members ((k, v) # ps) = (k, bigints_as_text v) # bigints_in_members ps"

definition stringify_log_payload :: "(string \<times> js) list \<Rightarrow> string option" where
  "stringify_log_payload payload = json_text (bigints_as_text (Obj payload))"

text \<open>An object spread: the properties of the second overwrite in place or are appended.\<close>

definition spread :: "(string \<times> js) list \<Rightarrow> (string \<times> js) list \<Rightarrow> (string \<times> js) list" where
  "spread base extra = fold (\<lambda>(k, v) ps. AList.update k v ps) extra base"

definition log_payload :: "string \<Rightarrow> log_level \<Rightarrow> string \<Rightarrow> (string \<times> js) list option \<Rightarrow> (string \<times> js) list" where
  "log_payload iso_now level message meta =
     (let base = [(''ts'', Str iso_now), (''level'', Str (level_text level)), (''message'', Str message)]
      in case redact_meta meta of None \<Rightarrow> base | Some safe \<Rightarrow> spread base safe)"

text \<open>What \<open>createLogger(threshold)\<close> writes: nothing, or a line on \<open>console.error\<close> or \<open>console.log\<close>.\<close>

definition write_log ::
    "log_level \<Rightarrow> string \<Rightarrow> log_level \<Rightarrow> string \<Rightarrow> (string \<times> js) list option \<Rightarrow> (string \<times> string option) option" where
  "write_log threshold iso_now level message meta =
     (if LOG_LEVEL_WEIGHT level < LOG_LEVEL_WEIGHT threshold then None
      else Some (if level = Error then ''error'' else ''log'', stringify_log_payload (log_payload iso_now level message meta)))"

lemma exposed_members_iff:
  "exposed_members ps = [] \<longleftrightarrow> (\<forall>(k, v) \<in> set ps. if is_sensitive_key k then v = Str REDACTED else exposed v = [])"
  by (induction ps) (auto split: if_splits)

lemma update_members: "set (AList.update k v ps) \<subseteq> insert (k, v) (set ps)"
  by (induction ps) auto

lemma spread_not_exposed:
  "exposed_members base = [] \<Longrightarrow> exposed_members extra = [] \<Longrightarrow> exposed_members (spread base extra) = []"
proof (induction extra arbitrary: base)
  case (Cons p extra)
  obtain k v where p: "p = (k, v)" by fastforce
  have "exposed_members (AList.update k v base) = []"
  proof -
    have "\<forall>(k, v) \<in> insert (k, v) (set base). if is_sensitive_key k then v = Str REDACTED else exposed v = []"
      using Cons.prems unfolding p exposed_members_iff by simp
    then show ?thesis unfolding exposed_members_iff using update_members [of k v base] by blast
  qed
  with Cons.IH [of "AList.update k v base"] Cons.prems(2) show ?case by (simp add: p spread_def)
qed (simp add: spread_def)

lemma spread_lookup: "distinct (map fst extra) \<Longrightarrow> map_of (spread base extra) k = (case map_of extra k of None \<Rightarrow> map_of base k | Some v \<Rightarrow> Some v)"
proof (induction extra arbitrary: base)
  case (Cons p extra)
  obtain k' v where p: "p = (k', v)" by fastforce
  have "map_of (spread (AList.update k' v base) extra) k = (case map_of extra k of None \<Rightarrow> map_of (AList.update k' v base) k | Some v \<Rightarrow> Some v)"
    using Cons by (simp add: p)
  moreover have "map_of extra k' = None" using Cons.prems by (simp add: p map_of_eq_None_iff)
  ultimately show ?case by (auto simp: p spread_def split: option.splits)
qed (simp add: spread_def)

lemma redact_members_keys: "map fst (redact_members d ps) = map fst ps"
  by (induction ps) auto

lemma redact_members_lookup: "map_of (redact_members d ps) k =
    map_option (\<lambda>v. if is_sensitive_key k then Str REDACTED else redact_object d v) (map_of ps k)"
  by (induction ps) auto

text \<open>
  C34: a line of the indexer's logger shows no secret. Metadata nested no deeper than eleven levels leaves
  no property with a sensitive name, at any level and in any spelling, with anything but the placeholder
  in the payload; every other property of the metadata is in the payload with its content unchanged up to
  the secrets in it; and a line is written exactly when its level reaches the threshold.
\<close>

theorem log_lines_redacted:
  assumes "js_depth (Obj meta) \<le> 11" "distinct (map fst meta)"
  shows "exposed (Obj (log_payload iso_now level message (Some meta))) = []
    \<and> (map_of meta k = Some v \<and> \<not> is_sensitive_key k \<longrightarrow>
        map_option public_part (map_of (log_payload iso_now level message (Some meta)) k) = Some (public_part v))
    \<and> (write_log threshold iso_now level message (Some meta) = None \<longleftrightarrow> LOG_LEVEL_WEIGHT level < LOG_LEVEL_WEIGHT threshold)"
proof (intro conjI impI)
  have payload: "log_payload iso_now level message (Some meta)
      = spread [(''ts'', Str iso_now), (''level'', Str (level_text level)), (''message'', Str message)] (redact_members 1 meta)"
    by (simp add: log_payload_def redact_meta_def)
  have "exposed_members (redact_members 1 meta) = []" using redact_not_exposed(3) [of meta 1] assms(1) by simp
  moreover have "\<not> is_sensitive_key ''ts''" "\<not> is_sensitive_key ''level''" "\<not> is_sensitive_key ''message''" by code_simp+
  ultimately show "exposed (Obj (log_payload iso_now level message (Some meta))) = []"
    unfolding payload exposed.simps by (intro spread_not_exposed) simp_all
  assume kv: "map_of meta k = Some v \<and> \<not> is_sensitive_key k"
  have "map_of (log_payload iso_now level message (Some meta)) k = Some (redact_object 1 v)"
  proof -
    have "distinct (map fst (redact_members 1 meta))" using assms(2) by (simp add: redact_members_keys)
    note look = spread_lookup [OF this]
    have "map_of (redact_members 1 meta) k = Some (redact_object 1 v)"
      unfolding redact_members_lookup using kv by (metis (mono_tags, lifting) option.simps(9))
    then show ?thesis by (simp only: payload look option.simps)
  qed
  then show "map_option public_part (map_of (log_payload iso_now level message (Some meta)) k) = Some (public_part v)"
    by (simp add: redact_public)
qed (simp add: write_log_def)

theorem log_lines_redacted_witness:
  "log_payload ''now'' Info ''hi'' (Some [(''user'', Obj [(''Token'', Str ''s'')]), (''n'', Num 1)])
     = [(''ts'', Str ''now''), (''level'', Str ''info''), (''message'', Str ''hi''), (''user'', Obj [(''Token'', Str REDACTED)]), (''n'', Num 1)]
   \<and> exposed (Obj (log_payload ''now'' Info ''hi'' (Some [(''user'', Obj [(''Token'', Str ''s'')]), (''n'', Num 1)]))) = []"
proof -
  have "is_sensitive_key ''Token''" "\<not> is_sensitive_key ''user''" "\<not> is_sensitive_key ''n''" by code_simp+
  then have "log_payload ''now'' Info ''hi'' (Some [(''user'', Obj [(''Token'', Str ''s'')]), (''n'', Num 1)])
     = [(''ts'', Str ''now''), (''level'', Str ''info''), (''message'', Str ''hi''), (''user'', Obj [(''Token'', Str REDACTED)]), (''n'', Num 1)]"
    by (simp add: log_payload_def redact_meta_def spread_def level_text_def)
  moreover have "exposed (Obj (log_payload ''now'' Info ''hi'' (Some [(''user'', Obj [(''Token'', Str ''s'')]), (''n'', Num 1)]))) = []"
    using log_lines_redacted [of "[(''user'', Obj [(''Token'', Str ''s'')]), (''n'', Num 1)]"] by simp
  ultimately show ?thesis by blast
qed

text \<open>Deeper secrets are shown: a value at the twelfth level passes as it is.\<close>

lemma deep_secret_shown: "redact_object 11 (Obj [(''token'', Str ''s'')]) = Obj [(''token'', Str ''s'')]"
  by simp

subsection \<open>The shared logger\<close>

definition LEVEL_INDEX :: "log_level \<Rightarrow> nat" where
  "LEVEL_INDEX l = (case l of Debug \<Rightarrow> 0 | Info \<Rightarrow> 1 | Warn \<Rightarrow> 2 | Error \<Rightarrow> 3)"

definition LOG_LEVELS :: "log_level list" where "LOG_LEVELS = [Debug, Info, Warn, Error]"

definition level_of_text :: "string \<Rightarrow> log_level option" where
  "level_of_text s = find (\<lambda>l. level_text l = s) LOG_LEVELS"

record shared_logger =
  sl_level :: log_level
  sl_prefix :: string

definition validate_msg :: "js \<Rightarrow> string + string" where
  "validate_msg msg = (case msg of Str s \<Rightarrow> Inr s | _ \<Rightarrow> Inl (''Log message must be a string, got: '' @ js_typeof msg))"

definition validate_prefix :: "js \<Rightarrow> string + string" where
  "validate_prefix p = (case p of Str s \<Rightarrow> Inr s | _ \<Rightarrow> Inl (''Logger prefix must be a string, got: '' @ js_typeof p))"

definition validate_log_level :: "js \<Rightarrow> string + log_level" where
  "validate_log_level level = of_option (''Invalid log level: '' @ js_string level)
     (case level of Str s \<Rightarrow> level_of_text s | _ \<Rightarrow> None)"

text \<open>The constructor, with the text it writes to standard error; \<open>env\<close> is \<open>LOG_LEVEL\<close>.\<close>

definition new_logger :: "js \<Rightarrow> js \<Rightarrow> string option \<Rightarrow> (string + shared_logger) \<times> string list" where
  "new_logger p level env = (case validate_prefix p of
     Inl e \<Rightarrow> (Inl e, [])
   | Inr pre \<Rightarrow>
       if level \<noteq> Undefined then (res_bind (validate_log_level level) (\<lambda>l. Inr \<lparr>sl_level = l, sl_prefix = pre\<rparr>), [])
       else (case env of
           Some (c # s) \<Rightarrow> (case level_of_text (c # s) of
               Some l \<Rightarrow> (Inr \<lparr>sl_level = l, sl_prefix = pre\<rparr>, [])
             | None \<Rightarrow> (Inr \<lparr>sl_level = Info, sl_prefix = pre\<rparr>, [''Invalid LOG_LEVEL \"'' @ c # s @ ''\", falling back to \"info\"'' @ [char_of (10::nat)]]))
         | _ \<Rightarrow> (Inr \<lparr>sl_level = Info, sl_prefix = pre\<rparr>, [])))"

definition should_log :: "log_level \<Rightarrow> shared_logger \<Rightarrow> bool" where
  "should_log level lg \<longleftrightarrow> LEVEL_INDEX (sl_level lg) \<le> LEVEL_INDEX level"

definition format_msg :: "string \<Rightarrow> shared_logger \<Rightarrow> string" where
  "format_msg msg lg = (if sl_prefix lg \<noteq> [] then ''['' @ sl_prefix lg @ ''] '' @ msg else msg)"

text \<open>\<open>debug\<close>, \<open>info\<close>, \<open>warn\<close> and \<open>error\<close>: the console method and the text, if anything.\<close>

definition log_at :: "log_level \<Rightarrow> js \<Rightarrow> shared_logger \<Rightarrow> string + (string \<times> string) option" where
  "log_at level msg lg = res_bind (validate_msg msg) (\<lambda>s.
     Inr (if should_log level lg then Some (level_text level, format_msg s lg) else None))"

definition child_logger :: "js \<Rightarrow> shared_logger \<Rightarrow> string + shared_logger" where
  "child_logger p lg = res_bind (validate_prefix p) (\<lambda>c.
     fst (new_logger (Str (if sl_prefix lg \<noteq> [] then sl_prefix lg @ '':'' @ c else c)) (Str (level_text (sl_level lg))) None))"

definition shared_log :: "string \<Rightarrow> string \<Rightarrow> (string \<times> js) list \<Rightarrow> string option" where
  "shared_log iso_now msg extra = json_text (Obj (spread [(''ts'', Str iso_now), (''level'', Str ''info''),
     (''component'', Str ''shared''), (''message'', Str msg)] extra))"

lemma level_round_trip: "level_of_text (level_text l) = Some l"
  by (cases l) (simp_all add: level_of_text_def LOG_LEVELS_def level_text_def)

text \<open>A child logs at the levels of its parent, with the prefixes joined.\<close>

lemma child_logs_like_parent:
  "child_logger (Str c) lg = Inr \<lparr>sl_level = sl_level lg, sl_prefix = if sl_prefix lg \<noteq> [] then sl_prefix lg @ '':'' @ c else c\<rparr>"
  by (simp add: child_logger_def validate_prefix_def new_logger_def validate_log_level_def level_round_trip)

text \<open>Both loggers order the levels alike.\<close>

lemma thresholds_agree: "LEVEL_INDEX l \<le> LEVEL_INDEX m \<longleftrightarrow> \<not> LOG_LEVEL_WEIGHT m < LOG_LEVEL_WEIGHT l"
  by (cases l; cases m) (simp_all add: LEVEL_INDEX_def LOG_LEVEL_WEIGHT_def)

subsection \<open>Request middleware\<close>

definition request_sensitive_keys :: "string list" where
  "request_sensitive_keys = [''password'', ''secret'', ''token'', ''accesstoken'', ''access_token'', ''refreshtoken'',
     ''refresh_token'', ''apikey'', ''api_key'', ''x-api-key'', ''authorization'', ''auth'', ''cookie'', ''set-cookie'', ''session'',
     ''privatekey'', ''private_key'', ''secretkey'', ''secret_key'', ''signingkey'', ''signing_key'', ''mnemonic'', ''seed'',
     ''x-auth-token'', ''x-user-token'']"

definition is_request_sensitive_key :: "string \<Rightarrow> bool" where
  "is_request_sensitive_key key \<longleftrightarrow> to_lower key \<in> set request_sensitive_keys"

definition is_sensitive_header :: "string \<Rightarrow> bool" where
  "is_sensitive_header name \<longleftrightarrow> (let low = to_lower name in
     low = ''authorization'' \<or> low = ''cookie'' \<or> low = ''set-cookie'' \<or> low = ''x-api-key'' \<or> low = ''x-auth-token''
     \<or> is_request_sensitive_key low)"

text \<open>\<open>a || b || c\<close> on texts, kept only when it is a Stellar address.\<close>

definition safe_user_address :: "string option \<Rightarrow> string option \<Rightarrow> string option \<Rightarrow> string option" where
  "safe_user_address param header_user header_address =
     (case or_text param (or_text header_user header_address) of
        Some s \<Rightarrow> if stellar_public_key s then Some s else None | None \<Rightarrow> None)"

definition request_entry :: "string \<Rightarrow> string \<Rightarrow> string \<Rightarrow> string option \<Rightarrow> (string \<times> js) list" where
  "request_entry request_id http_method url user = [(''type'', Str ''request''), (''requestId'', Str request_id),
     (''method'', Str http_method), (''path'', Str url)] @ (case user of None \<Rightarrow> [] | Some u \<Rightarrow> [(''userAddress'', Str u)])"

definition response_level :: "int \<Rightarrow> log_level" where
  "response_level status = (if 500 \<le> status then Error else if 400 \<le> status then Warn else Info)"

definition response_entry :: "string \<Rightarrow> string \<Rightarrow> string \<Rightarrow> int \<Rightarrow> number \<Rightarrow> (string \<times> js) list" where
  "response_entry request_id http_method url status elapsed = [(''type'', Str ''response''), (''requestId'', Str request_id),
     (''method'', Str http_method), (''path'', Str url), (''statusCode'', Num (of_int status)), (''durationMs'', Num (of_int (math_round elapsed)))]"

definition hex_char :: "char \<Rightarrow> bool" where
  "hex_char c \<longleftrightarrow> is_digit c \<or> lower_char c \<in> set ''abcdef''"

definition UUID_REGEX :: "string \<Rightarrow> bool" where
  "UUID_REGEX s \<longleftrightarrow> (let parts = split_on (CHR ''-'') s in
     map length parts = [8, 4, 4, 4, 12] \<and> list_all (list_all hex_char) parts)"

definition make_gen_req_id :: "string \<Rightarrow> js \<Rightarrow> string" where
  "make_gen_req_id fallback header = (case header of Str s \<Rightarrow> if UUID_REGEX s then s else fallback | _ \<Rightarrow> fallback)"

definition cors_origin :: "string list \<Rightarrow> string option \<Rightarrow> string + bool" where
  "cors_origin allowed origin = (case origin of
     Some (c # s) \<Rightarrow> if c # s \<in> set allowed then Inr True
       else Inl (''Origin '' @ CHR 0x27 # (c # s) @ CHR 0x27 # '' not allowed by CORS policy'')
   | _ \<Rightarrow> Inr True)"

text \<open>The header check is its own copy of the registry of sensitive keys: a key the registry knows can be
  unknown to it.\<close>

lemma request_keys_incomplete: "is_sensitive_key ''id_token'' \<and> \<not> is_sensitive_header ''id_token''"
  by code_simp

text \<open>Every identifier the server works with is a UUID, if the fallback is; only a configured origin passes.\<close>

lemma request_id_uuid: "UUID_REGEX fallback \<Longrightarrow> UUID_REGEX (make_gen_req_id fallback header)"
  by (cases header) (simp_all add: make_gen_req_id_def)

lemma cors_only_configured:
  "cors_origin (resolve_cors_allowed_origins ''production'' None) (Some (c # s)) \<noteq> Inr True"
  by (simp add: cors_origin_def resolve_cors_allowed_origins_def trim_def)

end
