(* ===== verification/SafeJson.thy ===== *)
theory SafeJson
  imports ResolutionReport
begin

text \<open>
  \<open>apps/indexer/src/safeJson.ts\<close>: what the indexer's batch writer prints of records and errors. Objects
  can be shared and cyclic, so values live in a store: a value is a primitive (\<open>Lit\<close>) or the address of an
  array, an \<open>Error\<close> or an object. \<open>seen\<close> is the weak set of the objects met so far. The recursion need
  not end, so it has fuel, and \<open>None\<close> is running out of it (in the program, of stack).
\<close>

datatype jref = Lit js | Ref nat

datatype node =
  ArrNode "jref list"
| ErrNode string string "string option"
| ObjNode "(string \<times> jref) list"

type_synonym store = "nat \<Rightarrow> node"

text \<open>Primitives: \<open>undefined\<close> falls through to \<open>String(value)\<close>.\<close>

definition sanitize_primitive :: "js \<Rightarrow> js" where
  "sanitize_primitive v = (case v of
     Null \<Rightarrow> v | Str _ \<Rightarrow> v | Num _ \<Rightarrow> v | NaN \<Rightarrow> v | Bool _ \<Rightarrow> v
   | BigInt n \<Rightarrow> Str (int_string n)
   | _ \<Rightarrow> Str (js_string v))"

fun sanitize :: "nat \<Rightarrow> store \<Rightarrow> jref \<Rightarrow> nat list \<Rightarrow> (js \<times> nat list) option"
  and sanitize_elements :: "nat \<Rightarrow> store \<Rightarrow> jref list \<Rightarrow> nat list \<Rightarrow> (js list \<times> nat list) option"
  and sanitize_members :: "nat \<Rightarrow> store \<Rightarrow> (string \<times> jref) list \<Rightarrow> nat list \<Rightarrow> ((string \<times> js) list \<times> nat list) option" where
  "sanitize 0 h v seen = None"
| "sanitize (Suc n) h (Lit v) seen = Some (sanitize_primitive v, seen)"
| "sanitize (Suc n) h (Ref a) seen = (case h a of
     ArrNode vs \<Rightarrow> map_option (\<lambda>(rs, seen'). (Arr rs, seen')) (sanitize_elements n h vs seen)
   | ErrNode name message stack \<Rightarrow> Some (Obj [(''name'', Str name), (''message'', Str message),
       (''stack'', case stack of None \<Rightarrow> Null | Some s \<Rightarrow> Str s)], seen)
   | ObjNode ps \<Rightarrow> if a \<in> set seen then Some (Str ''[Circular]'', seen)
       else map_option (\<lambda>(rs, seen'). (Obj rs, seen')) (sanitize_members n h ps (a # seen)))"
| "sanitize_elements n h [] seen = Some ([], seen)"
| "sanitize_elements n h (v # vs) seen = (case sanitize n h v seen of None \<Rightarrow> None
     | Some (r, seen') \<Rightarrow> map_option (\<lambda>(rs, seen''). (r # rs, seen'')) (sanitize_elements n h vs seen'))"
| "sanitize_members n h [] seen = Some ([], seen)"
| "sanitize_members n h ((k, v) # ps) seen = (case sanitize n h v seen of None \<Rightarrow> None
     | Some (r, seen') \<Rightarrow> map_option (\<lambda>(rs, seen''). ((k, r) # rs, seen'')) (sanitize_members n h ps seen'))"

definition safe_stringify :: "nat \<Rightarrow> store \<Rightarrow> jref \<Rightarrow> string option option" where
  "safe_stringify n h v = map_option (\<lambda>(x, seen). json_text x) (sanitize n h v [])"

subsection \<open>It ends when arrays do not contain themselves\<close>

text \<open>A rank on the store: an array is above every array in it; other nodes have rank 0. The objects are
  the finite set \<open>objs\<close>, and they may refer to each other and to themselves.\<close>

definition rank_of :: "(nat \<Rightarrow> nat) \<Rightarrow> jref \<Rightarrow> nat" where
  "rank_of rank v = (case v of Lit _ \<Rightarrow> 0 | Ref a \<Rightarrow> rank a)"

definition store_ok :: "store \<Rightarrow> (nat \<Rightarrow> nat) \<Rightarrow> nat \<Rightarrow> nat set \<Rightarrow> bool" where
  "store_ok h rank R objs \<longleftrightarrow> finite objs \<and> (\<forall>a. rank a \<le> R) \<and> (\<forall>a. case h a of
     ArrNode vs \<Rightarrow> 0 < rank a \<and> (\<forall>v \<in> set vs. rank_of rank v < rank a)
   | ErrNode _ _ _ \<Rightarrow> True
   | ObjNode ps \<Rightarrow> a \<in> objs)"

text \<open>What \<open>JSON.stringify\<close> prints without losing anything.\<close>

fun json_like :: "js \<Rightarrow> bool"
  and json_like_elements :: "js list \<Rightarrow> bool"
  and json_like_members :: "(string \<times> js) list \<Rightarrow> bool" where
  "json_like (Arr vs) = json_like_elements vs"
| "json_like (Obj ps) = json_like_members ps"
| "json_like Undefined = False"
| "json_like (BigInt n) = False"
| "json_like (Bytes bs) = False"
| "json_like v = True"
| "json_like_elements [] = True"
| "json_like_elements (v # vs) = (json_like v \<and> json_like_elements vs)"
| "json_like_members [] = True"
| "json_like_members ((k, v) # ps) = (json_like v \<and> json_like_members ps)"

text \<open>The fuel that is enough with \<open>c\<close> objects left and a value of rank \<open>r\<close>.\<close>

definition fuel_for :: "nat \<Rightarrow> nat \<Rightarrow> nat \<Rightarrow> nat" where
  "fuel_for R c r = c * (R + 2) + r + 1"

lemma fuel_mono: "c \<le> c' \<Longrightarrow> r \<le> r' \<Longrightarrow> fuel_for R c r \<le> fuel_for R c' r'"
  by (simp add: fuel_for_def add_mono mult_le_mono1)

definition unseen :: "nat set \<Rightarrow> nat list \<Rightarrow> nat" where
  "unseen objs seen = card (objs - set seen)"

lemma unseen_mono: "finite objs \<Longrightarrow> set seen \<subseteq> set seen' \<Longrightarrow> unseen objs seen' \<le> unseen objs seen"
  unfolding unseen_def by (rule card_mono) auto

lemma unseen_Cons: "finite objs \<Longrightarrow> a \<in> objs \<Longrightarrow> a \<notin> set seen \<Longrightarrow> Suc (unseen objs (a # seen)) = unseen objs seen"
proof -
  assume A: "finite objs" "a \<in> objs" "a \<notin> set seen"
  have "objs - set (a # seen) = (objs - set seen) - {a}" by auto
  moreover have "Suc (card ((objs - set seen) - {a})) = card (objs - set seen)" using A by (intro card_Suc_Diff1) auto
  ultimately show "Suc (unseen objs (a # seen)) = unseen objs seen" by (simp only: unseen_def)
qed

lemma elements_total:
  assumes step: "\<And>v seen. rank_of rank v \<le> r \<Longrightarrow> fuel_for R (unseen objs seen) (rank_of rank v) \<le> n \<Longrightarrow>
      \<exists>x seen'. sanitize n h v seen = Some (x, seen') \<and> json_like x \<and> set seen \<subseteq> set seen'"
    and fin: "finite objs" and ranks: "\<forall>v \<in> set vs. rank_of rank v \<le> r" and fuel: "fuel_for R (unseen objs seen) r \<le> n"
  shows "\<exists>xs seen'. sanitize_elements n h vs seen = Some (xs, seen') \<and> json_like_elements xs \<and> set seen \<subseteq> set seen'"
  using ranks fuel
proof (induction vs arbitrary: seen)
  case (Cons v vs)
  have "fuel_for R (unseen objs seen) (rank_of rank v) \<le> n"
    using Cons.prems fuel_mono [OF order.refl, of "rank_of rank v" r R "unseen objs seen"] by simp
  then obtain x seen1 where x: "sanitize n h v seen = Some (x, seen1)" "json_like x" "set seen \<subseteq> set seen1"
    using step [of v seen] Cons.prems(1) by auto
  have "fuel_for R (unseen objs seen1) r \<le> n"
    using fuel_mono [OF unseen_mono [OF fin x(3)] order.refl, of R r] Cons.prems(2) by simp
  then obtain xs seen2 where "sanitize_elements n h vs seen1 = Some (xs, seen2)" "json_like_elements xs" "set seen1 \<subseteq> set seen2"
    using Cons.IH [of seen1] Cons.prems(1) by auto
  then show ?case using x by auto
qed simp

lemma members_elements:
  "sanitize_members n h ps seen = map_option (\<lambda>(xs, seen'). (zip (map fst ps) xs, seen')) (sanitize_elements n h (map snd ps) seen)"
  by (induction ps arbitrary: seen) (auto split: option.split simp: option.map_comp comp_def case_prod_unfold)

lemma members_like: "json_like_elements xs \<Longrightarrow> json_like_members (zip ks xs)"
  by (induction ks xs rule: list_induct2') auto

lemma sanitize_total:
  assumes ok: "store_ok h rank R objs"
  shows "rank_of rank v \<le> R \<Longrightarrow> fuel_for R (unseen objs seen) (rank_of rank v) \<le> n \<Longrightarrow>
      \<exists>x seen'. sanitize n h v seen = Some (x, seen') \<and> json_like x \<and> set seen \<subseteq> set seen'"
proof (induction n arbitrary: v seen)
  case 0
  then show ?case by (simp add: fuel_for_def)
next
  case (Suc n)
  have fin: "finite objs" and le: "rank b \<le> R" for b using ok by (auto simp: store_ok_def)
  have all: "rank_of rank u \<le> R" for u using le by (cases u) (simp_all add: rank_of_def)
  show ?case
  proof (cases v)
    case (Lit p)
    then show ?thesis by (cases p) (auto simp: sanitize_primitive_def)
  next
    case (Ref a)
    show ?thesis
    proof (cases "h a")
      case (ArrNode vs)
      have rank: "0 < rank a" "\<forall>u \<in> set vs. rank_of rank u < rank a"
        using ok ArrNode by (auto simp: store_ok_def dest!: spec [of _ a])
      have "\<forall>u \<in> set vs. rank_of rank u \<le> rank a - 1" using rank by auto
      moreover have "fuel_for R (unseen objs seen) (rank a - 1) \<le> n"
        using Suc.prems(2) rank(1) by (simp add: Ref rank_of_def fuel_for_def)
      ultimately obtain xs seen' where "sanitize_elements n h vs seen = Some (xs, seen')" "json_like_elements xs" "set seen \<subseteq> set seen'"
        using elements_total [where r = "rank a - 1" and rank = rank, OF Suc.IH [OF all] fin] by blast
      then show ?thesis by (simp add: Ref ArrNode)
    next
      case (ErrNode name message stack)
      then show ?thesis by (cases stack) (simp_all add: Ref)
    next
      case (ObjNode ps)
      then have a: "a \<in> objs" using ok by (auto simp: store_ok_def dest!: spec [of _ a])
      show ?thesis
      proof (cases "a \<in> set seen")
        case True
        then show ?thesis by (simp add: Ref ObjNode)
      next
        case False
        note left = unseen_Cons [OF fin a False]
        have "fuel_for R (unseen objs (a # seen)) R \<le> n"
          using Suc.prems(2) by (simp add: fuel_for_def left [symmetric])
        moreover have "\<forall>u \<in> set (map snd ps). rank_of rank u \<le> R" using all by simp
        ultimately obtain xs seen' where "sanitize_elements n h (map snd ps) (a # seen) = Some (xs, seen')" "json_like_elements xs"
            "set (a # seen) \<subseteq> set seen'"
          using elements_total [where r = R and rank = rank, OF Suc.IH [OF all] fin] by blast
        then show ?thesis using False by (auto simp: Ref ObjNode members_elements members_like)
      qed
    qed
  qed
qed

text \<open>
  C37: \<open>sanitizeForJson\<close> ends on every value whose arrays do not contain themselves, however its objects
  refer to one another, cycles included, and its result has no \<open>bigint\<close>, no \<open>undefined\<close> and no other value
  that \<open>JSON.stringify\<close> rejects or drops. Recursion \<open>(n + 1) (R + 2)\<close> deep is enough for \<open>n\<close> objects and arrays
  nested \<open>R\<close> deep.
\<close>

theorem sanitize_terminates:
  assumes "store_ok h rank R objs" "(card objs + 1) * (R + 2) \<le> n"
  shows "\<exists>x seen. sanitize n h v [] = Some (x, seen) \<and> json_like x"
proof -
  have "rank_of rank v \<le> R" using assms(1) by (cases v) (simp_all add: store_ok_def rank_of_def)
  moreover from this have "fuel_for R (unseen objs []) (rank_of rank v) \<le> n"
    using assms(2) by (simp add: fuel_for_def unseen_def)
  ultimately show ?thesis using sanitize_total [OF assms(1), of v "[]" n] by blast
qed

text \<open>An order that refers to its market and the market back to a list of its orders.\<close>

definition demo_store :: store where
  "demo_store a = (if a = 0 then ObjNode [(''id'', Lit (BigInt 5)), (''market'', Ref 1)]
     else if a = 1 then ObjNode [(''orders'', Ref 2)] else if a = 2 then ArrNode [Ref 0, Lit Undefined] else ErrNode [] [] None)"

theorem sanitize_terminates_witness:
  "\<exists>x seen. sanitize 9 demo_store (Ref 0) [] = Some (x, seen) \<and> json_like x
     \<and> x = Obj [(''id'', Str (int_string 5)), (''market'', Obj [(''orders'', Arr [Str ''[Circular]'', Str ''undefined''])])]"
proof -
  have "store_ok demo_store (\<lambda>a. if a = 2 then 1 else 0) 1 {0, 1}"
    by (auto simp: store_ok_def demo_store_def rank_of_def)
  from sanitize_terminates [OF this, of 9 "Ref 0"]
  obtain x seen where x: "sanitize 9 demo_store (Ref 0) [] = Some (x, seen)" "json_like x" by auto
  moreover have "sanitize 9 demo_store (Ref 0) [] = Some (Obj [(''id'', Str (int_string 5)),
      (''market'', Obj [(''orders'', Arr [Str ''[Circular]'', Str ''undefined''])])], [1, 0])"
    by (simp add: numeral_eq_Suc demo_store_def sanitize_primitive_def)
  ultimately show ?thesis by auto
qed

text \<open>An array that contains itself is followed without end, and an object met twice is printed as circular
  though it is not.\<close>

lemma circular_array_diverges: "h a = ArrNode [Ref a] \<Longrightarrow> sanitize n h (Ref a) seen = None"
  by (induction n) auto

lemma shared_object_circular:
  "h a = ArrNode [Ref b, Ref b] \<Longrightarrow> h b = ObjNode [] \<Longrightarrow> sanitize 2 h (Ref a) [] = Some (Arr [Obj [], Str ''[Circular]''], [b])"
  by (simp add: numeral_2_eq_2)

end
