(* ===== verification/IndexerHttp.thy ===== *)
theory IndexerHttp
  imports MarketRoutes OrderRoutes Logging
begin

text \<open>
  The read-only HTTP surfaces beside the main API: \<open>apps/indexer/src/routes/markets.ts\<close>,
  \<open>apps/indexer/src/middleware/cors.ts\<close> and \<open>apps/api/routes/orders.ts\<close>, whose pages are cut by offset, and the
  indexer's older parser \<open>apps/indexer/market-created-parser.ts\<close>. Query options are absent or valid, by the
  schemas of the routes. \<open>JSON.stringify\<close> prints dates with \<open>toISOString\<close> (\<open>iso_date\<close>).
\<close>

subsection \<open>Markets and orders\<close>

definition indexer_markets :: "(int \<Rightarrow> string) \<Rightarrow> market_row list \<Rightarrow> market_status option \<Rightarrow> nat option \<Rightarrow> http_reply" where
  "indexer_markets iso_date rows status limit =
     (let hits = filter (\<lambda>m. case status of None \<Rightarrow> True | Some s \<Rightarrow> mr_status m = s) rows;
          page = take (case limit of None \<Rightarrow> 50 | Some n \<Rightarrow> n) (sort_key (\<lambda>m. - mr_created m) hits)
      in (200, Obj [(''markets'', Arr (map (to_market_dto iso_date) page)), (''count'', Num (of_int (int (length page))))]))"

definition indexer_market :: "(int \<Rightarrow> string) \<Rightarrow> market_row list \<Rightarrow> string \<Rightarrow> http_reply" where
  "indexer_market iso_date rows i = (case find (\<lambda>m. mr_id m = i) rows of
     None \<Rightarrow> (404, Obj [(''error'', Str ''Market not found'')])
   | Some m \<Rightarrow> (200, Obj [(''market'', to_market_dto iso_date m)]))"

record order_page =
  oq_orders :: "db_order list"
  oq_total :: nat
  oq_has_next :: bool
  oq_page :: nat
  oq_limit :: nat

text \<open>The order of \<open>orderBy: [{ createdAt: "desc" }, { id: "desc" }]\<close> is \<open>newest_first\<close>.\<close>

definition with_status :: "order_status option \<Rightarrow> db_order list \<Rightarrow> db_order list" where
  "with_status status rows = filter (\<lambda>d. case status of None \<Rightarrow> True | Some s \<Rightarrow> do_status d = s) rows"

definition list_orders :: "db_order list \<Rightarrow> order_status option \<Rightarrow> nat option \<Rightarrow> nat option \<Rightarrow> order_page" where
  "list_orders rows status page_no page_limit =
     (let page = (case page_no of None \<Rightarrow> 1 | Some n \<Rightarrow> n); limit = (case page_limit of None \<Rightarrow> 20 | Some n \<Rightarrow> n);
          hits = with_status status rows;
          skip = (page - 1) * limit; found = take limit (drop skip (newest_first hits)); total = length hits
      in \<lparr>oq_orders = found, oq_total = total, oq_has_next = skip + length found < total, oq_page = page, oq_limit = limit\<rparr>)"

text \<open>\<open>order_dto\<close> is how a row is printed.\<close>

definition get_order :: "(db_order \<Rightarrow> js) \<Rightarrow> db_order list \<Rightarrow> string \<Rightarrow> http_reply" where
  "get_order order_dto rows i = (case find (\<lambda>d. do_id d = i) rows of
     None \<Rightarrow> (404, Obj [(''error'', Str ''Order not found'')])
   | Some d \<Rightarrow> (200, Obj [(''order'', order_dto d)]))"

text \<open>A client that follows the pages while \<open>hasNext\<close> holds.\<close>

function page_through :: "db_order list \<Rightarrow> order_status option \<Rightarrow> nat \<Rightarrow> nat \<Rightarrow> db_order list" where
  "page_through rows status limit page =
     (let p = list_orders rows status (Some page) (Some limit)
      in oq_orders p @ (if oq_has_next p \<and> 0 < limit \<and> 0 < page then page_through rows status limit (page + 1) else []))"
  by pat_completeness auto

termination
proof (relation "measure (\<lambda>(rows, status, limit, page). Suc (length rows) - (page - 1) * limit)", goal_cases)
  case (2 rows status limit page p)
  have "(page - 1) * limit < length (with_status status rows)" using 2 by (simp add: list_orders_def Let_def)
  moreover have "length (with_status status rows) \<le> length rows" unfolding with_status_def by (rule length_filter_le)
  ultimately have "(page - 1) * limit < length rows" by (rule order.strict_trans2)
  moreover have "(page + 1 - 1) * limit = (page - 1) * limit + limit" using 2 by (cases page) simp_all
  moreover have "0 < limit" using 2 by simp
  ultimately show ?case by simp
qed simp

declare page_through.simps [simp del]

lemma page_through_rest:
  assumes "0 < limit"
  shows "page_through rows status limit (Suc k) = drop (k * limit) (newest_first (with_status status rows))"
proof (induction "length rows - k * limit" arbitrary: k rule: less_induct)
  case less
  let ?all = "newest_first (with_status status rows)"
  have len: "length ?all = length (with_status status rows)" by (simp add: newest_first_def)
  have le: "length (with_status status rows) \<le> length rows" unfolding with_status_def by (rule length_filter_le)
  have p: "op_orders_page = take limit (drop (k * limit) ?all)"
    if "op_orders_page = oq_orders (list_orders rows status (Some (Suc k)) (Some limit))" for op_orders_page
    using that by (simp add: list_orders_def Let_def)
  have more: "oq_has_next (list_orders rows status (Some (Suc k)) (Some limit)) \<longleftrightarrow> k * limit + limit < length ?all"
    by (auto simp: list_orders_def Let_def len min_def)
  show ?case
  proof (cases "k * limit + limit < length ?all")
    case True
    then have "length rows - Suc k * limit < length rows - k * limit" using le len assms by simp
    from less [OF this] have "page_through rows status limit (Suc (Suc k)) = drop limit (drop (k * limit) ?all)" by simp
    moreover have "take limit (drop (k * limit) ?all) @ drop limit (drop (k * limit) ?all) = drop (k * limit) ?all"
      by (rule append_take_drop_id)
    ultimately show ?thesis using True p [OF refl] more assms by (subst page_through.simps) (simp add: Let_def)
  next
    case False
    then have "take limit (drop (k * limit) ?all) = drop (k * limit) ?all" by simp
    then show ?thesis using False p [OF refl] more assms by (subst page_through.simps) (simp add: Let_def)
  qed
qed

text \<open>Following the pages lists every matching order once, the latest first.\<close>

lemma offset_pages_complete:
  assumes "0 < limit"
  shows "page_through rows status limit 1 = newest_first (with_status status rows)"
  using page_through_rest [OF assms, of rows status 0] by simp

subsection \<open>CORS\<close>

definition get_indexer_allowed_origins :: "string \<Rightarrow> string option \<Rightarrow> string list" where
  "get_indexer_allowed_origins node_env raw = resolve_cors_allowed_origins node_env raw"

definition indexer_cors_origin :: "env \<Rightarrow> string option \<Rightarrow> string + bool" where
  "indexer_cors_origin env origin = cors_origin
     (get_indexer_allowed_origins (case env ''NODE_ENV'' of None \<Rightarrow> ''development'' | Some e \<Rightarrow> e) (env ''CORS_ALLOWED_ORIGINS'')) origin"

text \<open>The check that both surfaces have the same policy: whether they match, and both lists.\<close>

definition verify_indexer_cors :: "url_parser \<Rightarrow> env \<Rightarrow> string + bool \<times> string list \<times> string list" where
  "verify_indexer_cors parse env = res_bind (load_base_config parse env) (\<lambda>base.
     let origins = get_indexer_allowed_origins (case env ''NODE_ENV'' of None \<Rightarrow> ''development'' | Some e \<Rightarrow> e) (env ''CORS_ALLOWED_ORIGINS'')
     in Inr (join_with '','' origins = join_with '','' (bc_origins base), origins, bc_origins base))"

text \<open>Both surfaces always have the same policy.\<close>

lemma indexer_cors_matches:
  "verify_indexer_cors parse env = Inr (same, origins, api_origins) \<Longrightarrow> same \<and> origins = api_origins"
proof -
  assume v: "verify_indexer_cors parse env = Inr (same, origins, api_origins)"
  then obtain base where base: "load_base_config parse env = Inr base"
    by (auto simp: verify_indexer_cors_def res_bind_Inr)
  obtain node_env where n: "load_node_env env = Inr node_env" "bc_origins base = resolve_cors_allowed_origins node_env (env ''CORS_ALLOWED_ORIGINS'')"
    using base by (auto simp: load_base_config_def res_bind_Inr)
  have "(node_env = ''production'') \<longleftrightarrow> (case env ''NODE_ENV'' of None \<Rightarrow> ''development'' | Some e \<Rightarrow> e) = ''production''"
    using n(1) by (auto simp: load_node_env_def unset_def raw_value_def Let_def split: option.splits if_splits)
  then have "get_indexer_allowed_origins (case env ''NODE_ENV'' of None \<Rightarrow> ''development'' | Some e \<Rightarrow> e) (env ''CORS_ALLOWED_ORIGINS'') = bc_origins base"
    by (simp add: get_indexer_allowed_origins_def n(2) resolve_cors_allowed_origins_def Let_def)
  then show ?thesis using v by (auto simp: verify_indexer_cors_def base Let_def)
qed

subsection \<open>The older parser of market events\<close>

record created_market =
  cm_id :: string
  cm_question :: string
  cm_end :: string
  cm_oracle :: string
  cm_status :: market_status
  cm_raw :: "(string \<times> js) list"

text \<open>\<open>/^G[A-Z0-9]{55}$/i\<close>\<close>

definition oracle_format :: "string \<Rightarrow> bool" where
  "oracle_format s \<longleftrightarrow> (case to_upper s of
     [] \<Rightarrow> False
   | c # cs \<Rightarrow> c = CHR ''G'' \<and> length cs = 55
       \<and> list_all (\<lambda>d. is_digit d \<or> (let n = of_char d :: nat in 65 \<le> n \<and> n \<le> 90)) cs)"

text \<open>\<open>new Date(x).toISOString()\<close> throws outside of the range of dates; \<open>iso_date\<close> prints an integral time.\<close>

definition date_iso :: "(int \<Rightarrow> string) \<Rightarrow> number \<Rightarrow> string + string" where
  "date_iso iso_date x = (if \<bar>x\<bar> \<le> 8640000000000000 then Inr (iso_date (if x < 0 then \<lceil>x\<rceil> else \<lfloor>x\<rfloor>)) else Inl ''Invalid time value'')"

text \<open>The result of \<open>parse\<close> is the time of a text, if it is a date. The first \<open>Inl\<close> is a returned error, a thrown
  one is caught by the parser.\<close>

definition normalize_end ::
    "(int \<Rightarrow> string) \<Rightarrow> (string \<Rightarrow> int option) \<Rightarrow> js \<Rightarrow> string + string" where
  "normalize_end iso_date parse v =
     (let thrown = (\<lambda>r. case r of Inl e \<Rightarrow> Inl (''Unexpected error during parsing: '' @ e) | Inr s \<Rightarrow> Inr s)
      in case v of
        Num x \<Rightarrow> thrown (date_iso iso_date (js_mul x 1000))
      | NaN \<Rightarrow> Inl ''Unexpected error during parsing: Invalid time value''
      | Str s \<Rightarrow>
          if all_digits s then thrown (date_iso iso_date (js_mul (fl (of_nat (digits_value s))) 1000))
          else (case parse s of None \<Rightarrow> Inl (''Invalid endTime format: '' @ s) | Some t \<Rightarrow> Inr (iso_date t))
      | _ \<Rightarrow> Inl (''Unsupported endTime type: '' @ js_typeof v))"

definition status_of_text :: "string \<Rightarrow> market_status" where
  "status_of_text s = (if s = ''RESOLVED'' then RESOLVED else if s = ''CANCELLED'' then CANCELLED_MARKET else ACTIVE)"

definition normalize_status :: "js \<Rightarrow> string + market_status" where
  "normalize_status v = (case v of
     Str s \<Rightarrow> Inr (status_of_text (to_upper s))
   | _ \<Rightarrow> if nullish v then Inr ACTIVE
       else Inl ''Unexpected error during parsing: rawEvent.status?.toUpperCase is not a function'')"

definition non_empty_text :: "string \<Rightarrow> js \<Rightarrow> string + string" where
  "non_empty_text name v = (case v of Str (c # s) \<Rightarrow> Inr (c # s) | _ \<Rightarrow> Inl (''Missing or invalid required field: '' @ name))"

definition parse_legacy_market ::
    "(int \<Rightarrow> string) \<Rightarrow> (string \<Rightarrow> int option) \<Rightarrow> (string \<times> js) list \<Rightarrow> string + created_market" where
  "parse_legacy_market iso_date parse raw =
     res_bind (non_empty_text ''id'' (get_prop ''id'' raw)) (\<lambda>i.
     res_bind (non_empty_text ''question'' (get_prop ''question'' raw)) (\<lambda>q.
     if nullish (get_prop ''endTime'' raw) then Inl ''Missing required field: endTime''
     else res_bind (non_empty_text ''oracleAddress'' (get_prop ''oracleAddress'' raw)) (\<lambda>address.
       let oracle = trim address in
       if \<not> oracle_format oracle then Inl (''Invalid oracle address format: '' @ oracle)
       else res_bind (normalize_end iso_date parse (get_prop ''endTime'' raw)) (\<lambda>end_time.
         res_bind (normalize_status (get_prop ''status'' raw)) (\<lambda>status.
           Inr \<lparr>cm_id = i, cm_question = q, cm_end = end_time, cm_oracle = oracle, cm_status = status, cm_raw = raw\<rparr>)))))"

text \<open>A parsed market has an identifier, a question and a well-formed oracle, its payload is the event, and it
  is active unless the event names another status.\<close>

lemma legacy_market_well_formed:
  assumes "parse_legacy_market iso_date parse raw = Inr m"
  shows "cm_id m \<noteq> [] \<and> get_prop ''id'' raw = Str (cm_id m) \<and> cm_question m \<noteq> [] \<and> oracle_format (cm_oracle m) \<and> cm_raw m = raw
    \<and> (cm_status m \<noteq> ACTIVE \<longrightarrow> (\<exists>s. get_prop ''status'' raw = Str s \<and> to_upper s = market_status_string (cm_status m)))"
proof -
  have "non_empty_text name v = Inr t \<longleftrightarrow> v = Str t \<and> t \<noteq> []" for name v t
    by (auto simp: non_empty_text_def split: js.splits list.splits)
  moreover have "normalize_status v = Inr s \<Longrightarrow> s \<noteq> ACTIVE \<Longrightarrow> \<exists>t. v = Str t \<and> to_upper t = market_status_string s" for v s
    by (auto simp: normalize_status_def status_of_text_def market_status_string_def split: js.splits if_splits)
  ultimately show ?thesis
    using assms by (auto simp: parse_legacy_market_def res_bind_Inr Let_def split: if_splits)
qed

end
