(* ===== verification/Database.thy ===== *)
theory Database
  imports JsNumeral Calls
begin

text \<open>
  Connections: the singletons of \<open>src/services/prisma.ts\<close>, the helpers of \<open>src/services/database.ts\<close> and the
  Redis settings of the job queues (\<open>apps/workers/src/shared/queue-config.ts\<close>). Clients and pools are
  numbered in the order they are made; the state also lists those that are open.
\<close>

subsection \<open>The Prisma client\<close>

record prisma_state =
  px_client :: "nat option"
  px_pool :: "nat option"
  px_next :: nat
  px_open_clients :: "nat list"
  px_open_pools :: "nat list"

definition initial_prisma :: prisma_state where
  "initial_prisma = \<lparr>px_client = None, px_pool = None, px_next = 0, px_open_clients = [], px_open_pools = []\<rparr>"

definition get_prisma_client :: "prisma_state \<Rightarrow> nat \<times> prisma_state" where
  "get_prisma_client st = (case px_client st of
     Some c \<Rightarrow> (c, st)
   | None \<Rightarrow> let n = px_next st in (n, st\<lparr>px_client := Some n, px_pool := Some n, px_next := n + 1,
       px_open_clients := n # px_open_clients st, px_open_pools := n # px_open_pools st\<rparr>))"

definition get_pool :: "prisma_state \<Rightarrow> nat option" where "get_pool st = px_pool st"

text \<open>\<open>disconnectPrisma\<close> awaits twice; \<open>mid1\<close> and \<open>mid2\<close> are what other code does to the state meanwhile.\<close>

definition disconnect_prisma :: "(prisma_state \<Rightarrow> prisma_state) \<Rightarrow> (prisma_state \<Rightarrow> prisma_state) \<Rightarrow> prisma_state \<Rightarrow> prisma_state" where
  "disconnect_prisma mid1 mid2 st =
     (let st1 = (case px_client st of None \<Rightarrow> st
          | Some c \<Rightarrow> (mid1 (st\<lparr>px_open_clients := remove1 c (px_open_clients st)\<rparr>))\<lparr>px_client := None\<rparr>)
      in case px_pool st1 of None \<Rightarrow> st1
          | Some p \<Rightarrow> (mid2 (st1\<lparr>px_open_pools := remove1 p (px_open_pools st1)\<rparr>))\<lparr>px_pool := None\<rparr>)"

text \<open>What is open is what the singletons hold: at most one client and one pool, made together.\<close>

definition singletons_ok :: "prisma_state \<Rightarrow> bool" where
  "singletons_ok st \<longleftrightarrow> px_client st = px_pool st \<and> px_open_clients st = (case px_client st of None \<Rightarrow> [] | Some c \<Rightarrow> [c])
     \<and> px_open_pools st = (case px_pool st of None \<Rightarrow> [] | Some p \<Rightarrow> [p])"

datatype prisma_op = GetClient | Disconnect

definition prisma_step :: "prisma_op \<Rightarrow> prisma_state \<Rightarrow> prisma_state" where
  "prisma_step op st = (case op of GetClient \<Rightarrow> snd (get_prisma_client st) | Disconnect \<Rightarrow> disconnect_prisma id id st)"

lemma singletons_kept: "singletons_ok (fold prisma_step ops initial_prisma)"
proof -
  have "singletons_ok st \<Longrightarrow> singletons_ok (prisma_step op st)" for st op
    by (cases op; cases "px_client st"; cases "px_pool st")
      (auto simp: singletons_ok_def prisma_step_def get_prisma_client_def disconnect_prisma_def Let_def)
  then have "singletons_ok st \<Longrightarrow> singletons_ok (fold prisma_step ops st)" for st
    by (induction ops arbitrary: st) simp_all
  then show ?thesis by (simp add: singletons_ok_def initial_prisma_def)
qed

text \<open>Between two disconnects every call gets the same client.\<close>

lemma same_client: "fst (get_prisma_client (snd (get_prisma_client st))) = fst (get_prisma_client st)"
  by (cases "px_client st") (simp_all add: get_prisma_client_def Let_def)

text \<open>A client taken while the pool is being closed keeps a pool that no later disconnect closes.\<close>

lemma reconnect_leaks_pool:
  "px_open_pools (disconnect_prisma id (\<lambda>s. snd (get_prisma_client s)) (snd (get_prisma_client initial_prisma))) = [1]
   \<and> px_pool (disconnect_prisma id (\<lambda>s. snd (get_prisma_client s)) (snd (get_prisma_client initial_prisma))) = None"
  by (simp add: disconnect_prisma_def get_prisma_client_def initial_prisma_def Let_def)

subsection \<open>The database service\<close>

record database_metrics =
  dm_total :: nat
  dm_idle :: nat
  dm_waiting :: nat

text \<open>Errors are printed and thrown again; \<open>run\<close> is the transaction of the client around the operations.\<close>

definition execute_raw :: "(string \<Rightarrow> js list \<Rightarrow> ('w, 'a) call) \<Rightarrow> string \<Rightarrow> js list \<Rightarrow> ('w, 'a) call" where
  "execute_raw query_raw query params = call_catch (query_raw query params) call_throw"

definition database_transaction :: "(('w, 'a) call \<Rightarrow> ('w, 'a) call) \<Rightarrow> ('w, 'a) call \<Rightarrow> ('w, 'a) call" where
  "database_transaction run operations = call_catch (run operations) call_throw"

definition database_health_check :: "('w, unit) call \<Rightarrow> ('w, bool) call" where
  "database_health_check select_one = call_catch (call_bind select_one (\<lambda>_. call_return True)) (\<lambda>e. call_return False)"

definition get_metrics :: "(nat \<times> nat \<times> nat) option \<Rightarrow> database_metrics" where
  "get_metrics pool = (case pool of None \<Rightarrow> \<lparr>dm_total = 0, dm_idle = 0, dm_waiting = 0\<rparr>
     | Some (all, idle, waiting) \<Rightarrow> \<lparr>dm_total = all, dm_idle = idle, dm_waiting = waiting\<rparr>)"

lemma helpers_transparent:
  "execute_raw query_raw query params = query_raw query params" "database_transaction run operations = run operations"
  by (rule ext; simp add: execute_raw_def database_transaction_def call_catch_def call_throw_def split: prod.split sum.split)+

subsection \<open>Queue settings\<close>

record job_options =
  jo_attempts :: nat
  jo_backoff :: string
  jo_delay :: nat
  jo_keep_completed :: nat
  jo_remove_failed :: bool

definition DEFAULT_JOB_OPTIONS :: job_options where
  "DEFAULT_JOB_OPTIONS = \<lparr>jo_attempts = 3, jo_backoff = ''exponential'', jo_delay = 1000, jo_keep_completed = 100, jo_remove_failed = False\<rparr>"

record redis_connection =
  rx_host :: string
  rx_port :: number
  rx_password :: "string option"

definition strip_scheme :: "string \<Rightarrow> string" where
  "strip_scheme s = (if starts_with ''redis://'' s then drop 8 s else if starts_with ''rediss://'' s then drop 9 s else s)"

text \<open>The parts before and after the last \<open>@\<close>.\<close>

definition split_auth :: "string \<Rightarrow> string \<times> string" where
  "split_auth s = (if CHR ''@'' \<in> set s
     then (rev (tl (dropWhile (\<lambda>c. c \<noteq> CHR ''@'') (rev s))), rev (takeWhile (\<lambda>c. c \<noteq> CHR ''@'') (rev s)))
     else ([], s))"

definition redis_connection_from_env :: "string option \<Rightarrow> redis_connection" where
  "redis_connection_from_env env =
     (let (auth, host_port) = split_auth (strip_scheme (case env of None \<Rightarrow> ''redis://localhost:6379'' | Some raw \<Rightarrow> raw));
          parts = split_on (CHR '':'') host_port;
          password = (if CHR '':'' \<in> set auth then split_on (CHR '':'') auth ! 1 else auth)
      in \<lparr>rx_host = (if hd parts = [] then ''localhost'' else hd parts),
          rx_port = (case tl parts of [] \<Rightarrow> 6379 | p # _ \<Rightarrow> (case number_of_string p of
             None \<Rightarrow> 6379 | Some x \<Rightarrow> if x = 0 then 6379 else x)),
          rx_password = (if password = [] then None else Some password)\<rparr>)"

lemma split_auth_at: "CHR ''@'' \<notin> set b \<Longrightarrow> split_auth (a @ CHR ''@'' # b) = (a, b)"
  by (simp add: split_auth_def takeWhile_append dropWhile_append)

text \<open>A URL with user, password, host and port is taken apart exactly, when none of them holds a separator.\<close>

lemma redis_url_exact:
  assumes "CHR '':'' \<notin> set user" "CHR '':'' \<notin> set password" "password \<noteq> []" "host \<noteq> []"
    and "CHR '':'' \<notin> set host" "CHR ''@'' \<notin> set host" "0 < n" "n < 2 ^ 53"
  shows "redis_connection_from_env (Some (''redis://'' @ user @ '':'' @ password @ ''@'' @ host @ '':'' @ nat_string n))
    = \<lparr>rx_host = host, rx_port = of_nat n, rx_password = Some password\<rparr>"
proof -
  have digits: "c \<notin> set (nat_string n)" if "\<not> is_digit c" for c using that nat_string_digits [of c n] by blast
  have "CHR ''@'' \<notin> set (host @ CHR '':'' # nat_string n)" using assms(6) digits [of "CHR ''@''"] by (simp add: is_digit_def)
  then have auth: "split_auth (strip_scheme (''redis://'' @ user @ '':'' @ password @ ''@'' @ host @ '':'' @ nat_string n))
      = (user @ CHR '':'' # password, host @ CHR '':'' # nat_string n)"
    using split_auth_at [of "host @ CHR '':'' # nat_string n" "user @ CHR '':'' # password"] by (simp add: strip_scheme_def)
  have "split_on (CHR '':'') (host @ CHR '':'' # nat_string n) = [host, nat_string n]"
    using digits [of "CHR '':''"] by (simp add: split_on_append [OF assms(5)] split_on_none is_digit_def)
  moreover have "split_on (CHR '':'') (user @ CHR '':'' # password) = [user, password]"
    by (simp add: split_on_append [OF assms(1)] split_on_none [OF assms(2)])
  moreover have "number_of_string (nat_string n) = Some (of_nat n)"
    using printable_nat [OF assms(8)] number_string_int [of "int n"] by (simp add: printable_def int_string_def)
  ultimately show ?thesis using assms(3,4,7) unfolding redis_connection_from_env_def option.case auth by simp
qed

text \<open>A database number in the URL makes the port unreadable, and the default port is used.\<close>

lemma database_number_loses_port:
  "rx_port (redis_connection_from_env (Some ''redis://cache:6380/0'')) = 6379"
  by code_simp

end
