(* ===== verification/Processes.thy ===== *)
theory Processes
  imports Finalization OracleProviders ContractCalls
begin

text \<open>
  The processes of the system: how each entry point starts, polls and shuts down. An entry point is
  described by the signals it handles, what its shutdown closes, in order, whether a timer bounds the
  shutdown, and how it polls; the awaits of the handlers interleave with everything else, so a
  process is a step function on events. Every entry point imports \<open>src/services/prisma.ts\<close>, which
  handles the same signals on its own.
\<close>

subsection \<open>Entry points\<close>

datatype resource = HttpServer | Connections | IngestionLoop | BullWorker | PrismaClient | RedisClient

datatype polling = NoPolling | Guarded | Unguarded

record entry_point =
  ep_signals :: "string list"
  ep_validates :: bool
  ep_closes :: "resource list"
  ep_timeout :: bool
  ep_polling :: polling

definition VALID_SIGNALS :: "string list" where
  "VALID_SIGNALS = [''SIGINT'', ''SIGTERM'', ''SIGHUP'']"

text \<open>\<open>src/index.ts\<close>: \<open>Connections\<close> is the \<open>Promise.allSettled\<close> of both disconnects, which never fails.\<close>

definition api_entry :: entry_point where
  "api_entry = \<lparr>ep_signals = [''SIGTERM'', ''SIGINT'', ''SIGHUP''], ep_validates = True,
     ep_closes = [HttpServer, Connections], ep_timeout = True, ep_polling = NoPolling\<rparr>"

text \<open>\<open>apps/indexer/src/main.ts\<close>: the loop's own timers are those of the ingestion model.\<close>

definition indexer_entry :: entry_point where
  "indexer_entry = \<lparr>ep_signals = [''SIGINT'', ''SIGTERM''], ep_validates = False,
     ep_closes = [IngestionLoop, PrismaClient], ep_timeout = True, ep_polling = NoPolling\<rparr>"

definition oracle_entry :: entry_point where
  "oracle_entry = \<lparr>ep_signals = [''SIGINT'', ''SIGTERM''], ep_validates = False,
     ep_closes = [PrismaClient, RedisClient], ep_timeout = False, ep_polling = Unguarded\<rparr>"

definition oracle_worker_entry :: entry_point where
  "oracle_worker_entry = \<lparr>ep_signals = [''SIGINT'', ''SIGTERM''], ep_validates = True,
     ep_closes = [BullWorker, PrismaClient, RedisClient], ep_timeout = True, ep_polling = NoPolling\<rparr>"

definition finalization_entry :: entry_point where
  "finalization_entry = \<lparr>ep_signals = [''SIGINT'', ''SIGTERM''], ep_validates = True,
     ep_closes = [PrismaClient], ep_timeout = True, ep_polling = Guarded\<rparr>"

definition settlement_entry :: entry_point where
  "settlement_entry = \<lparr>ep_signals = VALID_SIGNALS, ep_validates = True,
     ep_closes = [BullWorker, PrismaClient, RedisClient], ep_timeout = False, ep_polling = NoPolling\<rparr>"

definition bullmq_settlement_entry :: entry_point where
  "bullmq_settlement_entry = \<lparr>ep_signals = VALID_SIGNALS, ep_validates = False,
     ep_closes = [BullWorker, PrismaClient, RedisClient], ep_timeout = False, ep_polling = NoPolling\<rparr>"

definition entry_points :: "entry_point list" where
  "entry_points = [api_entry, indexer_entry, oracle_entry, oracle_worker_entry, finalization_entry,
     settlement_entry, bullmq_settlement_entry]"

subsection \<open>A process\<close>

datatype process_end = Exited int | Killed

text \<open>\<open>ps_pending\<close>: what the shutdown in progress has still to close; \<open>ps_module\<close>: how many handlers of
  \<open>prisma.ts\<close> wait for their disconnect; \<open>ps_polls\<close>: the guard and the number of running polls.\<close>

record process_state =
  ps_booted :: bool
  ps_shutting :: bool
  ps_pending :: "resource list"
  ps_closed :: "resource list"
  ps_module :: nat
  ps_timer :: bool
  ps_interval :: bool
  ps_polls :: "bool \<times> nat"
  ps_ended :: "process_end option"

definition new_process :: process_state where
  "new_process = \<lparr>ps_booted = False, ps_shutting = False, ps_pending = [], ps_closed = [], ps_module = 0,
     ps_timer = False, ps_interval = False, ps_polls = (False, 0), ps_ended = None\<rparr>"

text \<open>The handler up to its first await: the invalid signal, the second signal, the start of the shutdown.\<close>

definition begin_shutdown :: "entry_point \<Rightarrow> string \<Rightarrow> process_state \<Rightarrow> process_state" where
  "begin_shutdown p s st =
     (if ep_validates p \<and> (trim s = [] \<or> s \<notin> set VALID_SIGNALS) then st
      else if ps_shutting st then st
      else st\<lparr>ps_shutting := True, ps_interval := False, ps_timer := ep_timeout p, ps_pending := ep_closes p\<rparr>)"

definition process_exit :: "int \<Rightarrow> process_state \<Rightarrow> process_state" where
  "process_exit code st = st\<lparr>ps_ended := Some (Exited code)\<rparr>"

text \<open>One await of the shutdown returns: the next resource, or \<open>clearTimeout\<close> and exit 0.\<close>

definition close_returned :: "process_state \<Rightarrow> process_state option" where
  "close_returned st = (case ps_pending st of [] \<Rightarrow> None
     | r # rs \<Rightarrow> let st' = st\<lparr>ps_closed := ps_closed st @ [r], ps_pending := rs\<rparr>
         in Some (if rs = [] then process_exit 0 (st'\<lparr>ps_timer := False\<rparr>) else st'))"

definition close_rejected :: "process_state \<Rightarrow> process_state option" where
  "close_rejected st = (case ps_pending st of [] \<Rightarrow> None
     | r # rs \<Rightarrow> if r = Connections then None else Some (process_exit 1 (st\<lparr>ps_timer := False\<rparr>)))"

text \<open>The handlers of \<open>prisma.ts\<close>: one disconnect per signal, then exit 0; a rejection is not handled.\<close>

definition MODULE_SIGNALS :: "string list" where "MODULE_SIGNALS = [''SIGINT'', ''SIGTERM'']"

definition module_handler :: "string \<Rightarrow> process_state \<Rightarrow> process_state" where
  "module_handler s st = (if s \<in> set MODULE_SIGNALS then st\<lparr>ps_module := Suc (ps_module st)\<rparr> else st)"

definition module_disconnected :: "bool \<Rightarrow> process_state \<Rightarrow> process_state option" where
  "module_disconnected ok st = (if ps_module st = 0 then None else Some (process_exit (if ok then 0 else 1) st))"

text \<open>The signals that have a handler; any other ends the process.\<close>

definition handled_signals :: "entry_point \<Rightarrow> process_state \<Rightarrow> string list" where
  "handled_signals p st = MODULE_SIGNALS @ (if ps_booted st then ep_signals p else [])"

definition start_poll :: "polling \<Rightarrow> bool \<times> nat \<Rightarrow> bool \<times> nat" where
  "start_poll k b = (case k of NoPolling \<Rightarrow> b | Guarded \<Rightarrow> poll_guard PollStarts b | Unguarded \<Rightarrow> (fst b, Suc (snd b)))"

definition end_poll :: "polling \<Rightarrow> bool \<times> nat \<Rightarrow> bool \<times> nat" where
  "end_poll k b = (case k of NoPolling \<Rightarrow> b | Guarded \<Rightarrow> poll_guard PollEnds b | Unguarded \<Rightarrow> (fst b, snd b - 1))"

text \<open>\<open>Booted\<close>: \<open>bootstrap\<close>, with its first poll, has run to its end and registered the handlers.\<close>

datatype process_event = Booted | BootFailed | Signal string | CloseReturned | CloseRejected | ModuleDisconnected bool
  | TimerFires | IntervalFires | PollReturns

definition process_step :: "entry_point \<Rightarrow> process_event \<Rightarrow> process_state \<Rightarrow> process_state option" where
  "process_step p e st = (if ps_ended st \<noteq> None then None else case e of
     Booted \<Rightarrow> if ps_booted st then None else Some (st\<lparr>ps_booted := True, ps_interval := ep_polling p \<noteq> NoPolling\<rparr>)
   | BootFailed \<Rightarrow> if ps_booted st then None else Some (process_exit 1 st)
   | Signal s \<Rightarrow> Some (if s \<notin> set (handled_signals p st) then st\<lparr>ps_ended := Some Killed\<rparr>
       else (let st' = module_handler s st in
         if ps_booted st \<and> s \<in> set (ep_signals p) then begin_shutdown p s st' else st'))
   | CloseReturned \<Rightarrow> close_returned st
   | CloseRejected \<Rightarrow> close_rejected st
   | ModuleDisconnected ok \<Rightarrow> module_disconnected ok st
   | TimerFires \<Rightarrow> if ps_timer st then Some (process_exit 1 st) else None
   | IntervalFires \<Rightarrow> if ps_interval st then Some (st\<lparr>ps_polls := start_poll (ep_polling p) (ps_polls st)\<rparr>) else None
   | PollReturns \<Rightarrow> if 0 < snd (ps_polls st) then Some (st\<lparr>ps_polls := end_poll (ep_polling p) (ps_polls st)\<rparr>) else None)"

primrec process_run :: "entry_point \<Rightarrow> process_event list \<Rightarrow> process_state \<Rightarrow> process_state option" where
  "process_run p [] st = Some st"
| "process_run p (e # es) st = Option.bind (process_step p e st) (process_run p es)"

subsection \<open>What a process guarantees\<close>

text \<open>The invariant of a process, and what the events \<open>es\<close> it has seen say of its end.\<close>

definition shutdown_ok :: "entry_point \<Rightarrow> process_state \<Rightarrow> bool" where
  "shutdown_ok p st \<longleftrightarrow>
     (if ps_shutting st then ep_closes p = ps_closed st @ ps_pending st \<and> \<not> ps_interval st
        \<and> (ps_ended st = None \<longrightarrow> ps_pending st \<noteq> [] \<and> ps_timer st = ep_timeout p)
      else ps_pending st = [] \<and> ps_closed st = [] \<and> \<not> ps_timer st) \<and>
     (ps_shutting st \<longrightarrow> ps_booted st) \<and>
     (ep_polling p = Guarded \<longrightarrow> ps_polls st = (False, 0) \<or> ps_polls st = (True, 1))"

definition end_explained :: "entry_point \<Rightarrow> process_event list \<Rightarrow> process_state \<Rightarrow> bool" where
  "end_explained p es st \<longleftrightarrow> (case ps_ended st of None \<Rightarrow> True
     | Some Killed \<Rightarrow> \<exists>s. Signal s \<in> set es \<and> s \<notin> set MODULE_SIGNALS
     | Some (Exited c) \<Rightarrow> c = 0 \<and> (ps_closed st = ep_closes p \<or> ModuleDisconnected True \<in> set es)
         \<or> c = 1 \<and> (BootFailed \<in> set es \<or> CloseRejected \<in> set es \<or> TimerFires \<in> set es \<or> ModuleDisconnected False \<in> set es))"

lemma shutdown_ok_start: "shutdown_ok p new_process"
  by (simp add: shutdown_ok_def new_process_def)

lemma shutdown_ok_signal:
  assumes "shutdown_ok p st" "ps_ended st = None" "ps_booted st" "ep_closes p \<noteq> []"
  shows "shutdown_ok p (begin_shutdown p s (module_handler s' st))"
  using assms by (auto simp: shutdown_ok_def begin_shutdown_def module_handler_def)

lemma shutdown_ok_close:
  assumes "shutdown_ok p st" "close_returned st = Some st'"
  shows "shutdown_ok p st'"
  using assms by (cases "ps_pending st"; cases "ps_shutting st")
    (auto simp: shutdown_ok_def close_returned_def process_exit_def Let_def split: if_splits)

lemma start_end_poll:
  assumes "k = Guarded \<longrightarrow> b = (False, 0) \<or> b = (True, 1)"
  shows "k = Guarded \<longrightarrow> start_poll k b = (False, 0) \<or> start_poll k b = (True, 1)"
    "k = Guarded \<longrightarrow> end_poll k b = (False, 0) \<or> end_poll k b = (True, 1)"
  using assms by (auto simp: start_poll_def end_poll_def)

lemma shutdown_ok_step:
  assumes "shutdown_ok p st" "process_step p e st = Some st'" "ep_closes p \<noteq> []"
  shows "shutdown_ok p st'"
proof (cases e)
  case (Signal s)
  have "shutdown_ok p (module_handler s st)" using assms(1) by (simp add: shutdown_ok_def module_handler_def)
  moreover have "shutdown_ok p (st\<lparr>ps_ended := Some Killed\<rparr>)" using assms(1) by (auto simp: shutdown_ok_def)
  ultimately show ?thesis using assms Signal shutdown_ok_signal [of p st s s]
    by (auto simp: process_step_def Let_def split: if_splits)
next
  case CloseReturned
  then show ?thesis using assms shutdown_ok_close [of p st st'] by (auto simp: process_step_def split: if_splits)
next
  case CloseRejected
  then show ?thesis using assms
    by (cases "ps_pending st") (auto simp: process_step_def close_rejected_def process_exit_def shutdown_ok_def split: if_splits)
next
  case IntervalFires
  then show ?thesis using assms start_end_poll(1) [of "ep_polling p" "ps_polls st"]
    by (auto simp: process_step_def shutdown_ok_def split: if_splits)
next
  case PollReturns
  then show ?thesis using assms start_end_poll(2) [of "ep_polling p" "ps_polls st"]
    by (auto simp: process_step_def shutdown_ok_def split: if_splits)
next
  case (ModuleDisconnected ok)
  then show ?thesis using assms by (auto simp: process_step_def module_disconnected_def process_exit_def shutdown_ok_def split: if_splits)
next
  case Booted
  then have "st' = st\<lparr>ps_booted := True, ps_interval := ep_polling p \<noteq> NoPolling\<rparr>" "\<not> ps_booted st"
    using assms(2) by (auto simp: process_step_def split: if_splits)
  then show ?thesis using assms(1) by (simp add: shutdown_ok_def split: if_splits)
next
  case BootFailed
  then have "st' = process_exit 1 st" using assms(2) by (auto simp: process_step_def split: if_splits)
  then show ?thesis using assms(1) by (auto simp: shutdown_ok_def process_exit_def)
next
  case TimerFires
  then have "st' = process_exit 1 st" using assms(2) by (auto simp: process_step_def split: if_splits)
  then show ?thesis using assms(1) by (auto simp: shutdown_ok_def process_exit_def)
qed

lemma end_explained_step:
  assumes "shutdown_ok p st" "process_step p e st = Some st'" "e \<in> set es" "ep_closes p \<noteq> []"
  shows "end_explained p es st'"
proof (cases e)
  case CloseReturned
  then have closed: "close_returned st = Some st'" and none: "ps_ended st = None"
    using assms(2) by (simp_all add: process_step_def split: if_splits)
  from closed obtain r rs where rs: "ps_pending st = r # rs" by (cases "ps_pending st") (simp_all add: close_returned_def)
  have "ps_closed st' = ep_closes p \<and> ps_ended st' = Some (Exited 0) \<or> ps_ended st' = None"
    using closed rs none assms(1) by (cases rs) (auto simp: close_returned_def process_exit_def shutdown_ok_def Let_def split: if_splits)
  then show ?thesis by (auto simp: end_explained_def)
next
  case CloseRejected
  then show ?thesis using assms
    by (cases "ps_pending st") (auto simp: process_step_def close_rejected_def process_exit_def end_explained_def split: if_splits)
next
  case (Signal s)
  have none: "ps_ended st = None" using assms(2) by (simp add: process_step_def split: if_splits)
  have "ps_ended st' = (if s \<notin> set (handled_signals p st) then Some Killed else None)"
    using assms(2) none unfolding Signal process_step_def process_event.case Let_def
    by (cases "s \<in> set (handled_signals p st)") (auto simp: module_handler_def begin_shutdown_def)
  moreover have "s \<notin> set MODULE_SIGNALS" if "s \<notin> set (handled_signals p st)" using that by (simp add: handled_signals_def)
  ultimately show ?thesis using assms(3) Signal by (auto simp: end_explained_def)
qed (use assms in \<open>auto simp: process_step_def module_disconnected_def process_exit_def end_explained_def split: if_splits\<close>)

lemma process_run_append:
  "process_run p (es @ fs) st = Option.bind (process_run p es st) (process_run p fs)"
  by (induction es arbitrary: st) (simp_all cong: bind_option_cong)

lemma run_invariant:
  assumes "process_run p es new_process = Some st" "ep_closes p \<noteq> []"
  shows "shutdown_ok p st \<and> end_explained p es st"
  using assms(1)
proof (induction es arbitrary: st rule: rev_induct)
  case Nil
  then show ?case by (simp add: shutdown_ok_start end_explained_def) (auto simp: new_process_def)
next
  case (snoc e es)
  then obtain mid where mid: "process_run p es new_process = Some mid" "process_step p e mid = Some st"
    by (auto simp: process_run_append bind_eq_Some_conv)
  then show ?case using snoc.IH [OF mid(1)] shutdown_ok_step [OF _ mid(2) assms(2)]
      end_explained_step [OF _ mid(2) _ assms(2), of "es @ [e]"] by auto
qed


definition example_run :: "process_event list" where
  "example_run = [Booted, Signal ''SIGTERM'', CloseReturned, CloseReturned, CloseReturned]"

lemmas process_simps = process_step_def begin_shutdown_def module_handler_def handled_signals_def close_returned_def
  close_rejected_def module_disconnected_def process_exit_def start_poll_def end_poll_def new_process_def
  MODULE_SIGNALS_def VALID_SIGNALS_def trim_def is_space_def

lemmas entry_defs = api_entry_def indexer_entry_def oracle_entry_def oracle_worker_entry_def finalization_entry_def
  settlement_entry_def bullmq_settlement_entry_def


subsection \<open>What it does not guarantee\<close>

text \<open>The handler of \<open>prisma.ts\<close> ends the process under the shutdown: the worker is not closed, the exit code is 0.\<close>

lemma module_handler_cuts_shutdown:
  "\<exists>st. process_run oracle_worker_entry [Booted, Signal ''SIGTERM'', ModuleDisconnected True] new_process = Some st
     \<and> ps_ended st = Some (Exited 0) \<and> ps_closed st = []"
  by (simp add: process_simps oracle_worker_entry_def)

text \<open>The oracle has no guard: polls overlap. Its database is disconnected, and the finalization worker's too,
  while a poll is running.\<close>

lemma oracle_polls_overlap:
  "\<exists>st. process_run oracle_entry (Booted # replicate n IntervalFires) new_process = Some st \<and> snd (ps_polls st) = n"
proof -
  have "\<exists>st'. process_run oracle_entry (replicate n IntervalFires) st = Some st' \<and> snd (ps_polls st') = snd (ps_polls st) + n"
    if "ps_ended st = None" "ps_interval st" for st
    using that
  proof (induction n arbitrary: st)
    case (Suc n)
    from Suc.IH [of "st\<lparr>ps_polls := (fst (ps_polls st), Suc (snd (ps_polls st)))\<rparr>"] Suc.prems show ?case
      by (simp add: process_step_def start_poll_def oracle_entry_def)
  qed simp
  from this [of "new_process\<lparr>ps_booted := True, ps_interval := True\<rparr>"] show ?thesis
    by (simp add: process_step_def new_process_def oracle_entry_def)
qed

lemma exit_during_poll:
  "\<exists>st. process_run finalization_entry [Booted, IntervalFires, Signal ''SIGTERM'', CloseReturned] new_process = Some st
     \<and> ps_ended st = Some (Exited 0) \<and> snd (ps_polls st) = 1"
  by (simp add: process_simps finalization_entry_def)

text \<open>\<open>SIGHUP\<close> is valid for every handler, but registered by three entry points only.\<close>

lemma hangup_kills:
  "p \<in> set entry_points \<Longrightarrow> (\<exists>st. process_run p [Booted, Signal ''SIGHUP''] new_process = Some st \<and> ps_ended st = Some Killed)
    \<longleftrightarrow> p \<in> {indexer_entry, oracle_entry, oracle_worker_entry, finalization_entry}"
  unfolding entry_points_def set_simps insert_iff empty_iff
  by (elim disjE) (simp_all add: process_simps entry_defs)

text \<open>A shutdown without the timer waits for its first await as long as that takes.\<close>

lemma hanging_close_not_ended:
  assumes "shutdown_ok p st" "\<not> ep_timeout p" "ps_ended st = None"
  shows "process_step p TimerFires st = None"
  using assms by (auto simp: shutdown_ok_def process_step_def split: if_splits)

subsection \<open>Settings read at the start\<close>

text \<open>\<open>apps/oracle/main.ts\<close>: an unset or empty list of fallbacks means the single URL; texts that are blank after
  \<open>trim\<close> are dropped.\<close>

definition oracle_primary_url :: "string option \<Rightarrow> string" where
  "oracle_primary_url env = (case env of Some u \<Rightarrow> u | None \<Rightarrow> ''http://localhost:9001'')"

definition oracle_fallback_urls :: "string option \<Rightarrow> string option \<Rightarrow> string list" where
  "oracle_fallback_urls urls single = (case urls of
     Some (c # s) \<Rightarrow> filter (\<lambda>u. u \<noteq> []) (map trim (split_on (CHR '','') (c # s)))
   | _ \<Rightarrow> [case single of Some u \<Rightarrow> u | None \<Rightarrow> ''http://localhost:9002''])"

definition oracle_fallbacks :: "string list \<Rightarrow> fallback_provider list" where
  "oracle_fallbacks urls = map (\<lambda>(u, i). \<lparr>fp_url = u, fp_key = None, fp_source = Some (''fallback-'' @ nat_string (i + 1))\<rparr>)
     (zip urls [0..<length urls])"

definition oracle_adapters :: "(string \<Rightarrow> string option) \<Rightarrow> oracle_error + primary_config \<times> fallback_config" where
  "oracle_adapters env = res_bind
     (fallback_adapter (oracle_fallbacks (oracle_fallback_urls (env ''ORACLE_FALLBACK_URLS'') (env ''ORACLE_FALLBACK_URL''))))
     (\<lambda>fb. Inr (primary_adapter (oracle_primary_url (env ''ORACLE_PRIMARY_URL'')), fb))"

text \<open>The adapters can be built unless the list is set to blank items only; then every poll fails.\<close>

lemma oracle_adapters_exact:
  "isl (oracle_adapters env) \<longleftrightarrow>
     (\<exists>c s. env ''ORACLE_FALLBACK_URLS'' = Some (c # s) \<and> (\<forall>u \<in> set (split_on (CHR '','') (c # s)). trim u = []))"
  by (cases "env ''ORACLE_FALLBACK_URLS''"; cases "the (env ''ORACLE_FALLBACK_URLS'')")
    (auto simp: oracle_adapters_def fallback_adapter_def oracle_fallbacks_def oracle_fallback_urls_def filter_empty_conv)

lemma oracle_adapters_fail_example: "isl (oracle_adapters [''ORACLE_FALLBACK_URLS'' \<mapsto> '' , ''])"
  by (simp add: oracle_adapters_exact trim_def is_space_def)

text \<open>Both settlement consumers: the queue's name, and the chain settings, which need all four variables.\<close>

definition settlement_queue_name :: "(string \<Rightarrow> string option) \<Rightarrow> string" where
  "settlement_queue_name env = (case env ''REDIS_KEY_PREFIX'' of Some p \<Rightarrow> p | None \<Rightarrow> ''vatix:'')
     @ (case env ''SETTLEMENT_QUEUE_NAME'' of Some n \<Rightarrow> n | None \<Rightarrow> ''settlement-trades'')"

definition settlement_stellar :: "(string \<Rightarrow> string option) \<Rightarrow> stellar_config option" where
  "settlement_stellar env =
     (case (env ''STELLAR_RPC_URL'', env ''SETTLEMENT_CONTRACT_ID'', env ''SOROBAN_NETWORK_PASSPHRASE'', env ''STELLAR_SECRET_KEY'') of
        (Some (r # u), Some (c # i), Some (n # q), Some (k # y)) \<Rightarrow>
          Some \<lparr>sc_rpc_url = r # u, sc_contract = c # i, sc_passphrase = n # q, sc_secret = k # y\<rparr>
      | _ \<Rightarrow> None)"

text \<open>\<open>apps/indexer/src/main.ts\<close>: the metric is set from a saved cursor that is a number.\<close>

definition initial_metric :: "string option \<Rightarrow> number option" where
  "initial_metric cursor = (case cursor of Some (c # s) \<Rightarrow> number_of_string (c # s) | _ \<Rightarrow> None)"

end
