(* ===== verification/Migrations.thy ===== *)
theory Migrations
  imports JsString Prelude "HOL-Library.Char_ord" "HOL-Library.List_Lexorder"
begin

text \<open>
  The migration check of the continuous integration: \<open>scripts/validate-migrations.ts\<close>. The directory, the
  files and the two commands are arguments, each with the text of its error; what the script prints
  is the lists of its results.
\<close>

subsection \<open>The patterns\<close>

text \<open>The pieces of the four regular expressions (flag \<open>i\<close>): a word, \<open>\s+\<close>, \<open>\w+\<close>, \<open>\s*\<close> and \<open>$\<close>. In each of them a
  piece that repeats is followed by one that starts with other characters, so taking all it can is exact.\<close>

datatype piece = Letters string | Spaces | Identifier | OptionalSpaces | EndOfText

definition is_word_char :: "char \<Rightarrow> bool" where
  "is_word_char c \<longleftrightarrow> is_digit c \<or> c = CHR ''_'' \<or> (let n = of_char (upper_char c) :: nat in 65 \<le> n \<and> n \<le> 90)"

fun match_here :: "piece list \<Rightarrow> string \<Rightarrow> bool" where
  "match_here [] s = True"
| "match_here (Letters w # ps) s = (starts_with w (to_upper s) \<and> match_here ps (drop (length w) s))"
| "match_here (Spaces # ps) s = (s \<noteq> [] \<and> is_space (hd s) \<and> match_here ps (dropWhile is_space s))"
| "match_here (Identifier # ps) s = (s \<noteq> [] \<and> is_word_char (hd s) \<and> match_here ps (dropWhile is_word_char s))"
| "match_here (OptionalSpaces # ps) s = match_here ps (dropWhile is_space s)"
| "match_here (EndOfText # ps) s = (s = [] \<and> match_here ps s)"

fun pattern_test :: "piece list \<Rightarrow> string \<Rightarrow> bool" where
  "pattern_test ps [] = match_here ps []"
| "pattern_test ps (c # s) = (match_here ps (c # s) \<or> pattern_test ps s)"

definition dangerous_patterns :: "(piece list \<times> string) list" where
  "dangerous_patterns =
    [([Letters ''DROP'', Spaces, Letters ''TABLE''], ''DROP'' @ CHR 0x5C # ''s+TABLE''),
     ([Letters ''DROP'', Spaces, Letters ''COLUMN''], ''DROP'' @ CHR 0x5C # ''s+COLUMN''),
     ([Letters ''DROP'', Spaces, Letters ''INDEX''], ''DROP'' @ CHR 0x5C # ''s+INDEX''),
     ([Letters ''DELETE'', Spaces, Letters ''FROM'', Spaces, Identifier, OptionalSpaces, EndOfText],
        ''DELETE'' @ CHR 0x5C # ''s+FROM'' @ CHR 0x5C # ''s+'' @ CHR 0x5C # ''w+'' @ CHR 0x5C # ''s*$'')]"

subsection \<open>The checks\<close>

record validation =
  vl_valid :: bool
  vl_errors :: "string list"
  vl_warnings :: "string list"

definition no_problem :: validation where
  "no_problem = \<lparr>vl_valid = True, vl_errors = [], vl_warnings = []\<rparr>"

definition add_error :: "string \<Rightarrow> validation \<Rightarrow> validation" where
  "add_error e v = v\<lparr>vl_errors := vl_errors v @ [e], vl_valid := False\<rparr>"

definition file_warnings :: "string \<Rightarrow> string \<Rightarrow> string list" where
  "file_warnings name sql = map (\<lambda>p. ''Dangerous operation detected in '' @ name @ '': '' @ snd p)
     (filter (\<lambda>p. pattern_test (fst p) sql) dangerous_patterns)"

definition has_commands :: "string \<Rightarrow> bool" where
  "has_commands sql \<longleftrightarrow> starts_with ''--'' (trim sql) \<or> filter (\<lambda>c. trim c \<noteq> []) (split_on (CHR '';'') sql) \<noteq> []"

definition check_migration :: "(string \<Rightarrow> string + string) \<Rightarrow> string \<Rightarrow> validation \<Rightarrow> validation" where
  "check_migration read name v = (case read (''prisma/migrations/'' @ name @ ''/migration.sql'') of
     Inl e \<Rightarrow> add_error (''Failed to read migration file '' @ name @ '': '' @ e) v
   | Inr sql \<Rightarrow> let v' = v\<lparr>vl_warnings := vl_warnings v @ file_warnings name sql\<rparr>
       in if has_commands sql then v' else add_error (''No SQL commands found in '' @ name) v')"

text \<open>\<open>listing\<close>: the entries of the directory with whether each is a directory itself.\<close>

definition migration_names :: "(string \<times> bool) list \<Rightarrow> string list" where
  "migration_names entries = sort (map fst (filter snd entries))"

definition validate_migration_files :: "string + (string \<times> bool) list \<Rightarrow> (string \<Rightarrow> string + string) \<Rightarrow> validation" where
  "validate_migration_files listing read = (case listing of
     Inl e \<Rightarrow> add_error (''Failed to read migrations directory: '' @ e) no_problem
   | Inr entries \<Rightarrow> (case migration_names entries of
        [] \<Rightarrow> add_error ''No migration files found'' no_problem
      | names \<Rightarrow> fold (check_migration read) names no_problem))"

definition diff_command :: string where
  "diff_command = ''npx prisma migrate diff --config prisma.diff.config.ts --from-migrations prisma/migrations --to-schema prisma/schema.prisma''"

definition validate_schema_sync :: "(string \<Rightarrow> string + string) \<Rightarrow> validation" where
  "validate_schema_sync exec = (case exec diff_command of
     Inl e \<Rightarrow> add_error (''Failed to check schema synchronization: '' @ e) no_problem
   | Inr out \<Rightarrow> if trim out \<noteq> [] \<and> \<not> contains ''No difference detected'' out
       then add_error out (add_error ''Schema and migrations are out of sync:'' no_problem) else no_problem)"

definition validate_prisma_client :: "(string \<Rightarrow> string + string) \<Rightarrow> validation" where
  "validate_prisma_client exec = (case exec ''npx prisma generate'' of
     Inl e \<Rightarrow> add_error (''Failed to generate Prisma client: '' @ e) no_problem
   | Inr out \<Rightarrow> no_problem)"

text \<open>\<open>main\<close>: the errors, the warnings and the exit code.\<close>

definition migrations_main :: "string + (string \<times> bool) list \<Rightarrow> (string \<Rightarrow> string + string) \<Rightarrow> (string \<Rightarrow> string + string) \<Rightarrow>
    string list \<times> string list \<times> int" where
  "migrations_main listing read exec =
     (let results = [validate_migration_files listing read, validate_schema_sync exec, validate_prisma_client exec]
      in (concat (map vl_errors results), concat (map vl_warnings results), if list_all vl_valid results then 0 else 1))"

subsection \<open>What the checks decide\<close>

definition validation_ok :: "validation \<Rightarrow> bool" where
  "validation_ok v \<longleftrightarrow> (vl_valid v \<longleftrightarrow> vl_errors v = [])"

lemma validation_ok_simps [simp]: "validation_ok no_problem" "\<not> vl_valid (add_error e v)" "vl_errors (add_error e v) \<noteq> []"
  "vl_valid no_problem" "vl_errors no_problem = []" "vl_warnings no_problem = []" "vl_warnings (add_error e v) = vl_warnings v"
  by (simp_all add: validation_ok_def no_problem_def add_error_def)

definition readable_commands :: "(string \<Rightarrow> string + string) \<Rightarrow> string \<Rightarrow> bool" where
  "readable_commands read name \<longleftrightarrow>
     (\<exists>sql. read (''prisma/migrations/'' @ name @ ''/migration.sql'') = Inr sql \<and> has_commands sql)"

lemma check_migrations_valid:
  "vl_valid (fold (check_migration read) names v) \<longleftrightarrow> vl_valid v \<and> (\<forall>n \<in> set names. readable_commands read n)"
  by (induction names arbitrary: v)
    (auto simp: check_migration_def readable_commands_def Let_def split: sum.splits)

lemma check_migrations_ok: "validation_ok v \<Longrightarrow> validation_ok (fold (check_migration read) names v)"
proof (induction names arbitrary: v)
  case (Cons n names)
  have "validation_ok (check_migration read n v)"
    using Cons.prems by (auto simp: check_migration_def validation_ok_def add_error_def Let_def split: sum.splits)
  then show ?case by (simp add: Cons.IH)
qed simp

lemma check_migrations_warn:
  "set (vl_warnings (fold (check_migration read) names v)) = set (vl_warnings v) \<union>
     (\<Union>n \<in> set names. case read (''prisma/migrations/'' @ n @ ''/migration.sql'') of Inl e \<Rightarrow> {} | Inr sql \<Rightarrow> set (file_warnings n sql))"
  by (induction names arbitrary: v) (auto simp: check_migration_def Let_def split: sum.splits)

text \<open>The script exits with 0 exactly when it prints no error; warnings do not count.\<close>

lemma exit_zero_iff_no_error:
  assumes "migrations_main listing read exec = (errors, warnings, code)"
  shows "code = 0 \<longleftrightarrow> errors = []"
proof -
  have "validation_ok (validate_migration_files listing read)"
    using check_migrations_ok [OF validation_ok_simps(1), of read]
    by (auto simp: validate_migration_files_def validation_ok_def simp del: fold.simps split: sum.splits list.splits)
  moreover have "validation_ok (validate_schema_sync exec)" "validation_ok (validate_prisma_client exec)"
    by (auto simp: validate_schema_sync_def validate_prisma_client_def split: sum.splits) (simp_all add: validation_ok_def)
  ultimately show ?thesis using assms by (auto simp: migrations_main_def validation_ok_def Let_def)
qed

lemma migration_files_valid:
  "vl_valid (validate_migration_files listing read) \<longleftrightarrow> (\<exists>entries. listing = Inr entries \<and>
     (\<exists>n. (n, True) \<in> set entries) \<and> (\<forall>n. (n, True) \<in> set entries \<longrightarrow> readable_commands read n))"
proof (cases listing)
  case (Inr entries)
  have names: "set (migration_names entries) = {n. (n, True) \<in> set entries}" by (force simp: migration_names_def)
  show ?thesis
  proof (cases "migration_names entries")
    case Nil
    then show ?thesis using names Inr by (auto simp: validate_migration_files_def)
  next
    case (Cons n ns)
    then have "vl_valid (validate_migration_files listing read) \<longleftrightarrow> (\<forall>n \<in> set (migration_names entries). readable_commands read n)"
      using Inr by (simp add: validate_migration_files_def check_migrations_valid del: fold.simps list.set)
    moreover have "n \<in> {n. (n, True) \<in> set entries}" using Cons names by auto
    ultimately show ?thesis using Inr names by auto
  qed
qed (simp add: validate_migration_files_def)

subsection \<open>What the patterns find\<close>

lemma pattern_test_append: "match_here ps t \<Longrightarrow> pattern_test ps (s @ t)"
  by (induction s) (cases t; auto)+

lemma pattern_test_suffix: "pattern_test ps s \<Longrightarrow> \<exists>a b. s = a @ b \<and> match_here ps b"
proof (induction s)
  case Nil
  then show ?case by simp
next
  case (Cons c s)
  then consider "match_here ps (c # s)" | "pattern_test ps s" by auto
  then show ?case
  proof cases
    case 2
    then obtain a b where "s = a @ b" "match_here ps b" using Cons.IH by blast
    then have "c # s = (c # a) @ b \<and> match_here ps b" by simp
    then show ?thesis by blast
  qed (metis append_Nil)
qed

lemma upper_of_space: "is_space c \<Longrightarrow> upper_char c = c"
  by (auto simp: is_space_def upper_char_def Let_def)

lemma of_char_semicolon: "(of_char (CHR '';'') :: nat) = 59"
  by simp

lemma of_char_char_of: "(of_char (char_of (n :: nat)) :: nat) = n mod 256"
  by simp

lemma upper_semicolon: "upper_char c = CHR '';'' \<longleftrightarrow> c = CHR '';''"
proof
  assume u: "upper_char c = CHR '';''"
  show "c = CHR '';''"
  proof (cases "97 \<le> (of_char c :: nat) \<and> (of_char c :: nat) \<le> 122")
    case True
    then have "char_of ((of_char c :: nat) - 32) = CHR '';''" using u by (simp add: upper_char_def Let_def)
    then have "((of_char c :: nat) - 32) mod 256 = 59" by (metis of_char_char_of of_char_semicolon)
    moreover have "((of_char c :: nat) - 32) mod 256 = of_char c - 32" using True by (intro mod_less) linarith
    ultimately show ?thesis using True by linarith
  qed (use u in \<open>auto simp: upper_char_def Let_def split: if_splits\<close>)
qed (simp add: upper_char_def)

lemma semicolon_kinds: "\<not> is_word_char (CHR '';'')" "\<not> is_space (CHR '';'')"
  by (simp_all add: is_space_def is_word_char_def upper_char_def is_digit_def Let_def)

lemma upper_letter_no_space: "upper_char c = CHR ''T'' \<Longrightarrow> \<not> is_space c" "upper_char c = CHR ''D'' \<Longrightarrow> \<not> is_space c"
  using upper_of_space [of c] by (auto simp: is_space_def)

text \<open>\<open>DROP TABLE\<close> is found wherever it stands, in any case and with any white space between the words.\<close>

lemma drop_table_found:
  assumes "to_upper d = ''DROP''" "to_upper t = ''TABLE''" "gap \<noteq> []" "\<forall>c \<in> set gap. is_space c"
  shows "pattern_test (fst (dangerous_patterns ! 0)) (a @ d @ gap @ t @ b)"
proof -
  have len: "length d = 4" "length t = 5"
    using arg_cong [OF assms(1), of length] arg_cong [OF assms(2), of length] by (simp_all add: to_upper_def)
  obtain c t' where t: "t = c # t'" using len(2) by (cases t) auto
  then have c: "\<not> is_space c" using assms(2) upper_letter_no_space(1) by (simp add: to_upper_def)
  have "dropWhile is_space (gap @ t @ b) = t @ b" using assms(4) c by (simp add: dropWhile_append2 t)
  moreover have "starts_with w (to_upper (x @ y))" if "to_upper x = w" for w x y
  proof -
    have "starts_with w (w @ z)" for z by (induction w) simp_all
    then show ?thesis using that by (simp add: to_upper_def)
  qed
  moreover have "is_space (hd (gap @ t @ b))" using assms(3,4) by (cases gap) auto
  ultimately have "match_here (fst (dangerous_patterns ! 0)) (d @ gap @ t @ b)"
    using assms len by (simp add: dangerous_patterns_def)
  then show ?thesis by (rule pattern_test_append)
qed

text \<open>The pattern for \<open>DELETE\<close> is anchored at the end of the file: no file that ends with a semicolon matches it.\<close>

lemma starts_with_take: "starts_with w s \<Longrightarrow> take (length w) s = w"
  by (induction w s rule: starts_with.induct) auto

lemma match_without_semicolon:
  assumes "match_here (fst (dangerous_patterns ! 3)) s"
  shows "CHR '';'' \<notin> set s"
proof
  assume semi: "CHR '';'' \<in> set s"
  have gone: "CHR '';'' \<in> set (dropWhile P s)" if "CHR '';'' \<in> set s" "\<not> P (CHR '';'')" for P s
    using that by (induction s) auto
  have letters: "CHR '';'' \<in> set (drop (length w) s)"
    if "starts_with w (to_upper s)" "CHR '';'' \<notin> set w" "CHR '';'' \<in> set s" for w s
  proof -
    have "CHR '';'' \<notin> set (take (length w) (to_upper s))" using starts_with_take [OF that(1)] that(2) by simp
    then have "CHR '';'' \<notin> set (take (length w) s)" using upper_semicolon [of "CHR '';''"]
      by (auto simp: to_upper_def take_map) (metis image_eqI)
    then show ?thesis using that(3) append_take_drop_id [of "length w" s] by (metis UnE set_append)
  qed
  have pieces: "match_here [Letters ''DELETE'', Spaces, Letters ''FROM'', Spaces, Identifier, OptionalSpaces, EndOfText] s"
    using assms by (simp add: dangerous_patterns_def del: match_here.simps)
  define s1 where "s1 = dropWhile is_space (drop (length ''DELETE'') s)"
  define s2 where "s2 = dropWhile is_space (drop (length ''FROM'') s1)"
  define s3 where "s3 = dropWhile is_space (dropWhile is_word_char s2)"
  have m: "starts_with ''DELETE'' (to_upper s)" "starts_with ''FROM'' (to_upper s1)" "s3 = []"
    using pieces unfolding match_here.simps s1_def s2_def s3_def by blast+
  have "CHR '';'' \<in> set s1" using letters [OF m(1) _ semi] unfolding s1_def by (intro gone semicolon_kinds) simp_all
  then have "CHR '';'' \<in> set s2" using letters [OF m(2)] unfolding s2_def by (intro gone semicolon_kinds) simp_all
  then have "CHR '';'' \<in> set s3" unfolding s3_def by (intro gone semicolon_kinds)
  with m(3) show False by simp
qed

lemma delete_never_found:
  assumes "\<forall>c \<in> set gap. is_space c"
  shows "\<not> pattern_test (fst (dangerous_patterns ! 3)) (sql @ CHR '';'' # gap)"
proof
  assume "pattern_test (fst (dangerous_patterns ! 3)) (sql @ CHR '';'' # gap)"
  then obtain a b where ab: "sql @ CHR '';'' # gap = a @ b" "match_here (fst (dangerous_patterns ! 3)) b"
    using pattern_test_suffix by blast
  from ab(2) obtain c b' where b: "b = c # b'" "upper_char c = CHR ''D''"
    by (cases b) (auto simp: dangerous_patterns_def to_upper_def)
  have "CHR '';'' \<notin> set b" by (rule match_without_semicolon [OF ab(2)])
  then have "\<exists>x. gap = x @ b"
    using ab(1) by (auto simp: append_eq_append_conv2 append_eq_Cons_conv Cons_eq_append_conv)
  then have "is_space c" using assms b by auto
  then show False using upper_letter_no_space(2) [OF b(2)] by simp
qed

text \<open>A file that begins with a comment passes without any command.\<close>

lemma comment_is_enough: "has_commands ''-- nothing here''"
  by (simp add: has_commands_def trim_def is_space_def)

text \<open>A destructive migration does not fail the check.\<close>

lemma destructive_migration_passes:
  "migrations_main (Inr [(''m1'', True)]) (\<lambda>f. Inr ''DROP TABLE orders;'') (\<lambda>c. Inr []) =
     ([], [''Dangerous operation detected in m1: DROP'' @ CHR 0x5C # ''s+TABLE''], 0)"
proof -
  have "file_warnings ''m1'' ''DROP TABLE orders;'' = [''Dangerous operation detected in m1: DROP'' @ CHR 0x5C # ''s+TABLE'']"
    by (simp add: file_warnings_def dangerous_patterns_def to_upper_def upper_char_def is_space_def)
  moreover have "has_commands ''DROP TABLE orders;''" by (simp add: has_commands_def trim_def is_space_def)
  ultimately show ?thesis
    by (simp add: migrations_main_def validate_migration_files_def migration_names_def check_migration_def
        validate_schema_sync_def validate_prisma_client_def no_problem_def trim_def)
qed

end
