(* ===== verification/Seed.thy ===== *)
theory Seed
  imports MarketRoutes Calls
begin

text \<open>
  The sample data of \<open>prisma/seed.ts\<close>. The database client is the argument \<open>seed_client\<close>; what the script
  relies on is the locale \<open>seed_database\<close>, interpreted on tables with the schema's keys. Times are
  milliseconds; identifiers and creation times are the database's.
\<close>

subsection \<open>Sample rows\<close>

definition ORACLE_ADDRESS :: string where
  "ORACLE_ADDRESS = ''GCEZWKCA5VLDNRLN3RPRJMRZOX3Z6G5CHCGSNFHEYVXM3XOJMDS674JZ''"

definition USER_ADDRESSES :: "string list" where
  "USER_ADDRESSES = [''GBDEVU63Y6NTHJQQZIKVTC23NWLQVP3WJ2RI2OTSJTNYOIGICST6DUXR'',
     ''GCFXHS4GXL6BVUCXBWXGTITROWLVYXQKQLF4YH5O5JT3YZXCYPAFBJZB'',
     ''GDQP2KPQGKIHYJGXNUIYOMHARUARCA7DJT5FO2FFOOBD3SDPKFKDCWDI'',
     ''GBCR5OVQ54S2EKHLBZMK6S5VMWJX4SC5CJWNTB4CGUQQVNTS5MZWFLJW'',
     ''GAHK7EEG2WWHVKDNT4CEQFZGKF2LGDSW2IVM4S5DP42RBW3K6BTODB4A'']"

record seed_market =
  sm_question :: string
  sm_end :: int
  sm_resolution :: "int option"
  sm_oracle :: string
  sm_status :: market_status
  sm_outcome :: "bool option"

definition sample_markets :: "seed_market list" where
  "sample_markets =
    [\<lparr>sm_question = ''Will BTC reach $100k by March 1, 2026?'', sm_end = 1772323200000, sm_resolution = None,
       sm_oracle = ORACLE_ADDRESS, sm_status = ACTIVE, sm_outcome = None\<rparr>,
     \<lparr>sm_question = ''Will ETH flip BTC by end of 2026?'', sm_end = 1798761599000, sm_resolution = None,
       sm_oracle = ORACLE_ADDRESS, sm_status = ACTIVE, sm_outcome = None\<rparr>,
     \<lparr>sm_question = ''Did SOL reach $200 in January 2026?'', sm_end = 1769903999000, sm_resolution = Some 1769947200000,
       sm_oracle = ORACLE_ADDRESS, sm_status = RESOLVED, sm_outcome = Some False\<rparr>,
     \<lparr>sm_question = ''Will the Fed cut rates in Q1 2026?'', sm_end = 1775001599000, sm_resolution = None,
       sm_oracle = ORACLE_ADDRESS, sm_status = ACTIVE, sm_outcome = None\<rparr>,
     \<lparr>sm_question = ''Will there be a major exchange hack in 2026?'', sm_end = 1751327999000, sm_resolution = None,
       sm_oracle = ORACLE_ADDRESS, sm_status = CANCELLED_MARKET, sm_outcome = None\<rparr>]"

record seed_order =
  so_market :: string
  so_user :: string
  so_side :: order_side
  so_outcome :: outcome
  so_price :: number
  so_quantity :: int
  so_filled :: int
  so_status :: order_status

definition sample_order :: "string \<Rightarrow> nat \<Rightarrow> order_side \<Rightarrow> outcome \<Rightarrow> rat \<Rightarrow> int \<Rightarrow> int \<Rightarrow> order_status \<Rightarrow> seed_order" where
  "sample_order m u side oc p q filled status = \<lparr>so_market = m, so_user = USER_ADDRESSES ! u, so_side = side, so_outcome = oc,
     so_price = fl p, so_quantity = q, so_filled = filled, so_status = status\<rparr>"

text \<open>The twelve orders of a market: bids and asks of YES and of NO, two filled ones and one in part.\<close>

definition market_orders :: "string \<Rightarrow> seed_order list" where
  "market_orders m =
    [sample_order m 0 BUY YES (55 / 100) 100 0 OPEN, sample_order m 1 BUY YES (52 / 100) 250 0 OPEN,
     sample_order m 2 BUY YES (5 / 10) 500 0 OPEN,
     sample_order m 3 SELL YES (58 / 100) 150 0 OPEN, sample_order m 4 SELL YES (6 / 10) 200 0 OPEN,
     sample_order m 2 BUY NO (42 / 100) 300 0 OPEN, sample_order m 3 BUY NO (4 / 10) 400 0 OPEN,
     sample_order m 0 SELL NO (45 / 100) 200 0 OPEN, sample_order m 1 SELL NO (48 / 100) 150 0 OPEN,
     sample_order m 4 BUY YES (53 / 100) 100 100 FILLED, sample_order m 0 SELL YES (53 / 100) 100 100 FILLED,
     sample_order m 1 BUY NO (44 / 100) 200 75 PARTIALLY_FILLED]"

definition sample_orders :: "(string \<times> market_status) list \<Rightarrow> seed_order list" where
  "sample_orders markets = concat (map (\<lambda>(m, s). if s = CANCELLED_MARKET then [] else market_orders m) markets)"

record seed_position =
  sn_market :: string
  sn_user :: string
  sn_yes :: int
  sn_no :: int
  sn_collateral :: string
  sn_settled :: bool

definition market_positions :: "string \<Rightarrow> bool \<Rightarrow> seed_position list" where
  "market_positions m settled = map (\<lambda>(u, y, n, c). \<lparr>sn_market = m, sn_user = USER_ADDRESSES ! u, sn_yes = y, sn_no = n,
       sn_collateral = c, sn_settled = settled\<rparr>)
     [(0, 100, 0, ''55.00000000''), (1, 50, 75, ''60.00000000''), (2, 0, 200, ''80.00000000''),
      (3, 150, 50, ''100.00000000''), (4, 100, 0, ''53.00000000'')]"

definition sample_positions :: "(string \<times> market_status) list \<Rightarrow> seed_position list" where
  "sample_positions markets = concat (map (\<lambda>(m, s). market_positions m (s = RESOLVED)) markets)"

subsection \<open>The script\<close>

record 'w seed_client =
  sd_delete_orders :: "('w, unit) call"
  sd_delete_positions :: "('w, unit) call"
  sd_delete_markets :: "('w, unit) call"
  sd_create_markets :: "seed_market list \<Rightarrow> ('w, (string \<times> market_status) list) call"
  sd_create_orders :: "seed_order list \<Rightarrow> ('w, nat) call"
  sd_create_positions :: "seed_position list \<Rightarrow> ('w, nat) call"
  sd_disconnect :: "('w, unit) call"

record seed_result =
  sr_markets :: nat
  sr_orders :: nat
  sr_positions :: nat

definition clear_database :: "'w seed_client \<Rightarrow> string option \<Rightarrow> ('w, unit) call" where
  "clear_database c node_env = (if node_env = Some ''production'' then call_return ()
     else call_bind (sd_delete_orders c) (\<lambda>_. call_bind (sd_delete_positions c) (\<lambda>_. sd_delete_markets c)))"

definition seed_body :: "'w seed_client \<Rightarrow> string option \<Rightarrow> ('w, seed_result) call" where
  "seed_body c node_env = call_bind (clear_database c node_env) (\<lambda>_.
     call_bind (sd_create_markets c sample_markets) (\<lambda>markets.
     call_bind (sd_create_orders c (sample_orders markets)) (\<lambda>orders.
     call_bind (sd_create_positions c (sample_positions markets)) (\<lambda>positions.
     call_return \<lparr>sr_markets = length markets, sr_orders = orders, sr_positions = positions\<rparr>))))"

text \<open>\<open>finally\<close>: a client the script made itself is disconnected whatever happened; a failing disconnect wins.\<close>

definition seed :: "'w seed_client \<Rightarrow> bool \<Rightarrow> string option \<Rightarrow> string option \<Rightarrow> ('w, seed_result) call" where
  "seed c given database_url node_env w =
     (if \<not> given \<and> (case database_url of Some (x # xs) \<Rightarrow> False | _ \<Rightarrow> True)
        then (Inl ''DATABASE_URL environment variable is not set'', w)
      else (case seed_body c node_env w of (r, w1) \<Rightarrow>
         if given then (r, w1) else (case sd_disconnect c w1 of (Inl e, w2) \<Rightarrow> (Inl e, w2) | (Inr u, w2) \<Rightarrow> (r, w2))))"

subsection \<open>What the script needs of a database\<close>

text \<open>Three tables; rows that refer to a market need it, and a market is deleted only without them. A user has
  one position in a market.\<close>

definition position_key :: "seed_position \<Rightarrow> string \<times> string" where
  "position_key p = (sn_market p, sn_user p)"

locale seed_database =
  fixes client :: "'w seed_client"
    and markets :: "'w \<Rightarrow> (string \<times> seed_market) list"
    and orders :: "'w \<Rightarrow> seed_order list"
    and positions :: "'w \<Rightarrow> seed_position list"
  assumes delete_orders: "\<exists>w'. sd_delete_orders client w = (Inr (), w') \<and> markets w' = markets w \<and> orders w' = [] \<and> positions w' = positions w"
    and delete_positions: "\<exists>w'. sd_delete_positions client w = (Inr (), w') \<and> markets w' = markets w \<and> orders w' = orders w \<and> positions w' = []"
    and delete_markets: "orders w = [] \<Longrightarrow> positions w = [] \<Longrightarrow>
      \<exists>w'. sd_delete_markets client w = (Inr (), w') \<and> markets w' = [] \<and> orders w' = [] \<and> positions w' = []"
    and create_markets: "\<exists>w' ids. sd_create_markets client ms w = (Inr (zip ids (map sm_status ms)), w') \<and> length ids = length ms
      \<and> distinct ids \<and> set ids \<inter> fst ` set (markets w) = {} \<and> markets w' = markets w @ zip ids ms
      \<and> orders w' = orders w \<and> positions w' = positions w"
    and create_orders: "so_market ` set os \<subseteq> fst ` set (markets w) \<Longrightarrow>
      \<exists>w'. sd_create_orders client os w = (Inr (length os), w') \<and> markets w' = markets w \<and> orders w' = orders w @ os
        \<and> positions w' = positions w"
    and create_positions: "sn_market ` set ps \<subseteq> fst ` set (markets w) \<Longrightarrow> distinct (map position_key (positions w @ ps)) \<Longrightarrow>
      \<exists>w'. sd_create_positions client ps w = (Inr (length ps), w') \<and> markets w' = markets w \<and> orders w' = orders w
        \<and> positions w' = positions w @ ps"

lemma sample_orders_market: "so_market ` set (sample_orders ms) \<subseteq> fst ` set ms"
  by (force simp: sample_orders_def market_orders_def sample_order_def split: if_splits)

lemma sample_positions_market: "sn_market ` set (sample_positions ms) \<subseteq> fst ` set ms"
  by (force simp: sample_positions_def market_positions_def)

lemma users_distinct: "distinct USER_ADDRESSES"
  by (simp add: USER_ADDRESSES_def)

lemma market_position_keys: "map position_key (market_positions m b) = map (\<lambda>u. (m, USER_ADDRESSES ! u)) [0, 1, 2, 3, 4]"
  by (simp add: market_positions_def position_key_def)

lemma sample_position_keys:
  "distinct (map fst ms) \<Longrightarrow> distinct (map position_key (sample_positions ms))"
proof (induction ms)
  case (Cons x ms)
  obtain m s where x: "x = (m, s)" by (cases x)
  have user: "distinct (map (\<lambda>u. USER_ADDRESSES ! u) [0, 1, 2, 3, 4])"
    using users_distinct by (simp add: USER_ADDRESSES_def)
  then have "distinct (map position_key (market_positions m (s = RESOLVED)))"
    unfolding market_position_keys by (simp add: USER_ADDRESSES_def)
  moreover have "k \<notin> position_key ` set (sample_positions ms)" if "k \<in> position_key ` set (market_positions m b)" for k b
  proof
    assume "k \<in> position_key ` set (sample_positions ms)"
    then have "fst k \<in> fst ` set ms" using sample_positions_market [of ms] by (auto simp: position_key_def)
    moreover have "fst k = m" using that by (auto simp: market_positions_def position_key_def)
    ultimately show False using Cons.prems by (simp add: x)
  qed
  moreover have "sample_positions (x # ms) = market_positions m (s = RESOLVED) @ sample_positions ms"
    by (simp add: sample_positions_def x)
  moreover have "distinct (map position_key (sample_positions ms))" using Cons by simp
  ultimately show ?case by auto
qed (simp add: sample_positions_def)

context seed_database
begin

lemma cleared:
  assumes "node_env \<noteq> Some ''production''"
  shows "\<exists>w'. clear_database client node_env w = (Inr (), w') \<and> markets w' = [] \<and> orders w' = [] \<and> positions w' = []"
proof -
  from delete_orders [of w] obtain w1 where w1: "sd_delete_orders client w = (Inr (), w1)" "orders w1 = []" by blast
  from delete_positions [of w1] obtain w2 where w2: "sd_delete_positions client w1 = (Inr (), w2)" "orders w2 = []" "positions w2 = []"
    using w1 by auto
  from delete_markets [OF w2(2,3)] obtain w3 where "sd_delete_markets client w2 = (Inr (), w3)" "markets w3 = []" "orders w3 = []"
    "positions w3 = []" by blast
  with assms w1 w2 show ?thesis by (simp add: clear_database_def call_bind_def)
qed

text \<open>Outside production the tables hold the sample and nothing else; in production the sample is added.\<close>

lemma seeded:
  assumes inv: "sn_market ` set (positions w) \<subseteq> fst ` set (markets w)" "distinct (map position_key (positions w))"
  shows "\<exists>w' ids. seed_body client node_env w = (Inr \<lparr>sr_markets = 5, sr_orders = 48, sr_positions = 25\<rparr>, w') \<and>
     length ids = 5 \<and> distinct ids \<and>
     (let ms = zip ids (map sm_status sample_markets); keep = (node_env = Some ''production'') in
        markets w' = (if keep then markets w else []) @ zip ids sample_markets
        \<and> orders w' = (if keep then orders w else []) @ sample_orders ms
        \<and> positions w' = (if keep then positions w else []) @ sample_positions ms)"
proof -
  have "\<exists>w1. clear_database client node_env w = (Inr (), w1) \<and>
      markets w1 = (if node_env = Some ''production'' then markets w else []) \<and>
      orders w1 = (if node_env = Some ''production'' then orders w else []) \<and>
      positions w1 = (if node_env = Some ''production'' then positions w else [])"
    using cleared [of node_env w] by (cases "node_env = Some ''production''") (simp_all add: clear_database_def call_return_def)
  then obtain w1 where w1: "clear_database client node_env w = (Inr (), w1)"
    and t1: "markets w1 = (if node_env = Some ''production'' then markets w else [])"
      "orders w1 = (if node_env = Some ''production'' then orders w else [])"
      "positions w1 = (if node_env = Some ''production'' then positions w else [])" by blast
  from create_markets [of sample_markets w1] obtain w2 ids where w2:
    "sd_create_markets client sample_markets w1 = (Inr (zip ids (map sm_status sample_markets)), w2)"
    "length ids = length sample_markets" "distinct ids" "set ids \<inter> fst ` set (markets w1) = {}"
    "markets w2 = markets w1 @ zip ids sample_markets" "orders w2 = orders w1" "positions w2 = positions w1" by blast
  define ms where "ms = zip ids (map sm_status sample_markets)"
  have ids: "map fst ms = ids" "length ids = 5" using w2(2) by (simp_all add: ms_def sample_markets_def)
  have "fst ` set (zip ids sample_markets) = set ids" using w2(2) by (simp flip: set_map)
  moreover have ms_ids: "fst ` set ms = set ids" using ids(1) by (metis set_map)
  ultimately have inm: "fst ` set ms \<subseteq> fst ` set (markets w2)" using w2(5) by (simp add: image_Un)
  from create_orders [of "sample_orders ms" w2] obtain w3 where w3: "sd_create_orders client (sample_orders ms) w2 = (Inr (length (sample_orders ms)), w3)"
    "markets w3 = markets w2" "orders w3 = orders w2 @ sample_orders ms" "positions w3 = positions w2"
    using inm sample_orders_market [of ms] by blast
  have old: "fst ` position_key ` set (positions w1) \<subseteq> fst ` set (markets w1)" "distinct (map position_key (positions w1))"
    using inv t1 by (auto simp: position_key_def split: if_splits)
  have "fst ` position_key ` set (sample_positions ms) \<subseteq> set ids"
    using sample_positions_market [of ms] ms_ids by (simp add: image_image position_key_def)
  then have "distinct (map position_key (positions w3 @ sample_positions ms))"
    using old w2(3,4,7) w3(4) sample_position_keys [of ms] ids(1) by auto
  moreover have "sn_market ` set (sample_positions ms) \<subseteq> fst ` set (markets w3)"
    using order_trans [OF sample_positions_market inm] w3(2) by simp
  ultimately obtain w4 where w4:
    "sd_create_positions client (sample_positions ms) w3 = (Inr (length (sample_positions ms)), w4)"
    "markets w4 = markets w3" "orders w4 = orders w3" "positions w4 = positions w3 @ sample_positions ms"
    using create_positions [of "sample_positions ms" w3] by blast
  obtain a b c d e where five: "ids = [a, b, c, d, e]" using ids(2) by (auto simp: length_Suc_conv eval_nat_numeral)
  have "length (sample_orders ms) = 48" "length (sample_positions ms) = 25" "length ms = 5"
    by (simp_all add: ms_def five sample_markets_def sample_orders_def sample_positions_def market_orders_def market_positions_def)
  then have "seed_body client node_env w = (Inr \<lparr>sr_markets = 5, sr_orders = 48, sr_positions = 25\<rparr>, w4)"
    using w1 w2(1) w3(1) w4(1) by (simp add: seed_body_def call_bind_def ms_def)
  then show ?thesis using ids(2) w2 w3 w4 t1 by (auto simp: Let_def ms_def)
qed

end

subsection \<open>On tables\<close>

text \<open>The schema's keys, with deletes that cascade; the identifiers are texts longer than those in use.\<close>

record seed_tables =
  sx_markets :: "(string \<times> seed_market) list"
  sx_orders :: "seed_order list"
  sx_positions :: "seed_position list"

definition fresh_ids :: "nat \<Rightarrow> (string \<times> seed_market) list \<Rightarrow> string list" where
  "fresh_ids n ms = map (\<lambda>k. replicate (fold (\<lambda>x. max (length (fst x))) ms 0 + 1 + k) (CHR ''m'')) [0..<n]"

definition table_client :: "seed_tables seed_client" where
  "table_client = \<lparr>sd_delete_orders = (\<lambda>w. (Inr (), w\<lparr>sx_orders := []\<rparr>)),
     sd_delete_positions = (\<lambda>w. (Inr (), w\<lparr>sx_positions := []\<rparr>)),
     sd_delete_markets = (\<lambda>w. (Inr (), w\<lparr>sx_markets := [], sx_orders := [], sx_positions := []\<rparr>)),
     sd_create_markets = (\<lambda>ms w. let ids = fresh_ids (length ms) (sx_markets w)
        in (Inr (zip ids (map sm_status ms)), w\<lparr>sx_markets := sx_markets w @ zip ids ms\<rparr>)),
     sd_create_orders = (\<lambda>os w. if so_market ` set os \<subseteq> fst ` set (sx_markets w)
        then (Inr (length os), w\<lparr>sx_orders := sx_orders w @ os\<rparr>)
        else (Inl ''Foreign key constraint failed: orders_market_id_fkey'', w)),
     sd_create_positions = (\<lambda>ps w. if \<not> sn_market ` set ps \<subseteq> fst ` set (sx_markets w)
        then (Inl ''Foreign key constraint failed: user_positions_market_id_fkey'', w)
        else if distinct (map position_key (sx_positions w @ ps))
        then (Inr (length ps), w\<lparr>sx_positions := sx_positions w @ ps\<rparr>)
        else (Inl ''Unique constraint failed on the fields: (market_id,user_address)'', w)),
     sd_disconnect = (\<lambda>w. (Inr (), w))\<rparr>"

lemma fold_max_ge: "x \<in> set ms \<Longrightarrow> length (fst x) \<le> fold (\<lambda>x. max (length (fst x))) ms n"
proof -
  have start: "n \<le> fold (\<lambda>x. max (length (fst x))) ms n" for n :: nat and ms :: "('a list \<times> 'b) list"
  proof (induction ms arbitrary: n)
    case (Cons y ms)
    from Cons.IH [of "max (length (fst y)) n"] show ?case by simp
  qed simp
  show "x \<in> set ms \<Longrightarrow> length (fst x) \<le> fold (\<lambda>x. max (length (fst x))) ms n"
  proof (induction ms arbitrary: n)
    case (Cons y ms)
    then show ?case using start [of "max (length (fst y)) n" ms] by auto
  qed simp
qed

lemma fresh_ids_fresh: "set (fresh_ids n ms) \<inter> fst ` set ms = {}"
proof -
  have "fst x \<noteq> replicate (fold (\<lambda>x. max (length (fst x))) ms 0 + 1 + k) (CHR ''m'')" if "x \<in> set ms" for x k
  proof
    assume "fst x = replicate (fold (\<lambda>x. max (length (fst x))) ms 0 + 1 + k) (CHR ''m'')"
    then have "length (fst x) = fold (\<lambda>x. max (length (fst x))) ms 0 + 1 + k" by (simp only: length_replicate)
    with fold_max_ge [OF that, of 0] show False by simp
  qed
  then show ?thesis unfolding fresh_ids_def by fastforce
qed

lemma fresh_ids_distinct: "distinct (fresh_ids n ms)" "length (fresh_ids n ms) = n"
  by (auto simp: fresh_ids_def distinct_map inj_on_def)

interpretation sample: seed_database table_client sx_markets sx_orders sx_positions
proof
  fix ms :: "seed_market list" and w :: seed_tables
  show "\<exists>w' ids. sd_create_markets table_client ms w = (Inr (zip ids (map sm_status ms)), w') \<and> length ids = length ms
      \<and> distinct ids \<and> set ids \<inter> fst ` set (sx_markets w) = {} \<and> sx_markets w' = sx_markets w @ zip ids ms
      \<and> sx_orders w' = sx_orders w \<and> sx_positions w' = sx_positions w"
    by (rule exI, rule exI [of _ "fresh_ids (length ms) (sx_markets w)"])
      (auto simp: table_client_def Let_def fresh_ids_distinct fresh_ids_fresh)
qed (auto simp: table_client_def)

text \<open>A seed of tables outside production: whatever they held, they hold the sample, and the counts are right.\<close>

lemma seed_exact:
  assumes "sn_market ` set (sx_positions w) \<subseteq> fst ` set (sx_markets w)" "distinct (map position_key (sx_positions w))"
    and "node_env \<noteq> Some ''production''"
  shows "\<exists>w' ids. seed table_client True url node_env w = (Inr \<lparr>sr_markets = 5, sr_orders = 48, sr_positions = 25\<rparr>, w')
     \<and> distinct ids \<and> length ids = 5 \<and> sx_markets w' = zip ids sample_markets
     \<and> sx_orders w' = sample_orders (zip ids (map sm_status sample_markets))
     \<and> sx_positions w' = sample_positions (zip ids (map sm_status sample_markets))"
  using sample.seeded [OF assms(1,2), of node_env] assms(3) by (auto simp: seed_def Let_def)

text \<open>In production nothing is cleared, but the sample is inserted all the same.\<close>

lemma seed_fills_production:
  "\<exists>w'. seed table_client True url (Some ''production'') \<lparr>sx_markets = [], sx_orders = [], sx_positions = []\<rparr> =
     (Inr \<lparr>sr_markets = 5, sr_orders = 48, sr_positions = 25\<rparr>, w')"
  using sample.seeded [of "\<lparr>sx_markets = [], sx_orders = [], sx_positions = []\<rparr>" "Some ''production''"]
  by (auto simp: seed_def)

subsection \<open>The sample\<close>

definition live_sample :: "seed_order \<Rightarrow> bool" where
  "live_sample d \<longleftrightarrow> so_status d \<in> {OPEN, PARTIALLY_FILLED}"

text \<open>The status of every order says what is filled, and the live orders of an outcome do not cross.\<close>

lemma sample_orders_consistent:
  assumes "d \<in> set (sample_orders ms)"
  shows "0 < so_quantity d \<and> so_status d = fill_status (so_filled d) (so_quantity d) \<and> 0 < so_price d \<and> so_price d < 1"
proof -
  from assms obtain m where "d \<in> set (market_orders m)" by (auto simp: sample_orders_def split: if_splits)
  moreover have "\<forall>d \<in> set (market_orders m). 0 < so_quantity d \<and> so_status d = fill_status (so_filled d) (so_quantity d)
      \<and> 0 < so_price d \<and> so_price d < 1"
    unfolding market_orders_def sample_order_def by code_simp
  ultimately show ?thesis by blast
qed

lemma sample_books_uncrossed:
  assumes "b \<in> set (market_orders m)" "a \<in> set (market_orders m)" "live_sample b" "live_sample a"
    and "so_outcome b = so_outcome a" "so_side b = BUY" "so_side a = SELL"
  shows "so_price b < so_price a"
proof -
  have "\<forall>b \<in> set (market_orders m). \<forall>a \<in> set (market_orders m). live_sample b \<and> live_sample a \<and> so_outcome b = so_outcome a
      \<and> so_side b = BUY \<and> so_side a = SELL \<longrightarrow> so_price b < so_price a"
    unfolding market_orders_def sample_order_def by code_simp
  then show ?thesis using assms by blast
qed

end
