(* ===== verification/OpenApi.thy ===== *)
theory OpenApi
  imports LegacyRoutes MarketRoutes Validation
begin

text \<open>
  The document the API serves as \<open>/v1/openapi.json\<close> (\<open>src/api/openapi.ts\<close>), as the value it is, and how far it
  agrees with the routes, the guards and the validation of the other theories.
\<close>

subsection \<open>The document\<close>

definition openapi_health :: js where
  "openapi_health =
    Obj [
      (''get'', Obj [
        (''summary'', Str ''Health check''),
        (''description'', Str ''Returns the health status of the API''),
        (''tags'', Arr [Str ''Health'']),
        (''responses'', Obj [
          (''200'', Obj [
            (''description'', Str ''Service is healthy''),
            (''content'', Obj [
              (''application/json'', Obj [
                (''schema'', Obj [
                  (''type'', Str ''object''),
                  (''properties'', Obj [
                    (''status'', Obj [(''type'', Str ''string''), (''example'', Str ''ok'')]),
                    (''service'', Obj [(''type'', Str ''string''), (''example'', Str ''vatix-backend'')])])])])])])])])]"

definition openapi_ready :: js where
  "openapi_ready =
    Obj [
      (''get'', Obj [
        (''summary'', Str ''Readiness check''),
        (''description'', Str ''Returns the readiness status including dependency health''),
        (''tags'', Arr [Str ''Health'']),
        (''responses'', Obj [
          (''200'', Obj [
            (''description'', Str ''Service is ready''),
            (''content'', Obj [
              (''application/json'', Obj [
                (''schema'', Obj [
                  (''type'', Str ''object''),
                  (''properties'', Obj [
                    (''ready'', Obj [(''type'', Str ''boolean''), (''example'', Bool True)]),
                    (''dependencies'', Obj [
                      (''type'', Str ''object''),
                      (''properties'', Obj [
                        (''database'', Obj [(''$ref'', Str ''#/components/schemas/DependencyResult'')]),
                        (''indexFreshness'', Obj [(''$ref'', Str ''#/components/schemas/DependencyResult'')])])])])])])])]),
          (''503'', Obj [
            (''description'', Str ''Service is not ready''),
            (''content'', Obj [
              (''application/json'', Obj [
                (''schema'', Obj [
                  (''type'', Str ''object''),
                  (''properties'', Obj [
                    (''ready'', Obj [(''type'', Str ''boolean''), (''example'', Bool False)]),
                    (''dependencies'', Obj [
                      (''type'', Str ''object''),
                      (''properties'', Obj [
                        (''database'', Obj [(''$ref'', Str ''#/components/schemas/DependencyResult'')]),
                        (''indexFreshness'', Obj [(''$ref'', Str ''#/components/schemas/DependencyResult'')])])])])])])])])])])]"

definition openapi_markets :: js where
  "openapi_markets =
    Obj [
      (''get'', Obj [
        (''summary'', Str ''List markets''),
        (''description'', Str ''Retrieve a paginated list of prediction markets''),
        (''tags'', Arr [Str ''Markets'']),
        (''parameters'', Arr [
          Obj [
            (''name'', Str ''status''),
            (''in'', Str ''query''),
            (''description'', Str ''Filter by market status''),
            (''schema'', Obj [
              (''type'', Str ''string''),
              (''enum'', Arr [Str ''ACTIVE'', Str ''RESOLVED'', Str ''CANCELLED''])])],
          Obj [
            (''name'', Str ''limit''),
            (''in'', Str ''query''),
            (''description'', Str ''Number of markets to return''),
            (''schema'', Obj [
              (''type'', Str ''integer''),
              (''minimum'', Num 1),
              (''maximum'', Num 100),
              (''default'', Num 50)])]]),
        (''responses'', Obj [(''200'', Obj [(''description'', Str ''List of markets'')])])])]"

definition openapi_market :: js where
  "openapi_market =
    Obj [
      (''get'', Obj [
        (''summary'', Str ''Market details''),
        (''description'', Str ''Retrieve a single market by ID''),
        (''tags'', Arr [Str ''Markets'']),
        (''parameters'', Arr [
          Obj [
            (''name'', Str ''id''),
            (''in'', Str ''path''),
            (''required'', Bool True),
            (''schema'', Obj [(''type'', Str ''string'')])]]),
        (''responses'', Obj [
          (''200'', Obj [(''description'', Str ''Market details'')]),
          (''404'', Obj [(''description'', Str ''Market not found'')])])])]"

definition openapi_orderbook :: js where
  "openapi_orderbook =
    Obj [
      (''get'', Obj [
        (''summary'', Str ''Market orderbook''),
        (''description'', Str ''Retrieve the orderbook for a market''),
        (''tags'', Arr [Str ''Markets'']),
        (''parameters'', Arr [
          Obj [
            (''name'', Str ''id''),
            (''in'', Str ''path''),
            (''required'', Bool True),
            (''schema'', Obj [(''type'', Str ''string'')])]]),
        (''responses'', Obj [
          (''200'', Obj [(''description'', Str ''Market orderbook'')]),
          (''404'', Obj [(''description'', Str ''Market not found'')])])])]"

definition openapi_orders :: js where
  "openapi_orders =
    Obj [
      (''post'', Obj [
        (''summary'', Str ''Create an order''),
        (''description'', Str ''Submit a new order to the prediction market. Requires Stellar wallet ownership proof via Ed25519 signature headers.''),
        (''tags'', Arr [Str ''Orders'']),
        (''parameters'', Arr [
          Obj [
            (''name'', Str ''x-signature''),
            (''in'', Str ''header''),
            (''required'', Bool True),
            (''description'', Str ''Base64-encoded Ed25519 signature of the canonical request body JSON (keys sorted alphabetically) combined with x-timestamp, signed by the private key of userAddress.''),
            (''schema'', Obj [(''type'', Str ''string'')])],
          Obj [
            (''name'', Str ''x-timestamp''),
            (''in'', Str ''header''),
            (''required'', Bool True),
            (''description'', Str (''Unix timestamp in milliseconds (string). Must be within '' @ [CHR 0xB1] @ ''5 minutes of server time to prevent replay attacks.'')),
            (''schema'', Obj [(''type'', Str ''string'')])]]),
        (''requestBody'', Obj [
          (''required'', Bool True),
          (''content'', Obj [
            (''application/json'', Obj [
              (''schema'', Obj [
                (''type'', Str ''object''),
                (''required'', Arr [
                  Str ''marketId'',
                  Str ''userAddress'',
                  Str ''side'',
                  Str ''outcome'',
                  Str ''price'',
                  Str ''quantity'']),
                (''properties'', Obj [
                  (''marketId'', Obj [(''type'', Str ''string'')]),
                  (''userAddress'', Obj [(''type'', Str ''string'')]),
                  (''side'', Obj [(''type'', Str ''string''), (''enum'', Arr [Str ''BUY'', Str ''SELL''])]),
                  (''outcome'', Obj [(''type'', Str ''string''), (''enum'', Arr [Str ''YES'', Str ''NO''])]),
                  (''price'', Obj [(''type'', Str ''number''), (''minimum'', Num 0), (''maximum'', Num 1)]),
                  (''quantity'', Obj [(''type'', Str ''integer''), (''minimum'', Num 1)])])])])])]),
        (''responses'', Obj [
          (''201'', Obj [(''description'', Str ''Order created'')]),
          (''400'', Obj [(''description'', Str ''Invalid request body or market not active'')]),
          (''401'', Obj [(''description'', Str ''Missing, expired, or invalid x-signature / x-timestamp headers'')])])])]"

definition openapi_user_orders :: js where
  "openapi_user_orders =
    Obj [
      (''get'', Obj [
        (''summary'', Str ''User orders''),
        (''description'', Str ''Retrieve orders submitted by a user''),
        (''tags'', Arr [Str ''Orders'']),
        (''parameters'', Arr [
          Obj [
            (''name'', Str ''address''),
            (''in'', Str ''path''),
            (''required'', Bool True),
            (''schema'', Obj [(''type'', Str ''string'')])]]),
        (''responses'', Obj [(''200'', Obj [(''description'', Str ''User orders'')])])])]"

definition openapi_user_trades :: js where
  "openapi_user_trades =
    Obj [
      (''get'', Obj [
        (''summary'', Str ''User trade history''),
        (''description'', Str ''Retrieve trade history for a wallet''),
        (''tags'', Arr [Str ''Trades'']),
        (''parameters'', Arr [
          Obj [
            (''name'', Str ''address''),
            (''in'', Str ''path''),
            (''required'', Bool True),
            (''schema'', Obj [(''type'', Str ''string'')])]]),
        (''responses'', Obj [(''200'', Obj [(''description'', Str ''User trades'')])])])]"

definition openapi_positions :: js where
  "openapi_positions =
    Obj [
      (''get'', Obj [
        (''summary'', Str ''Wallet positions''),
        (''description'', Str ''Retrieve position exposures for a wallet. Set includePnl=true to also compute realized/unrealized PnL (this is the canonical replacement for the deprecated /positions/user/:address endpoint).''),
        (''tags'', Arr [Str ''Positions'']),
        (''parameters'', Arr [
          Obj [
            (''name'', Str ''wallet''),
            (''in'', Str ''path''),
            (''required'', Bool True),
            (''schema'', Obj [(''type'', Str ''string'')]),
            (''description'', Str ''Stellar public key (StrKey): starts with G and is 56 chars using [A-Z2-7]'')],
          Obj [
            (''name'', Str ''includePnl''),
            (''in'', Str ''query''),
            (''required'', Bool False),
            (''schema'', Obj [(''type'', Str ''boolean''), (''default'', Bool False)]),
            (''description'', Str ''When true, computes and includes realized/unrealized PnL per position and in the response summary.'')]]),
        (''responses'', Obj [
          (''200'', Obj [
            (''description'', Str ''Wallet positions''),
            (''content'', Obj [
              (''application/json'', Obj [(''schema'', Obj [(''$ref'', Str ''#/components/schemas/WalletPositionsResponse'')])])])])])])]"

definition openapi_position :: js where
  "openapi_position =
    Obj [
      (''get'', Obj [
        (''summary'', Str ''Single market position''),
        (''description'', Str ''Retrieve the position exposure for a wallet in a specific market. Returns 404 if no position exists.''),
        (''tags'', Arr [Str ''Positions'']),
        (''parameters'', Arr [
          Obj [
            (''name'', Str ''wallet''),
            (''in'', Str ''path''),
            (''required'', Bool True),
            (''schema'', Obj [(''type'', Str ''string'')]),
            (''description'', Str ''Stellar public key (StrKey): starts with G and is 56 chars using [A-Z2-7]'')],
          Obj [
            (''name'', Str ''marketId''),
            (''in'', Str ''path''),
            (''required'', Bool True),
            (''schema'', Obj [(''type'', Str ''string'')]),
            (''description'', Str ''Market ID to fetch position for'')]]),
        (''responses'', Obj [
          (''200'', Obj [
            (''description'', Str ''Single market position''),
            (''content'', Obj [
              (''application/json'', Obj [
                (''schema'', Obj [
                  (''type'', Str ''object''),
                  (''properties'', Obj [
                    (''wallet'', Obj [(''type'', Str ''string'')]),
                    (''marketId'', Obj [(''type'', Str ''string'')]),
                    (''position'', Obj [(''$ref'', Str ''#/components/schemas/WalletExposureRow'')])])])])])]),
          (''404'', Obj [(''description'', Str ''No position found for the given wallet and market'')])])])]"

definition openapi_admin_markets :: js where
  "openapi_admin_markets =
    Obj [
      (''get'', Obj [
        (''summary'', Str ''Admin market listing''),
        (''description'', Str ''List all markets including CANCELLED ones. Requires API key and admin token.''),
        (''tags'', Arr [Str ''Admin'']),
        (''security'', Arr [Obj [(''ApiKeyAuth'', Arr []), (''BearerAuth'', Arr [])]]),
        (''responses'', Obj [
          (''200'', Obj [(''description'', Str ''Admin market list'')]),
          (''401'', Obj [(''description'', Str ''Missing or invalid API key'')]),
          (''403'', Obj [(''description'', Str ''Invalid admin token'')])])])]"

definition openapi_admin_status :: js where
  "openapi_admin_status =
    Obj [
      (''patch'', Obj [
        (''summary'', Str ''Update market status''),
        (''description'', Str ''Admin endpoint to change market status. Requires API key and admin token.''),
        (''tags'', Arr [Str ''Admin'']),
        (''security'', Arr [Obj [(''ApiKeyAuth'', Arr []), (''BearerAuth'', Arr [])]]),
        (''parameters'', Arr [
          Obj [
            (''name'', Str ''id''),
            (''in'', Str ''path''),
            (''required'', Bool True),
            (''schema'', Obj [(''type'', Str ''string'')])]]),
        (''requestBody'', Obj [
          (''required'', Bool True),
          (''content'', Obj [
            (''application/json'', Obj [
              (''schema'', Obj [
                (''type'', Str ''object''),
                (''required'', Arr [Str ''status'']),
                (''properties'', Obj [
                  (''status'', Obj [
                    (''type'', Str ''string''),
                    (''enum'', Arr [Str ''ACTIVE'', Str ''RESOLVED'', Str ''CANCELLED''])])])])])])]),
        (''responses'', Obj [
          (''200'', Obj [(''description'', Str ''Market updated'')]),
          (''400'', Obj [(''description'', Str ''Invalid request'')]),
          (''401'', Obj [(''description'', Str ''Missing or invalid API key'')]),
          (''403'', Obj [(''description'', Str ''Invalid admin token'')]),
          (''404'', Obj [(''description'', Str ''Market not found'')])])])]"

definition openapi_security :: js where
  "openapi_security =
    Obj [
      (''ApiKeyAuth'', Obj [
        (''type'', Str ''apiKey''),
        (''in'', Str ''header''),
        (''name'', Str ''x-api-key''),
        (''description'', Str ''API key required for all admin endpoints'')]),
      (''BearerAuth'', Obj [
        (''type'', Str ''http''),
        (''scheme'', Str ''bearer''),
        (''description'', Str ''Admin token required for all admin endpoints'')])]"

definition openapi_schemas :: js where
  "openapi_schemas =
    Obj [
      (''Error'', Obj [
        (''type'', Str ''object''),
        (''properties'', Obj [
          (''code'', Obj [(''type'', Str ''string'')]),
          (''message'', Obj [(''type'', Str ''string'')]),
          (''statusCode'', Obj [(''type'', Str ''integer'')]),
          (''requestId'', Obj [(''type'', Str ''string'')])])]),
      (''DependencyResult'', Obj [
        (''type'', Str ''object''),
        (''properties'', Obj [
          (''status'', Obj [(''type'', Str ''string''), (''enum'', Arr [Str ''ok'', Str ''error'', Str ''stale''])]),
          (''error'', Obj [(''type'', Str ''string''), (''nullable'', Bool True)])])]),
      (''WalletExposureRow'', Obj [
        (''type'', Str ''object''),
        (''properties'', Obj [
          (''marketId'', Obj [(''type'', Str ''string'')]),
          (''marketQuestion'', Obj [(''type'', Str ''string'')]),
          (''yesShares'', Obj [(''type'', Str ''number'')]),
          (''noShares'', Obj [(''type'', Str ''number'')]),
          (''netExposure'', Obj [(''type'', Str ''number'')]),
          (''lockedCollateral'', Obj [(''type'', Str ''string'')]),
          (''isSettled'', Obj [(''type'', Str ''boolean'')]),
          (''updatedAt'', Obj [(''type'', Str ''string''), (''format'', Str ''date-time'')]),
          (''pnlRealized'', Obj [
            (''type'', Arr [Str ''string'', Str ''null'']),
            (''description'', Str ''Present only when includePnl=true.'')]),
          (''pnlUnrealized'', Obj [
            (''type'', Arr [Str ''string'', Str ''null'']),
            (''description'', Str ''Present only when includePnl=true.'')])])]),
      (''WalletPositionsResponse'', Obj [
        (''type'', Str ''object''),
        (''properties'', Obj [
          (''wallet'', Obj [(''type'', Str ''string'')]),
          (''exposures'', Obj [
            (''type'', Str ''array''),
            (''items'', Obj [(''$ref'', Str ''#/components/schemas/WalletExposureRow'')])]),
          (''count'', Obj [(''type'', Str ''number'')]),
          (''pnlRealized'', Obj [(''type'', Str ''string''), (''description'', Str ''Present only when includePnl=true.'')]),
          (''pnlUnrealized'', Obj [(''type'', Str ''string''), (''description'', Str ''Present only when includePnl=true.'')]),
          (''pnlTotal'', Obj [(''type'', Str ''string''), (''description'', Str ''Present only when includePnl=true.'')])])])]"

definition openApiSpec :: js where
  "openApiSpec =
    Obj [
      (''openapi'', Str ''3.0.0''),
      (''info'', Obj [
        (''title'', Str ''Vatix Backend API''),
        (''description'', Str ''Backend API for the Vatix prediction market protocol on Stellar''),
        (''version'', Str ''1.0.0'')]),
      (''servers'', Arr [Obj [(''url'', Str ''http://localhost:3000''), (''description'', Str ''Development server'')]]),
      (''paths'', Obj [
        (''/v1/health'', openapi_health),
        (''/v1/ready'', openapi_ready),
        (''/v1/markets'', openapi_markets),
        (''/v1/markets/{id}'', openapi_market),
        (''/v1/markets/{id}/orderbook'', openapi_orderbook),
        (''/v1/orders'', openapi_orders),
        (''/v1/orders/user/{address}'', openapi_user_orders),
        (''/v1/trades/user/{address}'', openapi_user_trades),
        (''/v1/wallets/{wallet}/positions'', openapi_positions),
        (''/v1/wallets/{wallet}/positions/{marketId}'', openapi_position),
        (''/v1/admin/markets'', openapi_admin_markets),
        (''/v1/admin/markets/{id}/status'', openapi_admin_status)]),
      (''components'', Obj [(''securitySchemes'', openapi_security), (''schemas'', openapi_schemas)])]"

subsection \<open>Reading it\<close>

fun object_members :: "js \<Rightarrow> (string \<times> js) list" where
  "object_members (Obj ps) = ps"
| "object_members v = []"

fun array_elements :: "js \<Rightarrow> js list" where
  "array_elements (Arr vs) = vs"
| "array_elements v = []"

definition member :: "string \<Rightarrow> js \<Rightarrow> js" where
  "member k v = get_prop k (object_members v)"

text \<open>Method in capitals, path and operation of everything the document lists.\<close>

definition documented_operations :: "(string \<times> string \<times> js) list" where
  "documented_operations = concat (map (\<lambda>(path, methods). map (\<lambda>(m, op). (to_upper m, path, op)) (object_members methods))
     (object_members (member ''paths'' openApiSpec)))"

text \<open>\<open>{id}\<close> in the document is \<open>:id\<close> in a route.\<close>

definition route_path :: "string \<Rightarrow> string" where
  "route_path p = concat (map (\<lambda>c. if c = CHR ''{'' then '':'' else if c = CHR ''}'' then [] else [c]) p)"

fun all_refs :: "js \<Rightarrow> string list" and refs_of_list :: "js list \<Rightarrow> string list" and refs_of_members :: "(string \<times> js) list \<Rightarrow> string list" where
  "all_refs (Arr vs) = refs_of_list vs"
| "all_refs (Obj ps) = refs_of_members ps"
| "all_refs v = []"
| "refs_of_list [] = []"
| "refs_of_list (v # vs) = all_refs v @ refs_of_list vs"
| "refs_of_members [] = []"
| "refs_of_members ((k, v) # ps) = (case v of Str r \<Rightarrow> if k = ''$ref'' then [r] else [] | _ \<Rightarrow> all_refs v) @ refs_of_members ps"

definition is_path_parameter :: "js \<Rightarrow> bool" where
  "is_path_parameter p \<longleftrightarrow> member ''in'' p = Str ''path'' \<and> member ''required'' p = Bool True"

lemmas openapi_defs = openApiSpec_def openapi_health_def openapi_ready_def openapi_markets_def openapi_market_def openapi_orderbook_def openapi_orders_def openapi_user_orders_def openapi_user_trades_def openapi_positions_def openapi_position_def openapi_admin_markets_def openapi_admin_status_def openapi_security_def

lemma upper_verbs: "to_upper ''get'' = ''GET''" "to_upper ''post'' = ''POST''" "to_upper ''patch'' = ''PATCH''"
  by code_simp+

lemma path_members:
  "object_members openapi_health = [(''get'', member ''get'' openapi_health)]"
  "object_members openapi_ready = [(''get'', member ''get'' openapi_ready)]"
  "object_members openapi_markets = [(''get'', member ''get'' openapi_markets)]"
  "object_members openapi_market = [(''get'', member ''get'' openapi_market)]"
  "object_members openapi_orderbook = [(''get'', member ''get'' openapi_orderbook)]"
  "object_members openapi_orders = [(''post'', member ''post'' openapi_orders)]"
  "object_members openapi_user_orders = [(''get'', member ''get'' openapi_user_orders)]"
  "object_members openapi_user_trades = [(''get'', member ''get'' openapi_user_trades)]"
  "object_members openapi_positions = [(''get'', member ''get'' openapi_positions)]"
  "object_members openapi_position = [(''get'', member ''get'' openapi_position)]"
  "object_members openapi_admin_markets = [(''get'', member ''get'' openapi_admin_markets)]"
  "object_members openapi_admin_status = [(''patch'', member ''patch'' openapi_admin_status)]"
  by (simp_all add: member_def get_prop_def openapi_health_def openapi_ready_def openapi_markets_def openapi_market_def openapi_orderbook_def openapi_orders_def openapi_user_orders_def openapi_user_trades_def openapi_positions_def openapi_position_def openapi_admin_markets_def openapi_admin_status_def)

lemma documented_operations_eq:
  "documented_operations = [(''GET'', ''/v1/health'', member ''get'' openapi_health),
     (''GET'', ''/v1/ready'', member ''get'' openapi_ready),
     (''GET'', ''/v1/markets'', member ''get'' openapi_markets),
     (''GET'', ''/v1/markets/{id}'', member ''get'' openapi_market),
     (''GET'', ''/v1/markets/{id}/orderbook'', member ''get'' openapi_orderbook),
     (''POST'', ''/v1/orders'', member ''post'' openapi_orders),
     (''GET'', ''/v1/orders/user/{address}'', member ''get'' openapi_user_orders),
     (''GET'', ''/v1/trades/user/{address}'', member ''get'' openapi_user_trades),
     (''GET'', ''/v1/wallets/{wallet}/positions'', member ''get'' openapi_positions),
     (''GET'', ''/v1/wallets/{wallet}/positions/{marketId}'', member ''get'' openapi_position),
     (''GET'', ''/v1/admin/markets'', member ''get'' openapi_admin_markets),
     (''PATCH'', ''/v1/admin/markets/{id}/status'', member ''patch'' openapi_admin_status)]"
  by (simp add: documented_operations_def member_def [of "''paths''"] get_prop_def openApiSpec_def upper_verbs path_members)

subsection \<open>Agreement with the program\<close>

text \<open>The document lists the routes of the registry, in its order, without the route of the document itself.\<close>

lemma documented_routes_exact:
  "map (\<lambda>(m, p, op). (m, route_path p)) documented_operations =
     map (\<lambda>r. (verb_text (cr_method r), cr_path r)) (filter (\<lambda>r. cr_path r \<noteq> ''/v1/openapi.json'') CANONICAL_V1_ROUTES)"
  unfolding documented_operations_eq by (simp add: route_path_def CANONICAL_V1_ROUTES_def verb_text_def)

text \<open>Every operation describes the parameters of its path, all required, in their order.\<close>

lemma path_parameters_documented:
  "\<forall>(m, p, op) \<in> set documented_operations.
     map (member ''name'') (filter is_path_parameter (array_elements (member ''parameters'' op))) = map Str (param_names (route_path p))"
  by code_simp

text \<open>Exactly the administration routes ask for the API key and the token.\<close>

lemma admin_security_documented:
  "\<forall>(m, p, op) \<in> set documented_operations. member ''security'' op =
     (if starts_with ''/v1/admin/'' p then Arr [Obj [(''ApiKeyAuth'', Arr []), (''BearerAuth'', Arr [])]] else Undefined)"
  by code_simp

text \<open>Every reference names a schema of the document, and the statuses are those of the program.\<close>

lemma references_resolve:
  "set (all_refs openApiSpec) \<subseteq> (\<lambda>k. ''#/components/schemas/'' @ k) ` fst ` set (object_members openapi_schemas)"
  by code_simp

lemma documented_statuses:
  "member ''enum'' (member ''schema'' (hd (array_elements (member ''parameters'' (member ''get'' openapi_markets)))))
     = Arr (map (Str \<circ> market_status_string) [ACTIVE, RESOLVED, CANCELLED_MARKET])"
  by (simp add: openapi_markets_def member_def get_prop_def market_status_string_def)

text \<open>Where they part: the body of an error has \<open>error\<close>, not \<open>message\<close>; the bounds of a price are exclusive.\<close>

lemma documented_error_differs:
  "map fst (object_members (member ''properties'' (member ''Error'' openapi_schemas))) = [''code'', ''message'', ''statusCode'', ''requestId'']
   \<and> map fst (object_members (auth_error_body e c n)) = [''error'', ''code'', ''statusCode'']"
  by (simp add: openapi_schemas_def member_def get_prop_def auth_error_body_def)

definition price_schema :: js where
  "price_schema = member ''price'' (member ''properties'' (member ''schema'' (member ''application/json''
     (member ''content'' (member ''requestBody'' (member ''post'' openapi_orders))))))"

lemma documented_price_too_wide:
  "member ''minimum'' price_schema = Num 0 \<and> validate_price (Num 0) \<noteq> None
   \<and> member ''maximum'' price_schema = Num 1 \<and> validate_price (Num 1) \<noteq> None"
  by (simp add: price_schema_def openapi_orders_def member_def get_prop_def validate_price_def)

end
