(* ===== verification/ApiRoutes.thy ===== *)
theory ApiRoutes
  imports ApiServer OpenApi
begin

text \<open>
  The routes of the API server as \<open>buildServer\<close> of \<open>src/index.ts\<close> registers them: those of the plugins
  under \<open>/v1\<close> with the hooks in front of each, the deprecated aliases, the documentation page and the test
  routes; and their agreement with the registry, the document and the aliases.
\<close>

subsection \<open>The plugins\<close>

text \<open>The hooks a route can have besides the global one.\<close>

datatype route_hook = Limited limiter | RequireKey | RequireAdmin | VerifySignature

record api_route =
  ar_verb :: http_verb
  ar_url :: string
  ar_on_request :: "route_hook list"
  ar_pre_handler :: "route_hook list"

abbreviation route :: "http_verb \<Rightarrow> string \<Rightarrow> route_hook list \<Rightarrow> route_hook list \<Rightarrow> api_route" where
  "route m url early late \<equiv> \<lparr>ar_verb = m, ar_url = url, ar_on_request = early, ar_pre_handler = late\<rparr>"

definition markets_plugin :: "api_route list" where
  "markets_plugin = [
     route GET ''/markets'' [Limited HeavyRead] [],
     route GET ''/markets/:id'' [] [],
     route GET ''/markets/:id/orderbook'' [Limited HeavyRead] []]"

definition orders_plugin :: "api_route list" where
  "orders_plugin = [
     route GET ''/trades/user/:address'' [Limited HeavyRead] [],
     route GET ''/orders/user/:address'' [Limited HeavyRead] [],
     route POST ''/orders'' [Limited Write] [VerifySignature]]"

definition positions_plugin :: "api_route list" where
  "positions_plugin = [
     route GET ''/wallets/:wallet/positions'' [Limited HeavyRead] [],
     route GET ''/wallets/:wallet/positions/:marketId'' [Limited HeavyRead] []]"

text \<open>A hook added to a plugin runs before the hooks of its routes.\<close>

definition add_hooks :: "route_hook list \<Rightarrow> api_route list \<Rightarrow> api_route list" where
  "add_hooks hooks routes = map (\<lambda>r. r\<lparr>ar_on_request := hooks @ ar_on_request r\<rparr>) routes"

definition admin_plugin :: "api_route list" where
  "admin_plugin = add_hooks [Limited Admin, RequireKey, RequireAdmin]
     [route GET ''/admin/markets'' [] [], route PATCH ''/admin/markets/:id/status'' [] []]"

definition health_plugin :: "api_route list" where "health_plugin = [route GET ''/health'' [] []]"
definition ready_plugin :: "api_route list" where "ready_plugin = [route GET ''/ready'' [] []]"

definition v1_plugins :: "api_route list" where
  "v1_plugins = markets_plugin @ orders_plugin @ positions_plugin @ admin_plugin @ health_plugin @ ready_plugin
     @ [route GET ''/openapi.json'' [] []]"

subsection \<open>The server\<close>

text \<open>Registration in a scope with a prefix. Each route is announced to the guard first: what Fastify announces
  as the URL, from the prefix and the path of the plugin, is an argument. A guard that throws ends the start.\<close>

fun register_scope :: "(string \<Rightarrow> string \<Rightarrow> string) \<Rightarrow> string \<Rightarrow> api_route list \<Rightarrow> string + api_route list" where
  "register_scope announced scope [] = Inr []"
| "register_scope announced scope (r # rs) = (case on_route (announced scope (ar_url r)) of
     Inl e \<Rightarrow> Inl e
   | Inr _ \<Rightarrow> (case register_scope announced scope rs of
       Inl e \<Rightarrow> Inl e
     | Inr registered \<Rightarrow> Inr (r\<lparr>ar_url := scope @ ar_url r\<rparr> # registered)))"

definition deprecated_aliases :: "api_route list" where
  "deprecated_aliases = map (\<lambda>a. route (al_method a) (al_url a) [] []) legacy_routes"

text \<open>The test routes and what their handlers throw.\<close>

definition test_routes :: "(string \<times> api_error) list" where
  "test_routes = [
     (''/test/validation-error'', ValidationError ''Invalid input data''
        (Some [(''email'', ''Invalid email format''), (''password'', ''Password must be at least 8 characters'')])),
     (''/test/not-found'', NotFoundError ''Market not found''),
     (''/test/server-error'', Thrown ''Something went wrong internally'')]"

definition server_routes :: "(string \<Rightarrow> string \<Rightarrow> string) \<Rightarrow> bool option \<Rightarrow> string option \<Rightarrow> string + api_route list" where
  "server_routes announced register node_env = (case register_scope announced ''/v1'' v1_plugins of
     Inl e \<Rightarrow> Inl e
   | Inr v1 \<Rightarrow> Inr (v1 @ deprecated_aliases @ [route GET ''/docs'' [] []]
       @ (if enable_test_routes register node_env then map (\<lambda>(url, e). route GET url [] []) test_routes else [])))"

text \<open>The documentation page, line by line. It loads the document from the route that serves it.\<close>

definition docs_page :: "string list" where
  "docs_page = [
     ''<!DOCTYPE html>'',
     ''<html lang=\"en\">'',
     ''  <head>'',
     ''    <meta charset=\"utf-8\" />'',
     ''    <meta name=\"viewport\" content=\"width=device-width, initial-scale=1\" />'',
     ''    <title>Vatix API Docs</title>'',
     ''    <link rel=\"stylesheet\" href=\"https://unpkg.com/swagger-ui-dist@5/swagger-ui.css\" />'',
     ''  </head>'',
     ''  <body>'',
     ''    <div id=\"swagger-ui\"></div>'',
     ''    <script src=\"https://unpkg.com/swagger-ui-dist@5/swagger-ui-bundle.js\"></script>'',
     ''    <script>'',
     ''      SwaggerUIBundle({'',
     ''        url: \"/v1/openapi.json\",'',
     ''        dom_id: \"#swagger-ui\",'',
     ''        presets: [SwaggerUIBundle.presets.apis, SwaggerUIBundle.SwaggerUIStandalonePreset],'',
     ''        layout: \"BaseLayout\",'',
     ''        deepLinking: true,'',
     ''      });'',
     ''    </script>'',
     ''  </body>'',
     ''</html>'']"

definition docs_reply :: "string \<times> string" where
  "docs_reply = (''text/html'', join_with [CHR 0x0A] docs_page)"

definition route_key :: "api_route \<Rightarrow> string \<times> string" where
  "route_key r = (verb_text (ar_verb r), ar_url r)"

text \<open>What runs before the handler of a route, on a request: the global hook, then the hooks of the route.
  The signature is checked later, on the body, and is an argument.\<close>

definition run_route_hook :: "(api_request \<Rightarrow> http_reply + unit) \<Rightarrow> environment \<Rightarrow> int \<Rightarrow> api_request \<Rightarrow> route_hook
    \<Rightarrow> (limit_stores, http_reply, unit) ecall" where
  "run_route_hook verify env now r hook = (case hook of
     Limited l \<Rightarrow> limit_hook l env now r
   | RequireKey \<Rightarrow> Pair (require_api_key (env ''API_KEY'') (aq_api_key r))
   | RequireAdmin \<Rightarrow> Pair (require_admin (env ''ADMIN_TOKEN'') (aq_authorization r))
   | VerifySignature \<Rightarrow> Pair (verify r))"

definition run_hooks :: "(api_request \<Rightarrow> http_reply + unit) \<Rightarrow> environment \<Rightarrow> int \<Rightarrow> api_request \<Rightarrow> api_route
    \<Rightarrow> (limit_stores, http_reply, unit) ecall" where
  "run_hooks verify env now r rt = call_bind (global_hook env now r)
     (\<lambda>_. call_fold (\<lambda>hook _. run_route_hook verify env now r hook) (ar_on_request rt @ ar_pre_handler rt) ())"

subsection \<open>The routes that are served\<close>

lemmas plugin_defs = v1_plugins_def markets_plugin_def orders_plugin_def positions_plugin_def admin_plugin_def
  add_hooks_def health_plugin_def ready_plugin_def

lemma on_route_accepts: "\<not> starts_with ''/v1'' url \<Longrightarrow> on_route url = Inr ()"
  by (simp add: on_route_def)

lemma register_scope_ok:
  assumes "\<And>r. r \<in> set rs \<Longrightarrow> \<not> starts_with ''/v1'' (announced scope (ar_url r))"
  shows "register_scope announced scope rs = Inr (map (\<lambda>r. r\<lparr>ar_url := scope @ ar_url r\<rparr>) rs)"
  using assms by (induction rs) (simp_all add: on_route_accepts)

lemma plugins_without_prefix: "\<forall>r \<in> set v1_plugins. \<not> starts_with ''/v1'' (ar_url r)"
  by (simp add: plugin_defs)

text \<open>If the guard is told the path of the plugin, it accepts every plugin, and the routes under \<open>/v1\<close> are
  exactly those of the registry.\<close>

lemma v1_registered:
  "register_scope (\<lambda>scope path. path) ''/v1'' v1_plugins = Inr (map (\<lambda>r. r\<lparr>ar_url := ''/v1'' @ ar_url r\<rparr>) v1_plugins)"
  by (rule register_scope_ok) (use plugins_without_prefix in blast)

lemma registry_exact:
  "set (map (\<lambda>r. (verb_text (ar_verb r), ''/v1'' @ ar_url r)) v1_plugins)
     = set (map (\<lambda>r. (verb_text (cr_method r), cr_path r)) CANONICAL_V1_ROUTES)"
  by (simp add: plugin_defs CANONICAL_V1_ROUTES_def verb_text_def insert_commute)

text \<open>If it is told the full URL, it rejects the first plugin and no server is built.\<close>

lemma prefix_announced_rejected:
  "\<exists>e. server_routes (@) register node_env = Inl e"
  by (simp add: server_routes_def plugin_defs on_route_def)

text \<open>No two routes collide, and every alias leads to a route that is served under its method.\<close>

lemma routes_distinct:
  assumes "server_routes (\<lambda>scope path. path) register node_env = Inr routes"
  shows "distinct (map route_key routes)"
proof -
  let ?test = "map (\<lambda>(url, e). route GET url [] []) test_routes"
  let ?base = "map (\<lambda>r. r\<lparr>ar_url := ''/v1'' @ ar_url r\<rparr>) v1_plugins @ deprecated_aliases @ [route GET ''/docs'' [] []]"
  have shape: "routes = ?base @ ?test \<or> routes = ?base"
    using assms by (auto simp: server_routes_def v1_registered)
  have keys: "map route_key (?base @ ?test) = map route_key ?base @ map route_key ?test" by simp
  have all: "distinct (map route_key (?base @ ?test))"
    unfolding keys
    by (simp add: plugin_defs deprecated_aliases_def legacy_routes_def test_routes_def route_key_def verb_text_def)
  then have base: "distinct (map route_key ?base)" unfolding keys distinct_append by (rule conjunct1)
  from shape show ?thesis
  proof
    assume "routes = ?base @ ?test"
    then show ?thesis using all by (simp only:)
  next
    assume "routes = ?base"
    then show ?thesis using base by (simp only:)
  qed
qed

lemma aliases_served:
  "\<forall>a \<in> set legacy_routes. \<exists>r \<in> set v1_plugins. ar_verb r = al_method a \<and> ''/v1'' @ ar_url r = al_canonical a"
  by (simp add: legacy_routes_def plugin_defs)

text \<open>The document describes every route under \<open>/v1\<close> but its own, and nothing else.\<close>

lemma served_is_documented:
  "set (map (\<lambda>(m, p, op). (m, route_path p)) documented_operations) \<union> {(''GET'', ''/v1/openapi.json'')}
     = set (map (\<lambda>r. (verb_text (ar_verb r), ''/v1'' @ ar_url r)) v1_plugins)"
  unfolding documented_routes_exact registry_exact by (simp add: CANONICAL_V1_ROUTES_def verb_text_def insert_commute)

lemma docs_load_document:
  "''        url: '' @ json_quote ''/v1/openapi.json'' @ '','' \<in> set docs_page"
  "route GET ''/openapi.json'' [] [] \<in> set v1_plugins"
  by (code_simp, simp add: plugin_defs)

subsection \<open>What guards them\<close>

text \<open>The routes that change something have a limit of their own, and one more check: the signature or both credentials.\<close>

lemma writes_guarded:
  "\<forall>r \<in> set v1_plugins. ar_verb r \<noteq> GET \<longrightarrow>
     ar_on_request r = [Limited Write] \<and> ar_pre_handler r = [VerifySignature]
     \<or> ar_on_request r = [Limited Admin, RequireKey, RequireAdmin]"
  by (simp add: plugin_defs)

text \<open>The hooks in front of an administration route are those of \<open>handle_admin\<close>.\<close>

lemma admin_routes_hooked:
  assumes "rt \<in> set admin_plugin"
  shows "run_hooks verify env now r rt = call_bind (global_hook env now r) (\<lambda>_. admin_hooks env now r)"
proof -
  have "ar_on_request rt @ ar_pre_handler rt = [Limited Admin, RequireKey, RequireAdmin]"
    using assms by (auto simp: admin_plugin_def add_hooks_def)
  moreover have "call_bind c (\<lambda>x. call_return ()) = c" for c :: "(limit_stores, http_reply, unit) ecall"
    by (rule ext) (auto simp: call_bind_def call_return_def split: prod.split sum.split)
  moreover have "call_fold f (x # xs) = (\<lambda>_. call_bind (f x ()) (call_fold f xs))"
    for f :: "route_hook \<Rightarrow> unit \<Rightarrow> (limit_stores, http_reply, unit) ecall" and x xs by (rule ext) simp
  moreover have "call_fold f [] = (\<lambda>_. call_return ())"
    for f :: "route_hook \<Rightarrow> unit \<Rightarrow> (limit_stores, http_reply, unit) ecall" by (rule ext) simp
  ultimately show ?thesis by (simp add: run_hooks_def run_route_hook_def admin_hooks_def del: call_fold.simps)
qed

text \<open>A request reaches the handler of an order only with a valid signature.\<close>

lemma order_needs_signature:
  assumes "rt \<in> set orders_plugin" "ar_verb rt = POST" "fst (run_hooks verify env now r rt stores) = Inr ()"
  shows "verify r = Inr ()"
proof -
  have "ar_on_request rt @ ar_pre_handler rt = [Limited Write, VerifySignature]"
    using assms(1,2) by (auto simp: orders_plugin_def)
  then show ?thesis
    using assms(3)
    by (cases "verify r") (auto simp: run_hooks_def run_route_hook_def call_bind_def call_return_def split: prod.splits sum.splits)
qed

text \<open>In production no test route is served, whatever the options; elsewhere their errors go to the handler,
  which throws on each.\<close>

lemma no_test_route_in_production:
  assumes "server_routes (\<lambda>scope path. path) register (Some ''production'') = Inr routes"
  shows "\<forall>r \<in> set routes. \<not> starts_with ''/test/'' (ar_url r)"
proof -
  have "\<not> enable_test_routes register (Some ''production'')" by (simp add: enable_test_routes_def or_text_def)
  then have "routes = map (\<lambda>r. r\<lparr>ar_url := ''/v1'' @ ar_url r\<rparr>) v1_plugins @ deprecated_aliases @ [route GET ''/docs'' [] []]"
    using assms by (simp add: server_routes_def v1_registered)
  then show ?thesis by (simp add: plugin_defs deprecated_aliases_def legacy_routes_def)
qed

lemma test_routes_fail:
  "\<forall>(url, e) \<in> set test_routes. snd (error_handler module_scope (raised e stack) ''GET'' url request_id) = Inl ''isProduction is not defined''"
  by (simp add: handler_always_throws)

end
