(* ===== verification/OrderCreation.thy ===== *)
theory OrderCreation
  imports StoreTables OrderRoutes
begin

text \<open>
  \<open>POST /orders\<close> of \<open>src/api/routes/orders.ts\<close>: the schema of the body, the validation against the market, and
  the row that is written. As in \<open>OrderRoutes\<close> the stray parenthesis of line 398 is read as absent. The reply
  names \<open>trades\<close> and \<open>filledQuantity\<close>, which nothing defines: what the scope holds for them is an argument.
\<close>

subsection \<open>The body\<close>

text \<open>Issues of the body as path and message. Zod runs every check of a value of the right type; its own
  messages, for a value of the wrong type or outside an enumeration, are the argument \<open>own\<close>.\<close>

type_synonym body_issues = "(string \<times> string) list"

definition text_issues :: "(string \<Rightarrow> js \<Rightarrow> string) \<Rightarrow> string \<Rightarrow> (string \<Rightarrow> bool) \<Rightarrow> string \<Rightarrow> js \<Rightarrow> body_issues" where
  "text_issues own path ok message v = (case v of Str s \<Rightarrow> if ok s then [] else [(path, message)] | _ \<Rightarrow> [(path, own path v)])"

definition enum_issues :: "(string \<Rightarrow> js \<Rightarrow> string) \<Rightarrow> string \<Rightarrow> string list \<Rightarrow> js \<Rightarrow> body_issues" where
  "enum_issues own path names v = (if v \<in> Str ` set names then [] else [(path, own path v)])"

definition number_issues :: "(string \<Rightarrow> js \<Rightarrow> string) \<Rightarrow> string \<Rightarrow> ((number \<Rightarrow> bool) \<times> string) list \<Rightarrow> js \<Rightarrow> body_issues" where
  "number_issues own path checks v = (case v of
     Num x \<Rightarrow> map (\<lambda>(ok, message). (path, message)) (filter (\<lambda>(ok, message). \<not> ok x) checks)
   | _ \<Rightarrow> [(path, own path v)])"

definition price_checks :: "((number \<Rightarrow> bool) \<times> string) list" where
  "price_checks = [(\<lambda>x. 0 < x, ''price must be greater than 0''), (\<lambda>x. x < 1, ''price must be less than 1'')]"

definition quantity_checks :: "((number \<Rightarrow> bool) \<times> string) list" where
  "quantity_checks = [(is_integer, ''quantity must be an integer''), (\<lambda>x. 1 \<le> x, ''quantity must be at least 1'')]"

definition body_issues_of :: "(string \<Rightarrow> js \<Rightarrow> string) \<Rightarrow> js \<Rightarrow> body_issues" where
  "body_issues_of own body = (case body of
     Obj ps \<Rightarrow>
       text_issues own ''marketId'' (\<lambda>s. 1 \<le> length s) ''marketId is required'' (get_prop ''marketId'' ps)
       @ text_issues own ''userAddress'' stellar_public_key ''userAddress must be a valid Stellar public key'' (get_prop ''userAddress'' ps)
       @ enum_issues own ''side'' [''BUY'', ''SELL''] (get_prop ''side'' ps)
       @ enum_issues own ''outcome'' [''YES'', ''NO''] (get_prop ''outcome'' ps)
       @ number_issues own ''price'' price_checks (get_prop ''price'' ps)
       @ number_issues own ''quantity'' quantity_checks (get_prop ''quantity'' ps)
   | _ \<Rightarrow> [(''body'', own ''body'' body)])"

text \<open>The fields of the error: the last message of each path.\<close>

definition issue_fields :: "body_issues \<Rightarrow> field_errors" where
  "issue_fields issues = fold (\<lambda>(path, message). AList.update path message) issues []"

definition body_text :: "js \<Rightarrow> string" where "body_text v = (case v of Str s \<Rightarrow> s | _ \<Rightarrow> [])"
definition body_number :: "js \<Rightarrow> number" where "body_number v = (case v of Num x \<Rightarrow> x | _ \<Rightarrow> 0)"

definition parsed_order :: "js \<Rightarrow> place_input" where
  "parsed_order body = (let v = (\<lambda>k. case body of Obj ps \<Rightarrow> get_prop k ps | _ \<Rightarrow> Undefined)
     in \<lparr>pi_market = body_text (v ''marketId''), pi_user = body_text (v ''userAddress''),
         pi_side = (if v ''side'' = Str ''BUY'' then BUY else SELL), pi_outcome = (if v ''outcome'' = Str ''YES'' then YES else NO),
         pi_price = body_number (v ''price''), pi_quantity = \<lfloor>body_number (v ''quantity'')\<rfloor>\<rparr>)"

definition safe_parse :: "(string \<Rightarrow> js \<Rightarrow> string) \<Rightarrow> js \<Rightarrow> body_issues + place_input" where
  "safe_parse own body = (case body_issues_of own body of [] \<Rightarrow> Inr (parsed_order body) | issues \<Rightarrow> Inl issues)"

subsection \<open>The handler\<close>

definition order_input_of :: "place_input \<Rightarrow> order_input" where
  "order_input_of i = \<lparr>oi_market = pi_market i, oi_user = Str (pi_user i), oi_side = Str (case pi_side i of BUY \<Rightarrow> ''BUY'' | SELL \<Rightarrow> ''SELL''),
     oi_outcome = Str (case pi_outcome i of YES \<Rightarrow> ''YES'' | NO \<Rightarrow> ''NO''), oi_price = Num (pi_price i), oi_quantity = Num (of_int (pi_quantity i))\<rparr>"

text \<open>The row that is created; the database chooses its identifier and its time.\<close>

definition created_row :: "string \<Rightarrow> int \<Rightarrow> place_input \<Rightarrow> db_order" where
  "created_row uuid now i = \<lparr>do_id = uuid, do_market = pi_market i, do_user = pi_user i, do_side = pi_side i, do_outcome = pi_outcome i,
     do_price = pi_price i, do_quantity = pi_quantity i, do_filled = 0, do_status = OPEN, do_created = now\<rparr>"

record created_reply =
  cp_status :: int
  cp_order :: db_order
  cp_trades :: js
  cp_filled :: js

record reply_scope =
  rs_trades :: "js option"
  rs_filled :: "js option"

definition route_scope :: reply_scope where "route_scope = \<lparr>rs_trades = None, rs_filled = None\<rparr>"

definition post_order ::
    "(string \<Rightarrow> js \<Rightarrow> string) \<Rightarrow> (string \<Rightarrow> market_state option) \<Rightarrow> 'db order_store \<Rightarrow> reply_scope \<Rightarrow> string \<Rightarrow> int \<Rightarrow> js
      \<Rightarrow> 'db \<Rightarrow> (api_error + created_reply) \<times> 'db" where
  "post_order own find_market store scope uuid now body db = (case safe_parse own body of
     Inl issues \<Rightarrow> (Inl (ValidationError (snd (hd issues)) (Some (issue_fields issues))), db)
   | Inr i \<Rightarrow> (case assert_valid_order find_market now (order_input_of i) of
       Inl (message, errors) \<Rightarrow> (Inl (ValidationError message (Some errors)), db)
     | Inr _ \<Rightarrow> (case st_create store (created_row uuid now i) db of
         Inl e \<Rightarrow> (Inl (Thrown e), db)
       | Inr db' \<Rightarrow> (case (rs_trades scope, rs_filled scope) of
           (None, _) \<Rightarrow> (Inl (Thrown ''trades is not defined''), db')
         | (_, None) \<Rightarrow> (Inl (Thrown ''filledQuantity is not defined''), db')
         | (Some ts, Some filled) \<Rightarrow>
             (Inr \<lparr>cp_status = 201, cp_order = created_row uuid now i, cp_trades = ts, cp_filled = filled\<rparr>, db')))))"

subsection \<open>What is accepted\<close>

lemmas body_issue_defs = text_issues_def enum_issues_def number_issues_def price_checks_def quantity_checks_def

lemma text_issues_none: "text_issues own path ok message v = [] \<longleftrightarrow> (\<exists>s. v = Str s \<and> ok s)"
  by (cases v) (auto simp: text_issues_def)

lemma enum_issues_none: "enum_issues own path names v = [] \<longleftrightarrow> (\<exists>s \<in> set names. v = Str s)"
  by (auto simp: enum_issues_def)

lemma number_issues_none: "number_issues own path checks v = [] \<longleftrightarrow> (\<exists>x. v = Num x \<and> (\<forall>(ok, message) \<in> set checks. ok x))"
  by (cases v) (auto simp: number_issues_def filter_empty_conv)

lemma issues_none:
  "body_issues_of own body = [] \<longleftrightarrow> (\<exists>ps. body = Obj ps \<and>
     (\<exists>s. get_prop ''marketId'' ps = Str s \<and> s \<noteq> []) \<and> (\<exists>s. get_prop ''userAddress'' ps = Str s \<and> stellar_public_key s) \<and>
     get_prop ''side'' ps \<in> {Str ''BUY'', Str ''SELL''} \<and> get_prop ''outcome'' ps \<in> {Str ''YES'', Str ''NO''} \<and>
     (\<exists>x. get_prop ''price'' ps = Num x \<and> 0 < x \<and> x < 1) \<and> (\<exists>n. get_prop ''quantity'' ps = Num (of_int n) \<and> 1 \<le> n))"
proof -
  have whole: "(\<exists>x. v = Num x \<and> is_integer x \<and> 1 \<le> x) \<longleftrightarrow> (\<exists>n. v = Num (of_int n) \<and> 1 \<le> n)" for v
  proof
    assume "\<exists>x. v = Num x \<and> is_integer x \<and> 1 \<le> x"
    then obtain x where x: "v = Num x" "of_int \<lfloor>x\<rfloor> = x" "1 \<le> x" by (auto simp: is_integer_def)
    then show "\<exists>n. v = Num (of_int n) \<and> 1 \<le> n" by (intro exI [of _ "\<lfloor>x\<rfloor>"]) auto
  qed auto
  have len: "Suc 0 \<le> length s \<longleftrightarrow> s \<noteq> []" for s :: string by (cases s) auto
  show ?thesis
    by (cases body) (simp_all add: body_issues_of_def text_issues_none enum_issues_none number_issues_none price_checks_def
        quantity_checks_def whole len)
qed

text \<open>A body that passes the schema is rejected only for its tick or its market.\<close>

lemma parsed_fields_valid:
  assumes "safe_parse own body = Inr i"
  shows "validate_user_address (Str (pi_user i)) = None" "0 < pi_price i" "pi_price i < 1" "1 \<le> pi_quantity i" "pi_market i \<noteq> []"
proof -
  have none: "body_issues_of own body = []" and i: "i = parsed_order body"
    using assms by (auto simp: safe_parse_def split: list.splits)
  then obtain ps where "body = Obj ps" "\<exists>s. get_prop ''marketId'' ps = Str s \<and> s \<noteq> []"
    "\<exists>s. get_prop ''userAddress'' ps = Str s \<and> stellar_public_key s" "\<exists>x. get_prop ''price'' ps = Num x \<and> 0 < x \<and> x < 1"
    "\<exists>n. get_prop ''quantity'' ps = Num (of_int n) \<and> 1 \<le> n"
    unfolding issues_none by blast
  then show "validate_user_address (Str (pi_user i)) = None" "0 < pi_price i" "pi_price i < 1" "1 \<le> pi_quantity i" "pi_market i \<noteq> []"
    by (auto simp: i parsed_order_def body_text_def body_number_def user_address_ok)
qed

lemma accepted_exact:
  assumes "safe_parse own body = Inr i"
  shows "assert_valid_order find_market now (order_input_of i) = Inr () \<longleftrightarrow> validate_tick_size (pi_price i) = None \<and>
    (\<exists>m. find_market (pi_market i) = Some m \<and> mk_status m = ''ACTIVE'' \<and> now < mk_end m)"
proof -
  note fields = parsed_fields_valid [OF assms]
  have order: "vr_valid (validate_order_fields (order_input_of i)) \<longleftrightarrow> validate_tick_size (pi_price i) = None"
    using fields
    by (auto simp: validate_order_fields_def order_input_of_def Let_def validate_order_side_def validate_outcome_def nullish_def
        validate_price_def validate_quantity_def split: order_side.split outcome.split)
  have market: "vr_valid (validate_market_state find_market now k) \<longleftrightarrow>
      (\<exists>m. find_market k = Some m \<and> mk_status m = ''ACTIVE'' \<and> now < mk_end m)" for k
    by (auto simp: validate_market_state_def Let_def split: option.splits)
  show ?thesis using order market by (auto simp: assert_valid_order_def validate_order_def Let_def order_input_of_def)
qed

subsection \<open>What is written\<close>

text \<open>The database changes only by the creation of one open order, from a body that passed both validations.\<close>

lemma post_order_writes:
  assumes "post_order own find_market store scope uuid now body db = (answer, db')" "db' \<noteq> db"
  obtains i where "safe_parse own body = Inr i" "assert_valid_order find_market now (order_input_of i) = Inr ()"
    "st_create store (created_row uuid now i) db = Inr db'"
  using assms by (auto simp: post_order_def split: sum.splits option.splits prod.splits)

text \<open>A body that fails the schema is answered with 400, the first message, and a message for every field that has an issue.\<close>

lemma issue_fields_dom: "fst ` set (issue_fields issues) = fst ` set issues"
proof -
  have "fst ` set (fold (\<lambda>(path, message). AList.update path message) issues acc) = fst ` set acc \<union> fst ` set issues" for acc
    by (induction issues arbitrary: acc) (simp_all add: dom_update case_prod_beta)
  then show ?thesis by (simp add: issue_fields_def)
qed

lemma post_order_rejects:
  assumes "safe_parse own body = Inl issues"
  shows "\<exists>e. post_order own find_market store scope uuid now body db = (Inl (ValidationError (snd (hd issues)) (Some e)), db)
    \<and> status_code (ValidationError (snd (hd issues)) (Some e)) = 400 \<and> fst ` set e = fst ` set issues \<and> issues \<noteq> []"
  using assms issue_fields_dom [of issues] by (auto simp: post_order_def safe_parse_def split: list.splits)

text \<open>An accepted order is written, and then the handler throws: nothing defines what it replies.\<close>

lemma accepted_order_unanswered:
  assumes "safe_parse own body = Inr i" "assert_valid_order find_market now (order_input_of i) = Inr ()"
    and "st_create store (created_row uuid now i) db = Inr db'"
  shows "post_order own find_market store route_scope uuid now body db = (Inl (Thrown ''trades is not defined''), db')"
  using assms by (simp add: post_order_def route_scope_def)

text \<open>On the tables: the order is stored as it was sent, at its price in eight decimals, unfilled. No order is
  matched, whatever rests on the other side, so trades, positions and the other orders stay as they are.\<close>

lemma post_order_never_matches:
  assumes "post_order own find_market table_store scope uuid now body db = (answer, db')" "db' \<noteq> db"
  shows "tb_trades db' = tb_trades db \<and> tb_positions db' = tb_positions db
    \<and> (\<forall>k. k \<noteq> uuid \<longrightarrow> table_orders db' k = table_orders db k)
    \<and> (\<exists>i. safe_parse own body = Inr i \<and> table_orders db uuid = None \<and>
        table_orders db' uuid = Some ((created_row uuid now i)\<lparr>do_price := decimal8 (pi_price i)\<rparr>))"
proof -
  from assms obtain i where i: "safe_parse own body = Inr i" "st_create table_store (created_row uuid now i) db = Inr db'"
    by (rule post_order_writes)
  then have "t_create (created_row uuid now i) db = Inr db'" by (simp add: table_store_def)
  then show ?thesis
    using i(1) by (auto simp: t_create_def created_row_def table_orders_def update_conv split: if_splits)
qed

subsection \<open>Exactly these orders\<close>

definition admitted :: "(string \<Rightarrow> js \<Rightarrow> string) \<Rightarrow> (string \<Rightarrow> market_state option) \<Rightarrow> tables \<Rightarrow> int \<Rightarrow> js \<Rightarrow> bool" where
  "admitted own find_market db now body \<longleftrightarrow> (\<exists>i. safe_parse own body = Inr i \<and> validate_tick_size (pi_price i) = None
     \<and> (\<exists>m. find_market (pi_market i) = Some m \<and> mk_status m = ''ACTIVE'' \<and> now < mk_end m) \<and> pi_market i \<in> set (tb_markets db))"

lemma created_changes:
  assumes "t_create d db = Inr db'"
  shows "db' \<noteq> db"
proof
  assume "db' = db"
  moreover have "map_of (tb_orders db) (do_id d) = None" "map_of (tb_orders db') (do_id d) \<noteq> None"
    using assms by (auto simp: t_create_def update_conv split: if_splits)
  ultimately show False by simp
qed


definition example_body :: js where
  "example_body = Obj [(''marketId'', Str ''m''), (''userAddress'', Str (CHR ''G'' # replicate 55 (CHR ''A''))), (''side'', Str ''BUY''),
     (''outcome'', Str ''YES''), (''price'', Num (fl (7 / 100))), (''quantity'', Num 3)]"

definition example_tables :: tables where
  "example_tables = \<lparr>tb_markets = [''m''], tb_orders = [], tb_trades = [], tb_positions = []\<rparr>"


end
