(* ===== verification/Spec2Isabelle.thy ===== *)
theory Spec2Isabelle
  imports StoreTables Validation Ingestion OracleService SubmissionWorker Finalization Config
    RateLimiter Auth OrderRoutes MarketRoutes Backfill ApiServer HealthRoutes LegacyRoutes
    EventProcessing Logging SafeJson IndexerHttp Database
    Processes Migrations Seed ApiRoutes ApiEnv OrderCreation
begin

text \<open>
  A model of the Vatix backend, a prediction market on Stellar, and the theorems that say what its
  parts guarantee. File names are relative to \<open>src/\<close>.

  The program. The API server takes limit orders, validates them, matches them per market and outcome
  in an in-memory order book under a mutex, and persists order, trades and positions in one database
  transaction. The indexer polls Soroban contract events ledger window by ledger window, parses them
  and writes them to the database exactly once. The oracle polls providers for the outcome of active
  markets, signs it and queues it for a worker that resolves the market on-chain. The settlement
  worker settles matched trades on-chain, and the finalization job turns unchallenged resolution
  candidates into resolutions. Redis carries queues, locks and caches between them.

  Shared theories.
  \<^item> \<open>Prelude\<close>: association lists, results (\<open>res_bind\<close>), ordered lists.
  \<^item> \<open>JsNumber\<close>, \<open>JsString\<close>, \<open>JsValue\<close>, \<open>JsNumeral\<close>: the part of the language the code uses. Numbers
    are rationals and every rounding operation is \<open>fl\<close>, round to nearest even at 53 bits (no exponent
    bounds); strings, their conversions, tagged values; reading back printed numbers.
  \<^item> \<open>Calls\<close>: asynchronous calls that may reject, as functions on a world; \<open>BoundedRetry\<close>: the retry loop
    shared by the indexer and the oracle, terminating by the attempts left.

  Trading (\<open>src/matching\<close>).
  \<^item> \<open>Orderbook\<close> models \<open>orderbook.ts\<close> (levels, sorted prices, the id map, orders per user), operation by
    operation; \<open>BookInvariant\<close> proves the invariant that ties them together; \<open>Engine\<close> models \<open>engine.ts\<close>
    (commands with rollback, the matching loop as a partial function) over an interface of book
    operations; \<open>Matching\<close> states that interface as a locale, interprets it on the book and proves
    that the loop returns and computes the specification \<open>fill\<close>; \<open>MatchProps\<close> holds the properties.
  \<^item> \<open>Mutex\<close> models \<open>mutex.ts\<close> as a step relation with an executable step function.
  \<^item> \<open>Validation\<close> models \<open>validation.ts\<close> on untyped input, with the rounding of the tick check.
  \<^item> \<open>MatchingService\<close> models \<open>matching-service.ts\<close> over an abstract store; \<open>ServiceProps\<close> proves
    against the store's laws (a locale) that books and rows agree; \<open>StoreTables\<close> interprets the laws on
    tables with the schema's precision and states the properties.

  Indexer (\<open>apps/indexer/src\<close>).
  \<^item> \<open>IndexerEvents\<close>: the parsers and idempotency keys; \<open>IndexerStore\<close>: \<open>batchWriter.ts\<close> as one transaction,
    over an interface with laws, interpreted on tables; \<open>Retry\<close>, \<open>EventFetcher\<close>: retries and paging
    against an RPC server (a locale); \<open>Ingestion\<close>: cursor, ticks, checkpoints and heartbeat as events,
    and the assembled indexer.

  Oracle and workers (\<open>apps/oracle\<close>, \<open>apps/workers/src\<close>).
  \<^item> \<open>OracleProviders\<close>, \<open>SubmissionQueue\<close>, \<open>OracleService\<close>: retries, timeouts, both adapters, failover, metrics.
  \<^item> \<open>ResolutionReport\<close>: JSON texts and \<open>signature-helper.ts\<close>; the texts determine the report.
  \<^item> \<open>RedisService\<close>: \<open>src/services/redis.ts\<close> over a raw client, the life of that client, an in-memory server, and the interface of the
    queues; \<open>RedisQueue\<close>: \<open>redis-submission-queue.ts\<close>, with the laws of the commands as a locale that is
    extended by the two readings of \<open>set\<close> and interpreted on the server behind the service and
    behind a client that forwards all arguments.
  \<^item> \<open>ContractCalls\<close>: invoking the contract and waiting for its confirmation, at most 30 queries;
    \<open>SubmissionWorker\<close>: \<open>poll\<close>, the stream worker and the BullMQ worker; \<open>Settlement\<close>: producer, job
    processing, dead letters and the settlement worker, which settles once by a locale of laws
    interpreted on Redis beside a chain.
  \<^item> \<open>Finalization\<close>: \<open>finalization/job.ts\<close> on tables with the schema's constraints, and the challenge window.
  \<^item> \<open>Config\<close>: the environment loaders.

  HTTP API and surroundings (\<open>src/api\<close>, \<open>src/services\<close>, \<open>src/index.ts\<close>).
  \<^item> \<open>ApiErrors\<close>: error classes, replies and the error handler; \<open>RateLimiter\<close>: fixed windows per tier and client;
    \<open>Auth\<close>: signed orders, the admin token, API keys and order receipts.
  \<^item> \<open>Positions\<close>: a wallet's positions and profit, texts with eight decimals computed in integer stroops
    (the locale of exact texts, interpreted on \<open>stroops\<close>); \<open>OrderRoutes\<close>: order pages by a cursor and the
    trade history; \<open>OrderCreation\<close>: \<open>POST /orders\<close> from its body to the row on the tables; \<open>MarketRoutes\<close>:
    markets and the published book, which is the engine's book.
  \<^item> \<open>AuditLog\<close>: \<open>audit.ts\<close> on streams of the Redis server; \<open>Backfill\<close>: the script that copies the log into the
    trades table, with one unit of fuel per batch, proved enough.
  \<^item> \<open>ApiServer\<close>: hooks, guards, administration routes and shutdown over sequences of requests;
    \<open>ApiRoutes\<close>: every route the server registers with the hooks in front of it, against the registry, the
    document and the aliases; \<open>HealthRoutes\<close>: the probes; \<open>LegacyRoutes\<close>: deprecated aliases, the registry
    and the templates of \<open>String.replace\<close>; \<open>EventProcessing\<close>: the event processor and provider retries.
  \<^item> \<open>Logging\<close>: redaction, the loggers, request ids, CORS; \<open>SafeJson\<close>: \<open>sanitizeForJson\<close> on a store of shared
    objects, with fuel, and the fuel that is enough on a store without array cycles.
  \<^item> \<open>IndexerHttp\<close>: the indexer's routes, the other order routes and the older market parser;
    \<open>Database\<close>: the Prisma singletons with their interleavings, the database helpers, the queues' Redis URL.

  Processes, settings and scripts.
  \<^item> \<open>Processes\<close>: the seven entry points as one step function on events (signals, awaits that return or
    reject, the timer, polls) beside the signal handlers of \<open>prisma.ts\<close>; what an exit code says.
  \<^item> \<open>ApiEnv\<close>: \<open>src/env.ts\<close> and \<open>src/config.ts\<close> over Zod as a record of combinators with laws (a locale), interpreted
    on a plain implementation; under the laws the schema is a loader.
  \<^item> \<open>Migrations\<close>: the migration check with its patterns; \<open>Seed\<close>: the sample rows and the seed script over a
    database interface (a locale), interpreted on tables; \<open>OpenApi\<close>: the served document as a value, and its
    agreement with the registry, the guards and the validation.

  Bounds and termination. Loops over data are structural recursions; retry loops terminate by a measure;
  the matching loop and the paging loop may in principle not end, so they are partial functions and
  the properties prove that they return. The confirmation loop has the code's own bound as fuel.

  Arguments of the model. The database (Prisma), Redis (ioredis), HTTP, the Stellar SDK and RPC server, BullMQ,
  SHA-256, XDR decoding, JSON parsing, URL parsing, random numbers and clocks are not under \<open>src/\<close> or not
  deterministic: each is an argument of the definitions that use it, its laws are the assumptions of
  a locale, and the locale is interpreted on a concrete instance. That a signature verifies for the
  signed message only is a hypothesis of the property that needs it.

  Names without a definition. \<open>errorHandler.ts\<close> and \<open>POST /orders\<close> use names that nothing defines, and
  \<open>orders.ts\<close> has a parenthesis too many in line 398. What the scope holds for such a name is an argument,
  the model says what happens when it holds nothing, and the parenthesis is read as absent.

  Not modelled. Fastify itself (routing, schemas, plugins) and log output; the reconnects of ioredis, the
  loop of a BullMQ worker and the pools of \<open>pg\<close>, which are those libraries'; declarations of types without
  code. Expiry of Redis keys is left out of the in-memory server: properties about locks and marks speak
  of the time they live. Strings are sequences of 8-bit characters; \<open>Number(s)\<close> covers decimal notation
  without exponent.

  What was found. The findings of the manifest name the theorem that shows them: among others the
  submission workers verify a payload with a timestamp that was never signed, the submission
  queue's locks are never written because of the argument order of \<open>set\<close>, a rejected trade is
  reported as written by the indexer, a rollback loses time priority, the readiness route never
  answers that the service is ready, an order that is posted is stored but never matched, the signal
  handlers of \<open>prisma.ts\<close> end a process under its own shutdown, a client that chooses its
  \<open>X-Forwarded-For\<close> evades the rate limiter, and the backfill script reads the audit stream under a
  name without the prefix it is written with.
\<close>

end
